(* ===== verification/Fleet_Prelude.thy ===== *)
theory Fleet_Prelude
  imports Complex_Main "HOL-Library.Monad_Syntax"
begin

text \<open>
  The vocabulary the component theories share.

  \<^item> \<open>exn\<close> is the type of everything the Python code raises; a fallible function returns
    \<open>exn + 'a\<close> (\<open>Inl\<close> is a raise). A constructor carries the values the message of the
    exception is rendered from, not the rendered text.
  \<^item> \<open>('c, 'a) eff\<close> is a computation that appends to a trace of external calls of type
    \<open>'c\<close> and then returns or raises: the trace is what reaches a database, a gateway, a mail
    server, in order, whether the computation ends well or not.
  \<^item> \<open>json\<close> is the type of values \<open>json.loads\<close> produces and of every \<open>dict[str, Any]\<close>.
  \<^item> Python strings are \<open>string\<close>, one \<open>char\<close> per code point, so they cover the code
    points below 256 (Latin-1); \<open>len\<close>, slicing, \<open>strip\<close> and \<open>split\<close> are exact on them.
    Floats are \<open>rat\<close>: the properties use comparisons and exact sums, never rounding.
\<close>

named_theorems py_simps \<open>unfolding rules for the Python string and dict helpers\<close>
named_theorems eff_simps \<open>evaluation rules for effectful computations\<close>

section \<open>Exceptions\<close>

datatype exn =
    ValueError string
  | KeyError string
  | TypeError string
  | IndexError
  | AssertionError
  | BudgetExceeded string rat rat
  | SensitivityRefusal string nat
  | GatewayError string
  | UnauthorizedError string
  | ForbiddenError string
  | ApiKeyInvalid string
  | HTTPException nat string
  | GovernedToolRefusal string
  | ParseError string
  | OtherError string

type_synonym 'a res = "exn + 'a"

text \<open>A chat message: role and content.\<close>

type_synonym msg = "string \<times> string"

definition res_bind :: "'a res \<Rightarrow> ('a \<Rightarrow> 'b res) \<Rightarrow> 'b res" where
  "res_bind r f = (case r of Inl e \<Rightarrow> Inl e | Inr x \<Rightarrow> f x)"

lemma res_bind_simps [simp]:
  "res_bind (Inl e) f = Inl e" "res_bind (Inr x) f = f x"
  by (simp_all add: res_bind_def)

lemma res_bind_Inr_iff [simp]:
  "res_bind r f = Inr y \<longleftrightarrow> (\<exists>x. r = Inr x \<and> f x = Inr y)"
  by (cases r) auto

text \<open>A list comprehension whose element expression may raise: the first raise wins.\<close>

fun res_map :: "('a \<Rightarrow> 'b res) \<Rightarrow> 'a list \<Rightarrow> 'b list res" where
  "res_map f [] = Inr []"
| "res_map f (x # xs) =
     (case f x of Inl e \<Rightarrow> Inl e
      | Inr y \<Rightarrow> (case res_map f xs of Inl e \<Rightarrow> Inl e | Inr ys \<Rightarrow> Inr (y # ys)))"

lemma res_map_Inr_iff: "res_map f xs = Inr ys \<longleftrightarrow> list_all2 (\<lambda>x y. f x = Inr y) xs ys"
proof (induction xs arbitrary: ys)
  case (Cons a xs)
  show ?case
  proof (cases "f a")
    case (Inr y)
    show ?thesis
    proof (cases "res_map f xs")
      case (Inl e)
      with Cons.IH have "\<not> list_all2 (\<lambda>x y. f x = Inr y) xs zs" for zs by (metis Inl_Inr_False)
      with Inl \<open>f a = Inr y\<close> show ?thesis by (simp add: list_all2_Cons1)
    next
      case (Inr zs)
      with Cons.IH have "list_all2 (\<lambda>x y. f x = Inr y) xs us \<longleftrightarrow> us = zs" for us by (metis Inr_inject)
      with Inr \<open>f a = Inr y\<close> show ?thesis by (auto simp: list_all2_Cons1)
    qed
  qed (simp add: list_all2_Cons1)
qed auto

lemma res_map_total: "(\<And>x. x \<in> set xs \<Longrightarrow> f x = Inr (g x)) \<Longrightarrow> res_map f xs = Inr (map g xs)"
  by (induction xs) auto

text \<open>A filtering comprehension whose condition may raise.\<close>

fun res_filter :: "('a \<Rightarrow> bool res) \<Rightarrow> 'a list \<Rightarrow> 'a list res" where
  "res_filter p [] = Inr []"
| "res_filter p (x # xs) =
     (case p x of Inl e \<Rightarrow> Inl e
      | Inr b \<Rightarrow> (case res_filter p xs of Inl e \<Rightarrow> Inl e
                   | Inr ys \<Rightarrow> Inr (if b then x # ys else ys)))"

lemma res_filter_Inr:
  "res_filter p xs = Inr ys \<Longrightarrow> ys = filter (\<lambda>x. p x = Inr True) xs"
  by (induction xs arbitrary: ys) (auto split: sum.splits if_splits)

lemma res_filter_total:
  "(\<And>x. x \<in> set xs \<Longrightarrow> p x = Inr (q x)) \<Longrightarrow> res_filter p xs = Inr (filter q xs)"
  by (induction xs) auto

lemma res_filter_cong:
  "(\<And>x. x \<in> set xs \<Longrightarrow> p x = q x) \<Longrightarrow> res_filter p xs = res_filter q xs"
  by (induction xs) (auto split: sum.split)

section \<open>Python's \<open>min\<close> and \<open>max\<close> with a key: the first extremal element\<close>

fun min_first :: "('a \<Rightarrow> 'k::linorder) \<Rightarrow> 'a \<Rightarrow> 'a list \<Rightarrow> 'a" where
  "min_first k best [] = best"
| "min_first k best (x # xs) = (if k x < k best then min_first k x xs else min_first k best xs)"

fun max_first :: "('a \<Rightarrow> 'k::linorder) \<Rightarrow> 'a \<Rightarrow> 'a list \<Rightarrow> 'a" where
  "max_first k best [] = best"
| "max_first k best (x # xs) = (if k best < k x then max_first k x xs else max_first k best xs)"

lemma min_first_in: "min_first k b xs \<in> insert b (set xs)"
  by (induction k b xs rule: min_first.induct) auto

lemma min_first_le_best: "k (min_first k b xs) \<le> k b"
  by (induction k b xs rule: min_first.induct) (simp_all, meson less_imp_le order_trans)

lemma min_first_le: "y \<in> insert b (set xs) \<Longrightarrow> k (min_first k b xs) \<le> k y"
proof (induction k b xs arbitrary: y rule: min_first.induct)
  case (2 k best x xs)
  have "k (min_first k best (x # xs)) \<le> k x"
    using min_first_le_best [of k x xs] min_first_le_best [of k best xs] by auto
  with 2 show ?case
    using min_first_le_best [of k best "x # xs"] by (cases "y = best \<or> y = x"; cases "k x < k best") auto
qed simp

lemma max_first_in: "max_first k b xs \<in> insert b (set xs)"
  by (induction k b xs rule: max_first.induct) auto

lemma max_first_ge_best: "k b \<le> k (max_first k b xs)"
  by (induction k b xs rule: max_first.induct) (simp_all, meson less_imp_le order_trans)

lemma max_first_ge: "y \<in> insert b (set xs) \<Longrightarrow> k y \<le> k (max_first k b xs)"
proof (induction k b xs arbitrary: y rule: max_first.induct)
  case (2 k best x xs)
  have "k x \<le> k (max_first k best (x # xs))"
    using max_first_ge_best [of k x xs] max_first_ge_best [of k best xs] by auto
  with 2 show ?case
    using max_first_ge_best [of k best "x # xs"] by (cases "y = best \<or> y = x"; cases "k best < k x") auto
qed simp

section \<open>Computations with a trace of external calls\<close>

type_synonym ('c, 'a) eff = "'c list \<times> 'a res"

definition eff_return :: "'a \<Rightarrow> ('c, 'a) eff" where
  "eff_return x = ([], Inr x)"

definition eff_raise :: "exn \<Rightarrow> ('c, 'a) eff" where
  "eff_raise e = ([], Inl e)"

definition eff_call :: "'c \<Rightarrow> 'a res \<Rightarrow> ('c, 'a) eff" where
  "eff_call c r = ([c], r)"

definition eff_lift :: "'a res \<Rightarrow> ('c, 'a) eff" where
  "eff_lift r = ([], r)"

definition eff_bind :: "('c, 'a) eff \<Rightarrow> ('a \<Rightarrow> ('c, 'b) eff) \<Rightarrow> ('c, 'b) eff" where
  "eff_bind m f =
     (case m of (l, Inl e) \<Rightarrow> (l, Inl e)
      | (l, Inr x) \<Rightarrow> (case f x of (l', r) \<Rightarrow> (l @ l', r)))"

abbreviation trace :: "('c, 'a) eff \<Rightarrow> 'c list" where
  "trace m \<equiv> fst m"

abbreviation outcome :: "('c, 'a) eff \<Rightarrow> 'a res" where
  "outcome m \<equiv> snd m"

lemma eff_bind_simps [simp, eff_simps]:
  "eff_bind (l, Inl e) f = (l, Inl e)"
  "eff_bind (l, Inr x) f = (l @ fst (f x), snd (f x))"
  by (simp_all add: eff_bind_def split: prod.splits)

lemma eff_basic_simps [simp, eff_simps]:
  "eff_bind (eff_return x) f = f x"
  "eff_bind (eff_raise e) f = eff_raise e"
  "eff_bind (eff_lift (Inl e)) f = eff_raise e"
  "eff_bind (eff_lift (Inr x)) f = f x"
  "eff_bind (eff_call c (Inl e)) f = ([c], Inl e)"
  "eff_bind (eff_call c (Inr x)) f = (c # fst (f x), snd (f x))"
  by (simp_all add: eff_return_def eff_raise_def eff_call_def eff_lift_def)

lemma eff_proj_simps [simp, eff_simps]:
  "fst (eff_return x) = []" "snd (eff_return x) = Inr x"
  "fst (eff_raise e) = []" "snd (eff_raise e) = Inl e"
  "fst (eff_lift r) = []" "snd (eff_lift r) = r"
  "fst (eff_call c r) = [c]" "snd (eff_call c r) = r"
  by (simp_all add: eff_return_def eff_raise_def eff_call_def eff_lift_def)

lemma trace_eff_bind:
  "trace (eff_bind m f) =
     trace m @ (case outcome m of Inl e \<Rightarrow> [] | Inr x \<Rightarrow> trace (f x))"
  by (cases m; cases "snd m") auto

lemma outcome_eff_bind:
  "outcome (eff_bind m f) =
     (case outcome m of Inl e \<Rightarrow> Inl e | Inr x \<Rightarrow> outcome (f x))"
  by (cases m; cases "snd m") auto

lemma eff_bind_Inr_iff:
  "outcome (eff_bind m f) = Inr y \<longleftrightarrow> (\<exists>x. outcome m = Inr x \<and> outcome (f x) = Inr y)"
  by (auto simp: outcome_eff_bind split: sum.splits)

text \<open>The calls of a computation, for membership arguments.\<close>

lemma set_trace_eff_bind:
  "set (trace (eff_bind m f)) =
     set (trace m) \<union> (case outcome m of Inl e \<Rightarrow> {} | Inr x \<Rightarrow> set (trace (f x)))"
  by (auto simp: trace_eff_bind split: sum.splits)

section \<open>Tables\<close>

text \<open>Tables are lists of rows; a row update that keeps a key keeps its uniqueness.\<close>

lemma distinct_map_same:
  assumes "\<And>x. x \<in> set xs \<Longrightarrow> g (f x) = g x"
  shows "distinct (map (g \<circ> f) xs) = distinct (map g xs)"
proof -
  have "map (g \<circ> f) xs = map g xs" using assms by simp
  then show ?thesis by (simp only:)
qed

lemma find_distinct_key:
  "x \<in> set xs \<Longrightarrow> distinct (map f xs) \<Longrightarrow> find (\<lambda>y. f y = f x) xs = Some x"
  by (induction xs) (auto simp: image_iff)

end
