(* ===== verification/Py_Strings.thy ===== *)
theory Py_Strings
  imports Fleet_Prelude "HOL-Library.Sublist"
begin

text \<open>
  The methods of Python's \<open>str\<close> that the modelled code calls, and the values of
  \<open>dict[str, Any]\<close>: \<open>strip\<close>, \<open>split\<close>, \<open>join\<close>, \<open>lower\<close>, \<open>startswith\<close>, \<open>in\<close>, \<open>str(int)\<close>, and the
  \<open>json\<close> datatype with Python's truth value and \<open>dict.get\<close>.
\<close>

section \<open>Characters and case\<close>

definition py_space :: "char \<Rightarrow> bool" where
  "py_space c = (let n = (of_char c :: nat)
     in (9 \<le> n \<and> n \<le> 13) \<or> (28 \<le> n \<and> n \<le> 32) \<or> n = 133 \<or> n = 160)"

definition py_digit :: "char \<Rightarrow> bool" where
  "py_digit c = (let n = (of_char c :: nat) in 48 \<le> n \<and> n \<le> 57)"

definition lower_char :: "char \<Rightarrow> char" where
  "lower_char c = (let n = (of_char c :: nat)
     in if (65 \<le> n \<and> n \<le> 90) \<or> (192 \<le> n \<and> n \<le> 222 \<and> n \<noteq> 215)
        then char_of (n + 32) else c)"

definition upper_char :: "char \<Rightarrow> char" where
  "upper_char c = (let n = (of_char c :: nat)
     in if (97 \<le> n \<and> n \<le> 122) \<or> (224 \<le> n \<and> n \<le> 254 \<and> n \<noteq> 247)
        then char_of (n - 32) else c)"

definition lower :: "string \<Rightarrow> string" where
  "lower s = map lower_char s"

definition upper :: "string \<Rightarrow> string" where
  "upper s = map upper_char s"

lemma length_lower [simp]: "length (lower s) = length s"
  by (simp add: lower_def)

section \<open>Prefixes and substrings\<close>

definition startswith :: "string \<Rightarrow> string \<Rightarrow> bool" where
  "startswith s p = (take (length p) s = p)"

definition endswith :: "string \<Rightarrow> string \<Rightarrow> bool" where
  "endswith s p = startswith (rev s) (rev p)"

fun py_contains :: "string \<Rightarrow> string \<Rightarrow> bool" where
  "py_contains [] p = (p = [])"
| "py_contains (c # s) p = (startswith (c # s) p \<or> py_contains s p)"

lemma startswith_iff_prefix: "startswith s p \<longleftrightarrow> prefix p s"
  by (metis startswith_def append_eq_conv_conj prefix_def take_is_prefix)

lemma startswith_append [simp]: "startswith (p @ s) p"
  by (simp add: startswith_def)

lemma py_contains_iff: "py_contains s p \<longleftrightarrow> (\<exists>us vs. s = us @ p @ vs)"
proof (induction s)
  case (Cons c s)
  show ?case
  proof
    assume "py_contains (c # s) p"
    then consider "prefix p (c # s)" | "\<exists>us vs. s = us @ p @ vs"
      using Cons.IH by (auto simp: startswith_iff_prefix)
    then show "\<exists>us vs. c # s = us @ p @ vs"
    proof cases
      case 1
      then show ?thesis by (metis append_Nil prefix_def)
    next
      case 2
      then show ?thesis by (metis append_Cons)
    qed
  next
    assume "\<exists>us vs. c # s = us @ p @ vs"
    then obtain us vs where e: "c # s = us @ p @ vs" by blast
    show "py_contains (c # s) p"
    proof (cases us)
      case Nil
      with e have "startswith (c # s) p" by (simp add: startswith_iff_prefix prefix_def)
      then show ?thesis by simp
    next
      case (Cons u us')
      with e Cons.IH show ?thesis by auto
    qed
  qed
qed auto

section \<open>Decimal rendering\<close>

fun nat_str :: "nat \<Rightarrow> string" where
  "nat_str n = (if n < 10 then [char_of (48 + n)] else nat_str (n div 10) @ [char_of (48 + n mod 10)])"

declare nat_str.simps [simp del]

definition int_str :: "int \<Rightarrow> string" where
  "int_str i = (if i < 0 then CHR ''-'' # nat_str (nat (- i)) else nat_str (nat i))"

lemma nat_str_nonempty [simp]: "nat_str n \<noteq> []"
  by (subst nat_str.simps) simp

section \<open>strip, split and join\<close>

definition lstrip :: "string \<Rightarrow> string" where
  "lstrip s = dropWhile py_space s"

definition rstrip :: "string \<Rightarrow> string" where
  "rstrip s = rev (dropWhile py_space (rev s))"

definition strip :: "string \<Rightarrow> string" where
  "strip s = rstrip (lstrip s)"

text \<open>\<open>split_ws acc s\<close> is \<open>s.split()\<close> with \<open>acc\<close> the word read so far, reversed.\<close>

fun split_ws :: "string \<Rightarrow> string \<Rightarrow> string list" where
  "split_ws acc [] = (if acc = [] then [] else [rev acc])"
| "split_ws acc (c # s) =
     (if py_space c then (if acc = [] then split_ws [] s else rev acc # split_ws [] s)
      else split_ws (c # acc) s)"

definition words :: "string \<Rightarrow> string list" where
  "words s = split_ws [] s"

fun join :: "string \<Rightarrow> string list \<Rightarrow> string" where
  "join sep [] = []"
| "join sep [x] = x"
| "join sep (x # y # xs) = x @ sep @ join sep (y # xs)"

text \<open>
  \<open>split_on d acc s\<close> is \<open>s.split(d)\<close> for a non-empty separator \<open>d\<close>: the separator is
  searched left to right, an occurrence is consumed whole.
\<close>

function split_on :: "string \<Rightarrow> string \<Rightarrow> string \<Rightarrow> string list" where
  "split_on d acc s =
     (if s = [] then [rev acc]
      else if d \<noteq> [] \<and> startswith s d then rev acc # split_on d [] (drop (length d) s)
      else split_on d (hd s # acc) (tl s))"
  by pat_completeness auto
termination
  by (relation "measure (\<lambda>(d, acc, s). length s)") auto

declare split_on.simps [simp del]

text \<open>A word is a non-empty run of non-space characters.\<close>

definition is_word :: "string \<Rightarrow> bool" where
  "is_word w \<longleftrightarrow> w \<noteq> [] \<and> (\<forall>c \<in> set w. \<not> py_space c)"

lemma split_ws_are_words:
  "\<forall>c \<in> set acc. \<not> py_space c \<Longrightarrow> w \<in> set (split_ws acc s) \<Longrightarrow> is_word w"
proof (induction acc s rule: split_ws.induct)
  case (1 acc)
  then show ?case by (cases "acc = []") (simp_all add: is_word_def)
next
  case (2 acc c s)
  show ?case
  proof (cases "py_space c")
    case True
    with 2 show ?thesis by (cases "acc = []") (auto simp: is_word_def)
  next
    case False
    with "2.prems" have "w \<in> set (split_ws (c # acc) s)" "\<forall>d \<in> set (c # acc). \<not> py_space d"
      by simp_all
    with False show ?thesis using "2.IH"(3) by blast
  qed
qed

lemma words_are_words: "w \<in> set (words s) \<Longrightarrow> is_word w"
  using split_ws_are_words [of "[]"] by (simp add: words_def)

lemma split_ws_word_append:
  "\<forall>c \<in> set w. \<not> py_space c \<Longrightarrow> split_ws acc (w @ s) = split_ws (rev w @ acc) s"
  by (induction w arbitrary: acc) auto

lemma words_space_Cons: "py_space c \<Longrightarrow> words (c # s) = words s"
  by (simp add: words_def)

lemma words_of_word:
  assumes "is_word w" shows "words w = [w]"
proof -
  have "split_ws [] (w @ []) = split_ws (rev w @ []) []"
    using assms by (intro split_ws_word_append) (simp add: is_word_def)
  with assms show ?thesis by (simp add: words_def is_word_def)
qed

lemma words_word_space:
  assumes "is_word w" "py_space c"
  shows "words (w @ c # s) = w # words s"
proof -
  have "split_ws [] (w @ c # s) = split_ws (rev w @ []) (c # s)"
    using assms by (intro split_ws_word_append) (simp add: is_word_def)
  with assms show ?thesis by (simp add: words_def is_word_def)
qed

lemma split_ws_append_space:
  "py_space c \<Longrightarrow> split_ws acc (s @ c # t) = split_ws acc s @ split_ws [] t"
  by (induction acc s rule: split_ws.induct) auto

lemma words_append_space: "py_space c \<Longrightarrow> words (s @ c # t) = words s @ words t"
  by (simp add: words_def split_ws_append_space)

lemma split_ws_all_space: "\<forall>c \<in> set s. py_space c \<Longrightarrow> split_ws [] s = []"
  by (induction s) auto

lemma strip_id: "s \<noteq> [] \<Longrightarrow> \<not> py_space (hd s) \<Longrightarrow> \<not> py_space (last s) \<Longrightarrow> strip s = s"
proof -
  assume s: "s \<noteq> []" "\<not> py_space (hd s)" "\<not> py_space (last s)"
  then have "lstrip s = s" by (cases s) (auto simp: lstrip_def)
  moreover have "rstrip s = s"
  proof (cases s rule: rev_cases)
    case (snoc ys y)
    with s(3) show ?thesis by (simp add: rstrip_def)
  qed (simp add: rstrip_def)
  ultimately show ?thesis by (simp add: strip_def)
qed

lemma words_lstrip: "words (lstrip s) = words s"
  by (induction s) (auto simp: lstrip_def words_def)

lemma words_append_spaces:
  assumes "\<forall>c \<in> set t. py_space c" shows "words (s @ t) = words s"
proof (cases t)
  case (Cons c t')
  with assms have "words (s @ t) = words s @ words t'" by (simp add: words_append_space)
  moreover have "words t' = []" using assms Cons by (simp add: words_def split_ws_all_space)
  ultimately show ?thesis by simp
qed simp

lemma words_rstrip: "words (rstrip s) = words s"
proof -
  have split: "s = rstrip s @ rev (takeWhile py_space (rev s))"
    by (metis rstrip_def rev_append rev_rev_ident takeWhile_dropWhile_id)
  have "\<forall>c \<in> set (rev (takeWhile py_space (rev s))). py_space c"
    by (auto dest: set_takeWhileD)
  then have "words (rstrip s @ rev (takeWhile py_space (rev s))) = words (rstrip s)"
    by (rule words_append_spaces)
  with split show ?thesis by simp
qed

lemma words_strip [simp]: "words (strip s) = words s"
  by (simp add: strip_def words_rstrip words_lstrip)

lemma words_join_space:
  "\<forall>w \<in> set ws. is_word w \<Longrightarrow> words (join '' '' ws) = ws"
proof (induction "'' ''" ws rule: join.induct)
  case 1 show ?case by (simp add: words_def)
next
  case (2 x) then show ?case by (simp add: words_of_word)
next
  case (3 x y xs)
  then show ?case by (simp add: words_word_space py_space_def)
qed

lemma split_ws_nonempty_acc: "acc \<noteq> [] \<Longrightarrow> split_ws acc s \<noteq> []"
  by (induction acc s rule: split_ws.induct) auto

lemma words_eq_Nil_iff: "words s = [] \<longleftrightarrow> strip s = []"
proof
  assume "words s = []"
  then have w: "words (lstrip s) = []" by (simp add: words_lstrip)
  have "lstrip s = []"
  proof (rule ccontr)
    assume ne: "lstrip s \<noteq> []"
    then have h: "\<not> py_space (hd (lstrip s))" by (simp add: lstrip_def hd_dropWhile)
    obtain c t where ct: "lstrip s = c # t" using ne by (cases "lstrip s") auto
    have "split_ws [c] t \<noteq> []" by (simp add: split_ws_nonempty_acc)
    with w ct h show False by (simp add: words_def)
  qed
  then show "strip s = []" by (simp add: strip_def rstrip_def)
next
  assume "strip s = []"
  then have "words (strip s) = []" by (simp add: words_def)
  then show "words s = []" by simp
qed

end
