(* ===== verification/Py_Difflib.thy ===== *)
theory Py_Difflib
  imports Py_Strings
begin

text \<open>
  \<open>difflib.SequenceMatcher(None, a, b).ratio()\<close>, as the evaluation runner uses it: the longest match that starts earliest
  in \<open>a\<close>, then in \<open>b\<close>, the same on both sides of it, and twice the matched length over the total length. From 200
  characters on, a character of \<open>b\<close> that makes up more than one percent of it starts no match (\<open>autojunk\<close>) but may
  extend one.
\<close>

fun common_prefix :: "'a list \<Rightarrow> 'a list \<Rightarrow> nat" where
  "common_prefix (x # xs) (y # ys) = (if x = y then Suc (common_prefix xs ys) else 0)"
| "common_prefix _ _ = 0"

definition popular :: "string \<Rightarrow> char \<Rightarrow> bool" where
  "popular b c \<longleftrightarrow> 200 \<le> length b \<and> length b div 100 + 1 < length (filter (\<lambda>x. x = c) b)"

text \<open>\<open>newj2len[j]\<close> of row \<open>i\<close>: the length of the common run that ends at \<open>i\<close> and \<open>j\<close>.\<close>

fun run_length :: "('a \<Rightarrow> bool) \<Rightarrow> 'a list \<Rightarrow> 'a list \<Rightarrow> nat" where
  "run_length junk (x # xs) (y # ys) = (if x = y \<and> \<not> junk x then Suc (run_length junk xs ys) else 0)"
| "run_length junk _ _ = 0"

definition run_ending :: "('a \<Rightarrow> bool) \<Rightarrow> 'a list \<Rightarrow> 'a list \<Rightarrow> nat \<Rightarrow> nat \<Rightarrow> nat" where
  "run_ending junk as bs i j = run_length junk (rev (take (Suc i) as)) (rev (take (Suc j) bs))"

definition positions :: "'a list \<Rightarrow> 'a list \<Rightarrow> (nat \<times> nat) list" where
  "positions as bs = concat (map (\<lambda>i. map (Pair i) [0..<length bs]) [0..<length as])"

definition better :: "('a \<Rightarrow> bool) \<Rightarrow> 'a list \<Rightarrow> 'a list \<Rightarrow> nat \<times> nat \<Rightarrow> nat \<times> nat \<times> nat \<Rightarrow> nat \<times> nat \<times> nat" where
  "better junk as bs ij best =
     (case (ij, best) of ((i, j), (bi, bj, k)) \<Rightarrow>
        let r = run_ending junk as bs i j in if k < r then (Suc i - r, Suc j - r, r) else best)"

text \<open>\<open>find_longest_match\<close> on the two slices; the best run is extended on both sides.\<close>

definition longest_match :: "('a \<Rightarrow> bool) \<Rightarrow> 'a list \<Rightarrow> 'a list \<Rightarrow> nat \<times> nat \<times> nat" where
  "longest_match junk as bs =
     (case fold (better junk as bs) (positions as bs) (0, 0, 0) of
        (i, j, k) \<Rightarrow>
          (let l = common_prefix (rev (take i as)) (rev (take j bs));
               r = common_prefix (drop (i + k) as) (drop (j + k) bs)
           in (i - l, j - l, l + k + r)))"

lemma run_length_le: "run_length junk xs ys \<le> length xs \<and> run_length junk xs ys \<le> length ys"
  by (induction junk xs ys rule: run_length.induct) auto

lemma common_prefix_le: "common_prefix xs ys \<le> length xs \<and> common_prefix xs ys \<le> length ys"
  by (induction xs ys rule: common_prefix.induct) auto

definition fits :: "'a list \<Rightarrow> 'a list \<Rightarrow> nat \<times> nat \<times> nat \<Rightarrow> bool" where
  "fits as bs m \<longleftrightarrow> (case m of (i, j, k) \<Rightarrow> i + k \<le> length as \<and> j + k \<le> length bs)"

lemma run_ending_le:
  assumes "i < length as" "j < length bs"
  shows "run_ending junk as bs i j \<le> Suc i \<and> run_ending junk as bs i j \<le> Suc j"
  using run_length_le [of junk "rev (take (Suc i) as)" "rev (take (Suc j) bs)"] assms by (simp add: run_ending_def)

lemma best_fits:
  "list_all (\<lambda>(i, j). i < length as \<and> j < length bs) ps \<Longrightarrow> fits as bs m \<Longrightarrow> fits as bs (fold (better junk as bs) ps m)"
proof (induction ps arbitrary: m)
  case (Cons p ps)
  obtain i j where p: "p = (i, j)" by fastforce
  with Cons.prems(1) have ij: "i < length as" "j < length bs" by simp_all
  have "fits as bs (better junk as bs p m)"
    using run_ending_le [OF ij, of junk] ij Cons.prems(2)
    by (auto simp: better_def fits_def p Let_def split: prod.splits)
  with Cons show ?case by simp
qed simp

lemma positions_in: "list_all (\<lambda>(i, j). i < length as \<and> j < length bs) (positions as bs)"
  by (auto simp: positions_def list_all_iff)

lemma longest_match_fits: "longest_match junk as bs = (i, j, k) \<Longrightarrow> i + k \<le> length as \<and> j + k \<le> length bs"
proof -
  assume m: "longest_match junk as bs = (i, j, k)"
  obtain i' j' k' where b: "fold (better junk as bs) (positions as bs) (0, 0, 0) = (i', j', k')"
    by (cases "fold (better junk as bs) (positions as bs) (0, 0, 0)") auto
  from best_fits [OF positions_in, of as bs "(0, 0, 0)" junk] b have f: "i' + k' \<le> length as" "j' + k' \<le> length bs"
    by (simp_all add: fits_def)
  note l = common_prefix_le [of "rev (take i' as)" "rev (take j' bs)"]
  note r = common_prefix_le [of "drop (i' + k') as" "drop (j' + k') bs"]
  from m b l r f show ?thesis by (auto simp: longest_match_def Let_def)
qed

function matched_length :: "('a \<Rightarrow> bool) \<Rightarrow> 'a list \<Rightarrow> 'a list \<Rightarrow> nat" where
  "matched_length junk as bs =
     (case longest_match junk as bs of
        (i, j, k) \<Rightarrow>
          (if k = 0 then 0
           else k + matched_length junk (take i as) (take j bs) + matched_length junk (drop (i + k) as) (drop (j + k) bs)))"
  by pat_completeness auto
termination
  by (relation "measure (\<lambda>(junk, as, bs). length as)") (auto dest!: longest_match_fits [OF sym])

declare matched_length.simps [simp del]

definition similarity :: "string \<Rightarrow> string \<Rightarrow> rat" where
  "similarity a b =
     (if length a + length b = 0 then 1
      else of_nat (2 * matched_length (popular b) a b) / of_nat (length a + length b))"

section \<open>Bounds\<close>

lemma matched_length_le: "matched_length junk as bs \<le> length as \<and> matched_length junk as bs \<le> length bs"
proof (induction junk as bs rule: matched_length.induct)
  case (1 junk as bs)
  obtain i j k where m: "longest_match junk as bs = (i, j, k)" by (cases "longest_match junk as bs") auto
  note f = longest_match_fits [OF m]
  show ?case
  proof (cases "k = 0")
    case False
    from 1(1) [OF m [symmetric] refl False] 1(2) [OF m [symmetric] refl False] f False show ?thesis
      by (subst (1 2) matched_length.simps) (auto simp: m)
  qed (subst (1 2) matched_length.simps, simp add: m)
qed

lemma similarity_bounds: "0 \<le> similarity a b \<and> similarity a b \<le> 1"
proof -
  have "2 * matched_length (popular b) a b \<le> length a + length b"
    using matched_length_le [of "popular b" a b] by linarith
  then have "(of_nat (2 * matched_length (popular b) a b) :: rat) \<le> of_nat (length a + length b)" by (rule of_nat_mono)
  then show ?thesis unfolding similarity_def by (auto simp: divide_le_eq_1 simp del: of_nat_mult of_nat_add)
qed

section \<open>Equal strings\<close>

lemma better_grows: "snd (snd m) \<le> snd (snd (better junk as bs p m))"
  by (auto simp: better_def Let_def split: prod.splits)

lemma fold_grows: "snd (snd m) \<le> snd (snd (fold (better junk as bs) ps m))"
proof (induction ps arbitrary: m)
  case (Cons p ps)
  from better_grows [of m junk as bs p] Cons [of "better junk as bs p m"] show ?case by simp
qed simp

lemma best_is_best:
  "(i, j) \<in> set ps \<Longrightarrow> run_ending junk as bs i j \<le> snd (snd (fold (better junk as bs) ps m))"
proof (induction ps arbitrary: m)
  case (Cons p ps)
  show ?case
  proof (cases "p = (i, j)")
    case True
    have "run_ending junk as bs i j \<le> snd (snd (better junk as bs p m))"
      by (auto simp: better_def True Let_def split: prod.splits)
    with fold_grows [of "better junk as bs p m" junk as bs ps] show ?thesis by simp
  next
    case False
    with Cons show ?thesis by simp
  qed
qed simp

lemma run_length_same: "list_all (\<lambda>x. \<not> junk x) xs \<Longrightarrow> run_length junk xs xs = length xs"
  by (induction xs) simp_all

lemma longest_match_same:
  assumes "list_all (\<lambda>x. \<not> junk x) as"
  shows "longest_match junk as as = (0, 0, length as)"
proof (cases "as = []")
  case True
  then show ?thesis by (simp add: longest_match_def positions_def)
next
  case False
  let ?n = "length as - 1"
  from False have n: "Suc ?n = length as" by simp
  obtain i j k where b: "fold (better junk as as) (positions as as) (0, 0, 0) = (i, j, k)"
    by (cases "fold (better junk as as) (positions as as) (0, 0, 0)") auto
  have "list_all (\<lambda>x. \<not> junk x) (rev as)" using assms by (simp add: list_all_iff)
  from run_length_same [OF this] have "run_ending junk as as ?n ?n = length as" by (simp add: run_ending_def n)
  moreover have "(?n, ?n) \<in> set (positions as as)" using False by (auto simp: positions_def intro!: imageI bexI [of _ ?n])
  ultimately have "length as \<le> k" using best_is_best [of ?n ?n "positions as as" junk as as "(0, 0, 0)"] b by simp
  moreover have "i + k \<le> length as" "j + k \<le> length as"
    using best_fits [OF positions_in, of as as "(0, 0, 0)" junk] b by (simp_all add: fits_def)
  ultimately have "i = 0" "j = 0" "k = length as" by auto
  with b show ?thesis by (simp add: longest_match_def Let_def)
qed

lemma matched_length_nil [simp]: "matched_length junk [] bs = 0"
  using matched_length_le [of junk "[]" bs] by simp

lemma similarity_same: "length a < 200 \<Longrightarrow> similarity a a = 1"
proof -
  assume a: "length a < 200"
  then have "list_all (\<lambda>x. \<not> popular a x) a" by (simp add: popular_def list_all_iff)
  from longest_match_same [OF this] have "matched_length (popular a) a a = length a"
    by (subst matched_length.simps) simp
  then show ?thesis by (simp add: similarity_def)
qed

end
