(* ===== verification/Access.thy ===== *)
theory Access
  imports Py_Strings
begin

text \<open>
  Who may do what: bearer tokens and the roles table (\<open>apps/api/fleet_api/auth.py\<close>, \<open>users.py\<close>,
  \<open>rbac.py\<close>), Fleet API keys (\<open>api_keys.py\<close>, \<open>service_auth.py\<close>) and the admin routes over
  users, roles and keys (\<open>routers/users_admin.py\<close>, \<open>routers/api_keys_admin.py\<close>). Token decoding
  (\<open>python-jose\<close> over Keycloak's keys) and SHA-256 are not in the repository: they are the
  parameters \<open>decode\<close> and \<open>sha\<close>; nothing is assumed of them. Times are microseconds.
\<close>

section \<open>Permissions\<close>

datatype permission = CHAT | UPLOAD | MANAGE_AGENTS | APPROVE | MANAGE_DEPT | MANAGE_PLATFORM

fun permission_name :: "permission \<Rightarrow> string" where
  "permission_name CHAT = ''chat''"
| "permission_name UPLOAD = ''upload''"
| "permission_name MANAGE_AGENTS = ''manage_agents''"
| "permission_name APPROVE = ''approve''"
| "permission_name MANAGE_DEPT = ''manage_dept''"
| "permission_name MANAGE_PLATFORM = ''manage_platform''"

definition role_permissions :: "(string \<times> permission set) list" where
  "role_permissions =
     [(''member'', {CHAT, UPLOAD}),
      (''builder'', {CHAT, UPLOAD, MANAGE_AGENTS}),
      (''approver'', {CHAT, UPLOAD, APPROVE}),
      (''dept_admin'', {CHAT, UPLOAD, MANAGE_AGENTS, APPROVE, MANAGE_DEPT}),
      (''platform_admin'', {CHAT, UPLOAD, MANAGE_AGENTS, APPROVE, MANAGE_DEPT, MANAGE_PLATFORM})]"

definition permissions_for :: "string set \<Rightarrow> permission set" where
  "permissions_for roles =
     (\<Union>role \<in> roles. case map_of role_permissions role of None \<Rightarrow> {} | Some ps \<Rightarrow> ps)"

definition valid_roles :: "string set" where
  "valid_roles = set (map fst role_permissions)"

section \<open>Tables\<close>

record user_row =
  u_id :: nat
  u_kc_sub :: string
  u_email_hash :: string
  u_display_name :: string
  u_dept_id :: "nat option"
  u_status :: string

record role_row =
  ro_id :: nat
  ro_user_id :: nat
  ro_role :: string
  ro_dept_id :: "nat option"

record api_key_row =
  k_id :: nat
  k_name :: string
  k_hash :: string
  k_scopes :: "string list"
  k_dept_id :: "nat option"
  k_expires_at :: "int option"
  k_created_by :: "string option"
  k_revoked_at :: "int option"

text \<open>The tables, and the next id of each sequence.\<close>

record access_db =
  ad_users :: "user_row list"
  ad_roles :: "role_row list"
  ad_keys :: "api_key_row list"
  ad_departments :: "(nat \<times> string) list"
  ad_next_user :: nat
  ad_next_role :: nat
  ad_next_key :: nat

text \<open>
  A request handler: what it returns or raises, and the database it leaves. A raise before the commit
  leaves the database as it was.
\<close>

type_synonym 'a handler = "access_db \<Rightarrow> 'a res \<times> access_db"

definition h_bind :: "'a handler \<Rightarrow> ('a \<Rightarrow> 'b handler) \<Rightarrow> 'b handler" where
  "h_bind m f db = (case m db of (Inl e, db') \<Rightarrow> (Inl e, db') | (Inr x, db') \<Rightarrow> f x db')"

lemma h_bind_simps [simp]:
  "m db = (Inl e, db') \<Longrightarrow> h_bind m f db = (Inl e, db')"
  "m db = (Inr x, db') \<Longrightarrow> h_bind m f db = f x db'"
  by (simp_all add: h_bind_def)

lemma h_bind_cases:
  assumes "h_bind m f db = (r, db'')"
  obtains e where "m db = (Inl e, db'')" "r = Inl e"
  | x db' where "m db = (Inr x, db')" "f x db' = (r, db'')"
  using assms by (auto simp: h_bind_def split: prod.splits sum.splits)

section \<open>Users and their roles\<close>

definition subject_hash :: "(string \<Rightarrow> string) \<Rightarrow> string \<Rightarrow> string" where
  "subject_hash sha identifier = sha (lower (strip identifier))"

definition find_user :: "access_db \<Rightarrow> string \<Rightarrow> user_row option" where
  "find_user db sub = find (\<lambda>u. u_kc_sub u = sub) (ad_users db)"

text \<open>An optional string that is present and not empty.\<close>

definition given :: "string option \<Rightarrow> bool" where
  "given s = (case s of None \<Rightarrow> False | Some t \<Rightarrow> t \<noteq> [])"

definition get_or_create_user ::
  "(string \<Rightarrow> string) \<Rightarrow> string \<Rightarrow> string option \<Rightarrow> string option \<Rightarrow> access_db \<Rightarrow> user_row \<times> access_db" where
  "get_or_create_user sha sub display_name email db =
     (case find_user db sub of
        Some row \<Rightarrow>
          (if u_email_hash row = [] \<and> given email
           then (let row' = row\<lparr>u_email_hash := subject_hash sha (the email)\<rparr>
                 in (row', db\<lparr>ad_users := map (\<lambda>u. if u_id u = u_id row then row' else u) (ad_users db)\<rparr>))
           else (row, db))
      | None \<Rightarrow>
          (let row = \<lparr>u_id = ad_next_user db, u_kc_sub = sub,
                      u_email_hash = (if given email then subject_hash sha (the email) else []),
                      u_display_name = (if given display_name then the display_name else sub),
                      u_dept_id = None, u_status = ''active''\<rparr>
           in (row, db\<lparr>ad_users := ad_users db @ [row], ad_next_user := Suc (ad_next_user db)\<rparr>)))"

definition roles_of :: "access_db \<Rightarrow> nat \<Rightarrow> role_row list" where
  "roles_of db uid = filter (\<lambda>r. ro_user_id r = uid) (ad_roles db)"

definition insert_role :: "nat \<Rightarrow> nat option \<Rightarrow> access_db \<Rightarrow> string \<Rightarrow> access_db" where
  "insert_role uid dept db role =
     db\<lparr>ad_roles := ad_roles db @ [\<lparr>ro_id = ad_next_role db, ro_user_id = uid, ro_role = role, ro_dept_id = dept\<rparr>],
        ad_next_role := Suc (ad_next_role db)\<rparr>"

text \<open>The token's role set is a list without duplicates, in the order the iteration takes.\<close>

definition seed_roles_from_jwt :: "user_row \<Rightarrow> string list \<Rightarrow> access_db \<Rightarrow> access_db" where
  "seed_roles_from_jwt user jwt_roles db =
     (if roles_of db (u_id user) \<noteq> [] then db else foldl (insert_role (u_id user) None) db jwt_roles)"

definition load_roles :: "access_db \<Rightarrow> user_row \<Rightarrow> string set" where
  "load_roles db user = set (map ro_role (roles_of db (u_id user)))"

section \<open>Bearer tokens\<close>

text \<open>
  What the code reads of the decoded claims: \<open>sub\<close>, \<open>email\<close>, and \<open>realm_access.roles\<close> (a list that
  is empty when either key is missing or \<open>realm_access\<close> is null).
\<close>

record claims =
  cl_sub :: "string option"
  cl_email :: "string option"
  cl_realm_roles :: "string list"

record current_user =
  cu_sub :: string
  cu_roles :: "string list"
  cu_email :: "string option"

text \<open>\<open>decode\<close> is \<open>None\<close> where the key fetch or the verification raises.\<close>

definition verify_bearer_token :: "(string \<Rightarrow> claims option) \<Rightarrow> string \<Rightarrow> current_user res" where
  "verify_bearer_token decode token =
     (case decode token of
        None \<Rightarrow> Inl (UnauthorizedError ''invalid token'')
      | Some c \<Rightarrow>
          (case cl_sub c of
             None \<Rightarrow> Inl (UnauthorizedError ''token missing sub'')
           | Some sub \<Rightarrow>
               (if sub = [] then Inl (UnauthorizedError ''token missing sub'')
                else Inr \<lparr>cu_sub = sub, cu_roles = remdups (cl_realm_roles c), cu_email = cl_email c\<rparr>)))"

record principal =
  pr_sub :: string
  pr_roles :: "string set"

definition get_current_user ::
  "(string \<Rightarrow> claims option) \<Rightarrow> (string \<Rightarrow> string) \<Rightarrow> string option \<Rightarrow> principal handler" where
  "get_current_user decode sha credentials db =
     (if \<not> given credentials then (Inl (UnauthorizedError ''missing bearer token''), db)
      else (case verify_bearer_token decode (the credentials) of
              Inl e \<Rightarrow> (Inl e, db)
            | Inr jwt \<Rightarrow>
                (let (user, db1) = get_or_create_user sha (cu_sub jwt) None (cu_email jwt) db;
                     db2 = seed_roles_from_jwt user (cu_roles jwt) db1
                 in (Inr \<lparr>pr_sub = cu_sub jwt, pr_roles = load_roles db2 user\<rparr>, db2))))"

definition require_permission ::
  "(string \<Rightarrow> claims option) \<Rightarrow> (string \<Rightarrow> string) \<Rightarrow> permission \<Rightarrow> string option \<Rightarrow> principal handler" where
  "require_permission decode sha perm credentials =
     h_bind (get_current_user decode sha credentials)
       (\<lambda>user db. if perm \<in> permissions_for (pr_roles user) then (Inr user, db)
                  else (Inl (ForbiddenError (''missing permission: '' @ permission_name perm)), db))"

text \<open>The audit middleware's best effort: a principal's subject or nothing, never a raise.\<close>

definition try_current_user_sub :: "(string \<Rightarrow> claims option) \<Rightarrow> string option \<Rightarrow> string option" where
  "try_current_user_sub decode auth_header =
     (case auth_header of
        None \<Rightarrow> None
      | Some h \<Rightarrow>
          (if \<not> startswith h ''Bearer '' then None
           else (case verify_bearer_token decode (drop 7 h) of Inl _ \<Rightarrow> None | Inr u \<Rightarrow> Some (cu_sub u))))"

section \<open>API keys\<close>

definition validate_record :: "api_key_row option \<Rightarrow> int \<Rightarrow> api_key_row res" where
  "validate_record record now =
     (case record of
        None \<Rightarrow> Inl (ApiKeyInvalid ''unknown api key'')
      | Some k \<Rightarrow>
          (if k_revoked_at k \<noteq> None then Inl (ApiKeyInvalid ''revoked api key'')
           else (case k_expires_at k of
                   None \<Rightarrow> Inr k
                 | Some t \<Rightarrow> if t \<le> now then Inl (ApiKeyInvalid ''expired api key'') else Inr k)))"

definition lookup_key :: "(string \<Rightarrow> string) \<Rightarrow> access_db \<Rightarrow> string \<Rightarrow> api_key_row option" where
  "lookup_key sha db raw = find (\<lambda>k. k_hash k = sha raw) (ad_keys db)"

record service_key =
  sk_id :: nat
  sk_name :: string
  sk_scopes :: "string list"

text \<open>\<open>ApiKeyInvalid\<close> becomes the 401 that carries its message.\<close>

definition usable_key :: "(string \<Rightarrow> string) \<Rightarrow> int \<Rightarrow> access_db \<Rightarrow> string \<Rightarrow> service_key res" where
  "usable_key sha now db raw =
     (case validate_record (lookup_key sha db raw) now of
        Inl (ApiKeyInvalid msg) \<Rightarrow> Inl (UnauthorizedError msg)
      | Inl e \<Rightarrow> Inl e
      | Inr k \<Rightarrow> Inr \<lparr>sk_id = k_id k, sk_name = k_name k, sk_scopes = k_scopes k\<rparr>)"

definition get_current_service_key ::
  "(string \<Rightarrow> string) \<Rightarrow> int \<Rightarrow> access_db \<Rightarrow> string option \<Rightarrow> service_key res" where
  "get_current_service_key sha now db header =
     (if \<not> given header then Inl (UnauthorizedError ''missing X-Fleet-Api-Key header'')
      else usable_key sha now db (the header))"

definition check_scope :: "string \<Rightarrow> service_key \<Rightarrow> service_key res" where
  "check_scope scope key =
     (if scope \<in> set (sk_scopes key) then Inr key
      else Inl (ForbiddenError (''api key missing scope: '' @ scope)))"

definition require_scope ::
  "(string \<Rightarrow> string) \<Rightarrow> int \<Rightarrow> access_db \<Rightarrow> string \<Rightarrow> string option \<Rightarrow> service_key res" where
  "require_scope sha now db scope header =
     res_bind (get_current_service_key sha now db header) (check_scope scope)"

datatype caller = Human current_user | Service service_key

definition require_user_or_service_scope ::
  "(string \<Rightarrow> claims option) \<Rightarrow> (string \<Rightarrow> string) \<Rightarrow> int \<Rightarrow> access_db \<Rightarrow> permission \<Rightarrow> string \<Rightarrow>
     string option \<Rightarrow> string option \<Rightarrow> caller res" where
  "require_user_or_service_scope decode sha now db perm scope credentials header =
     (if given credentials then
        res_bind (verify_bearer_token decode (the credentials))
          (\<lambda>user. if perm \<in> permissions_for (set (cu_roles user)) then Inr (Human user)
                  else Inl (ForbiddenError (''missing permission: '' @ permission_name perm)))
      else if given header then
        res_bind (usable_key sha now db (the header))
          (\<lambda>key. res_bind (check_scope scope key) (\<lambda>key. Inr (Service key)))
      else Inl (UnauthorizedError ''missing bearer token or X-Fleet-Api-Key header''))"

end
