(* ===== verification/Py_Json.thy ===== *)
theory Py_Json
  imports Py_Strings
begin

text \<open>
  A Python float: finite values are rationals (no rounding, no overflow), with the two infinities
  and NaN, which \<open>json.loads\<close> and \<open>float()\<close> produce and every comparison treats specially.
\<close>

datatype pyfloat = Fin rat | PInf | NInf | NaN

fun pf_sub :: "pyfloat \<Rightarrow> pyfloat \<Rightarrow> pyfloat" where
  "pf_sub (Fin a) (Fin b) = Fin (a - b)"
| "pf_sub NaN _ = NaN"
| "pf_sub _ NaN = NaN"
| "pf_sub PInf PInf = NaN"
| "pf_sub NInf NInf = NaN"
| "pf_sub PInf _ = PInf"
| "pf_sub NInf _ = NInf"
| "pf_sub (Fin a) PInf = NInf"
| "pf_sub (Fin a) NInf = PInf"

fun pf_abs :: "pyfloat \<Rightarrow> pyfloat" where
  "pf_abs (Fin a) = Fin \<bar>a\<bar>"
| "pf_abs NaN = NaN"
| "pf_abs _ = PInf"

text \<open>Division by a float that is not zero.\<close>

fun pf_div :: "pyfloat \<Rightarrow> pyfloat \<Rightarrow> pyfloat" where
  "pf_div (Fin a) (Fin b) = Fin (a / b)"
| "pf_div NaN _ = NaN"
| "pf_div _ NaN = NaN"
| "pf_div (Fin a) _ = Fin 0"
| "pf_div PInf (Fin b) = (if b < 0 then NInf else PInf)"
| "pf_div NInf (Fin b) = (if b < 0 then PInf else NInf)"
| "pf_div _ _ = NaN"

fun pf_less :: "pyfloat \<Rightarrow> pyfloat \<Rightarrow> bool" where
  "pf_less (Fin a) (Fin b) = (a < b)"
| "pf_less NaN _ = False"
| "pf_less _ NaN = False"
| "pf_less NInf b = (b \<noteq> NInf)"
| "pf_less PInf _ = False"
| "pf_less (Fin a) b = (b = PInf)"

definition pf_eq :: "pyfloat \<Rightarrow> pyfloat \<Rightarrow> bool" where
  "pf_eq a b \<longleftrightarrow> a = b \<and> a \<noteq> NaN"

text \<open>
  The values of \<open>dict[str, Any]\<close> and of \<open>json.loads\<close>: a dict is a list of key and value in
  insertion order, with distinct keys. Truth value, \<open>dict.get\<close>, \<open>str()\<close>, and \<open>json.dumps\<close> of
  a string.
\<close>

datatype json =
    JNull
  | JBool bool
  | JInt int
  | JFloat pyfloat
  | JStr string
  | JList "json list"
  | JObj "(string \<times> json) list"

fun truthy :: "json \<Rightarrow> bool" where
  "truthy JNull = False"
| "truthy (JBool b) = b"
| "truthy (JInt i) = (i \<noteq> 0)"
| "truthy (JFloat r) = (r \<noteq> Fin 0)"
| "truthy (JStr s) = (s \<noteq> [])"
| "truthy (JList xs) = (xs \<noteq> [])"
| "truthy (JObj kvs) = (kvs \<noteq> [])"

definition dict_get :: "(string \<times> json) list \<Rightarrow> string \<Rightarrow> json option" where
  "dict_get d k = map_of d k"

definition dict_get_or :: "json \<Rightarrow> (string \<times> json) list \<Rightarrow> string \<Rightarrow> json" where
  "dict_get_or dflt d k = (case map_of d k of None \<Rightarrow> dflt | Some v \<Rightarrow> v)"

definition dict_index :: "(string \<times> json) list \<Rightarrow> string \<Rightarrow> json res" where
  "dict_index d k = (case map_of d k of None \<Rightarrow> Inl (KeyError k) | Some v \<Rightarrow> Inr v)"

text \<open>
  \<open>str(v)\<close>. The rendering of a float and of a container is Python's \<open>repr\<close>, kept as the
  parameter \<open>rp\<close>: nothing in the code depends on its shape.
\<close>

definition py_str :: "(json \<Rightarrow> string) \<Rightarrow> json \<Rightarrow> string" where
  "py_str rp v =
     (case v of
        JStr s \<Rightarrow> s
      | JNull \<Rightarrow> ''None''
      | JBool b \<Rightarrow> (if b then ''True'' else ''False'')
      | JInt i \<Rightarrow> int_str i
      | _ \<Rightarrow> rp v)"

section \<open>\<open>json.dumps\<close> of a string\<close>

definition hex_digit :: "nat \<Rightarrow> char" where
  "hex_digit n = (if n < 10 then char_of (48 + n) else char_of (87 + n))"

text \<open>One character of a JSON string literal, as \<open>ensure_ascii\<close> writes it.\<close>

definition json_escape :: "char \<Rightarrow> string" where
  "json_escape c =
     (let n = (of_char c :: nat) in
      if n = 34 then [char_of (92::nat), char_of (34::nat)]
      else if n = 92 then [char_of (92::nat), char_of (92::nat)]
      else if n = 10 then [char_of (92::nat), CHR ''n'']
      else if n = 13 then [char_of (92::nat), CHR ''r'']
      else if n = 9 then [char_of (92::nat), CHR ''t'']
      else if n = 12 then [char_of (92::nat), CHR ''f'']
      else if n = 8 then [char_of (92::nat), CHR ''b'']
      else if n < 32 \<or> 127 \<le> n
      then [char_of (92::nat), CHR ''u'', CHR ''0'', CHR ''0'', hex_digit (n div 16), hex_digit (n mod 16)]
      else [c])"

definition json_dumps_str :: "string \<Rightarrow> string" where
  "json_dumps_str s = char_of (34::nat) # concat (map json_escape s) @ [char_of (34::nat)]"

text \<open>
  Reading the literal back: \<open>json_read_str s\<close> takes a text after the opening quote and
  returns the string and what follows the closing quote.
\<close>

definition hex_value :: "char \<Rightarrow> nat option" where
  "hex_value c =
     (let n = (of_char c :: nat) in
      if 48 \<le> n \<and> n \<le> 57 then Some (n - 48)
      else if 97 \<le> n \<and> n \<le> 102 then Some (n - 87)
      else if 65 \<le> n \<and> n \<le> 70 then Some (n - 55) else None)"

definition json_unescape :: "char \<Rightarrow> char option" where
  "json_unescape c =
     (let n = (of_char c :: nat) in
      if n = 34 \<or> n = 92 \<or> n = 47 then Some c
      else if n = 110 then Some (char_of (10::nat))
      else if n = 114 then Some (char_of (13::nat))
      else if n = 116 then Some (char_of (9::nat))
      else if n = 102 then Some (char_of (12::nat))
      else if n = 98 then Some (char_of (8::nat))
      else None)"

text \<open>The text after a backslash: the character it stands for and the rest.\<close>

definition json_read_escape :: "string \<Rightarrow> (char \<times> string) option" where
  "json_read_escape s =
     (case s of
        [] \<Rightarrow> None
      | d # t \<Rightarrow>
          (if of_char d = (117::nat) then
             (case t of
                a # b # h # l # t' \<Rightarrow>
                  (case (hex_value h, hex_value l) of
                     (Some x, Some y) \<Rightarrow>
                       (if a = CHR ''0'' \<and> b = CHR ''0'' then Some (char_of (16 * x + y), t') else None)
                   | _ \<Rightarrow> None)
              | _ \<Rightarrow> None)
           else map_option (\<lambda>x. (x, t)) (json_unescape d)))"

lemma json_read_escape_length: "json_read_escape s = Some (x, t) \<Longrightarrow> length t < length s"
  by (auto simp: json_read_escape_def split: list.splits if_splits option.splits)

function json_read_str :: "string \<Rightarrow> (string \<times> string) option" where
  "json_read_str s =
     (case s of
        [] \<Rightarrow> None
      | c # t \<Rightarrow>
          (if of_char c = (34::nat) then Some ([], t)
           else if of_char c = (92::nat) then
             (case json_read_escape t of
                None \<Rightarrow> None
              | Some (x, t') \<Rightarrow> map_option (\<lambda>(w, r). (x # w, r)) (json_read_str t'))
           else if of_char c < (32::nat) then None
           else map_option (\<lambda>(w, r). (c # w, r)) (json_read_str t)))"
  by pat_completeness auto
termination
  by (relation "measure length") (auto dest: json_read_escape_length)

declare json_read_str.simps [simp del]

lemma json_read_plain:
  "of_char c \<noteq> (34::nat) \<Longrightarrow> of_char c \<noteq> (92::nat) \<Longrightarrow> 32 \<le> (of_char c :: nat) \<Longrightarrow>
     json_read_str (c # s) = map_option (\<lambda>(w, r). (c # w, r)) (json_read_str s)"
  by (subst json_read_str.simps) simp

lemma json_read_backslash:
  "json_read_escape t = Some (x, t') \<Longrightarrow>
     json_read_str (char_of (92::nat) # t) = map_option (\<lambda>(w, r). (x # w, r)) (json_read_str t')"
  by (subst json_read_str.simps) simp

lemma json_read_quote: "json_read_str (char_of (34::nat) # s) = Some ([], s)"
  by (subst json_read_str.simps) simp

lemma hex_value_hex_digit: "n < 16 \<Longrightarrow> hex_value (hex_digit n) = Some n"
  by (simp add: hex_digit_def hex_value_def Let_def)

lemma hex_digit_roundtrip:
  assumes "n < 256"
  shows "json_read_escape (''u00'' @ [hex_digit (n div 16), hex_digit (n mod 16)] @ s)
     = Some (char_of n, s)"
proof -
  have "n div 16 < 16" using assms by simp
  then show ?thesis by (simp add: json_read_escape_def hex_value_hex_digit)
qed

lemma json_read_escaped:
  "json_read_str (json_escape c @ s) = map_option (\<lambda>(w, r). (c # w, r)) (json_read_str s)"
proof -
  define n where "n = (of_char c :: nat)"
  have c: "c = char_of n" and n: "n < 256" by (simp_all add: n_def)
  consider (short) "n \<in> {34, 92, 10, 13, 9, 12, 8}" | (hex) "n \<notin> {34, 92, 10, 13, 9, 12, 8}" "n < 32 \<or> 127 \<le> n"
    | (plain) "n \<noteq> 34" "n \<noteq> 92" "32 \<le> n" "n < 127" by fastforce
  then show ?thesis
  proof cases
    case short
    then show ?thesis
      by (auto simp: c json_escape_def Let_def intro!: json_read_backslash)
         (simp_all add: json_read_escape_def json_unescape_def)
  next
    case hex
    then have "json_escape c @ s =
        char_of (92::nat) # ''u00'' @ [hex_digit (n div 16), hex_digit (n mod 16)] @ s"
      by (simp add: json_escape_def Let_def n_def [symmetric])
    then show ?thesis using json_read_backslash [OF hex_digit_roundtrip [OF n, of s]] c by simp
  next
    case plain
    then have "json_escape c = [c]" by (simp add: json_escape_def Let_def n_def [symmetric])
    with plain show ?thesis using json_read_plain [of c s] by (simp add: n_def)
  qed
qed

lemma json_read_dumps_body:
  "json_read_str (concat (map json_escape w) @ char_of (34::nat) # s) = Some (w, s)"
  by (induction w) (simp_all add: json_read_escaped json_read_quote)

text \<open>Reading a literal back gives the string it was made from, and stops at its end.\<close>

lemma json_dumps_roundtrip: "json_read_str (tl (json_dumps_str w) @ s) = Some (w, s)"
  using json_read_dumps_body [of w s] by (simp add: json_dumps_str_def)

end
