(* ===== verification/Graph_Engine.thy ===== *)
theory Graph_Engine
  imports Py_Json
begin

text \<open>
  How an agent graph runs. The graphs are compiled by LangGraph, which is not part of the
  repository; what the code relies on is its documented behaviour: nodes run one at a time
  from the entry point, the partial state a node returns is merged into the state, the next
  node is the declared edge or the answer of the declared router, \<open>interrupt(p)\<close> suspends the
  run with the payload \<open>p\<close>, and a resumed run re-enters the suspended node, whose
  \<open>interrupt\<close> then returns the resume value.

  A component gives its nodes (\<open>exec\<close>, with the resume value, if any) and its edges
  (\<open>route\<close>); the locales here hold what follows for every graph: a graph whose edges go down
  a rank finishes within as many steps (\<open>acyclic_graph\<close>), a fact that holds at the entry and
  along every edge holds wherever the run gets (\<open>graph_invariant\<close>), and a call that no node
  makes while the fact holds is in no trace (\<open>quiet_graph\<close>).
\<close>

type_synonym decision = "(string \<times> json) list"

definition approved_in :: "decision \<Rightarrow> bool" where
  "approved_in d = truthy (dict_get_or JNull d ''approved'')"

text \<open>The resume value the approval routes send.\<close>

definition resume_with :: "bool \<Rightarrow> decision" where
  "resume_with b = [(''approved'', JBool b)]"

lemma approved_in_resume_with [simp]: "approved_in (resume_with b) = b"
  by (simp add: approved_in_def resume_with_def dict_get_or_def)

datatype ('s, 'p) step_out = Update 's | Suspend 'p

datatype ('n, 's, 'p) run_out =
  Finished 's | Suspended 'n 's 'p | Failed exn | OutOfFuel

fun graph_run ::
  "('n \<Rightarrow> decision option \<Rightarrow> 's \<Rightarrow> ('c, ('s, 'p) step_out) eff) \<Rightarrow>
   ('n \<Rightarrow> 's \<Rightarrow> 'n option res) \<Rightarrow> nat \<Rightarrow> 'n \<Rightarrow> decision option \<Rightarrow> 's \<Rightarrow>
   'c list \<times> ('n, 's, 'p) run_out" where
  "graph_run exec route 0 n d s = ([], OutOfFuel)"
| "graph_run exec route (Suc fuel) n d s =
     (case exec n d s of
        (l, Inl e) \<Rightarrow> (l, Failed e)
      | (l, Inr (Suspend p)) \<Rightarrow> (l, Suspended n s p)
      | (l, Inr (Update s')) \<Rightarrow>
          (case route n s' of
             Inl e \<Rightarrow> (l, Failed e)
           | Inr None \<Rightarrow> (l, Finished s')
           | Inr (Some n') \<Rightarrow>
               (case graph_run exec route fuel n' None s' of (l', r) \<Rightarrow> (l @ l', r))))"

lemma graph_run_raise [simp]:
  "exec n d s = (l, Inl e) \<Longrightarrow> graph_run exec route (Suc fuel) n d s = (l, Failed e)"
  by simp

lemma graph_run_suspend [simp]:
  "exec n d s = (l, Inr (Suspend p)) \<Longrightarrow> graph_run exec route (Suc fuel) n d s = (l, Suspended n s p)"
  by simp

lemma graph_run_step:
  "exec n d s = (l, Inr (Update s')) \<Longrightarrow> route n s' = Inr (Some n') \<Longrightarrow>
     graph_run exec route (Suc fuel) n d s
       = (l @ fst (graph_run exec route fuel n' None s'), snd (graph_run exec route fuel n' None s'))"
  by (simp split: prod.splits)

text \<open>The four ways a run goes on, for proofs by induction on the fuel.\<close>

lemma graph_run_cases:
  obtains (Raise) l e where "exec n d s = (l, Inl e)"
      "graph_run exec route (Suc fuel) n d s = (l, Failed e)"
  | (Susp) l p where "exec n d s = (l, Inr (Suspend p))"
      "graph_run exec route (Suc fuel) n d s = (l, Suspended n s p)"
  | (Stop) l s' where "exec n d s = (l, Inr (Update s'))"
      "(\<exists>e. route n s' = Inl e \<and> graph_run exec route (Suc fuel) n d s = (l, Failed e))
       \<or> route n s' = Inr None \<and> graph_run exec route (Suc fuel) n d s = (l, Finished s')"
  | (Step) l s' n' where "exec n d s = (l, Inr (Update s'))" "route n s' = Inr (Some n')"
      "graph_run exec route (Suc fuel) n d s
         = (l @ fst (graph_run exec route fuel n' None s'), snd (graph_run exec route fuel n' None s'))"
proof -
  obtain l r where r: "exec n d s = (l, r)" by fastforce
  show thesis
  proof (cases r)
    case (Inl e)
    with r show thesis by (intro Raise) simp_all
  next
    case (Inr out)
    show thesis
    proof (cases out)
      case (Suspend p)
      with r Inr show thesis by (intro Susp) simp_all
    next
      case (Update s')
      note ex = r [unfolded Inr Update]
      show thesis
      proof (cases "route n s'")
        case (Inl e)
        with ex show thesis by (intro Stop [OF ex]) simp
      next
        case (Inr t)
        show thesis
        proof (cases t)
          case None
          with ex Inr show thesis by (intro Stop [OF ex]) simp
        next
          case (Some n')
          with Inr have rt: "route n s' = Inr (Some n')" by simp
          show thesis
            by (rule Step [OF ex rt graph_run_step [of exec n d s l s' route n' fuel, OF ex rt]])
        qed
      qed
    qed
  qed
qed

text \<open>A suspension comes from a node that interrupted on the saved state.\<close>

lemma suspended_exec:
  "snd (graph_run exec route fuel n d s) = Suspended m t p \<Longrightarrow>
     \<exists>d' l. exec m d' t = (l, Inr (Suspend p))"
proof (induction fuel arbitrary: n d s)
  case (Suc fuel)
  show ?case
    by (cases rule: graph_run_cases [of exec n d s route fuel]) (use Suc in auto)
qed simp

text \<open>Every call of a run was made by some node.\<close>

lemma trace_from_exec:
  "e \<in> set (fst (graph_run exec route fuel n d s)) \<Longrightarrow> \<exists>m d' t. e \<in> set (trace (exec m d' t))"
proof (induction fuel arbitrary: n d s)
  case (Suc fuel)
  show ?case
  proof (cases rule: graph_run_cases [of exec n d s route fuel])
    case (Step l s' n')
    with Suc.prems consider "e \<in> set (trace (exec n d s))"
      | "e \<in> set (fst (graph_run exec route fuel n' None s'))" by auto
    then show ?thesis by cases (use Suc.IH in blast)+
  next
    case (Stop l s')
    with Suc.prems have "e \<in> set (trace (exec n d s))" by auto
    then show ?thesis by blast
  next
    case (Raise l x)
    with Suc.prems have "e \<in> set (trace (exec n d s))" by auto
    then show ?thesis by blast
  next
    case (Susp l x)
    with Suc.prems have "e \<in> set (trace (exec n d s))" by auto
    then show ?thesis by blast
  qed
qed simp

text \<open>\<open>interrupt(p)\<close>: a fresh run suspends, a resumed one goes on with the resume value.\<close>

definition interrupt ::
  "'p \<Rightarrow> decision option \<Rightarrow> (decision \<Rightarrow> ('c, ('s, 'p) step_out) eff) \<Rightarrow> ('c, ('s, 'p) step_out) eff"
where
  "interrupt p d k = (case d of None \<Rightarrow> eff_return (Suspend p) | Some v \<Rightarrow> k v)"

lemma interrupt_simps [simp]:
  "interrupt p None k = eff_return (Suspend p)" "interrupt p (Some v) k = k v"
  by (simp_all add: interrupt_def)

abbreviation update :: "'s \<Rightarrow> ('c, ('s, 'p) step_out) eff" where
  "update s \<equiv> eff_return (Update s)"

section \<open>Graphs without cycles finish\<close>

locale acyclic_graph =
  fixes exec :: "'n \<Rightarrow> decision option \<Rightarrow> 's \<Rightarrow> ('c, ('s, 'p) step_out) eff"
    and route :: "'n \<Rightarrow> 's \<Rightarrow> 'n option res"
    and rank :: "'n \<Rightarrow> nat"
  assumes descends: "route n s = Inr (Some n') \<Longrightarrow> rank n' < rank n"
begin

lemma enough_fuel: "rank n < fuel \<Longrightarrow> snd (graph_run exec route fuel n d s) \<noteq> OutOfFuel"
proof (induction fuel arbitrary: n d s)
  case (Suc fuel)
  show ?case
  proof (cases rule: graph_run_cases [of exec n d s route fuel])
    case (Step l s' n')
    with descends [OF Step(2)] Suc show ?thesis by simp
  qed auto
qed simp

text \<open>More fuel than that changes nothing.\<close>

lemma fuel_irrelevant:
  "rank n < fuel \<Longrightarrow> rank n < fuel' \<Longrightarrow>
     graph_run exec route fuel n d s = graph_run exec route fuel' n d s"
proof (induction fuel arbitrary: fuel' n d s)
  case (Suc fuel)
  then obtain k where k: "fuel' = Suc k" by (cases fuel') auto
  show ?case
  proof (cases rule: graph_run_cases [of exec n d s route fuel])
    case (Step l s' n')
    have lt: "rank n' < fuel" "rank n' < k" using descends [OF Step(2)] Suc.prems k by simp_all
    have "graph_run exec route fuel n' None s' = graph_run exec route k n' None s'"
      by (rule Suc.IH [OF lt])
    with Step(3) graph_run_step [of exec n d s l s' route n' k, OF Step(1,2)] show ?thesis
      unfolding k by simp
  qed (auto simp: k)
qed simp

end

section \<open>Invariants along the edges, and calls that are never made\<close>

locale graph_invariant =
  fixes exec :: "'n \<Rightarrow> decision option \<Rightarrow> 's \<Rightarrow> ('c, ('s, 'p) step_out) eff"
    and route :: "'n \<Rightarrow> 's \<Rightarrow> 'n option res"
    and inv :: "'n \<Rightarrow> 's \<Rightarrow> bool"
  assumes keeps: "inv n s \<Longrightarrow> exec n None s = (l, Inr (Update s')) \<Longrightarrow>
      route n s' = Inr (Some n') \<Longrightarrow> inv n' s'"
begin

text \<open>Where a run suspends, the invariant of the suspended node holds of the saved state.\<close>

lemma suspended_inv:
  "inv n s \<Longrightarrow> snd (graph_run exec route fuel n None s) = Suspended m t p \<Longrightarrow> inv m t"
proof (induction fuel arbitrary: n s)
  case (Suc fuel)
  show ?case
  proof (cases rule: graph_run_cases [of exec n None s route fuel])
    case (Step l s' n')
    with Suc keeps [OF Suc.prems(1) Step(1,2)] show ?thesis by auto
  qed (use Suc.prems in auto)
qed simp

text \<open>A state a run finishes with was left by some node whose invariant held.\<close>

lemma finished_inv:
  "inv n s \<Longrightarrow> snd (graph_run exec route fuel n None s) = Finished t \<Longrightarrow>
     \<exists>m u l. inv m u \<and> exec m None u = (l, Inr (Update t)) \<and> route m t = Inr None"
proof (induction fuel arbitrary: n s)
  case (Suc fuel)
  show ?case
  proof (cases rule: graph_run_cases [of exec n None s route fuel])
    case (Stop l s')
    with Suc.prems have "exec n None s = (l, Inr (Update t))" "route n t = Inr None" by auto
    with Suc.prems(1) show ?thesis by blast
  next
    case (Step l s' n')
    with Suc keeps [OF Suc.prems(1) Step(1,2)] show ?thesis by auto
  qed (use Suc.prems in auto)
qed simp

end

locale quiet_graph = graph_invariant exec route inv
  for exec :: "'n \<Rightarrow> decision option \<Rightarrow> 's \<Rightarrow> ('c, ('s, 'p) step_out) eff"
    and route :: "'n \<Rightarrow> 's \<Rightarrow> 'n option res"
    and inv :: "'n \<Rightarrow> 's \<Rightarrow> bool" +
  fixes bad :: "'c \<Rightarrow> bool"
  assumes quiet: "inv n s \<Longrightarrow> e \<in> set (trace (exec n None s)) \<Longrightarrow> \<not> bad e"
begin

lemma no_bad_call:
  "inv n s \<Longrightarrow> e \<in> set (fst (graph_run exec route fuel n None s)) \<Longrightarrow> \<not> bad e"
proof (induction fuel arbitrary: n s)
  case (Suc fuel)
  note q = quiet [OF Suc.prems(1), of e]
  show ?case
  proof (cases rule: graph_run_cases [of exec n None s route fuel])
    case (Step l s' n')
    with Suc q keeps [OF Suc.prems(1) Step(1,2)] show ?thesis by auto
  next
    case (Stop l s')
    with Suc.prems q show ?thesis by auto
  qed (use Suc.prems q in auto)
qed simp

text \<open>The same after a resumed node, if what it does itself is quiet.\<close>

lemma no_bad_call_resumed:
  assumes "\<And>l r. exec n (Some d) s = (l, r) \<Longrightarrow> \<forall>e \<in> set l. \<not> bad e"
    and "\<And>l s' n'. exec n (Some d) s = (l, Inr (Update s')) \<Longrightarrow> route n s' = Inr (Some n') \<Longrightarrow> inv n' s'"
    and "e \<in> set (fst (graph_run exec route fuel n (Some d) s))"
  shows "\<not> bad e"
proof (cases fuel)
  case (Suc k)
  show ?thesis
  proof (cases rule: graph_run_cases [of exec n "Some d" s route k])
    case (Step l s' n')
    with assms Suc no_bad_call [of n' s' e k] show ?thesis by (auto dest: assms(1))
  next
    case (Stop l s')
    with assms Suc show ?thesis by (auto dest: assms(1))
  qed (use assms Suc in \<open>auto dest: assms(1)\<close>)
qed (use assms in simp)

end

end
