(* ===== verification/Kill_Switch.thy ===== *)
theory Kill_Switch
  imports Py_Strings
begin

text \<open>
  The kill switches of \<open>apps/runtime/core/killswitch.py\<close>: the per-agent pause with its
  in-process five-second cache, and the uncached global read-only flag. Redis is not part of
  the repository: its \<open>GET\<close> and \<open>SET\<close> are the parameters \<open>rget\<close> and \<open>rset\<close>, and the
  locale \<open>redis_store\<close> states the documented law that relates them.
\<close>

section \<open>The Redis interface\<close>

datatype redis_value = RStr string | RBytes string

locale redis_store =
  fixes rget :: "'r \<Rightarrow> string \<Rightarrow> redis_value option"
    and rset :: "'r \<Rightarrow> string \<Rightarrow> string \<Rightarrow> 'r"
  assumes get_set_same: "rget (rset r k v) k \<in> {Some (RStr v), Some (RBytes v)}"
    and get_set_other: "k' \<noteq> k \<Longrightarrow> rget (rset r k v) k' = rget r k'"

section \<open>The operations\<close>

text \<open>Times are microseconds.\<close>

definition pause_cache_ttl :: int where
  "pause_cache_ttl = 5000000"

definition global_read_only_key :: string where
  "global_read_only_key = ''global:read_only''"

definition is_flag_set :: "redis_value option \<Rightarrow> bool" where
  "is_flag_set v =
     (case v of None \<Rightarrow> False | Some (RBytes b) \<Rightarrow> b = ''1'' | Some (RStr s) \<Rightarrow> s = ''1'')"

definition pause_key :: "string \<Rightarrow> string" where
  "pause_key agent_id = ''agent:paused:'' @ agent_id"

type_synonym pause_cache = "string \<rightharpoonup> bool \<times> int"

definition is_agent_paused ::
  "('r \<Rightarrow> string \<Rightarrow> redis_value option) \<Rightarrow> 'r \<Rightarrow> pause_cache \<Rightarrow> int \<Rightarrow> string \<Rightarrow> bool \<times> pause_cache"
where
  "is_agent_paused rget r cache now agent_id =
     (let refresh = (let paused = is_flag_set (rget r (pause_key agent_id))
                     in (paused, cache(agent_id \<mapsto> (paused, now))))
      in case cache agent_id of
           Some (b, stamp) \<Rightarrow> if now - stamp < pause_cache_ttl then (b, cache) else refresh
         | None \<Rightarrow> refresh)"

definition blocks_tool ::
  "('r \<Rightarrow> string \<Rightarrow> redis_value option) \<Rightarrow> 'r \<Rightarrow> string \<Rightarrow> bool" where
  "blocks_tool rget r risk_class =
     (if \<not> startswith risk_class ''write:'' then False
      else is_flag_set (rget r global_read_only_key))"

definition pause_agent :: "('r \<Rightarrow> string \<Rightarrow> string \<Rightarrow> 'r) \<Rightarrow> 'r \<Rightarrow> string \<Rightarrow> 'r" where
  "pause_agent rset r agent_id = rset r (pause_key agent_id) ''1''"

definition resume_agent :: "('r \<Rightarrow> string \<Rightarrow> string \<Rightarrow> 'r) \<Rightarrow> 'r \<Rightarrow> string \<Rightarrow> 'r" where
  "resume_agent rset r agent_id = rset r (pause_key agent_id) ''0''"

definition set_global_read_only :: "('r \<Rightarrow> string \<Rightarrow> string \<Rightarrow> 'r) \<Rightarrow> 'r \<Rightarrow> bool \<Rightarrow> 'r" where
  "set_global_read_only rset r enabled =
     rset r global_read_only_key (if enabled then ''1'' else ''0'')"

definition is_global_read_only :: "('r \<Rightarrow> string \<Rightarrow> redis_value option) \<Rightarrow> 'r \<Rightarrow> bool" where
  "is_global_read_only rget r = is_flag_set (rget r global_read_only_key)"

text \<open>
  What a graph sees of its kill switch while it runs: the answers of \<open>is_agent_paused\<close> and
  of \<open>blocks_tool\<close>. A graph built without a kill switch has none.
\<close>

record kill_view =
  kv_paused :: "string \<Rightarrow> bool"
  kv_blocks :: "string \<Rightarrow> bool"

definition view_at ::
  "('r \<Rightarrow> string \<Rightarrow> redis_value option) \<Rightarrow> 'r \<Rightarrow> pause_cache \<Rightarrow> int \<Rightarrow> kill_view" where
  "view_at rget r cache now =
     \<lparr>kv_paused = (\<lambda>a. fst (is_agent_paused rget r cache now a)), kv_blocks = blocks_tool rget r\<rparr>"

definition gate_closed :: "kill_view option \<Rightarrow> string \<Rightarrow> bool" where
  "gate_closed ks agent = (case ks of None \<Rightarrow> False | Some v \<Rightarrow> kv_paused v agent)"

definition tool_blocked :: "kill_view option \<Rightarrow> string \<Rightarrow> bool" where
  "tool_blocked ks risk = (case ks of None \<Rightarrow> False | Some v \<Rightarrow> kv_blocks v risk)"

section \<open>Timed executions\<close>

text \<open>
  One process and the admin actions of any process, in time order: each event carries the
  time it happens at. A check returns its answer and updates the process's cache.
\<close>

datatype ks_event = Pause string | Resume string | ReadOnly bool | Check string

fun ks_step ::
  "('r \<Rightarrow> string \<Rightarrow> redis_value option) \<Rightarrow> ('r \<Rightarrow> string \<Rightarrow> string \<Rightarrow> 'r) \<Rightarrow>
     'r \<times> pause_cache \<Rightarrow> int \<times> ks_event \<Rightarrow> 'r \<times> pause_cache" where
  "ks_step rget rset (r, cache) (now, Pause a) = (pause_agent rset r a, cache)"
| "ks_step rget rset (r, cache) (now, Resume a) = (resume_agent rset r a, cache)"
| "ks_step rget rset (r, cache) (now, ReadOnly b) = (set_global_read_only rset r b, cache)"
| "ks_step rget rset (r, cache) (now, Check a) = (r, snd (is_agent_paused rget r cache now a))"

definition ks_run ::
  "('r \<Rightarrow> string \<Rightarrow> redis_value option) \<Rightarrow> ('r \<Rightarrow> string \<Rightarrow> string \<Rightarrow> 'r) \<Rightarrow>
     'r \<times> pause_cache \<Rightarrow> (int \<times> ks_event) list \<Rightarrow> 'r \<times> pause_cache" where
  "ks_run rget rset = foldl (ks_step rget rset)"

text \<open>No cache entry is stamped after \<open>t\<close>.\<close>

definition cache_before :: "pause_cache \<Rightarrow> int \<Rightarrow> bool" where
  "cache_before cache t \<longleftrightarrow> (\<forall>a b s. cache a = Some (b, s) \<longrightarrow> s \<le> t)"

lemma cache_before_empty [simp]: "cache_before Map.empty t"
  by (simp add: cache_before_def)

text \<open>The Redis flag is set, and every negative cache entry is from time \<open>t\<close> or before.\<close>

definition paused_since ::
  "('r \<Rightarrow> string \<Rightarrow> redis_value option) \<Rightarrow> string \<Rightarrow> int \<Rightarrow> 'r \<times> pause_cache \<Rightarrow> bool" where
  "paused_since rget a t st \<longleftrightarrow>
     is_flag_set (rget (fst st) (pause_key a))
     \<and> (\<forall>s. snd st a = Some (False, s) \<longrightarrow> s \<le> t)"

lemma pause_key_inject [simp]: "pause_key a = pause_key b \<longleftrightarrow> a = b"
  by (simp add: pause_key_def)

lemma pause_key_not_global [simp]:
  "pause_key a \<noteq> global_read_only_key" "global_read_only_key \<noteq> pause_key a"
  by (simp_all add: pause_key_def global_read_only_key_def)

context redis_store
begin

lemma flag_set [simp]:
  "is_flag_set (rget (rset r k v) k') \<longleftrightarrow>
     (if k' = k then v = ''1'' else is_flag_set (rget r k'))"
  using get_set_same [of r k v] get_set_other [of k' k r v] by (auto simp: is_flag_set_def)

lemma read_only_roundtrip: "is_global_read_only rget (set_global_read_only rset r b) = b"
  by (simp add: is_global_read_only_def set_global_read_only_def)

lemma read_only_blocks:
  "blocks_tool rget (set_global_read_only rset r True) risk \<longleftrightarrow> startswith risk ''write:''"
  by (simp add: blocks_tool_def set_global_read_only_def)

lemma step_keeps_paused:
  assumes "paused_since rget a t st" "snd e \<noteq> Resume a"
  shows "paused_since rget a t (ks_step rget rset st e)"
proof (cases st)
  case (Pair r cache)
  obtain now ev where e: "e = (now, ev)" by (cases e)
  have flag: "is_flag_set (rget r (pause_key a))"
    using assms(1) Pair by (simp add: paused_since_def)
  show ?thesis
  proof (cases ev)
    case (Check b)
    with flag assms Pair e show ?thesis
      by (auto simp: paused_since_def is_agent_paused_def Let_def split: option.splits)
  qed (use assms Pair e in \<open>auto simp: paused_since_def pause_agent_def resume_agent_def
        set_global_read_only_def get_set_other\<close>)
qed

lemma run_keeps_paused:
  "paused_since rget a t st \<Longrightarrow> Resume a \<notin> snd ` set es \<Longrightarrow>
     paused_since rget a t (ks_run rget rset st es)"
proof (induction es arbitrary: st)
  case (Cons e es)
  then have "paused_since rget a t (ks_step rget rset st e)"
    by (intro step_keeps_paused) auto
  with Cons show ?case by (simp add: ks_run_def)
qed (simp add: ks_run_def)

lemma paused_check:
  assumes "paused_since rget a t (r, cache)" "t + pause_cache_ttl \<le> now"
  shows "fst (is_agent_paused rget r cache now a)"
  using assms
  by (auto simp: paused_since_def is_agent_paused_def Let_def split: option.splits prod.splits
      bool.splits)

lemma pause_within_ttl:
  assumes "cache_before cache t" "Resume a \<notin> snd ` set es" "t + pause_cache_ttl \<le> now"
    and "ks_run rget rset (r, cache) ((t, Pause a) # es) = (r', cache')"
  shows "fst (is_agent_paused rget r' cache' now a)"
proof -
  have "paused_since rget a t (pause_agent rset r a, cache)"
    using assms(1) by (auto simp: paused_since_def cache_before_def pause_agent_def)
  then have "paused_since rget a t (ks_run rget rset (r, cache) ((t, Pause a) # es))"
    using run_keeps_paused assms(2) by (simp add: ks_run_def)
  then show ?thesis using paused_check assms(3,4) by simp
qed

end

section \<open>A dictionary as the store\<close>

text \<open>
  The law holds of a plain dictionary, which is what the code's own unit tests use in place
  of Redis.
\<close>

definition store_get :: "(string \<rightharpoonup> string) \<Rightarrow> string \<Rightarrow> redis_value option" where
  "store_get d k = map_option RStr (d k)"

definition store_set :: "(string \<rightharpoonup> string) \<Rightarrow> string \<Rightarrow> string \<Rightarrow> (string \<rightharpoonup> string)" where
  "store_set d k v = d(k \<mapsto> v)"

interpretation dict_store: redis_store store_get store_set
  by unfold_locales (simp_all add: store_get_def store_set_def)

end
