(* ===== verification/Py_Regex.thy ===== *)
theory Py_Regex
  imports Py_Strings
begin

text \<open>
  Python's \<open>re\<close>, for the patterns this repository compiles: a backtracking matcher that
  lists every way to match at a position, in the order Python tries them (greedy operators
  first take one more, lazy ones first stop), so the head of the list is the match. A position
  is the character before it (\<open>None\<close> at the start) and the rest of the text; captures are an
  association list, latest first. \<open>rx_segs\<close> is the left-to-right scan behind \<open>finditer\<close>,
  \<open>sub\<close>, \<open>findall\<close> and \<open>search\<close>; no pattern of the repository matches the empty string there.
\<close>

section \<open>Syntax\<close>

datatype rx =
    Eps
  | Cls "char \<Rightarrow> bool"
  | Seq rx rx
  | Alt rx rx
  | Star rx
  | LazyStar rx
  | Group nat rx
  | Backref nat
  | Bos
  | Eos
  | WordB

definition Plus :: "rx \<Rightarrow> rx" where
  "Plus r = Seq r (Star r)"

definition Opt :: "rx \<Rightarrow> rx" where
  "Opt r = Alt r Eps"

definition lits :: "string \<Rightarrow> rx" where
  "lits w = foldr (\<lambda>c r. Seq (Cls (\<lambda>x. x = c)) r) w Eps"

definition lits_ci :: "string \<Rightarrow> rx" where
  "lits_ci w = foldr (\<lambda>c r. Seq (Cls (\<lambda>x. lower_char x = lower_char c)) r) w Eps"

fun times :: "nat \<Rightarrow> rx \<Rightarrow> rx" where
  "times 0 r = Eps"
| "times (Suc n) r = Seq r (times n r)"

text \<open>\<open>r{0,n}\<close>, greedy.\<close>

fun upto_times :: "nat \<Rightarrow> rx \<Rightarrow> rx" where
  "upto_times 0 r = Eps"
| "upto_times (Suc n) r = Opt (Seq r (upto_times n r))"

fun seqs :: "rx list \<Rightarrow> rx" where
  "seqs [] = Eps"
| "seqs [r] = r"
| "seqs (r # rs) = Seq r (seqs rs)"

fun alts :: "rx list \<Rightarrow> rx" where
  "alts [] = Cls (\<lambda>_. False)"
| "alts [r] = r"
| "alts (r # rs) = Alt r (alts rs)"

definition word_char :: "char \<Rightarrow> bool" where
  "word_char c = (let n = (of_char c :: nat)
     in (48 \<le> n \<and> n \<le> 57) \<or> (65 \<le> n \<and> n \<le> 90) \<or> n = 95 \<or> (97 \<le> n \<and> n \<le> 122)
        \<or> n = 170 \<or> n = 178 \<or> n = 179 \<or> n = 181 \<or> n = 185 \<or> n = 186
        \<or> (188 \<le> n \<and> n \<le> 190) \<or> (192 \<le> n \<and> n \<noteq> 215 \<and> n \<noteq> 247))"

definition in_range :: "char \<Rightarrow> char \<Rightarrow> char \<Rightarrow> bool" where
  "in_range a b c \<longleftrightarrow> (of_char a :: nat) \<le> of_char c \<and> (of_char c :: nat) \<le> of_char b"

section \<open>Matching\<close>

type_synonym caps = "(nat \<times> string) list"
type_synonym position = "char option \<times> string \<times> caps"

definition at_word_boundary :: "char option \<Rightarrow> string \<Rightarrow> bool" where
  "at_word_boundary p s \<longleftrightarrow>
     (case p of None \<Rightarrow> False | Some c \<Rightarrow> word_char c) \<noteq> (case s of [] \<Rightarrow> False | c # _ \<Rightarrow> word_char c)"

function rx_match :: "rx \<Rightarrow> char option \<Rightarrow> string \<Rightarrow> caps \<Rightarrow> position list" where
  "rx_match Eps p s g = [(p, s, g)]"
| "rx_match (Cls f) p s g = (case s of [] \<Rightarrow> [] | c # t \<Rightarrow> if f c then [(Some c, t, g)] else [])"
| "rx_match (Seq a b) p s g =
     concat (map (\<lambda>(p', s', g'). rx_match b p' s' g') (rx_match a p s g))"
| "rx_match (Alt a b) p s g = rx_match a p s g @ rx_match b p s g"
| "rx_match (Star a) p s g =
     concat (map (\<lambda>(p', s', g'). if length s' < length s then rx_match (Star a) p' s' g' else [])
               (rx_match a p s g)) @ [(p, s, g)]"
| "rx_match (LazyStar a) p s g =
     (p, s, g) #
     concat (map (\<lambda>(p', s', g'). if length s' < length s then rx_match (LazyStar a) p' s' g' else [])
               (rx_match a p s g))"
| "rx_match (Group i a) p s g =
     map (\<lambda>(p', s', g'). (p', s', (i, take (length s - length s') s) # g')) (rx_match a p s g)"
| "rx_match (Backref i) p s g =
     (case map_of g i of
        None \<Rightarrow> []
      | Some w \<Rightarrow> (if startswith s w
                   then [(if w = [] then p else Some (last w), drop (length w) s, g)] else []))"
| "rx_match Bos p s g = (if p = None then [(p, s, g)] else [])"
| "rx_match Eos p s g = (if s = [] \<or> s = [char_of (10::nat)] then [(p, s, g)] else [])"
| "rx_match WordB p s g = (if at_word_boundary p s then [(p, s, g)] else [])"
  by pat_completeness auto
termination
  by (relation "measures [\<lambda>(r, p, s, g). size r, \<lambda>(r, p, s, g). length s]") auto

declare rx_match.simps(5,6) [simp del]

lemma star_member:
  "x \<in> set (rx_match (Star a) p s g) \<longleftrightarrow> x = (p, s, g) \<or>
     (\<exists>p1 s1 g1. (p1, s1, g1) \<in> set (rx_match a p s g) \<and> length s1 < length s
        \<and> x \<in> set (rx_match (Star a) p1 s1 g1))"
  by (subst rx_match.simps) (force split: if_splits)

lemma lazy_star_member:
  "x \<in> set (rx_match (LazyStar a) p s g) \<longleftrightarrow> x = (p, s, g) \<or>
     (\<exists>p1 s1 g1. (p1, s1, g1) \<in> set (rx_match a p s g) \<and> length s1 < length s
        \<and> x \<in> set (rx_match (LazyStar a) p1 s1 g1))"
  by (subst rx_match.simps) (force split: if_splits)

text \<open>A match consumes a prefix.\<close>

lemma rx_match_suffix:
  "(p', s', g') \<in> set (rx_match r p s g) \<Longrightarrow> \<exists>u. s = u @ s'"
proof (induction r p s g arbitrary: p' s' g' rule: rx_match.induct)
  case (3 a b p s g)
  from "3.prems" obtain p1 s1 g1 where 1: "(p1, s1, g1) \<in> set (rx_match a p s g)"
    and 2: "(p', s', g') \<in> set (rx_match b p1 s1 g1)" by auto
  from "3.IH"(1) [OF 1] obtain u1 where u1: "s = u1 @ s1" by blast
  from "3.IH"(2) 1 2 obtain u2 where u2: "s1 = u2 @ s'" by blast
  from u1 u2 have "s = (u1 @ u2) @ s'" by simp
  then show ?case by blast
next
  case (5 a p s g)
  from "5.prems" consider "(p', s', g') = (p, s, g)"
    | p1 s1 g1 where "(p1, s1, g1) \<in> set (rx_match a p s g)" "length s1 < length s"
        "(p', s', g') \<in> set (rx_match (Star a) p1 s1 g1)"
    unfolding star_member [of "(p', s', g')" a p s g] by blast
  then show ?case
  proof cases
    case 2
    from "5.IH"(1) [OF 2(1)] obtain u1 where u1: "s = u1 @ s1" by blast
    from "5.IH"(2) 2 obtain u2 where u2: "s1 = u2 @ s'" by blast
    from u1 u2 have "s = (u1 @ u2) @ s'" by simp
    then show ?thesis by blast
  qed auto
next
  case (6 a p s g)
  from "6.prems" consider "(p', s', g') = (p, s, g)"
    | p1 s1 g1 where "(p1, s1, g1) \<in> set (rx_match a p s g)" "length s1 < length s"
        "(p', s', g') \<in> set (rx_match (LazyStar a) p1 s1 g1)"
    unfolding lazy_star_member [of "(p', s', g')" a p s g] by blast
  then show ?case
  proof cases
    case 2
    from "6.IH"(1) [OF 2(1)] obtain u1 where u1: "s = u1 @ s1" by blast
    from "6.IH"(2) 2 obtain u2 where u2: "s1 = u2 @ s'" by blast
    from u1 u2 have "s = (u1 @ u2) @ s'" by simp
    then show ?thesis by blast
  qed auto
next
  case (8 i p s g)
  from "8.prems" obtain w where "startswith s w" "s' = drop (length w) s"
    by (auto split: option.splits if_splits)
  then show ?case by (metis append_take_drop_id)
qed (auto split: list.splits if_splits)

lemma rx_match_head_suffix: "rx_match r p s g = (p', s', g') # ms \<Longrightarrow> \<exists>u. s = u @ s'"
  using rx_match_suffix [of p' s' g' r p s g] by simp

section \<open>Scanning\<close>

datatype seg = Skip char | Hit string caps

text \<open>The match at this position, if there is one and it is not empty.\<close>

definition next_match :: "rx \<Rightarrow> char option \<Rightarrow> string \<Rightarrow> position option" where
  "next_match r p s =
     (case rx_match r p s [] of
        [] \<Rightarrow> None
      | (p', s', g) # _ \<Rightarrow> if length s' < length s then Some (p', s', g) else None)"

lemma next_match_Some:
  assumes "next_match r p s = Some (p', s', g)"
  obtains u where "s = u @ s'" "u \<noteq> []" "(p', s', g) \<in> set (rx_match r p s [])"
proof -
  from assms obtain ms where m: "rx_match r p s [] = (p', s', g) # ms" "length s' < length s"
    by (auto simp: next_match_def split: list.splits prod.splits if_splits)
  from rx_match_head_suffix [OF m(1)] obtain u where "s = u @ s'" by blast
  with m show thesis by (intro that [of u]) auto
qed

lemma next_match_length: "next_match r p s = Some (p', s', g) \<Longrightarrow> length s' < length s"
  by (erule next_match_Some) auto

function rx_segs :: "rx \<Rightarrow> char option \<Rightarrow> string \<Rightarrow> seg list" where
  "rx_segs r p s =
     (case next_match r p s of
        Some (p', s', g) \<Rightarrow> Hit (take (length s - length s') s) g # rx_segs r p' s'
      | None \<Rightarrow> (case s of [] \<Rightarrow> [] | c # t \<Rightarrow> Skip c # rx_segs r (Some c) t))"
  by pat_completeness auto
termination
  by (relation "measure (\<lambda>(r, p, s). length s)") (auto dest: next_match_length)

declare rx_segs.simps [simp del]

fun seg_text :: "seg \<Rightarrow> string" where
  "seg_text (Skip c) = [c]"
| "seg_text (Hit w g) = w"

fun seg_sub :: "(string \<Rightarrow> caps \<Rightarrow> string) \<Rightarrow> seg \<Rightarrow> string" where
  "seg_sub f (Skip c) = [c]"
| "seg_sub f (Hit w g) = f w g"

definition rx_sub :: "rx \<Rightarrow> (string \<Rightarrow> caps \<Rightarrow> string) \<Rightarrow> string \<Rightarrow> string" where
  "rx_sub r f s = concat (map (seg_sub f) (rx_segs r None s))"

definition rx_finditer :: "rx \<Rightarrow> string \<Rightarrow> (string \<times> caps) list" where
  "rx_finditer r s = List.map_filter (\<lambda>x. case x of Skip _ \<Rightarrow> None | Hit w g \<Rightarrow> Some (w, g))
     (rx_segs r None s)"

definition rx_search :: "rx \<Rightarrow> string \<Rightarrow> (string \<times> caps) option" where
  "rx_search r s = (case rx_finditer r s of [] \<Rightarrow> None | m # _ \<Rightarrow> Some m)"

text \<open>\<open>pattern.match(s)\<close>: anchored at the start.\<close>

definition rx_at_start :: "rx \<Rightarrow> string \<Rightarrow> caps option" where
  "rx_at_start r s = (case rx_match r None s [] of [] \<Rightarrow> None | (_, _, g) # _ \<Rightarrow> Some g)"

text \<open>\<open>m.group(i)\<close> of a capture known to have taken part in the match.\<close>

definition cap :: "caps \<Rightarrow> nat \<Rightarrow> string" where
  "cap g i = (case map_of g i of Some w \<Rightarrow> w | None \<Rightarrow> [])"

lemma rx_segs_hit:
  "next_match r p s = Some (p', s', g) \<Longrightarrow>
     rx_segs r p s = Hit (take (length s - length s') s) g # rx_segs r p' s'"
  by (subst rx_segs.simps) simp

lemma rx_segs_skip:
  "next_match r p (c # t) = None \<Longrightarrow> rx_segs r p (c # t) = Skip c # rx_segs r (Some c) t"
  by (subst rx_segs.simps) simp

lemma next_match_Nil [simp]: "next_match r p [] = None"
  by (auto simp: next_match_def split: list.splits)

lemma rx_segs_Nil [simp]: "rx_segs r p [] = []"
  by (subst rx_segs.simps) simp

text \<open>The three cases of a scan, as an induction rule.\<close>

lemma scan_induct [case_names Nil Hit Skip]:
  assumes "\<And>p. P p []"
    and "\<And>p s u p' s' g. next_match r p s = Some (p', s', g) \<Longrightarrow> s = u @ s' \<Longrightarrow> u \<noteq> [] \<Longrightarrow>
      (p', s', g) \<in> set (rx_match r p s []) \<Longrightarrow> rx_segs r p s = Hit u g # rx_segs r p' s' \<Longrightarrow>
      P p' s' \<Longrightarrow> P p s"
    and "\<And>p c t. next_match r p (c # t) = None \<Longrightarrow> rx_segs r p (c # t) = Skip c # rx_segs r (Some c) t
      \<Longrightarrow> P (Some c) t \<Longrightarrow> P p (c # t)"
  shows "P p s"
proof (induction s arbitrary: p rule: length_induct)
  case (1 s)
  show ?case
  proof (cases "next_match r p s")
    case None
    show ?thesis
    proof (cases s)
      case (Cons c t)
      with None 1 show ?thesis by (auto intro: assms(3) rx_segs_skip)
    qed (simp add: assms(1))
  next
    case (Some m)
    obtain p' s' g where m: "m = (p', s', g)" by (cases m) auto
    from next_match_Some [OF Some [unfolded m]] obtain u
      where u: "s = u @ s'" "u \<noteq> []" "(p', s', g) \<in> set (rx_match r p s [])" .
    have "rx_segs r p s = Hit u g # rx_segs r p' s'"
      using rx_segs_hit [OF Some [unfolded m]] u by simp
    moreover have "P p' s'" using 1 u by simp
    ultimately show ?thesis using assms(2) Some m u by blast
  qed
qed

lemma segs_concat: "concat (map seg_text (rx_segs r p s)) = s"
  by (induction p s rule: scan_induct [of _ r]) auto

lemma rx_sub_no_hit:
  assumes "\<And>w g. Hit w g \<notin> set (rx_segs r None s)"
  shows "rx_sub r f s = s"
proof -
  have "seg_sub f x = seg_text x" if "x \<in> set (rx_segs r None s)" for x
    using assms that by (cases x) auto
  then have "rx_sub r f s = concat (map seg_text (rx_segs r None s))"
    unfolding rx_sub_def by (metis (mono_tags, lifting) map_eq_conv)
  then show ?thesis by (simp add: segs_concat)
qed

lemma segs_skip_in: "Skip c \<in> set (rx_segs r p s) \<Longrightarrow> c \<in> set s"
  using segs_concat [of r p s] by (metis (no_types, lifting) UN_I image_eqI list.set_intros(1)
      list.set_map seg_text.simps(1) set_concat)

text \<open>A hit is a match at some position of the text.\<close>

lemma segs_hit:
  assumes "Hit w g \<in> set (rx_segs r p s)"
  shows "\<exists>q t p' t'. (p', t', g) \<in> set (rx_match r q t []) \<and> t = w @ t' \<and> w \<noteq> []
     \<and> (\<exists>us. s = us @ t)"
  using assms
proof (induction p s rule: scan_induct [of _ r])
  case (Hit p s u p' s' g')
  then consider "w = u" "g = g'" | "Hit w g \<in> set (rx_segs r p' s')" by auto
  then show ?case
  proof cases
    case 1
    with Hit show ?thesis by (metis append_Nil)
  next
    case 2
    from Hit.IH [OF this] Hit.hyps(2) show ?thesis by (metis append_assoc)
  qed
next
  case (Skip p c t)
  then have "Hit w g \<in> set (rx_segs r (Some c) t)" by auto
  from Skip.IH [OF this] show ?case by (metis append_Cons)
qed auto

section \<open>The characters a pattern admits\<close>

fun rx_admits :: "rx \<Rightarrow> char \<Rightarrow> bool" where
  "rx_admits (Cls f) c = f c"
| "rx_admits (Seq a b) c = (rx_admits a c \<or> rx_admits b c)"
| "rx_admits (Alt a b) c = (rx_admits a c \<or> rx_admits b c)"
| "rx_admits (Star a) c = rx_admits a c"
| "rx_admits (LazyStar a) c = rx_admits a c"
| "rx_admits (Group i a) c = rx_admits a c"
| "rx_admits (Backref i) c = True"
| "rx_admits _ c = False"

lemma rx_match_admits:
  "(p', s', g') \<in> set (rx_match r p s g) \<Longrightarrow> s = u @ s' \<Longrightarrow> c \<in> set u \<Longrightarrow> rx_admits r c"
proof (induction r p s g arbitrary: p' s' g' u rule: rx_match.induct)
  case (3 a b p s g)
  from "3.prems" obtain p1 s1 g1 where 1: "(p1, s1, g1) \<in> set (rx_match a p s g)"
    and 2: "(p', s', g') \<in> set (rx_match b p1 s1 g1)" by auto
  from rx_match_suffix [OF 1] rx_match_suffix [OF 2] obtain u1 u2
    where u: "s = u1 @ s1" "s1 = u2 @ s'" by blast
  with "3.prems" have "c \<in> set u1 \<or> c \<in> set u2" by auto
  moreover have "c \<in> set u1 \<Longrightarrow> rx_admits a c" using "3.IH"(1) [OF 1 u(1)] .
  moreover have "c \<in> set u2 \<Longrightarrow> rx_admits b c" using "3.IH"(2) 1 2 u(2) by blast
  ultimately show ?case by auto
next
  case (4 a b p s g)
  from "4.prems"(1) consider "(p', s', g') \<in> set (rx_match a p s g)"
    | "(p', s', g') \<in> set (rx_match b p s g)" by auto
  then show ?case using "4.IH" "4.prems"(2,3) by cases auto
next
  case (5 a p s g)
  from "5.prems" consider "(p', s', g') = (p, s, g)"
    | p1 s1 g1 where "(p1, s1, g1) \<in> set (rx_match a p s g)" "length s1 < length s"
        "(p', s', g') \<in> set (rx_match (Star a) p1 s1 g1)"
    unfolding star_member [of "(p', s', g')" a p s g] by blast
  then show ?case
  proof cases
    case 2
    from rx_match_suffix [OF 2(1)] rx_match_suffix [OF 2(3)] obtain u1 u2
      where u: "s = u1 @ s1" "s1 = u2 @ s'" by blast
    with "5.prems" have "c \<in> set u1 \<or> c \<in> set u2" by auto
    moreover have "c \<in> set u1 \<Longrightarrow> rx_admits a c" using "5.IH"(1) [OF 2(1) u(1)] .
    moreover have "c \<in> set u2 \<Longrightarrow> rx_admits (Star a) c" using "5.IH"(2) 2 u(2) by blast
    ultimately show ?thesis by auto
  qed (use "5.prems" in auto)
next
  case (6 a p s g)
  from "6.prems" consider "(p', s', g') = (p, s, g)"
    | p1 s1 g1 where "(p1, s1, g1) \<in> set (rx_match a p s g)" "length s1 < length s"
        "(p', s', g') \<in> set (rx_match (LazyStar a) p1 s1 g1)"
    unfolding lazy_star_member [of "(p', s', g')" a p s g] by blast
  then show ?case
  proof cases
    case 2
    from rx_match_suffix [OF 2(1)] rx_match_suffix [OF 2(3)] obtain u1 u2
      where u: "s = u1 @ s1" "s1 = u2 @ s'" by blast
    with "6.prems" have "c \<in> set u1 \<or> c \<in> set u2" by auto
    moreover have "c \<in> set u1 \<Longrightarrow> rx_admits a c" using "6.IH"(1) [OF 2(1) u(1)] .
    moreover have "c \<in> set u2 \<Longrightarrow> rx_admits (LazyStar a) c" using "6.IH"(2) 2 u(2) by blast
    ultimately show ?thesis by auto
  qed (use "6.prems" in auto)
qed (auto split: list.splits if_splits option.splits)

section \<open>Patterns that never match the empty string\<close>

fun rx_consumes :: "rx \<Rightarrow> bool" where
  "rx_consumes (Cls f) = True"
| "rx_consumes (Seq a b) = (rx_consumes a \<or> rx_consumes b)"
| "rx_consumes (Alt a b) = (rx_consumes a \<and> rx_consumes b)"
| "rx_consumes (Group i a) = rx_consumes a"
| "rx_consumes _ = False"

lemma rx_match_shorter: "(p', s', g') \<in> set (rx_match r p s g) \<Longrightarrow> length s' \<le> length s"
  by (auto dest: rx_match_suffix)

lemma rx_consumes_length:
  "(p', s', g') \<in> set (rx_match r p s g) \<Longrightarrow> rx_consumes r \<Longrightarrow> length s' < length s"
proof (induction r arbitrary: p s g p' s' g')
  case (Seq a b)
  from Seq.prems obtain p1 s1 g1 where "(p1, s1, g1) \<in> set (rx_match a p s g)"
    and "(p', s', g') \<in> set (rx_match b p1 s1 g1)" by auto
  note m = this
  from Seq.prems(2) consider "rx_consumes a" | "rx_consumes b" by auto
  then show ?case
  proof cases
    case 1
    from Seq.IH(1) [OF m(1) this] rx_match_shorter [OF m(2)] show ?thesis by simp
  next
    case 2
    from Seq.IH(2) [OF m(2) this] rx_match_shorter [OF m(1)] show ?thesis by simp
  qed
next
  case (Alt a b)
  then show ?case by (metis Un_iff rx_consumes.simps(3) rx_match.simps(4) set_append)
qed (auto split: list.splits if_splits)

lemma next_match_consumes:
  "rx_consumes r \<Longrightarrow> next_match r p s = None \<longleftrightarrow> rx_match r p s [] = []"
proof -
  assume "rx_consumes r"
  then have "length s' < length s" if "rx_match r p s [] = (p', s', g) # ms" for p' s' g ms
    using rx_consumes_length [of p' s' g r p s "[]"] that by simp
  then show ?thesis by (auto simp: next_match_def split: list.splits)
qed

end
