(* ===== verification/Guardrails.thy ===== *)
theory Guardrails
  imports Py_Regex
begin

text \<open>
  Untrusted-content quarantine and injection heuristics
  (\<open>apps/runtime/core/guardrails.py\<close>). The two single guillemets the source puts in place of
  angle brackets are code points 0x2039 and 0x203A; the model writes them as 0x8B and 0x9B,
  their Windows-1252 codes, which are neither angle brackets nor word characters either. The
  nonce of a block is \<open>secrets.token_hex(8)\<close>, a parameter here.
\<close>

definition quarantine_tag :: string where
  "quarantine_tag = ''untrusted_context''"

definition lsaquo :: char where "lsaquo = char_of (139::nat)"
definition rsaquo :: char where "rsaquo = char_of (155::nat)"

text \<open>\<open></?\s*untrusted_context\b[^>]*>?\<close>, ignoring case.\<close>

definition tag_token_re :: rx where
  "tag_token_re =
     seqs [Cls (\<lambda>c. c = CHR ''<''), Opt (Cls (\<lambda>c. c = CHR ''/'')), Star (Cls py_space),
           lits_ci quarantine_tag, WordB, Star (Cls (\<lambda>c. c \<noteq> CHR ''>'')), Opt (Cls (\<lambda>c. c = CHR ''>''))]"

definition defang_char :: "char \<Rightarrow> char" where
  "defang_char c = (if c = CHR ''<'' then lsaquo else if c = CHR ''>'' then rsaquo else c)"

definition neutralise_delimiters :: "string \<Rightarrow> string" where
  "neutralise_delimiters text = rx_sub tag_token_re (\<lambda>w _. map defang_char w) text"

datatype untrusted = Single string | Chunks "string list"

definition quote :: string where "quote = [char_of (34::nat)]"
definition newline :: string where "newline = [char_of (10::nat)]"

definition block_open :: "string \<Rightarrow> string" where
  "block_open nonce = ''<'' @ quarantine_tag @ '' nonce='' @ quote @ nonce @ quote @ ''>''"

definition block_close :: "string \<Rightarrow> string" where
  "block_close nonce = ''</'' @ quarantine_tag @ '' nonce='' @ quote @ nonce @ quote @ ''>''"

definition quarantine_body :: "untrusted \<Rightarrow> string" where
  "quarantine_body content =
     (case content of
        Single s \<Rightarrow> neutralise_delimiters s
      | Chunks items \<Rightarrow>
          join (newline @ newline)
            (map (\<lambda>(i, item). ''[chunk:'' @ nat_str i @ ''] '' @ neutralise_delimiters item)
              (zip [1..<Suc (length items)] items)))"

definition wrap_untrusted :: "string \<Rightarrow> untrusted \<Rightarrow> string" where
  "wrap_untrusted nonce content =
     block_open nonce @ newline @ quarantine_body content @ newline @ block_close nonce"

text \<open>
  The opening tag with a hexadecimal nonce (group 1), as little text as possible, and the
  closing tag with the same nonce; ignoring case, the dot matching newlines.
\<close>

definition block_re :: rx where
  "block_re =
     seqs [lits_ci (''<'' @ quarantine_tag @ '' nonce='' @ quote),
           Group 1 (Plus (Cls (\<lambda>c. py_digit c \<or> in_range CHR ''a'' CHR ''f'' (lower_char c)))),
           lits_ci (quote @ ''>''),
           LazyStar (Cls (\<lambda>_. True)),
           lits_ci (''</'' @ quarantine_tag @ '' nonce='' @ quote), Backref 1, lits_ci (quote @ ''>'')]"

definition strip_untrusted_blocks :: "string \<Rightarrow> string" where
  "strip_untrusted_blocks text = rx_sub block_re (\<lambda>_ _. '' '') text"

section \<open>Injection patterns\<close>

abbreviation "sp1 \<equiv> Plus (Cls py_space)"
abbreviation "sp0 \<equiv> Star (Cls py_space)"
abbreviation "prior_words \<equiv> alts [lits_ci ''previous'', lits_ci ''prior'', lits_ci ''above'']"

definition injection_patterns :: "rx list" where
  "injection_patterns =
     [seqs [lits_ci ''ignore'', sp1, Opt (Seq (lits_ci ''all'') sp1), prior_words, sp1,
            lits_ci ''instructions''],
      seqs [lits_ci ''disregard'', sp1,
            Opt (alts [Seq (lits_ci ''all'') sp1, Seq (lits_ci ''the'') sp1]), prior_words],
      seqs [lits_ci (char_of (246::nat) # ''nceki''), sp1, lits_ci ''talimatlari'', sp0,
            Opt (lits_ci ''ni''), sp0, lits_ci ''yoksay''],
      seqs [lits_ci ''you'', sp1, lits_ci ''are'', sp1, lits_ci ''now'', sp1,
            Opt (Seq (lits_ci ''in'') sp1),
            alts [lits_ci ''developer'', lits_ci ''admin'', lits_ci ''dan''], sp1, lits_ci ''mode''],
      seqs [lits_ci ''reveal'', sp1, Opt (Seq (lits_ci ''the'') sp1), lits_ci ''system'', sp1,
            lits_ci ''prompt''],
      lits_ci ''base64:'']"

definition detect_injection :: "string \<Rightarrow> bool" where
  "detect_injection text = (\<exists>r \<in> set injection_patterns. rx_search r text \<noteq> None)"

section \<open>No delimiter survives neutralisation\<close>

text \<open>Literal patterns match exactly their case variants.\<close>

lemma lits_ci_match:
  "map lower_char u = map lower_char w \<Longrightarrow>
     rx_match (lits_ci w) p (u @ s) g = [(if u = [] then p else Some (last u), s, g)]"
proof (induction w arbitrary: u p)
  case Nil
  then show ?case by (simp add: lits_ci_def)
next
  case (Cons c w)
  then obtain d v where u: "u = d # v" "lower_char d = lower_char c" "map lower_char v = map lower_char w"
    by (cases u) auto
  have "rx_match (lits_ci w) (Some d) (v @ s) g = [(if v = [] then Some d else Some (last v), s, g)]"
    using Cons.IH [OF u(3)] by simp
  then show ?case using u by (auto simp: lits_ci_def)
qed

lemma star_nonempty [simp]: "rx_match (Star a) p s g \<noteq> []"
  by (subst rx_match.simps) simp

lemma opt_nonempty [simp]: "rx_match (Opt a) p s g \<noteq> []"
  by (simp add: Opt_def)

lemma seq_nonempty:
  "(p', s', g') \<in> set (rx_match a p s g) \<Longrightarrow> rx_match b p' s' g' \<noteq> [] \<Longrightarrow> rx_match (Seq a b) p s g \<noteq> []"
  by fastforce

lemma star_self [simp]: "(p, s, g) \<in> set (rx_match (Star a) p s g)"
  by (subst star_member) simp

text \<open>A slash, a case variant of the tag and a non-word character after an angle bracket.\<close>

lemma closing_tag_matches:
  assumes "map lower_char u = quarantine_tag" "\<not> word_char c"
  shows "rx_match tag_token_re p (''</'' @ u @ c # s) [] \<noteq> []"
proof -
  let ?s = "u @ c # s"
  let ?tail = "Seq WordB (Seq (Star (Cls (\<lambda>c. c \<noteq> CHR ''>''))) (Opt (Cls (\<lambda>c. c = CHR ''>''))))"
  have low: "map lower_char u = map lower_char quarantine_tag"
    unfolding assms(1) by (simp add: quarantine_tag_def lower_char_def)
  have u: "u \<noteq> []" "lower_char (last u) = CHR ''t''"
    using assms(1) by (auto simp: quarantine_tag_def last_map [symmetric])
  have "word_char (last u)"
    using u(2) by (auto simp: lower_char_def word_char_def Let_def split: if_splits)
  then have "at_word_boundary (Some (last u)) (c # s)"
    using assms(2) by (simp add: at_word_boundary_def)
  then have "rx_match ?tail (Some (last u)) (c # s) [] \<noteq> []"
    by (intro seq_nonempty [of "Some (last u)" "c # s" "[]"]) simp_all
  then have tag: "rx_match (Seq (lits_ci quarantine_tag) ?tail) p' ?s [] \<noteq> []" for p'
    using lits_ci_match [OF low, of p' "c # s" "[]"] u
    by (intro seq_nonempty [of "Some (last u)" "c # s" "[]"]) auto
  then have "rx_match (Seq (Star (Cls py_space)) (Seq (lits_ci quarantine_tag) ?tail)) (Some CHR ''/'') ?s [] \<noteq> []"
    by (intro seq_nonempty [OF star_self])
  then show ?thesis by (simp add: tag_token_re_def Opt_def)
qed

text \<open>Every match of the tag pattern starts with an angle bracket, so its replacement starts with
  a guillemet and has no angle bracket at all.\<close>

lemma tag_match_head:
  "(p', s', g') \<in> set (rx_match tag_token_re p s []) \<Longrightarrow> \<exists>t. s = CHR ''<'' # t \<and> length s' \<le> length t"
  by (auto simp: tag_token_re_def split: list.splits if_splits dest!: rx_match_suffix)

lemma tag_next_match: "next_match tag_token_re p s = None \<longleftrightarrow> rx_match tag_token_re p s [] = []"
proof -
  have "length s' < length s" if "rx_match tag_token_re p s [] = (p', s', g) # ms" for p' s' g ms
    using tag_match_head [of p' s' g p s] that by auto
  then show ?thesis by (auto simp: next_match_def split: list.splits)
qed

abbreviation "defang_segs \<equiv> \<lambda>segs. concat (map (seg_sub (\<lambda>w _. map defang_char w)) segs)"

lemma guillemets [simp]:
  "CHR ''<'' \<noteq> lsaquo" "CHR ''<'' \<noteq> rsaquo" "CHR ''/'' \<noteq> lsaquo" "lsaquo \<noteq> CHR ''/''"
  by (code_simp)+

lemma defang_no_angle: "CHR ''<'' \<notin> set (map defang_char w)"
  by (auto simp: defang_char_def)

text \<open>A prefix of the output without guillemets is a prefix of the input.\<close>

lemma defang_prefix:
  "defang_segs (rx_segs tag_token_re p t) = w @ z \<Longrightarrow> lsaquo \<notin> set w \<Longrightarrow>
     \<exists>z'. t = w @ z' \<and> (z \<noteq> [] \<longrightarrow> z' \<noteq> [] \<and> (hd z' = hd z \<or> hd z' = CHR ''<''))"
proof (induction p t arbitrary: w z rule: scan_induct [of _ tag_token_re])
  case (Hit p s u p' s' g)
  from tag_match_head [OF Hit.hyps(4)] obtain t where t: "s = CHR ''<'' # t" by blast
  with Hit.hyps(2,3) obtain v where "u = CHR ''<'' # v" by (cases u) auto
  with Hit.prems Hit.hyps(5) have "w = []" by (cases w) (auto simp: defang_char_def)
  with t show ?case by auto
next
  case (Skip p c t)
  show ?case
  proof (cases w)
    case (Cons d v)
    with Skip.prems Skip.hyps(2) have "c = d" "defang_segs (rx_segs tag_token_re (Some c) t) = v @ z"
      "lsaquo \<notin> set v" by auto
    from Skip.IH [OF this(2,3)] \<open>c = d\<close> Cons show ?thesis by auto
  qed (use Skip.prems Skip.hyps(2) in auto)
qed auto

lemma defang_no_closing_tag:
  "defang_segs (rx_segs tag_token_re p t) = x @ ''</'' @ u @ c # y \<Longrightarrow>
     map lower_char u = quarantine_tag \<Longrightarrow> word_char c"
proof (induction p t arbitrary: x rule: scan_induct [of _ tag_token_re])
  case (Hit p s w p' s' g)
  let ?out = "defang_segs (rx_segs tag_token_re p' s')"
  from Hit.prems(1) Hit.hyps(5) have eq: "map defang_char w @ ?out = x @ ''</'' @ u @ c # y" by simp
  then obtain us where "map defang_char w = x @ us \<and> us @ ?out = ''</'' @ u @ c # y
      \<or> map defang_char w @ us = x \<and> ?out = us @ ''</'' @ u @ c # y"
    by (auto simp: append_eq_append_conv2)
  then show ?case
  proof
    assume a: "map defang_char w = x @ us \<and> us @ ?out = ''</'' @ u @ c # y"
    show ?thesis
    proof (cases us)
      case Nil
      with a have "?out = [] @ ''</'' @ u @ c # y" by simp
      from Hit.IH [OF this Hit.prems(2)] show ?thesis .
    next
      case (Cons d v)
      with a have "CHR ''<'' \<in> set (map defang_char w)" by auto
      with defang_no_angle show ?thesis by blast
    qed
  next
    assume "map defang_char w @ us = x \<and> ?out = us @ ''</'' @ u @ c # y"
    then have "?out = us @ ''</'' @ u @ c # y" by blast
    from Hit.IH [OF this Hit.prems(2)] show ?thesis .
  qed
next
  case (Skip p d t)
  show ?case
  proof (cases x)
    case (Cons e v)
    with Skip.prems(1) Skip.hyps(2) have "defang_segs (rx_segs tag_token_re (Some d) t) = v @ ''</'' @ u @ c # y"
      by auto
    from Skip.IH [OF this Skip.prems(2)] show ?thesis .
  next
    case Nil
    with Skip.prems(1) Skip.hyps(2) have d: "d = CHR ''<''"
      and out: "defang_segs (rx_segs tag_token_re (Some d) t) = (CHR ''/'' # u) @ c # y" by auto
    have "lsaquo \<notin> set u"
    proof
      assume "lsaquo \<in> set u"
      then have "lower_char lsaquo \<in> set quarantine_tag" unfolding Skip.prems(2) [symmetric] by simp
      moreover have "lower_char lsaquo \<notin> set quarantine_tag" by code_simp
      ultimately show False by blast
    qed
    then have "lsaquo \<notin> set (CHR ''/'' # u)" by auto
    from defang_prefix [OF out this] obtain c' z where t: "t = (CHR ''/'' # u) @ c' # z"
      and c': "c' = c \<or> c' = CHR ''<''"
      by (metis list.collapse list.discI list.sel(1))
    show ?thesis
    proof (rule ccontr)
      assume "\<not> word_char c"
      with c' have "\<not> word_char c'" by (auto simp: word_char_def)
      from closing_tag_matches [OF Skip.prems(2) this, of p z] Skip.hyps(1) show False
        by (simp add: t d tag_next_match)
    qed
  qed
qed auto

text \<open>No closing delimiter can be read out of neutralised content, whatever the content was.\<close>

lemma neutralised_has_no_closing_tag:
  "neutralise_delimiters text = x @ ''</'' @ u @ c # y \<Longrightarrow> map lower_char u = quarantine_tag \<Longrightarrow>
     word_char c"
  unfolding neutralise_delimiters_def rx_sub_def by (rule defang_no_closing_tag)

text \<open>
  Property C32: untrusted content cannot close its quarantine block: wherever the neutralised text
  contains \<open></\<close> followed by a case variant of the tag, the next character continues the word, so no
  closing delimiter of the tag can be read out of it, whatever the content was.
\<close>

theorem untrusted_cannot_close_block:
  assumes "neutralise_delimiters text = before @ ''</'' @ tag @ c # after"
    and "map lower_char tag = quarantine_tag"
  shows "word_char c"
  using assms by (rule neutralised_has_no_closing_tag)

lemma untrusted_cannot_close_block_witness:
  "neutralise_delimiters ''</untrusted_contexts>'' = [] @ ''</'' @ ''untrusted_context'' @ CHR ''s'' # ''>'' \<and> word_char CHR ''s''"
proof -
  have n: "neutralise_delimiters ''</untrusted_contexts>'' = [] @ ''</'' @ ''untrusted_context'' @ CHR ''s'' # ''>''"
    by code_simp
  have t: "map lower_char ''untrusted_context'' = quarantine_tag" by code_simp
  from n untrusted_cannot_close_block [OF n t] show ?thesis ..
qed

end
