(* ===== verification/Base_Graph.thy ===== *)
theory Base_Graph
  imports Graph_Engine Kill_Switch Guardrails
begin

text \<open>
  The graph every general agent runs on (\<open>apps/runtime/core/graph.py\<close>) with the approval rule
  of \<open>hitl.py\<close> and the citation carrier of \<open>citations.py\<close>. One equation of \<open>base_exec\<close> per
  node, one of \<open>base_route\<close> per outgoing edge. The model client and the tool functions are
  parameters (\<open>base_env\<close>); the trace of a run lists the model and tool calls it made.
\<close>

section \<open>\<open>core.hitl\<close>\<close>

definition requires_approval :: "string \<Rightarrow> rat \<Rightarrow> bool \<Rightarrow> bool res" where
  "requires_approval risk_class eval_pass_rate autonomy_enabled =
     (if risk_class = ''read'' then Inr False
      else if risk_class = ''write:external'' then Inr True
      else if risk_class = ''write:internal''
      then Inr (\<not> (autonomy_enabled \<and> eval_pass_rate \<ge> 9/10))
      else Inl (ValueError risk_class))"

section \<open>\<open>core.citations\<close>\<close>

record citation =
  c_source_id :: string
  c_title :: string
  c_chunk_ref :: string

definition citation_dict :: "citation \<Rightarrow> json" where
  "citation_dict c = JObj [(''source_id'', JStr (c_source_id c)), (''title'', JStr (c_title c)),
                           (''chunk_ref'', JStr (c_chunk_ref c))]"

definition attach_citations ::
  "(string \<times> json) list \<Rightarrow> citation list \<Rightarrow> (string \<times> json) list" where
  "attach_citations response cs =
     filter (\<lambda>(k, _). k \<noteq> ''citations'') response @ [(''citations'', JList (map citation_dict cs))]"

section \<open>Specifications, state and environment\<close>

record tool_spec =
  t_name :: string
  t_risk :: string

record agent_spec =
  as_name :: string
  as_prompt :: string
  as_tier :: string
  as_tools :: "tool_spec list"
  as_pass_rate :: rat
  as_autonomy :: bool
  as_citations :: "citation list"

type_synonym tool_call = "(string \<times> json) list"

record graph_state =
  g_messages :: "msg list"
  g_injection :: "bool option"
  g_tool_call :: "tool_call option"
  g_tool_result :: "json option"
  g_rejected :: bool
  g_citations :: "json option"
  g_text :: "string option"
  g_paused :: bool
  g_blocked :: bool

text \<open>The state a run is invoked with: messages only.\<close>

definition invoke_state :: "msg list \<Rightarrow> graph_state" where
  "invoke_state ms =
     \<lparr>g_messages = ms, g_injection = None, g_tool_call = None, g_tool_result = None,
      g_rejected = False, g_citations = None, g_text = None, g_paused = False, g_blocked = False\<rparr>"

record model_reply =
  r_content :: string
  r_tool_call :: "tool_call option"

record base_env =
  be_reasoning :: "msg list \<Rightarrow> model_reply res"
  be_utility :: "msg list \<Rightarrow> model_reply res"
  be_tool :: "string \<Rightarrow> (string \<times> json) list \<Rightarrow> json res"
  be_kill :: "kill_view option"

datatype base_call = Model_Call bool "msg list" | Tool_Run tool_spec "(string \<times> json) list"

record hitl_payload =
  p_tool :: json
  p_args :: json
  p_risk :: string

datatype base_node =
  Kill_Gate | Context_Builder | Guardrails_In | Call_Model | Hitl | Execute_Tool | Citation_Attach

definition tool_by_name :: "agent_spec \<Rightarrow> json \<Rightarrow> tool_spec option" where
  "tool_by_name spec name = find (\<lambda>t. JStr (t_name t) = name) (as_tools spec)"

definition last_user_message :: "msg list \<Rightarrow> string" where
  "last_user_message ms =
     (case find (\<lambda>(role, _). role = ''user'') (rev ms) of Some (_, c) \<Rightarrow> c | None \<Rightarrow> '''')"

text \<open>\<open>tool_call = state["tool_call"]\<close> and the two assertions of a node.\<close>

definition pending_tool :: "agent_spec \<Rightarrow> graph_state \<Rightarrow> (tool_call \<times> tool_spec) res" where
  "pending_tool spec s =
     (case g_tool_call s of
        None \<Rightarrow> Inl AssertionError
      | Some tc \<Rightarrow>
          (case dict_index tc ''name'' of
             Inl e \<Rightarrow> Inl e
           | Inr name \<Rightarrow>
               (case tool_by_name spec name of
                  None \<Rightarrow> Inl AssertionError
                | Some t \<Rightarrow> Inr (tc, t))))"

text \<open>\<open>fn(**args)\<close> needs a mapping.\<close>

definition call_kwargs :: "json \<Rightarrow> (string \<times> json) list res" where
  "call_kwargs v =
     (case v of JObj kvs \<Rightarrow> Inr kvs | _ \<Rightarrow> Inl (TypeError ''argument after ** must be a mapping''))"

definition payload_for :: "tool_call \<Rightarrow> tool_spec \<Rightarrow> hitl_payload" where
  "payload_for tc t =
     \<lparr>p_tool = dict_get_or JNull tc ''name'', p_args = dict_get_or (JObj []) tc ''args'',
      p_risk = t_risk t\<rparr>"

section \<open>Nodes and edges\<close>

fun base_exec ::
  "agent_spec \<Rightarrow> base_env \<Rightarrow> base_node \<Rightarrow> decision option \<Rightarrow> graph_state \<Rightarrow>
     (base_call, (graph_state, hitl_payload) step_out) eff" where
  "base_exec spec env Kill_Gate d s =
     update (if gate_closed (be_kill env) (as_name spec) then s\<lparr>g_paused := True\<rparr> else s)"
| "base_exec spec env Context_Builder d s = update s"
| "base_exec spec env Guardrails_In d s =
     update (s\<lparr>g_injection := Some (detect_injection (last_user_message (g_messages s)))\<rparr>)"
| "base_exec spec env Call_Model d s =
     (let msgs = (''system'', as_prompt spec) # g_messages s;
          utility = (as_tier spec = ''utility'')
      in eff_bind (eff_call (Model_Call utility msgs)
             (if utility then be_utility env msgs else be_reasoning env msgs))
           (\<lambda>r. update (s\<lparr>g_text := Some (r_content r), g_tool_call := r_tool_call r\<rparr>)))"
| "base_exec spec env Hitl d s =
     eff_bind (eff_lift (pending_tool spec s))
       (\<lambda>(tc, t). interrupt (payload_for tc t) d
          (\<lambda>v. update (if approved_in v then s else s\<lparr>g_rejected := True, g_tool_call := None\<rparr>)))"
| "base_exec spec env Execute_Tool d s =
     eff_bind (eff_lift (pending_tool spec s))
       (\<lambda>(tc, t).
          if tool_blocked (be_kill env) (t_risk t) then update (s\<lparr>g_blocked := True\<rparr>)
          else eff_bind (eff_lift (call_kwargs (dict_get_or (JObj []) tc ''args'')))
                 (\<lambda>args. eff_bind (eff_call (Tool_Run t args) (be_tool env (t_name t) args))
                           (\<lambda>r. update (s\<lparr>g_tool_result := Some r\<rparr>))))"
| "base_exec spec env Citation_Attach d s =
     update (s\<lparr>g_citations := dict_get
        (attach_citations [(''text'', JStr (case g_text s of Some x \<Rightarrow> x | None \<Rightarrow> ''''))] (as_citations spec))
        ''citations''\<rparr>)"

definition route_after_model :: "agent_spec \<Rightarrow> graph_state \<Rightarrow> base_node res" where
  "route_after_model spec s =
     (case g_tool_call s of
        None \<Rightarrow> Inr Citation_Attach
      | Some tc \<Rightarrow>
          (if tc = [] then Inr Citation_Attach
           else (case dict_index tc ''name'' of
                   Inl e \<Rightarrow> Inl e
                 | Inr name \<Rightarrow>
                     (case tool_by_name spec name of
                        None \<Rightarrow> Inr Citation_Attach
                      | Some t \<Rightarrow>
                          (case requires_approval (t_risk t) (as_pass_rate spec) (as_autonomy spec) of
                             Inl e \<Rightarrow> Inl e
                           | Inr b \<Rightarrow> Inr (if b then Hitl else Execute_Tool))))))"

fun base_route :: "agent_spec \<Rightarrow> base_node \<Rightarrow> graph_state \<Rightarrow> base_node option res" where
  "base_route spec Kill_Gate s = Inr (if g_paused s then None else Some Context_Builder)"
| "base_route spec Context_Builder s = Inr (Some Guardrails_In)"
| "base_route spec Guardrails_In s = Inr (Some Call_Model)"
| "base_route spec Call_Model s =
     (case route_after_model spec s of Inl e \<Rightarrow> Inl e | Inr n \<Rightarrow> Inr (Some n))"
| "base_route spec Hitl s = Inr (Some (if g_rejected s then Citation_Attach else Execute_Tool))"
| "base_route spec Execute_Tool s = Inr (Some Citation_Attach)"
| "base_route spec Citation_Attach s = Inr None"

definition base_run ::
  "agent_spec \<Rightarrow> base_env \<Rightarrow> base_node \<Rightarrow> decision option \<Rightarrow> graph_state \<Rightarrow>
     base_call list \<times> (base_node, graph_state, hitl_payload) run_out" where
  "base_run spec env = graph_run (base_exec spec env) (base_route spec) 7"

section \<open>Runs\<close>

fun base_rank :: "base_node \<Rightarrow> nat" where
  "base_rank Kill_Gate = 6"
| "base_rank Context_Builder = 5"
| "base_rank Guardrails_In = 4"
| "base_rank Call_Model = 3"
| "base_rank Hitl = 2"
| "base_rank Execute_Tool = 1"
| "base_rank Citation_Attach = 0"

lemma route_after_model_cases:
  assumes "route_after_model spec s = Inr n"
  shows "n = Citation_Attach \<or>
     (\<exists>tc t. pending_tool spec s = Inr (tc, t) \<and>
        requires_approval (t_risk t) (as_pass_rate spec) (as_autonomy spec) = Inr (n = Hitl) \<and>
        (n = Hitl \<or> n = Execute_Tool))"
  using assms by (auto simp: route_after_model_def pending_tool_def split: option.splits sum.splits if_splits)

interpretation base_acyclic: acyclic_graph "base_exec spec env" "base_route spec" base_rank for spec env
proof
  fix n s n'
  assume "base_route spec n s = Inr (Some n')"
  then show "base_rank n' < base_rank n"
    by (cases n) (auto split: if_splits sum.splits dest!: route_after_model_cases)
qed

text \<open>Before the tool node the pending tool needs no approval, and nothing was rejected yet.\<close>

definition unapproved_inv :: "agent_spec \<Rightarrow> base_node \<Rightarrow> graph_state \<Rightarrow> bool" where
  "unapproved_inv spec n s \<longleftrightarrow>
     (\<not> g_rejected s) \<and>
     (n = Execute_Tool \<longrightarrow>
       (\<exists>tc t. pending_tool spec s = Inr (tc, t) \<and>
          requires_approval (t_risk t) (as_pass_rate spec) (as_autonomy spec) = Inr False)) \<and>
     (n = Hitl \<longrightarrow>
       (\<exists>tc t. pending_tool spec s = Inr (tc, t) \<and>
          requires_approval (t_risk t) (as_pass_rate spec) (as_autonomy spec) = Inr True))"

definition needs_approval_call :: "agent_spec \<Rightarrow> base_call \<Rightarrow> bool" where
  "needs_approval_call spec c =
     (case c of
        Model_Call _ _ \<Rightarrow> False
      | Tool_Run t _ \<Rightarrow> requires_approval (t_risk t) (as_pass_rate spec) (as_autonomy spec) \<noteq> Inr False)"

lemma base_exec_keeps:
  assumes "unapproved_inv spec n s" "base_exec spec env n None s = (l, Inr (Update s'))"
    "base_route spec n s' = Inr (Some n')"
  shows "unapproved_inv spec n' s'"
proof (cases n)
  case Call_Model
  with assms(1,2) have "\<not> g_rejected s'"
    by (cases "be_utility env ((''system'', as_prompt spec) # g_messages s)";
        cases "be_reasoning env ((''system'', as_prompt spec) # g_messages s)")
       (auto simp: unapproved_inv_def Let_def eff_return_def eff_call_def split: if_splits)
  moreover have "route_after_model spec s' = Inr n'"
    using assms(3) Call_Model by (auto split: sum.splits)
  from route_after_model_cases [OF this] have "n' = Citation_Attach \<or>
     (\<exists>tc t. pending_tool spec s' = Inr (tc, t) \<and>
        requires_approval (t_risk t) (as_pass_rate spec) (as_autonomy spec) = Inr (n' = Hitl) \<and>
        (n' = Hitl \<or> n' = Execute_Tool))" .
  ultimately show ?thesis by (auto simp: unapproved_inv_def)
next
  case Hitl
  with assms(1,2) show ?thesis by (auto simp: unapproved_inv_def eff_return_def)
next
  case Execute_Tool
  with assms have "n' = Citation_Attach" by simp
  moreover have "g_rejected s' = g_rejected s"
    using assms(1,2) Execute_Tool
    by (auto simp: unapproved_inv_def eff_return_def eff_lift_def eff_call_def eff_raise_def eff_bind_def
        split: if_splits sum.splits prod.splits)
  ultimately show ?thesis using assms(1) by (simp add: unapproved_inv_def)
qed (use assms in \<open>auto simp: unapproved_inv_def eff_return_def split: if_splits\<close>)

lemma tool_run_pending:
  "e \<in> set (trace (base_exec spec env n d s)) \<Longrightarrow> e = Tool_Run t args \<Longrightarrow>
     n = Execute_Tool \<and> (\<exists>tc. pending_tool spec s = Inr (tc, t)) \<and> \<not> tool_blocked (be_kill env) (t_risk t)"
  by (cases n) (auto simp: Let_def set_trace_eff_bind interrupt_def split: sum.splits prod.splits if_splits option.splits)

interpretation base_unapproved:
  quiet_graph "base_exec spec env" "base_route spec" "unapproved_inv spec" "needs_approval_call spec"
  for spec env
proof
  fix n s l s' n'
  show "unapproved_inv spec n s \<Longrightarrow> base_exec spec env n None s = (l, Inr (Update s')) \<Longrightarrow>
      base_route spec n s' = Inr (Some n') \<Longrightarrow> unapproved_inv spec n' s'"
    by (rule base_exec_keeps)
next
  fix n s e
  assume "unapproved_inv spec n s" "e \<in> set (trace (base_exec spec env n None s))"
  then show "\<not> needs_approval_call spec e"
    by (cases e) (auto simp: needs_approval_call_def unapproved_inv_def dest!: tool_run_pending)
qed

section \<open>Properties\<close>

lemma unapproved_inv_start: "unapproved_inv spec Kill_Gate (invoke_state ms)"
  by (simp add: unapproved_inv_def invoke_state_def)

lemma suspended_at_hitl:
  assumes "base_exec spec env n d t = (l, Inr (Suspend p))"
  shows "n = Hitl \<and> d = None \<and> (\<exists>tc tool. pending_tool spec t = Inr (tc, tool) \<and> p = payload_for tc tool)"
  using assms
  by (cases n; cases d)
    (auto simp: eff_return_def eff_lift_def eff_raise_def eff_call_def eff_bind_def Let_def
      split: sum.splits prod.splits if_splits)

lemma base_run_suspended:
  assumes "snd (base_run spec env Kill_Gate None (invoke_state ms)) = Suspended n t p"
  shows "n = Hitl \<and> \<not> g_rejected t \<and>
     (\<exists>tc tool. pending_tool spec t = Inr (tc, tool) \<and> p = payload_for tc tool \<and>
        requires_approval (t_risk tool) (as_pass_rate spec) (as_autonomy spec) = Inr True)"
proof -
  from assms have run: "snd (graph_run (base_exec spec env) (base_route spec) 7 Kill_Gate None (invoke_state ms))
      = Suspended n t p" by (simp add: base_run_def)
  from suspended_exec [OF run] obtain d' l where "base_exec spec env n d' t = (l, Inr (Suspend p))" by blast
  from suspended_at_hitl [OF this] base_unapproved.suspended_inv [OF unapproved_inv_start run]
  show ?thesis by (auto simp: unapproved_inv_def)
qed


definition demo_spec :: agent_spec where
  "demo_spec = \<lparr>as_name = ''demo'', as_prompt = ''p'', as_tier = ''reasoning'',
     as_tools = [\<lparr>t_name = ''look'', t_risk = ''read''\<rparr>, \<lparr>t_name = ''mail'', t_risk = ''write:external''\<rparr>],
     as_pass_rate = 1, as_autonomy = True, as_citations = []\<rparr>"

definition demo_env :: "string \<Rightarrow> kill_view option \<Rightarrow> base_env" where
  "demo_env tool ks = \<lparr>be_reasoning = (\<lambda>_. Inr \<lparr>r_content = ''ok'', r_tool_call = Some [(''name'', JStr tool)]\<rparr>),
     be_utility = (\<lambda>_. Inl (GatewayError ''down'')), be_tool = (\<lambda>_ _. Inr JNull), be_kill = ks\<rparr>"


text \<open>
  What a human sees is what runs. If a run suspends for approval, the payload names
  the pending tool and its arguments; resuming with a rejection runs no tool and finishes with
  \<open>rejected\<close>; resuming with an approval, while writes are not frozen and the arguments are a
  mapping, runs exactly that tool on exactly those arguments, once.
\<close>

theorem base_approval_decides:
  assumes "snd (base_run spec env Kill_Gate None (invoke_state ms)) = Suspended n t p"
  shows "\<exists>tool. p_tool p = JStr (t_name tool) \<and> p_risk p = t_risk tool \<and>
     fst (base_run spec env n (Some (resume_with False)) t) = [] \<and>
     (\<exists>u. snd (base_run spec env n (Some (resume_with False)) t) = Finished u \<and> g_rejected u) \<and>
     (\<forall>args. p_args p = JObj args \<longrightarrow> \<not> tool_blocked (be_kill env) (t_risk tool) \<longrightarrow>
        fst (base_run spec env n (Some (resume_with True)) t) = [Tool_Run tool args])"
proof -
  from base_run_suspended [OF assms] obtain tc tool where n: "n = Hitl" "\<not> g_rejected t"
    and pend: "pending_tool spec t = Inr (tc, tool)" and p: "p = payload_for tc tool" by blast
  from pend have name: "dict_get_or JNull tc ''name'' = JStr (t_name tool)"
    by (auto simp: pending_tool_def dict_index_def dict_get_or_def tool_by_name_def find_Some_iff
        split: option.splits sum.splits)
  have seven: "(7::nat) = Suc (Suc (Suc 4))" by simp
  have "fst (base_run spec env n (Some (resume_with True)) t) = [Tool_Run tool args]"
    if "p_args p = JObj args" "\<not> tool_blocked (be_kill env) (t_risk tool)" for args
    using n pend p that unfolding base_run_def seven
    by (cases "be_tool env (t_name tool) args")
       (auto simp: payload_for_def call_kwargs_def eff_return_def eff_lift_def eff_call_def eff_raise_def
          eval_nat_numeral)
  moreover have "fst (base_run spec env n (Some (resume_with False)) t) = [] \<and>
     (\<exists>u. snd (base_run spec env n (Some (resume_with False)) t) = Finished u \<and> g_rejected u)"
    using n pend p unfolding base_run_def seven by (auto simp: eff_return_def eval_nat_numeral)
  ultimately show ?thesis using name p by (auto simp: payload_for_def)
qed

definition demo_suspended :: graph_state where
  "demo_suspended = (invoke_state [(''user'', ''hi'')])
     \<lparr>g_injection := Some False, g_text := Some ''ok'', g_tool_call := Some [(''name'', JStr ''mail'')]\<rparr>"

lemma base_approval_decides_witness:
  "fst (base_run demo_spec (demo_env ''mail'' None) Hitl (Some (resume_with True)) demo_suspended)
     = [Tool_Run \<lparr>t_name = ''mail'', t_risk = ''write:external''\<rparr> []]"
proof -
  let ?p = "\<lparr>p_tool = JStr ''mail'', p_args = JObj [], p_risk = ''write:external''\<rparr>"
  have "snd (base_run demo_spec (demo_env ''mail'' None) Kill_Gate None (invoke_state [(''user'', ''hi'')]))
     = Suspended Hitl demo_suspended ?p" by code_simp
  from base_approval_decides [OF this] obtain tool where tool: "p_tool ?p = JStr (t_name tool)"
    "p_risk ?p = t_risk tool" and run: "\<forall>args. p_args ?p = JObj args \<longrightarrow>
        \<not> tool_blocked (be_kill (demo_env ''mail'' None)) (t_risk tool) \<longrightarrow>
        fst (base_run demo_spec (demo_env ''mail'' None) Hitl (Some (resume_with True)) demo_suspended)
          = [Tool_Run tool args]" by blast
  from tool have "tool = \<lparr>t_name = ''mail'', t_risk = ''write:external''\<rparr>" by (cases tool) simp
  with run show ?thesis by (simp add: demo_env_def tool_blocked_def)
qed

text \<open>
  A paused agent does nothing: the run ends at the gate without a model or a tool
  call and without an exception, in the state it was given, marked \<open>paused\<close>.
\<close>

theorem base_paused_is_silent:
  assumes "gate_closed (be_kill env) (as_name spec)"
  shows "base_run spec env Kill_Gate d s = ([], Finished (s\<lparr>g_paused := True\<rparr>))"
  using assms by (simp add: base_run_def eff_return_def eval_nat_numeral)

lemma base_paused_is_silent_witness:
  "base_run demo_spec (demo_env ''mail'' (Some \<lparr>kv_paused = (\<lambda>a. a = ''demo''), kv_blocks = (\<lambda>_. False)\<rparr>))
     Kill_Gate None (invoke_state []) = ([], Finished ((invoke_state [])\<lparr>g_paused := True\<rparr>))"
  by (rule base_paused_is_silent) (simp add: gate_closed_def demo_env_def demo_spec_def)

text \<open>
  While the platform is read-only no write tool runs, from whatever node, state or
  resume value: every tool that runs has a risk class outside \<open>write:\<close>.
\<close>

theorem base_read_only_blocks_writes:
  assumes "be_kill env = Some (view_at rget r cache now)" "is_global_read_only rget r"
    and "Tool_Run t args \<in> set (fst (base_run spec env n d s))"
  shows "\<not> startswith (t_risk t) ''write:''"
proof -
  from trace_from_exec [OF assms(3) [unfolded base_run_def]] obtain m d' u
    where "Tool_Run t args \<in> set (trace (base_exec spec env m d' u))" by blast
  from tool_run_pending [OF this refl] have "\<not> tool_blocked (be_kill env) (t_risk t)" by blast
  then show ?thesis
    using assms(1,2) by (simp add: tool_blocked_def view_at_def blocks_tool_def is_global_read_only_def split: if_splits)
qed

lemma base_read_only_blocks_writes_witness:
  "\<not> startswith (t_risk \<lparr>t_name = ''look'', t_risk = ''read''\<rparr>) ''write:''"
proof (rule base_read_only_blocks_writes)
  let ?r = "set_global_read_only store_set Map.empty True"
  let ?env = "demo_env ''look'' (Some (view_at store_get ?r Map.empty 0))"
  show "be_kill ?env = Some (view_at store_get ?r Map.empty 0)" by (simp add: demo_env_def)
  show "is_global_read_only store_get ?r" by code_simp
  show "Tool_Run \<lparr>t_name = ''look'', t_risk = ''read''\<rparr> []
     \<in> set (fst (base_run demo_spec ?env Kill_Gate None (invoke_state [(''user'', ''hi'')])))"
    by code_simp
qed

text \<open>
  Property C40: every run of the base graph, fresh or resumed, from any node and state, comes to
  an end: it finishes, suspends or raises within its seven nodes.
\<close>

theorem base_run_ends: "snd (base_run spec env n d s) \<noteq> OutOfFuel"
  unfolding base_run_def by (rule base_acyclic.enough_fuel) (cases n; simp)

end
