(* ===== verification/Json_Loads.thy ===== *)
theory Json_Loads
  imports Py_Json Py_Regex
begin

text \<open>
  \<open>json.loads\<close> (the decoder of the standard library, with its \<open>NaN\<close> and \<open>Infinity\<close>
  extensions and without any other), the conversions \<open>float()\<close> and \<open>int()\<close>, and the dynamic
  operations agent code applies to a parsed reply before it knows its type: \<open>in\<close>, indexing,
  \<open>.get\<close>, iteration. A \<open>\u\<close> escape beyond 00FF has no character in the model and is not
  read. The parser recurses on fuel; \<open>json_value_fuel\<close> shows that the length of the text is
  always enough.
\<close>

section \<open>Numbers\<close>

abbreviation "digit_rx \<equiv> Cls py_digit"
abbreviation "sign_rx \<equiv> Opt (Cls (\<lambda>c. c = CHR ''+'' \<or> c = CHR ''-''))"
abbreviation "exp_rx \<equiv> Seq (Cls (\<lambda>c. c = CHR ''e'' \<or> c = CHR ''E'')) (Seq sign_rx (Plus digit_rx))"

text \<open>Group 1: integer part with its minus sign, group 2: fraction, group 3: exponent.\<close>

definition json_number_re :: rx where
  "json_number_re =
     seqs [Group 1 (Seq (Opt (Cls (\<lambda>c. c = CHR ''-'')))
                        (Alt (Cls (\<lambda>c. c = CHR ''0''))
                             (Seq (Cls (in_range CHR ''1'' CHR ''9'')) (Star digit_rx)))),
           Opt (Group 2 (Seq (Cls (\<lambda>c. c = CHR ''.'')) (Plus digit_rx))),
           Opt (Group 3 exp_rx)]"

definition digit_value :: "char \<Rightarrow> int" where
  "digit_value c = of_char c - 48"

definition digits_value :: "string \<Rightarrow> int" where
  "digits_value ds = foldl (\<lambda>n c. 10 * n + digit_value c) 0 ds"

definition signed_value :: "string \<Rightarrow> int" where
  "signed_value s =
     (case s of
        c # t \<Rightarrow> (if c = CHR ''-'' then - digits_value t
                  else if c = CHR ''+'' then digits_value t else digits_value s)
      | [] \<Rightarrow> 0)"

text \<open>Integer part, fraction with its dot, exponent with its \<open>e\<close>.\<close>

definition decimal_value :: "string \<Rightarrow> string \<Rightarrow> string \<Rightarrow> rat" where
  "decimal_value i f e =
     (let neg = startswith i ''-'';
          frac = of_int (digits_value (tl f)) / 10 ^ length (tl f);
          whole = of_int \<bar>signed_value i\<bar>;
          x = signed_value (tl e);
          scale = (if x < 0 then 1 / 10 ^ nat (- x) else 10 ^ nat x)
      in (if neg then -1 else 1) * (whole + frac) * scale)"

definition json_number :: "string \<Rightarrow> (json \<times> string) option" where
  "json_number s =
     (case rx_match json_number_re None s [] of
        [] \<Rightarrow> None
      | (_, rest, g) # _ \<Rightarrow>
          Some (if map_of g 2 = None \<and> map_of g 3 = None then JInt (signed_value (cap g 1))
                else JFloat (Fin (decimal_value (cap g 1) (cap g 2) (cap g 3))), rest))"

lemma json_number_length: "json_number s = Some (v, r) \<Longrightarrow> length r < length s"
proof -
  assume "json_number s = Some (v, r)"
  then obtain p g ms where "rx_match json_number_re None s [] = (p, r, g) # ms"
    by (auto simp: json_number_def split: list.splits)
  then have "(p, r, g) \<in> set (rx_match json_number_re None s [])" by simp
  then show ?thesis by (rule rx_consumes_length) (simp add: json_number_re_def)
qed

section \<open>Values\<close>

definition json_ws :: "char \<Rightarrow> bool" where
  "json_ws c \<longleftrightarrow> (of_char c :: nat) \<in> {32, 9, 10, 13}"

definition skip_ws :: "string \<Rightarrow> string" where
  "skip_ws s = dropWhile json_ws s"

lemma skip_ws_length: "length (skip_ws s) \<le> length s"
  by (simp add: skip_ws_def length_dropWhile_le)

text \<open>A repeated key keeps its place and takes the last value.\<close>

fun dict_put :: "'k \<Rightarrow> 'v \<Rightarrow> ('k \<times> 'v) list \<Rightarrow> ('k \<times> 'v) list" where
  "dict_put k v [] = [(k, v)]"
| "dict_put k v ((k', v') # d) = (if k = k' then (k, v) # d else (k', v') # dict_put k v d)"

definition json_keyword :: "string \<Rightarrow> (json \<times> string) option" where
  "json_keyword s =
     (case find (\<lambda>(w, v). startswith s w)
        [(''null'', JNull), (''true'', JBool True), (''false'', JBool False), (''NaN'', JFloat NaN),
         (''Infinity'', JFloat PInf), (''-Infinity'', JFloat NInf)] of
        Some (w, v) \<Rightarrow> Some (v, drop (length w) s)
      | None \<Rightarrow> None)"

fun json_value :: "nat \<Rightarrow> string \<Rightarrow> (json \<times> string) option"
  and json_items :: "nat \<Rightarrow> string \<Rightarrow> (json list \<times> string) option"
  and json_members :: "nat \<Rightarrow> (string \<times> json) list \<Rightarrow> string \<Rightarrow> ((string \<times> json) list \<times> string) option"
where
  "json_value 0 s = None"
| "json_value (Suc n) s =
     (case s of
        [] \<Rightarrow> None
      | c # t \<Rightarrow>
          if of_char c = (34::nat) then map_option (\<lambda>(w, r). (JStr w, r)) (json_read_str t)
          else if c = CHR ''['' then
            (case skip_ws t of
               [] \<Rightarrow> None
             | d # u \<Rightarrow> if d = CHR '']'' then Some (JList [], u)
                        else map_option (\<lambda>(xs, r). (JList xs, r)) (json_items n (d # u)))
          else if c = CHR ''{'' then
            (case skip_ws t of
               [] \<Rightarrow> None
             | d # u \<Rightarrow> if d = CHR ''}'' then Some (JObj [], u)
                        else map_option (\<lambda>(kvs, r). (JObj kvs, r)) (json_members n [] (d # u)))
          else (case json_keyword s of Some x \<Rightarrow> Some x | None \<Rightarrow> json_number s))"
| "json_items 0 s = None"
| "json_items (Suc n) s =
     (case json_value n s of
        None \<Rightarrow> None
      | Some (v, r) \<Rightarrow>
          (case skip_ws r of
             [] \<Rightarrow> None
           | d # u \<Rightarrow> if d = CHR '']'' then Some ([v], u)
                      else if d = CHR '','' then map_option (\<lambda>(xs, q). (v # xs, q)) (json_items n (skip_ws u))
                      else None))"
| "json_members 0 acc s = None"
| "json_members (Suc n) acc s =
     (case s of
        [] \<Rightarrow> None
      | q # t \<Rightarrow>
          if of_char q \<noteq> (34::nat) then None
          else (case json_read_str t of
                  None \<Rightarrow> None
                | Some (k, r) \<Rightarrow>
                    (case skip_ws r of
                       [] \<Rightarrow> None
                     | col # r' \<Rightarrow>
                         if col \<noteq> CHR '':'' then None
                         else (case json_value n (skip_ws r') of
                                 None \<Rightarrow> None
                               | Some (v, r2) \<Rightarrow>
                                   (case skip_ws r2 of
                                      [] \<Rightarrow> None
                                    | d # u \<Rightarrow>
                                        if d = CHR ''}'' then Some (dict_put k v acc, u)
                                        else if d = CHR '','' then json_members n (dict_put k v acc) (skip_ws u)
                                        else None)))))"

text \<open>\<open>None\<close> is \<open>JSONDecodeError\<close>.\<close>

definition json_loads :: "string \<Rightarrow> json option" where
  "json_loads s =
     (case json_value (Suc (2 * length s)) (skip_ws s) of
        Some (v, r) \<Rightarrow> if skip_ws r = [] then Some v else None
      | None \<Rightarrow> None)"

section \<open>The fuel is enough\<close>

lemma json_read_str_length: "json_read_str s = Some (w, r) \<Longrightarrow> length r < length s"
proof (induction s arbitrary: w r rule: json_read_str.induct)
  case (1 s)
  from "1.prems" show ?case
  proof (cases s)
    case (Cons c t)
    show ?thesis
    proof (cases "of_char c = (34::nat)")
      case False
      note nq = this
      show ?thesis
      proof (cases "of_char c = (92::nat)")
        case True
        with "1.prems" Cons obtain x t' w' where e: "json_read_escape t = Some (x, t')"
          and r: "json_read_str t' = Some (w', r)"
          by (subst (asm) json_read_str.simps) (auto split: option.splits prod.splits)
        from "1.IH"(1) [OF Cons nq True e refl r] json_read_escape_length [OF e] Cons show ?thesis by simp
      next
        case bs: False
        with nq "1.prems" Cons obtain w' where "\<not> of_char c < (32::nat)" "json_read_str t = Some (w', r)"
          by (subst (asm) json_read_str.simps) (auto split: if_splits prod.splits)
        from "1.IH"(2) [OF Cons nq bs this] Cons show ?thesis by simp
      qed
    qed (use "1.prems" Cons in \<open>subst (asm) json_read_str.simps, auto\<close>)
  qed (use "1.prems" in \<open>subst (asm) json_read_str.simps, auto\<close>)
qed

lemma startswith_shorter: "startswith s w \<Longrightarrow> w \<noteq> [] \<Longrightarrow> length (drop (length w) s) < length s"
  by (cases s) (auto simp: startswith_def)

lemma json_keyword_length: "json_keyword s = Some (v, r) \<Longrightarrow> length r < length s"
  by (auto simp: json_keyword_def simp del: length_drop
      split: if_splits option.splits dest!: startswith_shorter)

lemma skip_ws_Cons: "skip_ws s = d # u \<Longrightarrow> length u < length s"
  using skip_ws_length [of s] by simp

lemmas json_lengths = skip_ws_Cons json_read_str_length json_keyword_length json_number_length

lemma json_step_lengths:
  "json_value n s = Some (v, r) \<Longrightarrow> length r < length s"
  "json_items n s = Some (xs, r) \<Longrightarrow> length r < length s"
  "json_members n acc s = Some (kvs, r) \<Longrightarrow> length r < length s"
proof (induction n s and n s and n acc s arbitrary: v r and xs r and kvs r
    rule: json_value_json_items_json_members.induct)
  case (2 n s)
  show ?case
  proof (cases s)
    case (Cons c t)
    consider (str) "of_char c = (34::nat)" | (arr) "of_char c \<noteq> (34::nat)" "c = CHR ''[''"
      | (obj) "of_char c \<noteq> (34::nat)" "c = CHR ''{''"
      | (other) "of_char c \<noteq> (34::nat)" "c \<noteq> CHR ''[''" "c \<noteq> CHR ''{''" by blast
    then show ?thesis
    proof cases
      case str
      with "2.prems" Cons show ?thesis by (auto dest: json_read_str_length)
    next
      case arr
      with "2.prems" Cons obtain d u where w: "skip_ws t = d # u" by (auto split: list.splits)
      show ?thesis
      proof (cases "d = CHR '']''")
        case False
        with "2.prems" Cons arr w obtain xs where "json_items n (d # u) = Some (xs, r)" by auto
        from "2.IH"(1) [OF Cons arr w False this] skip_ws_Cons [OF w] Cons show ?thesis by simp
      qed (use "2.prems" Cons arr w skip_ws_Cons [OF w] in auto)
    next
      case obj
      with "2.prems" Cons obtain d u where w: "skip_ws t = d # u" by (auto split: list.splits)
      have arr: "c \<noteq> CHR ''[''" using obj(2) by simp
      show ?thesis
      proof (cases "d = CHR ''}''")
        case False
        with "2.prems" Cons obj w obtain kvs where "json_members n [] (d # u) = Some (kvs, r)" by auto
        from "2.IH"(2) [OF Cons obj(1) arr obj(2) w False this] skip_ws_Cons [OF w] Cons
        show ?thesis by simp
      qed (use "2.prems" Cons obj w skip_ws_Cons [OF w] in auto)
    next
      case other
      with "2.prems" Cons show ?thesis
        by (auto split: option.splits dest: json_keyword_length json_number_length)
    qed
  qed (use "2.prems" in simp)
next
  case (4 n s)
  from "4.prems" obtain v q d u where v: "json_value n s = Some (v, q)" and w: "skip_ws q = d # u"
    by (auto split: option.splits list.splits)
  have q: "length q < length s" using "4.IH"(1) [OF v] .
  show ?case
  proof (cases "d = CHR '']''")
    case True
    with "4.prems" v w q skip_ws_Cons [OF w] show ?thesis by auto
  next
    case False
    with "4.prems" v w obtain ys where d: "d = CHR '',''" and ys: "json_items n (skip_ws u) = Some (ys, r)"
      by (auto split: if_splits)
    from "4.IH"(2) [OF v refl w False d ys] skip_ws_length [of u] q skip_ws_Cons [OF w]
    show ?thesis by simp
  qed
next
  case (6 n acc s)
  from "6.prems" obtain c t k q where s: "s = c # t" "\<not> of_char c \<noteq> (34::nat)"
    and k: "json_read_str t = Some (k, q)"
    by (auto split: list.splits if_splits option.splits)
  with "6.prems" obtain e q' where e: "skip_ws q = e # q'" "\<not> e \<noteq> CHR '':''"
    by (auto split: list.splits if_splits)
  with "6.prems" s k obtain v r2 where v: "json_value n (skip_ws q') = Some (v, r2)"
    by (auto split: option.splits)
  with "6.prems" s k e obtain d u where w: "skip_ws r2 = d # u" by (auto split: list.splits)
  have "length r2 < length (skip_ws q')" using "6.IH"(1) [OF s k refl e v] .
  then have lu: "length u < length s"
    using skip_ws_length [of q'] skip_ws_Cons [OF w] skip_ws_Cons [OF e(1)] json_read_str_length [OF k] s
    by simp
  show ?case
  proof (cases "d = CHR ''}''")
    case True
    with "6.prems" s k e v w lu show ?thesis by auto
  next
    case False
    with "6.prems" s k e v w have d: "d = CHR '',''"
      and m: "json_members n (dict_put k v acc) (skip_ws u) = Some (kvs, r)" by (auto split: if_splits)
    from "6.IH"(2) [OF s k refl e v refl w False d m] skip_ws_length [of u] lu show ?thesis by simp
  qed
qed simp_all

lemma skip_ws_le: "skip_ws s = w \<Longrightarrow> length w \<le> length s"
  using skip_ws_length [of s] by simp

text \<open>With more fuel than twice the length, the result does not depend on the fuel.\<close>

lemma json_fuel:
  "(\<forall>m s. 2 * length s < n \<longrightarrow> 2 * length s < m \<longrightarrow> json_value n s = json_value m s) \<and>
   (\<forall>m s. Suc (2 * length s) < n \<longrightarrow> Suc (2 * length s) < m \<longrightarrow> json_items n s = json_items m s) \<and>
   (\<forall>m acc s. Suc (2 * length s) < n \<longrightarrow> Suc (2 * length s) < m \<longrightarrow>
      json_members n acc s = json_members m acc s)"
proof (induction n)
  case (Suc n)
  have V: "json_value n s = json_value k s" if "2 * length s < n" "2 * length s < k" for k and s :: string
    using Suc that by blast
  have I: "json_items n s = json_items k s" if "Suc (2 * length s) < n" "Suc (2 * length s) < k" for k and s :: string
    using Suc that by blast
  have M: "json_members n acc s = json_members k acc s"
    if "Suc (2 * length s) < n" "Suc (2 * length s) < k" for k acc and s :: string
    using Suc that by blast
  have 1: "json_value (Suc n) s = json_value (Suc k) s" if "2 * length s < Suc n" "2 * length s < Suc k" for k and s :: string
  proof (cases s)
    case (Cons c t)
    have "json_items n (d # u) = json_items k (d # u)" "json_members n [] (d # u) = json_members k [] (d # u)"
      if "skip_ws t = d # u" for d u
      using skip_ws_le [OF that] \<open>2 * length s < Suc n\<close> \<open>2 * length s < Suc k\<close> Cons
      by (intro I M; simp)+
    with Cons show ?thesis by (simp split: list.split)
  qed simp
  have 2: "json_items (Suc n) s = json_items (Suc k) s"
    if "Suc (2 * length s) < Suc n" "Suc (2 * length s) < Suc k" for k and s :: string
  proof -
    have v: "json_value n s = json_value k s" using that by (intro V) simp_all
    have "json_items n (skip_ws u) = json_items k (skip_ws u)"
      if a: "json_value k s = Some (x, r)" "skip_ws r = d # u" for x r d u
      using json_step_lengths(1) [OF a(1)] skip_ws_Cons [OF a(2)] skip_ws_length [of u] that
        \<open>Suc (2 * length s) < Suc n\<close> \<open>Suc (2 * length s) < Suc k\<close>
      by (intro I) simp_all
    with v show ?thesis by (auto split: list.split option.split)
  qed
  have 3: "json_members (Suc n) acc s = json_members (Suc k) acc s"
    if "Suc (2 * length s) < Suc n" "Suc (2 * length s) < Suc k" for k acc and s :: string
  proof (cases s)
    case (Cons c t)
    have v: "json_value n (skip_ws q') = json_value k (skip_ws q')"
      and m: "json_value k (skip_ws q') = Some (x, r) \<Longrightarrow> skip_ws r = d # u \<Longrightarrow>
         json_members n acc' (skip_ws u) = json_members k acc' (skip_ws u)"
      if a: "json_read_str t = Some (w, q)" "skip_ws q = e # q'" for w q e q' x r d u acc'
    proof -
      have l: "length (skip_ws q') < length s"
        using json_read_str_length [OF a(1)] skip_ws_Cons [OF a(2)] skip_ws_length [of q'] Cons by simp
      show "json_value n (skip_ws q') = json_value k (skip_ws q')"
        using l \<open>Suc (2 * length s) < Suc n\<close> \<open>Suc (2 * length s) < Suc k\<close> by (intro V) simp_all
      assume b: "json_value k (skip_ws q') = Some (x, r)" "skip_ws r = d # u"
      show "json_members n acc' (skip_ws u) = json_members k acc' (skip_ws u)"
        using l json_step_lengths(1) [OF b(1)] skip_ws_Cons [OF b(2)] skip_ws_length [of u]
          \<open>Suc (2 * length s) < Suc n\<close> \<open>Suc (2 * length s) < Suc k\<close> by (intro M) simp_all
    qed
    with Cons show ?thesis by (auto split: list.split option.split)
  qed simp
  show ?case
  proof (intro conjI allI impI)
    fix m and s :: string assume a: "2 * length s < Suc n" "2 * length s < m"
    from a(2) obtain k where m: "m = Suc k" by (cases m) auto
    show "json_value (Suc n) s = json_value m s" unfolding m by (rule 1 [OF a(1) a(2) [unfolded m]])
  next
    fix m and s :: string assume a: "Suc (2 * length s) < Suc n" "Suc (2 * length s) < m"
    from a(2) obtain k where m: "m = Suc k" by (cases m) auto
    show "json_items (Suc n) s = json_items m s" unfolding m by (rule 2 [OF a(1) a(2) [unfolded m]])
  next
    fix m acc and s :: string assume a: "Suc (2 * length s) < Suc n" "Suc (2 * length s) < m"
    from a(2) obtain k where m: "m = Suc k" by (cases m) auto
    show "json_members (Suc n) acc s = json_members m acc s" unfolding m by (rule 3 [OF a(1) a(2) [unfolded m]])
  qed
qed simp

lemma json_value_fuel: "2 * length s < n \<Longrightarrow> 2 * length s < m \<Longrightarrow> json_value n s = json_value m s"
  using json_fuel [of n] by blast

section \<open>Dynamic operations on a parsed value\<close>

text \<open>\<open>k in v\<close> for a string \<open>k\<close>.\<close>

definition py_in :: "string \<Rightarrow> json \<Rightarrow> bool res" where
  "py_in k v =
     (case v of
        JObj kvs \<Rightarrow> Inr (k \<in> fst ` set kvs)
      | JList xs \<Rightarrow> Inr (JStr k \<in> set xs)
      | JStr s \<Rightarrow> Inr (py_contains s k)
      | _ \<Rightarrow> Inl (TypeError ''argument is not iterable''))"

text \<open>\<open>v[k]\<close> for a string \<open>k\<close>.\<close>

definition py_index :: "json \<Rightarrow> string \<Rightarrow> json res" where
  "py_index v k =
     (case v of JObj kvs \<Rightarrow> dict_index kvs k | _ \<Rightarrow> Inl (TypeError ''indices must be integers''))"

text \<open>\<open>v.get(k, d)\<close>; only a dict has \<open>get\<close>.\<close>

definition py_get :: "json \<Rightarrow> json \<Rightarrow> string \<Rightarrow> json res" where
  "py_get d v k =
     (case v of JObj kvs \<Rightarrow> Inr (dict_get_or d kvs k) | _ \<Rightarrow> Inl (OtherError ''AttributeError''))"

text \<open>\<open>for x in v\<close>.\<close>

definition py_iter :: "json \<Rightarrow> json list res" where
  "py_iter v =
     (case v of
        JList xs \<Rightarrow> Inr xs
      | JStr s \<Rightarrow> Inr (map (\<lambda>c. JStr [c]) s)
      | JObj kvs \<Rightarrow> Inr (map (\<lambda>(k, _). JStr k) kvs)
      | _ \<Rightarrow> Inl (TypeError ''object is not iterable''))"

text \<open>\<open>float(s)\<close> and \<open>int(s)\<close> of a string: white space around, single underscores between digits.\<close>

abbreviation "digits_rx \<equiv> Seq digit_rx (Star (Seq (Opt (Cls (\<lambda>c. c = CHR ''_''))) digit_rx))"

definition no_underscore :: "string \<Rightarrow> string" where
  "no_underscore = filter (\<lambda>c. c \<noteq> CHR ''_'')"

definition float_re :: rx where
  "float_re =
     seqs [Group 1 (Seq sign_rx (Opt digits_rx)),
           Opt (Group 2 (Seq (Cls (\<lambda>c. c = CHR ''.'')) (Opt digits_rx))),
           Opt (Group 3 (Seq (Cls (\<lambda>c. c = CHR ''e'' \<or> c = CHR ''E'')) (Seq sign_rx digits_rx)))]"

definition parse_float :: "string \<Rightarrow> pyfloat option" where
  "parse_float s0 =
     (let s = strip s0; l = lower s;
          body = (if startswith l ''+'' \<or> startswith l ''-'' then tl l else l);
          neg = startswith l ''-''
      in if body = ''nan'' then Some NaN
         else if body = ''inf'' \<or> body = ''infinity'' then Some (if neg then NInf else PInf)
         else (case find (\<lambda>(_, r, g). r = []) (rx_match float_re None s []) of
                 None \<Rightarrow> None
               | Some (_, _, g) \<Rightarrow>
                   (if \<exists>c \<in> set (cap g 1 @ cap g 2). py_digit c
                    then Some (Fin (decimal_value (no_underscore (cap g 1)) (no_underscore (cap g 2))
                                 (no_underscore (cap g 3))))
                    else None)))"

definition parse_int :: "string \<Rightarrow> int option" where
  "parse_int s =
     (let t = strip s in
      case find (\<lambda>(_, r, _). r = []) (rx_match (Seq sign_rx digits_rx) None t []) of
        None \<Rightarrow> None | Some _ \<Rightarrow> Some (signed_value (no_underscore t)))"

definition py_float :: "json \<Rightarrow> pyfloat res" where
  "py_float v =
     (case v of
        JInt i \<Rightarrow> Inr (Fin (of_int i))
      | JFloat f \<Rightarrow> Inr f
      | JBool b \<Rightarrow> Inr (Fin (if b then 1 else 0))
      | JStr s \<Rightarrow> (case parse_float s of Some f \<Rightarrow> Inr f
                    | None \<Rightarrow> Inl (ValueError ''could not convert string to float''))
      | _ \<Rightarrow> Inl (TypeError ''float() argument''))"

definition truncate :: "rat \<Rightarrow> int" where
  "truncate r = (if r < 0 then - \<lfloor>- r\<rfloor> else \<lfloor>r\<rfloor>)"

definition py_int :: "json \<Rightarrow> int res" where
  "py_int v =
     (case v of
        JInt i \<Rightarrow> Inr i
      | JFloat (Fin r) \<Rightarrow> Inr (truncate r)
      | JFloat NaN \<Rightarrow> Inl (ValueError ''cannot convert float NaN to integer'')
      | JFloat _ \<Rightarrow> Inl (OtherError ''OverflowError'')
      | JBool b \<Rightarrow> Inr (if b then 1 else 0)
      | JStr s \<Rightarrow> (case parse_int s of Some i \<Rightarrow> Inr i
                    | None \<Rightarrow> Inl (ValueError ''invalid literal for int() with base 10''))
      | _ \<Rightarrow> Inl (TypeError ''int() argument''))"

end
