(* ===== verification/Agent_Common.thy ===== *)
theory Agent_Common
  imports Base_Graph Json_Loads
begin

text \<open>
  What the department agents under \<open>apps/runtime/agents\<close> share: the model client and the tool
  objects they are given (parameters here, \<open>agent_env\<close>), the trace of the calls they make, the
  code-fence defence every extractor carries, and the parsing of a model reply with required
  fields. A system prompt is a constant text whose content plays no role: it is a field of the
  environment. \<open>ae_repr\<close> is Python's \<open>repr\<close> of floats and containers.
\<close>

section \<open>Environment and calls\<close>

datatype agent_call =
    Ask string bool "msg list"
  | Use string "(string \<times> json) list"

text \<open>
  \<open>Ask sensitivity redacted messages\<close> is a gateway call, \<open>Use tool args\<close> a call of the tool
  object named as the approval payloads name it.
\<close>

record agent_env =
  ae_prompt :: string
  ae_model :: "string \<Rightarrow> bool \<Rightarrow> msg list \<Rightarrow> string res"
  ae_tool :: "string \<Rightarrow> (string \<times> json) list \<Rightarrow> json res"
  ae_kill :: "kill_view option"
  ae_repr :: "json \<Rightarrow> string"

definition ask :: "agent_env \<Rightarrow> string \<Rightarrow> bool \<Rightarrow> msg list \<Rightarrow> (agent_call, string) eff" where
  "ask env sens redacted msgs = eff_call (Ask sens redacted msgs) (ae_model env sens redacted msgs)"

definition use_tool :: "agent_env \<Rightarrow> string \<Rightarrow> (string \<times> json) list \<Rightarrow> (agent_call, json) eff" where
  "use_tool env tool args = eff_call (Use tool args) (ae_tool env tool args)"

text \<open>\<open>try: m except E: h\<close>, where \<open>h\<close> answers \<open>None\<close> for the exceptions it does not catch.\<close>

definition eff_try :: "('c, 'a) eff \<Rightarrow> (exn \<Rightarrow> 'a option) \<Rightarrow> ('c, 'a) eff" where
  "eff_try m h =
     (case outcome m of
        Inl e \<Rightarrow> (case h e of None \<Rightarrow> m | Some x \<Rightarrow> (trace m, Inr x))
      | Inr _ \<Rightarrow> m)"

lemma trace_eff_try [simp]: "trace (eff_try m h) = trace m"
  by (simp add: eff_try_def split: sum.splits option.splits)

fun is_parse_error :: "exn \<Rightarrow> bool" where
  "is_parse_error (ParseError _) = True"
| "is_parse_error _ = False"

text \<open>\<open>state[k]\<close> of a key a node may not have written.\<close>

definition state_key :: "string \<Rightarrow> 'a option \<Rightarrow> 'a res" where
  "state_key k v = (case v of Some x \<Rightarrow> Inr x | None \<Rightarrow> Inl (KeyError k))"

lemma state_key_simps [simp]:
  "state_key k (Some x) = Inr x" "state_key k None = Inl (KeyError k)"
  "state_key k v = Inr x \<longleftrightarrow> v = Some x"
  by (simp_all add: state_key_def split: option.split)

text \<open>\<open>assert requires_approval(...)\<close>: a false result or an unknown class stops the node.\<close>

definition assert_approval :: "string \<Rightarrow> unit res" where
  "assert_approval risk =
     res_bind (requires_approval risk 0 False) (\<lambda>b. if b then Inr () else Inl AssertionError)"

lemma assert_approval_simps [simp]:
  "assert_approval ''write:external'' = Inr ()" "assert_approval ''write:internal'' = Inr ()"
  by (simp_all add: assert_approval_def requires_approval_def)

lemma use_tool_Inr [simp]:
  "use_tool env t a = (l, Inr v) \<longleftrightarrow> l = [Use t a] \<and> ae_tool env t a = Inr v"
  by (auto simp: use_tool_def eff_call_def)

lemma trace_use_tool [simp]: "trace (use_tool env t a) = [Use t a]"
  by (simp add: use_tool_def)

lemma trace_ask [simp]: "trace (ask env sens r ms) = [Ask sens r ms]"
  by (simp add: ask_def)

lemma eff_try_Inr:
  "outcome (eff_try m h) = Inr x \<longleftrightarrow>
     outcome m = Inr x \<or> (\<exists>e. outcome m = Inl e \<and> h e = Some x)"
  by (auto simp: eff_try_def split: sum.splits option.splits)

text \<open>A quoted JSON name, for examples.\<close>

definition qt :: "string \<Rightarrow> string" where
  "qt s = char_of (34::nat) # s @ [char_of (34::nat)]"

section \<open>Parsing a model reply\<close>

definition fence :: string where
  "fence = replicate 3 (char_of (96::nat))"

text \<open>Three back quotes, an optional \<open>json\<close>, group 1 as short as possible, three back quotes.\<close>

definition code_fence_re :: rx where
  "code_fence_re =
     seqs [Bos, lits fence, Opt (lits ''json''), Star (Cls py_space), Group 1 (LazyStar (Cls (\<lambda>_. True))),
           Star (Cls py_space), lits fence, Eos]"

definition strip_code_fence :: "string \<Rightarrow> string" where
  "strip_code_fence text = (case rx_at_start code_fence_re (strip text) of Some g \<Rightarrow> cap g 1 | None \<Rightarrow> text)"

definition parse_reply :: "string \<Rightarrow> json res" where
  "parse_reply content =
     (case json_loads (strip_code_fence content) of
        Some v \<Rightarrow> Inr v | None \<Rightarrow> Inl (ParseError ''model did not return valid JSON''))"

text \<open>\<open>missing = [f for f in required if f not in parsed]\<close>, and the raise if there is one.\<close>

definition require_fields :: "string list \<Rightarrow> json \<Rightarrow> unit res" where
  "require_fields required parsed =
     (case res_filter (\<lambda>f. res_bind (py_in f parsed) (\<lambda>b. Inr (\<not> b))) required of
        Inl e \<Rightarrow> Inl e
      | Inr missing \<Rightarrow> if missing = [] then Inr () else Inl (ParseError ''response missing field(s)''))"

lemma require_fields_obj:
  "require_fields required (JObj kvs) = Inr () \<longleftrightarrow> set required \<subseteq> fst ` set kvs"
proof -
  have "res_filter (\<lambda>f. res_bind (py_in f (JObj kvs)) (\<lambda>b. Inr (\<not> b))) required
      = Inr (filter (\<lambda>f. f \<notin> fst ` set kvs) required)"
    by (rule res_filter_total) (simp add: py_in_def)
  then show ?thesis by (auto simp: require_fields_def filter_empty_conv split: if_splits)
qed

lemma require_fields_cong:
  assumes "\<And>k. k \<in> set required \<Longrightarrow> py_in k a = py_in k b"
  shows "require_fields required a = require_fields required b"
proof -
  have "res_filter (\<lambda>f. res_bind (py_in f a) (\<lambda>b. Inr (\<not> b))) required
      = res_filter (\<lambda>f. res_bind (py_in f b) (\<lambda>b. Inr (\<not> b))) required"
    by (rule res_filter_cong) (simp add: assms)
  then show ?thesis by (simp add: require_fields_def)
qed

text \<open>A reply with all its fields, read as strings.\<close>

definition str_field :: "(json \<Rightarrow> string) \<Rightarrow> json \<Rightarrow> string \<Rightarrow> string res" where
  "str_field rp parsed k = res_bind (py_index parsed k) (\<lambda>v. Inr (py_str rp v))"

lemma str_field_obj:
  "map_of kvs k = Some v \<Longrightarrow> str_field rp (JObj kvs) k = Inr (py_str rp v)"
  by (simp add: str_field_def py_index_def dict_index_def)

section \<open>The code fence is transparent\<close>

text \<open>
  A fenced text is read as its content, whatever the content, as long as it neither starts nor
  ends with white space.
\<close>

lemma lits_match: "rx_match (lits w) p (w @ s) g = [(if w = [] then p else Some (last w), s, g)]"
  by (induction w arbitrary: p) (auto simp: lits_def)

lemma lits_mismatch: "\<not> startswith s w \<Longrightarrow> rx_match (lits w) p s g = []"
proof (induction w arbitrary: p s)
  case (Cons c w)
  then show ?case by (cases s) (auto simp: lits_def startswith_def)
qed (simp add: startswith_def)

fun rx_plain :: "rx \<Rightarrow> bool" where
  "rx_plain (Group i a) = False"
| "rx_plain (Seq a b) = (rx_plain a \<and> rx_plain b)"
| "rx_plain (Alt a b) = (rx_plain a \<and> rx_plain b)"
| "rx_plain (Star a) = rx_plain a"
| "rx_plain (LazyStar a) = rx_plain a"
| "rx_plain _ = True"

lemma rx_plain_caps: "(p', s', g') \<in> set (rx_match r p s g) \<Longrightarrow> rx_plain r \<Longrightarrow> g' = g"
proof (induction r p s g arbitrary: p' s' g' rule: rx_match.induct)
  case (3 a b p s g)
  from "3.prems" obtain p1 s1 g1 where 1: "(p1, s1, g1) \<in> set (rx_match a p s g)"
    and 2: "(p', s', g') \<in> set (rx_match b p1 s1 g1)" by auto
  from "3.IH"(1) [OF 1] "3.IH"(2) 1 2 "3.prems"(2) show ?case by auto
next
  case (5 a p s g)
  from "5.prems"(1) consider "g' = g"
    | p1 s1 g1 where "(p1, s1, g1) \<in> set (rx_match a p s g)" "length s1 < length s"
        "(p', s', g') \<in> set (rx_match (Star a) p1 s1 g1)"
    unfolding star_member [of "(p', s', g')" a p s g] by blast
  then show ?case
  proof cases
    case 2
    have "g1 = g" using "5.IH"(1) [OF 2(1)] "5.prems"(2) by simp
    moreover have "g' = g1" using "5.IH"(2) 2 "5.prems"(2) by blast
    ultimately show ?thesis by simp
  qed
next
  case (6 a p s g)
  from "6.prems"(1) consider "g' = g"
    | p1 s1 g1 where "(p1, s1, g1) \<in> set (rx_match a p s g)" "length s1 < length s"
        "(p', s', g') \<in> set (rx_match (LazyStar a) p1 s1 g1)"
    unfolding lazy_star_member [of "(p', s', g')" a p s g] by blast
  then show ?case
  proof cases
    case 2
    have "g1 = g" using "6.IH"(1) [OF 2(1)] "6.prems"(2) by simp
    moreover have "g' = g1" using "6.IH"(2) 2 "6.prems"(2) by blast
    ultimately show ?thesis by simp
  qed
qed (auto split: list.splits if_splits option.splits)

text \<open>\<open>.*?\<close> stops at every length, shortest first.\<close>

lemma lazy_any:
  "map (\<lambda>(_, r, c). (r, c)) (rx_match (LazyStar (Cls (\<lambda>_. True))) p s g)
     = map (\<lambda>i. (drop i s, g)) [0..<Suc (length s)]"
proof (induction s arbitrary: p)
  case Nil
  show ?case by (subst rx_match.simps) simp
next
  case (Cons c s)
  have "map (\<lambda>(_, r, c). (r, c)) (rx_match (LazyStar (Cls (\<lambda>_. True))) p (c # s) g)
      = (c # s, g) # map (\<lambda>(_, r, c). (r, c)) (rx_match (LazyStar (Cls (\<lambda>_. True))) (Some c) s g)"
    by (subst rx_match.simps) simp
  also have "\<dots> = map (\<lambda>i. (drop i (c # s), g)) [0..<Suc (length (c # s))]"
    unfolding Cons.IH by (simp add: map_upt_Suc del: upt_Suc)
  finally show ?case .
qed

text \<open>A greedy star of a class first takes all it can.\<close>

lemma star_cls_hd:
  "\<forall>c \<in> set w. f c \<Longrightarrow> s = [] \<or> \<not> f (hd s) \<Longrightarrow>
     hd (rx_match (Star (Cls f)) p (w @ s) g) = (if w = [] then p else Some (last w), s, g)"
proof (induction w arbitrary: p)
  case Nil
  then show ?case by (subst rx_match.simps) (cases s; simp)
next
  case (Cons c w)
  have "rx_match (Star (Cls f)) (Some c) (w @ s) g \<noteq> []" by (subst rx_match.simps) simp
  then show ?case using Cons by (subst rx_match.simps) simp
qed

lemma hd_concat_map: "xs \<noteq> [] \<Longrightarrow> f (hd xs) \<noteq> [] \<Longrightarrow> hd (concat (map f xs)) = hd (f (hd xs))"
  by (cases xs) auto

lemma concat_map_nonempty: "xs \<noteq> [] \<Longrightarrow> f (hd xs) \<noteq> [] \<Longrightarrow> concat (map f xs) \<noteq> []"
  by (cases xs) auto

lemma concat_map_skip: "(\<And>x. x \<in> set xs \<Longrightarrow> f x = []) \<Longrightarrow> concat (map f (xs @ ys)) = concat (map f ys)"
  by simp

abbreviation "fence_tail \<equiv> Seq (Star (Cls py_space)) (Seq (lits fence) Eos)"
abbreviation "fence_body \<equiv> Seq (Group 1 (LazyStar (Cls (\<lambda>_. True)))) fence_tail"

lemma newline_space [simp]: "py_space (char_of (10::nat))" "\<not> py_space (hd fence)" "\<not> py_space (last fence)"
  by (code_simp)+

lemma last_fence: "last fence = char_of (96::nat)" "fence \<noteq> []"
  by (simp_all add: fence_def)

lemma fence_tail_plain: "rx_plain fence_tail"
  by (simp add: lits_def fence_def numeral_3_eq_3)

lemma tail_no_match:
  assumes "v \<noteq> []" "\<not> py_space (last v)"
  shows "rx_match fence_tail p (v @ [char_of (10::nat)] @ fence) g = []"
proof (rule ccontr)
  let ?s = "v @ [char_of (10::nat)] @ fence"
  assume "rx_match fence_tail p ?s g \<noteq> []"
  then obtain p' s' g' where "(p', s', g') \<in> set (rx_match fence_tail p ?s g)" by (metis list.set_intros(1) neq_Nil_conv prod_cases3)
  then obtain p1 s1 g1 p2 s2 g2 where 1: "(p1, s1, g1) \<in> set (rx_match (Star (Cls py_space)) p ?s g)"
    and 2: "(p2, s2, g2) \<in> set (rx_match (lits fence) p1 s1 g1)" and 3: "s2 = [] \<or> s2 = [char_of (10::nat)]"
    by (auto split: if_splits)
  from rx_match_suffix [OF 1] obtain w where w: "?s = w @ s1" by blast
  then have ws: "\<forall>c \<in> set w. py_space c" using rx_match_admits [OF 1 w] by auto
  have "startswith s1 fence" using 2 lits_mismatch by fastforce
  then obtain q where q: "s1 = fence @ q" by (metis append_take_drop_id startswith_def)
  with 2 have "q = s2" using lits_match [of fence p1 q g1] by (auto simp: fence_def)
  with 3 q w have "v @ [char_of (10::nat)] @ fence = w @ fence \<or>
      v @ [char_of (10::nat)] @ fence = w @ fence @ [char_of (10::nat)]" by auto
  then show False
  proof
    assume "v @ [char_of (10::nat)] @ fence = w @ fence @ [char_of (10::nat)]"
    then have "last (v @ [char_of (10::nat)] @ fence) = last (w @ fence @ [char_of (10::nat)])" by (rule arg_cong)
    then show False by (simp add: last_fence)
  next
    assume "v @ [char_of (10::nat)] @ fence = w @ fence"
    then have "v @ [char_of (10::nat)] = w" by simp
    with ws assms show False by auto
  qed
qed

lemma tail_match: "rx_match fence_tail p (char_of (10::nat) # fence) g \<noteq> []"
proof -
  have "(Some (char_of (10::nat)), fence, g) \<in> set (rx_match (Star (Cls py_space)) p (char_of (10::nat) # fence) g)"
    by (subst star_member, rule disjI2, subst star_member) simp
  moreover have "rx_match (Seq (lits fence) Eos) (Some (char_of (10::nat))) fence g \<noteq> []"
    using lits_match [of fence "Some (char_of (10::nat))" "[]" g] by simp
  ultimately show ?thesis by fastforce
qed

lemma fence_body_hd:
  assumes "b \<noteq> []" "\<not> py_space (last b)"
  shows "rx_match fence_body p (b @ [char_of (10::nat)] @ fence) g \<noteq> [] \<and>
     snd (snd (hd (rx_match fence_body p (b @ [char_of (10::nat)] @ fence) g))) = (1, b) # g"
proof -
  define s where "s = b @ [char_of (10::nat)] @ fence"
  define L where "L = rx_match (Group 1 (LazyStar (Cls (\<lambda>_. True)))) p s g"
  define F where "F = (\<lambda>(p', s', g'). rx_match fence_tail p' s' g')"
  have F: "F (p', s', g') = rx_match fence_tail p' s' g'" for p' s' g' by (simp add: F_def del: rx_match.simps)
  have len: "length L = Suc (length s)"
    using arg_cong [OF lazy_any [of p s g], of length] by (simp add: L_def del: upt_Suc)
  have nth: "\<exists>q. L ! i = (q, drop i s, (1, take i s) # g)" if "i \<le> length s" for i
  proof -
    have "map (\<lambda>(_, r, c). (r, c)) (rx_match (LazyStar (Cls (\<lambda>_. True))) p s g) ! i = (drop i s, g)"
      unfolding lazy_any using that by (simp del: upt_Suc)
    moreover have "i < length (rx_match (LazyStar (Cls (\<lambda>_. True))) p s g)"
      using len that by (simp add: L_def)
    ultimately show ?thesis using that
      by (cases "rx_match (LazyStar (Cls (\<lambda>_. True))) p s g ! i") (simp add: L_def)
  qed
  have split: "L = take (length b) L @ drop (length b) L" by simp
  have none: "F x = []" if "x \<in> set (take (length b) L)" for x
  proof -
    from that obtain i where i: "i < length b" "x = L ! i" by (auto simp: in_set_conv_nth)
    with nth [of i] obtain q where x: "x = (q, drop i s, (1, take i s) # g)" by (auto simp: s_def)
    have "drop i s = drop i b @ [char_of (10::nat)] @ fence" "drop i b \<noteq> []" "last (drop i b) = last b"
      using i by (simp_all add: s_def)
    with x tail_no_match [of "drop i b" q "(1, take i s) # g"] assms(2) show ?thesis
      by (simp add: F del: rx_match.simps(3))
  qed
  have "rx_match fence_body p s g = concat (map F L)" unfolding L_def F_def by (rule rx_match.simps(3))
  also have "\<dots> = concat (map F (drop (length b) L))"
    by (subst split, rule concat_map_skip, rule none)
  finally have body: "rx_match fence_body p s g = concat (map F (drop (length b) L))" .
  from nth [of "length b"] obtain q where
    y: "L ! length b = (q, [char_of (10::nat)] @ fence, (1, b) # g)" by (auto simp: s_def)
  have d: "hd (drop (length b) L) = (q, [char_of (10::nat)] @ fence, (1, b) # g)"
    using y len by (simp add: hd_drop_conv_nth s_def)
  have ne: "drop (length b) L \<noteq> []" "F (hd (drop (length b) L)) \<noteq> []"
    using len d tail_match [of q "(1, b) # g"] by (simp_all add: s_def F del: rx_match.simps(3))
  have *: "hd (rx_match fence_body p s g) = hd (F (hd (drop (length b) L)))"
    unfolding body by (rule hd_concat_map [where f = F, OF ne])
  have **: "rx_match fence_body p s g \<noteq> []"
    unfolding body by (rule concat_map_nonempty [where f = F, OF ne])
  have "hd (F (hd (drop (length b) L))) \<in> set (rx_match fence_tail q ([char_of (10::nat)] @ fence) ((1, b) # g))"
    using ne(2) d by (metis F hd_in_set)
  then have "snd (snd (hd (F (hd (drop (length b) L))))) = (1, b) # g"
    using rx_plain_caps [of _ _ _ fence_tail q "[char_of (10::nat)] @ fence" "(1, b) # g"]
    by (metis prod.collapse fence_tail_plain)
  with * ** show ?thesis by (simp add: s_def del: rx_match.simps(3))
qed

text \<open>
  The code-fence defence is exact: a reply fenced as \<open>json\<close> is read as the text
  between the fences, whatever that text contains (even further fences), as long as it neither
  starts nor ends with white space.
\<close>

theorem strip_code_fence_fenced:
  assumes "b \<noteq> []" "\<not> py_space (hd b)" "\<not> py_space (last b)"
  shows "strip_code_fence (fence @ ''json'' @ [char_of (10::nat)] @ b @ [char_of (10::nat)] @ fence) = b"
proof -
  let ?nl = "[char_of (10::nat)]"
  let ?t = "fence @ ''json'' @ ?nl @ b @ ?nl @ fence"
  let ?body = "Seq (Star (Cls py_space)) fence_body"
  have strip: "strip ?t = ?t"
    by (rule strip_id) (simp_all add: fence_def numeral_3_eq_3 py_space_def)
  have pre: "rx_match code_fence_re None ?t []
      = rx_match ?body (Some CHR ''n'') (?nl @ b @ ?nl @ fence) []
        @ rx_match ?body (Some (last fence)) (''json'' @ ?nl @ b @ ?nl @ fence) []"
    using lits_match [of fence None "''json'' @ ?nl @ b @ ?nl @ fence" "[]"]
      lits_match [of "''json''" "Some (last fence)" "?nl @ b @ ?nl @ fence" "[]"]
    by (simp add: code_fence_re_def Opt_def last_fence)
  let ?g = "\<lambda>(p', s', g'). rx_match fence_body p' s' g'"
  let ?M = "rx_match (Star (Cls py_space)) (Some CHR ''n'') (?nl @ b @ ?nl @ fence) []"
  have hdM: "hd ?M = (Some (char_of (10::nat)), b @ ?nl @ fence, [])"
    using star_cls_hd [of ?nl py_space "b @ ?nl @ fence" "Some CHR ''n''" "[]"] assms by simp
  have neM: "?M \<noteq> []" by (subst rx_match.simps) simp
  note fb = fence_body_hd [OF assms(1,3), of "Some (char_of (10::nat))" "[]"]
  have g: "?g (hd ?M) \<noteq> []" using fb hdM by (simp del: rx_match.simps)
  have body: "rx_match ?body (Some CHR ''n'') (?nl @ b @ ?nl @ fence) [] = concat (map ?g ?M)"
    by (rule rx_match.simps(3))
  have "hd (concat (map ?g ?M)) = hd (?g (hd ?M))" by (rule hd_concat_map [where f = ?g, OF neM g])
  then have "snd (snd (hd (concat (map ?g ?M)))) = [(1, b)]" using fb hdM by (simp del: rx_match.simps)
  moreover have ne: "concat (map ?g ?M) \<noteq> []" using neM g by (cases ?M) auto
  ultimately obtain p r ms where "rx_match code_fence_re None ?t [] = (p, r, [(1, b)]) # ms"
    unfolding pre body by (cases "concat (map ?g ?M)") (auto simp del: rx_match.simps)
  then show ?thesis unfolding strip_code_fence_def strip rx_at_start_def by (simp add: cap_def)
qed

lemma strip_code_fence_fenced_witness:
  "strip_code_fence (fence @ ''json'' @ [char_of (10::nat)] @ ''{}'' @ [char_of (10::nat)] @ fence) = ''{}''"
  by (rule strip_code_fence_fenced) (simp_all add: py_space_def)

end
