(* ===== verification/Hr_Agent.thy ===== *)
theory Hr_Agent
  imports Agent_Common
begin

text \<open>
  The HR agent (\<open>agents/hr_agent\<close>): CV extraction into a profile without protected attributes,
  role matching, and the graph that ends in a shortlist draft. \<open>_fold\<close> removes the combining
  marks of the canonical decomposition; on the characters of the model that is a table.
\<close>

section \<open>Extraction\<close>

record cv_profile =
  cv_full_name :: string
  cv_email :: string
  cv_phone :: string
  cv_education :: "string list"
  cv_experience :: "string list"
  cv_skills :: "string list"

text \<open>\<open>^\s*\*(?=\d)\<close> replaced by a plus sign, then stripped.\<close>

definition normalize_phone :: "string \<Rightarrow> string" where
  "normalize_phone phone =
     strip (case lstrip phone of
              c # d # t \<Rightarrow> if c = CHR ''*'' \<and> py_digit d then CHR ''+'' # d # t else phone
            | _ \<Rightarrow> phone)"

definition cv_required :: "string list" where
  "cv_required = [''full_name'', ''email'', ''phone'', ''education'', ''experience'', ''skills'']"

definition str_list :: "(json \<Rightarrow> string) \<Rightarrow> json \<Rightarrow> string list res" where
  "str_list rp v =
     (case v of JList xs \<Rightarrow> Inr (map (py_str rp) xs) | _ \<Rightarrow> Inl (ParseError ''expected a list''))"

definition cv_of_parsed :: "(json \<Rightarrow> string) \<Rightarrow> json \<Rightarrow> cv_profile res" where
  "cv_of_parsed rp parsed =
     res_bind (require_fields cv_required parsed) (\<lambda>_.
     res_bind (str_field rp parsed ''phone'') (\<lambda>phone.
     res_bind (str_field rp parsed ''full_name'') (\<lambda>full_name.
     res_bind (str_field rp parsed ''email'') (\<lambda>email.
     res_bind (res_bind (py_index parsed ''education'') (str_list rp)) (\<lambda>education.
     res_bind (res_bind (py_index parsed ''experience'') (str_list rp)) (\<lambda>experience.
     res_bind (res_bind (py_index parsed ''skills'') (str_list rp)) (\<lambda>skills.
       Inr \<lparr>cv_full_name = full_name, cv_email = email, cv_phone = normalize_phone phone,
            cv_education = education, cv_experience = experience, cv_skills = skills\<rparr>)))))))"

definition extract_cv_profile :: "agent_env \<Rightarrow> string \<Rightarrow> (agent_call, cv_profile) eff" where
  "extract_cv_profile env ocr_text =
     eff_bind (ask env ''pii'' False [(''system'', ae_prompt env), (''user'', ocr_text)])
       (\<lambda>content. eff_lift (res_bind (parse_reply content) (cv_of_parsed (ae_repr env))))"

section \<open>Role matching\<close>

definition fold_char :: "char \<Rightarrow> char" where
  "fold_char c =
     (let n = (of_char c :: nat) in
      if 224 \<le> n \<and> n \<le> 229 then CHR ''a''
      else if n = 231 then CHR ''c''
      else if 232 \<le> n \<and> n \<le> 235 then CHR ''e''
      else if 236 \<le> n \<and> n \<le> 239 then CHR ''i''
      else if n = 241 then CHR ''n''
      else if 242 \<le> n \<and> n \<le> 246 then CHR ''o''
      else if 249 \<le> n \<and> n \<le> 252 then CHR ''u''
      else if n = 253 \<or> n = 255 then CHR ''y''
      else c)"

definition fold_text :: "string \<Rightarrow> string" where
  "fold_text text = map fold_char (lower text)"

record match_result =
  mr_score :: rat
  mr_matched :: "string list"
  mr_missing :: "string list"
  mr_reasoning :: string

definition candidate_text :: "cv_profile \<Rightarrow> string" where
  "candidate_text p =
     fold_text (join '' '' (cv_skills p) @ '' '' @ join '' '' (cv_experience p) @ '' '' @ join '' '' (cv_education p))"

definition match_reasoning :: "string list \<Rightarrow> string list \<Rightarrow> string list \<Rightarrow> string" where
  "match_reasoning criteria matched missing =
     (if matched \<noteq> [] \<and> missing \<noteq> []
      then ''Matches '' @ join '', '' matched @ ''; missing '' @ join '', '' missing @ ''.''
      else if matched \<noteq> [] then ''Matches all required criteria: '' @ join '', '' matched @ ''.''
      else ''Matches none of the required criteria: '' @ join '', '' criteria @ ''.'')"

definition score_role_match :: "cv_profile \<Rightarrow> string list \<Rightarrow> match_result" where
  "score_role_match p criteria =
     (if criteria = []
      then \<lparr>mr_score = 0, mr_matched = [], mr_missing = [], mr_reasoning = ''no criteria provided''\<rparr>
      else (let matched = filter (\<lambda>c. py_contains (candidate_text p) (fold_text c)) criteria;
                missing = filter (\<lambda>c. c \<notin> set matched) criteria
            in \<lparr>mr_score = of_nat (length matched) / of_nat (length criteria), mr_matched = matched,
                mr_missing = missing, mr_reasoning = match_reasoning criteria matched missing\<rparr>))"

section \<open>The graph\<close>

record hr_state =
  hr_image :: string
  hr_criteria :: "string list"
  hr_ocr_text :: "json option"
  hr_profile :: "cv_profile option"
  hr_match :: "match_result option"
  hr_blocked :: "exn option"
  hr_rejected :: bool
  hr_paused :: bool

definition hr_start :: "string \<Rightarrow> string list \<Rightarrow> hr_state" where
  "hr_start img criteria = \<lparr>hr_image = img, hr_criteria = criteria, hr_ocr_text = None, hr_profile = None,
     hr_match = None, hr_blocked = None, hr_rejected = False, hr_paused = False\<rparr>"

datatype hr_node = Hr_Gate | Hr_Ocr | Hr_Extract | Hr_Match | Hr_Hitl | Hr_End

record hr_payload =
  hp_risk :: string
  hp_profile :: cv_profile
  hp_match :: match_result

fun hr_exec ::
  "string \<Rightarrow> agent_env \<Rightarrow> hr_node \<Rightarrow> decision option \<Rightarrow> hr_state \<Rightarrow>
     (agent_call, (hr_state, hr_payload) step_out) eff" where
  "hr_exec agent env Hr_Gate d s =
     update (if gate_closed (ae_kill env) agent then s\<lparr>hr_paused := True\<rparr> else s)"
| "hr_exec agent env Hr_Ocr d s =
     eff_bind (use_tool env ''ocr.extract_text'' [(''image_base64'', JStr (hr_image s))])
       (\<lambda>r. eff_bind (eff_lift (py_index r ''text'')) (\<lambda>text. update (s\<lparr>hr_ocr_text := Some text\<rparr>)))"
| "hr_exec agent env Hr_Extract d s =
     eff_bind (eff_lift (state_key ''ocr_text'' (hr_ocr_text s))) (\<lambda>text.
       eff_try (eff_bind (extract_cv_profile env (py_str (ae_repr env) text))
                  (\<lambda>p. update (s\<lparr>hr_profile := Some p\<rparr>)))
         (\<lambda>e. if is_parse_error e then Some (Update (s\<lparr>hr_blocked := Some e\<rparr>)) else None))"
| "hr_exec agent env Hr_Match d s =
     eff_bind (eff_lift (state_key ''profile'' (hr_profile s)))
       (\<lambda>p. update (s\<lparr>hr_match := Some (score_role_match p (hr_criteria s))\<rparr>))"
| "hr_exec agent env Hr_Hitl d s =
     eff_bind (eff_lift (assert_approval ''write:internal'')) (\<lambda>_.
     eff_bind (eff_lift (state_key ''profile'' (hr_profile s))) (\<lambda>p.
     eff_bind (eff_lift (state_key ''match'' (hr_match s))) (\<lambda>m.
       interrupt \<lparr>hp_risk = ''write:internal'', hp_profile = p, hp_match = m\<rparr> d
         (\<lambda>dec. update (if approved_in dec then s else s\<lparr>hr_rejected := True\<rparr>)))))"
| "hr_exec agent env Hr_End d s = update s"

fun hr_route :: "hr_node \<Rightarrow> hr_state \<Rightarrow> hr_node option res" where
  "hr_route Hr_Gate s = Inr (if hr_paused s then None else Some Hr_Ocr)"
| "hr_route Hr_Ocr s = Inr (Some Hr_Extract)"
| "hr_route Hr_Extract s = Inr (Some (if hr_blocked s \<noteq> None then Hr_End else Hr_Match))"
| "hr_route Hr_Match s = Inr (Some Hr_Hitl)"
| "hr_route Hr_Hitl s = Inr (Some Hr_End)"
| "hr_route Hr_End s = Inr None"

definition hr_run ::
  "string \<Rightarrow> agent_env \<Rightarrow> hr_node \<Rightarrow> decision option \<Rightarrow> hr_state \<Rightarrow>
     agent_call list \<times> (hr_node, hr_state, hr_payload) run_out" where
  "hr_run agent env = graph_run (hr_exec agent env) hr_route 6"

fun hr_rank :: "hr_node \<Rightarrow> nat" where
  "hr_rank Hr_Gate = 5" | "hr_rank Hr_Ocr = 4" | "hr_rank Hr_Extract = 3" | "hr_rank Hr_Match = 2"
| "hr_rank Hr_Hitl = 1" | "hr_rank Hr_End = 0"

interpretation hr_acyclic: acyclic_graph "hr_exec agent env" hr_route hr_rank for agent env
proof
  fix n s n'
  assume "hr_route n s = Inr (Some n')"
  then show "hr_rank n' < hr_rank n" by (cases n) (auto split: if_splits)
qed

section \<open>Properties\<close>

lemma dict_index_filter:
  "k \<in> ks \<Longrightarrow> dict_index (filter (\<lambda>(k, _). k \<in> ks) kvs) k = dict_index kvs k"
proof -
  assume "k \<in> ks"
  then have "map_of (filter (\<lambda>(k, _). k \<in> ks) kvs) k = map_of kvs k" by (induction kvs) auto
  then show ?thesis by (simp add: dict_index_def)
qed

text \<open>
  Protected attributes cannot reach the profile. Whatever other keys the model's
  object carries (age, gender, photo, birth date), the profile is the one read from the six
  allowed keys alone.
\<close>

theorem cv_profile_reads_allowed_keys_only:
  "cv_of_parsed rp (JObj kvs) = cv_of_parsed rp (JObj (filter (\<lambda>(k, _). k \<in> set cv_required) kvs))"
proof -
  define f where "f = filter (\<lambda>(k, _). k \<in> set cv_required) kvs"
  have "py_in k (JObj f) = py_in k (JObj kvs)" if "k \<in> set cv_required" for k
    using that by (force simp: py_in_def f_def)
  then have "require_fields cv_required (JObj f) = require_fields cv_required (JObj kvs)"
    by (rule require_fields_cong)
  moreover have "py_index (JObj f) k = py_index (JObj kvs) k" if "k \<in> set cv_required" for k
    using dict_index_filter [OF that, of kvs] by (simp add: py_index_def f_def)
  ultimately show ?thesis
    unfolding cv_of_parsed_def str_field_def f_def [symmetric] by (simp add: cv_required_def)
qed

text \<open>
  Matching is a partition with an exact score. Every criterion is matched or
  missing and not both, it is matched exactly when its folded text occurs in the candidate's,
  and the score is the fraction matched, between 0 and 1.
\<close>

theorem score_role_match_partition:
  assumes "criteria \<noteq> []"
  shows "set (mr_matched (score_role_match p criteria)) \<union> set (mr_missing (score_role_match p criteria)) = set criteria
     \<and> set (mr_matched (score_role_match p criteria)) \<inter> set (mr_missing (score_role_match p criteria)) = {}
     \<and> set (mr_matched (score_role_match p criteria))
         = {c \<in> set criteria. py_contains (candidate_text p) (fold_text c)}
     \<and> mr_score (score_role_match p criteria) * of_nat (length criteria)
         = of_nat (length (mr_matched (score_role_match p criteria)))
     \<and> 0 \<le> mr_score (score_role_match p criteria) \<and> mr_score (score_role_match p criteria) \<le> 1"
  using assms by (auto simp: score_role_match_def Let_def divide_le_eq_1)

definition demo_cv :: cv_profile where
  "demo_cv = \<lparr>cv_full_name = ''A'', cv_email = [], cv_phone = [], cv_education = [], cv_experience = [],
     cv_skills = [''Python'', ''SQL'']\<rparr>"

lemma score_role_match_partition_witness:
  "mr_score (score_role_match demo_cv [''python'', ''Rust'']) = 1/2 \<and>
   set (mr_matched (score_role_match demo_cv [''python'', ''Rust''])) = {''python''}"
proof -
  have m: "mr_matched (score_role_match demo_cv [''python'', ''Rust'']) = [''python'']" by code_simp
  from score_role_match_partition [of "[''python'', ''Rust'']" demo_cv]
  have "mr_score (score_role_match demo_cv [''python'', ''Rust'']) * 2 = 1" unfolding m by simp
  with m show ?thesis by (simp add: field_simps)
qed

lemma trace_extract_cv [simp]:
  "trace (extract_cv_profile env t) = [Ask ''pii'' False [(''system'', ae_prompt env), (''user'', t)]]"
  by (simp add: extract_cv_profile_def trace_eff_bind split: sum.split)

definition hr_local_call :: "agent_call \<Rightarrow> bool" where
  "hr_local_call c =
     (case c of
        Ask sens redacted _ \<Rightarrow> sens = ''pii'' \<and> \<not> redacted
      | Use tool _ \<Rightarrow> tool = ''ocr.extract_text'')"

text \<open>
  CV text never leaves the PII lane: in every run of the HR graph, fresh or resumed,
  from any state, each model call carries sensitivity \<open>pii\<close> without the redaction downgrade, the
  only tool used is the OCR, and the run ends.
\<close>

theorem hr_calls_stay_local:
  "list_all hr_local_call (fst (hr_run agent env n d s)) \<and> snd (hr_run agent env n d s) \<noteq> OutOfFuel"
proof (unfold list_all_iff, intro conjI allI ballI)
  fix c assume "c \<in> set (fst (hr_run agent env n d s))"
  from trace_from_exec [OF this [unfolded hr_run_def]] obtain m d' t
    where "c \<in> set (trace (hr_exec agent env m d' t))" by blast
  then show "hr_local_call c"
    by (cases m) (auto simp: hr_local_call_def set_trace_eff_bind interrupt_def split: sum.splits option.splits if_splits)
next
  show "snd (hr_run agent env n d s) \<noteq> OutOfFuel"
    unfolding hr_run_def by (rule hr_acyclic.enough_fuel) (cases n; simp)
qed

end
