(* ===== verification/Invoice_Agent.thy ===== *)
theory Invoice_Agent
  imports Agent_Common
begin

text \<open>
  The invoice agent (\<open>agents/invoice_agent\<close>): field extraction, the purchase-order lookup over
  the governed query tool, validation, and the graph with its approval gate. \<open>iv_seen\<close> is the
  closure's set of processed numbers, which outlives a run: a caller that shares it passes the
  value the previous run ended with. Reasons and block messages are kept as the values they
  are rendered from.
\<close>

section \<open>Field extraction\<close>

record invoice_fields =
  f_vendor :: string
  f_po_number :: string
  f_amount :: pyfloat
  f_currency :: string

definition invoice_required :: "string list" where
  "invoice_required = [''vendor'', ''po_number'', ''amount'', ''currency'']"

text \<open>\<open>float(parsed["amount"])\<close>; a type or value error becomes an extraction error.\<close>

definition amount_field :: "json \<Rightarrow> pyfloat res" where
  "amount_field parsed =
     (case res_bind (py_index parsed ''amount'') py_float of
        Inl (TypeError _) \<Rightarrow> Inl (ParseError ''amount is not numeric'')
      | Inl (ValueError _) \<Rightarrow> Inl (ParseError ''amount is not numeric'')
      | r \<Rightarrow> r)"

definition read_invoice_fields :: "(json \<Rightarrow> string) \<Rightarrow> string \<Rightarrow> invoice_fields res" where
  "read_invoice_fields rp content =
     res_bind (parse_reply content) (\<lambda>parsed.
     res_bind (require_fields invoice_required parsed) (\<lambda>_.
     res_bind (amount_field parsed) (\<lambda>amount.
     res_bind (str_field rp parsed ''vendor'') (\<lambda>vendor.
     res_bind (str_field rp parsed ''po_number'') (\<lambda>po.
     res_bind (str_field rp parsed ''currency'') (\<lambda>currency.
       Inr \<lparr>f_vendor = vendor, f_po_number = po, f_amount = amount, f_currency = currency\<rparr>))))))"

definition extract_invoice_fields ::
  "agent_env \<Rightarrow> string \<Rightarrow> string \<Rightarrow> (agent_call, invoice_fields) eff" where
  "extract_invoice_fields env sensitivity ocr_text =
     eff_bind (ask env sensitivity False [(''system'', ae_prompt env), (''user'', ocr_text)])
       (\<lambda>content. eff_lift (read_invoice_fields (ae_repr env) content))"

section \<open>Purchase orders\<close>

record purchase_order =
  po_number :: string
  po_vendor :: string
  po_amount :: pyfloat
  po_currency :: string

definition po_query :: string where
  "po_query = ''SELECT po_number, vendor, amount, currency FROM fixture_purchase_orders''"

fun match_po :: "(json \<Rightarrow> string) \<Rightarrow> string \<Rightarrow> json list \<Rightarrow> purchase_order option res" where
  "match_po rp number [] = Inr None"
| "match_po rp number (row # rows) =
     res_bind (str_field rp row ''po_number'') (\<lambda>n.
       if n = number
       then res_bind (str_field rp row ''vendor'') (\<lambda>vendor.
            res_bind (res_bind (py_index row ''amount'') py_float) (\<lambda>amount.
            res_bind (str_field rp row ''currency'') (\<lambda>currency.
              Inr (Some \<lparr>po_number = n, po_vendor = vendor, po_amount = amount, po_currency = currency\<rparr>))))
       else match_po rp number rows)"

text \<open>The untrusted number never enters the SQL text: the query is a constant.\<close>

definition lookup_po :: "agent_env \<Rightarrow> string \<Rightarrow> (agent_call, purchase_order option) eff" where
  "lookup_po env number =
     eff_bind (use_tool env ''pg_ro.query'' [(''sql'', JStr po_query)])
       (\<lambda>rows. eff_lift (res_bind (py_iter rows) (match_po (ae_repr env) number)))"

section \<open>Validation\<close>

datatype reason =
    Duplicate string
  | Po_Not_Found string
  | Amount_Mismatch pyfloat string pyfloat string
  | Vendor_Mismatch string string

record validation_result =
  vr_ok :: bool
  vr_reasons :: "reason list"
  vr_po :: "purchase_order option"

definition amount_mismatches :: "pyfloat \<Rightarrow> pyfloat \<Rightarrow> bool" where
  "amount_mismatches invoice_amount po =
     (if pf_eq po (Fin 0) then \<not> pf_eq invoice_amount (Fin 0)
      else pf_less (Fin (1/100)) (pf_div (pf_abs (pf_sub invoice_amount po)) po))"

definition check_duplicate :: "invoice_fields \<Rightarrow> string set \<Rightarrow> bool" where
  "check_duplicate flds seen \<longleftrightarrow> f_po_number flds \<in> seen"

definition validation_for :: "invoice_fields \<Rightarrow> string set \<Rightarrow> purchase_order option \<Rightarrow> validation_result" where
  "validation_for flds seen found =
     (let dup = (if check_duplicate flds seen then [Duplicate (f_po_number flds)] else [])
      in case found of
           None \<Rightarrow> \<lparr>vr_ok = False, vr_reasons = dup @ [Po_Not_Found (f_po_number flds)], vr_po = None\<rparr>
         | Some po \<Rightarrow>
             (let reasons = dup
                @ (if amount_mismatches (f_amount flds) (po_amount po)
                   then [Amount_Mismatch (f_amount flds) (f_currency flds) (po_amount po) (po_currency po)]
                   else [])
                @ (if lower (strip (f_vendor flds)) \<noteq> lower (strip (po_vendor po))
                   then [Vendor_Mismatch (f_vendor flds) (po_vendor po)] else [])
              in \<lparr>vr_ok = (reasons = []), vr_reasons = reasons, vr_po = Some po\<rparr>))"

definition validate_invoice ::
  "agent_env \<Rightarrow> invoice_fields \<Rightarrow> string set \<Rightarrow> (agent_call, validation_result) eff" where
  "validate_invoice env flds seen =
     eff_bind (lookup_po env (f_po_number flds)) (\<lambda>found. eff_return (validation_for flds seen found))"

section \<open>The graph\<close>

record invoice_state =
  iv_image :: string
  iv_ocr_text :: "json option"
  iv_fields :: "invoice_fields option"
  iv_validation :: "validation_result option"
  iv_blocked :: "exn option"
  iv_rejected :: bool
  iv_paused :: bool
  iv_draft :: "json option"
  iv_seen :: "string set"

definition invoice_start :: "string \<Rightarrow> string set \<Rightarrow> invoice_state" where
  "invoice_start img seen =
     \<lparr>iv_image = img, iv_ocr_text = None, iv_fields = None, iv_validation = None, iv_blocked = None,
      iv_rejected = False, iv_paused = False, iv_draft = None, iv_seen = seen\<rparr>"

datatype invoice_node = Iv_Gate | Iv_Ocr | Iv_Extract | Iv_Validate | Iv_Hitl | Iv_Create | Iv_End

record invoice_payload =
  ip_risk :: string
  ip_fields :: invoice_fields
  ip_validation :: validation_result

definition draft_args :: "invoice_fields \<Rightarrow> (string \<times> json) list" where
  "draft_args f = [(''vendor'', JStr (f_vendor f)), (''po_number'', JStr (f_po_number f)),
                   (''amount'', JFloat (f_amount f)), (''currency'', JStr (f_currency f))]"

fun invoice_exec ::
  "string \<Rightarrow> agent_env \<Rightarrow> invoice_node \<Rightarrow> decision option \<Rightarrow> invoice_state \<Rightarrow>
     (agent_call, (invoice_state, invoice_payload) step_out) eff" where
  "invoice_exec agent env Iv_Gate d s =
     update (if gate_closed (ae_kill env) agent then s\<lparr>iv_paused := True\<rparr> else s)"
| "invoice_exec agent env Iv_Ocr d s =
     eff_bind (use_tool env ''ocr.extract_text'' [(''image_base64'', JStr (iv_image s))])
       (\<lambda>r. eff_bind (eff_lift (py_index r ''text'')) (\<lambda>text. update (s\<lparr>iv_ocr_text := Some text\<rparr>)))"
| "invoice_exec agent env Iv_Extract d s =
     eff_bind (eff_lift (state_key ''ocr_text'' (iv_ocr_text s)))
       (\<lambda>text. eff_try
          (eff_bind (extract_invoice_fields env ''confidential'' (py_str (ae_repr env) text))
             (\<lambda>flds. update (s\<lparr>iv_fields := Some flds\<rparr>)))
          (\<lambda>e. if is_parse_error e then Some (Update (s\<lparr>iv_blocked := Some e\<rparr>)) else None))"
| "invoice_exec agent env Iv_Validate d s =
     eff_bind (eff_lift (state_key ''fields'' (iv_fields s)))
       (\<lambda>flds. eff_bind (validate_invoice env flds (iv_seen s))
          (\<lambda>r. update (s\<lparr>iv_validation := Some r, iv_seen := insert (f_po_number flds) (iv_seen s)\<rparr>)))"
| "invoice_exec agent env Iv_Hitl d s =
     eff_bind (eff_lift (assert_approval ''write:external''))
       (\<lambda>_. eff_bind (eff_lift (state_key ''fields'' (iv_fields s)))
          (\<lambda>flds. eff_bind (eff_lift (state_key ''validation'' (iv_validation s)))
             (\<lambda>v. interrupt \<lparr>ip_risk = ''write:external'', ip_fields = flds, ip_validation = v\<rparr> d
                (\<lambda>dec. update (if approved_in dec then s else s\<lparr>iv_rejected := True\<rparr>)))))"
| "invoice_exec agent env Iv_Create d s =
     eff_bind (eff_lift (state_key ''fields'' (iv_fields s)))
       (\<lambda>flds. eff_bind (use_tool env ''erp.create_draft_entry'' (draft_args flds))
          (\<lambda>entry. update (s\<lparr>iv_draft := Some entry\<rparr>)))"
| "invoice_exec agent env Iv_End d s = update s"

fun invoice_route :: "invoice_node \<Rightarrow> invoice_state \<Rightarrow> invoice_node option res" where
  "invoice_route Iv_Gate s = Inr (if iv_paused s then None else Some Iv_Ocr)"
| "invoice_route Iv_Ocr s = Inr (Some Iv_Extract)"
| "invoice_route Iv_Extract s = Inr (Some (if iv_blocked s \<noteq> None then Iv_End else Iv_Validate))"
| "invoice_route Iv_Validate s = Inr (Some Iv_Hitl)"
| "invoice_route Iv_Hitl s = Inr (Some (if iv_rejected s then Iv_End else Iv_Create))"
| "invoice_route Iv_Create s = Inr (Some Iv_End)"
| "invoice_route Iv_End s = Inr None"

definition invoice_run ::
  "string \<Rightarrow> agent_env \<Rightarrow> invoice_node \<Rightarrow> decision option \<Rightarrow> invoice_state \<Rightarrow>
     agent_call list \<times> (invoice_node, invoice_state, invoice_payload) run_out" where
  "invoice_run agent env = graph_run (invoice_exec agent env) invoice_route 7"

section \<open>Runs\<close>

fun invoice_rank :: "invoice_node \<Rightarrow> nat" where
  "invoice_rank Iv_Gate = 6" | "invoice_rank Iv_Ocr = 5" | "invoice_rank Iv_Extract = 4"
| "invoice_rank Iv_Validate = 3" | "invoice_rank Iv_Hitl = 2" | "invoice_rank Iv_Create = 1"
| "invoice_rank Iv_End = 0"

interpretation invoice_acyclic: acyclic_graph "invoice_exec agent env" invoice_route invoice_rank
  for agent env
proof
  fix n s n'
  assume "invoice_route n s = Inr (Some n')"
  then show "invoice_rank n' < invoice_rank n" by (cases n) (auto split: if_splits)
qed

text \<open>Before a decision: reads of the image and of the constant query, and confidential model calls.\<close>

definition invoice_read_only_call :: "string \<Rightarrow> agent_call \<Rightarrow> bool" where
  "invoice_read_only_call img c =
     (case c of
        Ask sens redacted _ \<Rightarrow> sens = ''confidential'' \<and> \<not> redacted
      | Use tool args \<Rightarrow>
          (tool = ''ocr.extract_text'' \<and> args = [(''image_base64'', JStr img)])
          \<or> (tool = ''pg_ro.query'' \<and> args = [(''sql'', JStr po_query)]))"

definition invoice_inv :: "string \<Rightarrow> invoice_node \<Rightarrow> invoice_state \<Rightarrow> bool" where
  "invoice_inv img n s \<longleftrightarrow>
     iv_image s = img \<and> n \<noteq> Iv_Create \<and> \<not> iv_rejected s \<and>
     (n = Iv_Hitl \<longrightarrow>
       (\<exists>f v seen found. iv_fields s = Some f \<and> iv_validation s = Some v \<and> v = validation_for f seen found))"

lemma trace_lookup_po [simp]: "trace (lookup_po env n) = [Use ''pg_ro.query'' [(''sql'', JStr po_query)]]"
  by (simp add: lookup_po_def trace_eff_bind split: sum.split)

lemma trace_validate_invoice [simp]:
  "trace (validate_invoice env f seen) = [Use ''pg_ro.query'' [(''sql'', JStr po_query)]]"
  by (simp add: validate_invoice_def trace_eff_bind split: sum.split)

lemma trace_extract_invoice_fields [simp]:
  "trace (extract_invoice_fields env sens t) = [Ask sens False [(''system'', ae_prompt env), (''user'', t)]]"
  by (simp add: extract_invoice_fields_def trace_eff_bind split: sum.split)

lemma validate_invoice_outcome:
  "outcome (validate_invoice env f seen) = Inr v \<Longrightarrow> \<exists>found. v = validation_for f seen found"
  by (auto simp: validate_invoice_def outcome_eff_bind split: sum.splits)

lemma invoice_exec_keeps:
  assumes "invoice_inv img n s" "invoice_exec agent env n None s = (l, Inr (Update s'))"
    "invoice_route n s' = Inr (Some n')"
  shows "invoice_inv img n' s'"
proof -
  from assms(2) have out: "outcome (invoice_exec agent env n None s) = Inr (Update s')" by simp
  show ?thesis
  proof (cases n)
    case Iv_Validate
    with out obtain f v where "iv_fields s = Some f" "outcome (validate_invoice env f (iv_seen s)) = Inr v"
      "s' = s\<lparr>iv_validation := Some v, iv_seen := insert (f_po_number f) (iv_seen s)\<rparr>"
      by (auto simp: outcome_eff_bind split: sum.splits)
    with assms(1,3) Iv_Validate validate_invoice_outcome [of env f "iv_seen s" v] show ?thesis
      by (auto simp: invoice_inv_def)
  next
    case Iv_Hitl
    with out show ?thesis by (auto simp: outcome_eff_bind split: sum.splits)
  qed (use assms(1,3) out in \<open>auto simp: invoice_inv_def outcome_eff_bind eff_try_Inr
        split: sum.splits if_splits\<close>)
qed

interpretation invoice_quiet:
  quiet_graph "invoice_exec agent env" invoice_route "invoice_inv img" "\<lambda>c. \<not> invoice_read_only_call img c"
  for agent env img
proof
  fix n s l s' n'
  show "invoice_inv img n s \<Longrightarrow> invoice_exec agent env n None s = (l, Inr (Update s')) \<Longrightarrow>
      invoice_route n s' = Inr (Some n') \<Longrightarrow> invoice_inv img n' s'"
    by (rule invoice_exec_keeps)
next
  fix n s e
  assume "invoice_inv img n s" "e \<in> set (trace (invoice_exec agent env n None s))"
  then show "\<not> \<not> invoice_read_only_call img e"
    by (cases n)
      (auto simp: invoice_inv_def invoice_read_only_call_def set_trace_eff_bind split: sum.splits)
qed

lemma invoice_inv_start [simp]: "invoice_inv img Iv_Gate (invoice_start img seen)"
  by (simp add: invoice_inv_def invoice_start_def)

lemma invoice_suspends:
  assumes "snd (invoice_run agent env Iv_Gate None (invoice_start img seen0)) = Suspended n t p"
  shows "n = Iv_Hitl \<and> \<not> iv_rejected t \<and>
     (\<exists>f v seen found. iv_fields t = Some f \<and> v = validation_for f seen found \<and>
        iv_validation t = Some v \<and> p = \<lparr>ip_risk = ''write:external'', ip_fields = f, ip_validation = v\<rparr>)"
proof -
  from suspended_exec [OF assms [unfolded invoice_run_def]] obtain d' l
    where ex: "invoice_exec agent env n d' t = (l, Inr (Suspend p))" by blast
  then have out: "outcome (invoice_exec agent env n d' t) = Inr (Suspend p)" by simp
  then have n: "n = Iv_Hitl"
    by (cases n) (auto simp: outcome_eff_bind eff_try_Inr interrupt_def split: sum.splits option.splits if_splits)
  from invoice_quiet.suspended_inv [OF invoice_inv_start assms [unfolded invoice_run_def]] n
  have inv: "invoice_inv img Iv_Hitl t" by simp
  with n out show ?thesis
    by (cases d') (auto simp: invoice_inv_def outcome_eff_bind interrupt_def split: sum.splits)
qed

section \<open>Properties\<close>

text \<open>
  Until a human decides, an invoice run only reads: its calls are the OCR of the
  given image, confidential model calls, and the one constant purchase-order query, so no text
  of the invoice reaches the SQL and no ERP entry is drafted.
\<close>

theorem invoice_reads_only_before_approval:
  assumes "c \<in> set (fst (invoice_run agent env Iv_Gate None (invoice_start img seen)))"
  shows "invoice_read_only_call img c"
  using invoice_quiet.no_bad_call [OF invoice_inv_start assms [unfolded invoice_run_def]] by simp

definition demo_reply :: string where
  "demo_reply = ''{'' @ qt ''vendor'' @ '':'' @ qt ''Acme'' @ '','' @ qt ''po_number'' @ '':'' @ qt ''PO-1''
     @ '','' @ qt ''amount'' @ '':100,'' @ qt ''currency'' @ '':'' @ qt ''TRY'' @ ''}''"

definition demo_po_rows :: json where
  "demo_po_rows = JList [JObj [(''po_number'', JStr ''PO-1''), (''vendor'', JStr '' ACME''),
     (''amount'', JInt 100), (''currency'', JStr ''TRY'')]]"

definition demo_invoice_env :: "string \<Rightarrow> agent_env" where
  "demo_invoice_env reply = \<lparr>ae_prompt = ''p'', ae_model = (\<lambda>_ _ _. Inr reply),
     ae_tool = (\<lambda>tool _. if tool = ''ocr.extract_text'' then Inr (JObj [(''text'', JStr ''invoice'')])
                  else if tool = ''pg_ro.query'' then Inr demo_po_rows else Inr JNull),
     ae_kill = None, ae_repr = (\<lambda>_. [])\<rparr>"

definition demo_invoice_fields :: invoice_fields where
  "demo_invoice_fields = \<lparr>f_vendor = ''Acme'', f_po_number = ''PO-1'', f_amount = Fin 100, f_currency = ''TRY''\<rparr>"

lemma demo_invoice_run:
  "invoice_run ''invoice_agent'' (demo_invoice_env demo_reply) Iv_Gate None (invoice_start ''img'' {})
   = ([Use ''ocr.extract_text'' [(''image_base64'', JStr ''img'')],
       Ask ''confidential'' False [(''system'', ''p''), (''user'', ''invoice'')],
       Use ''pg_ro.query'' [(''sql'', JStr po_query)]],
      (let v = validation_for demo_invoice_fields {} (Some \<lparr>po_number = ''PO-1'', po_vendor = '' ACME'',
                  po_amount = Fin 100, po_currency = ''TRY''\<rparr>);
           t = (invoice_start ''img'' {})\<lparr>iv_ocr_text := Some (JStr ''invoice''), iv_fields := Some demo_invoice_fields,
                  iv_validation := Some v, iv_seen := {''PO-1''}\<rparr>
       in Suspended Iv_Hitl t \<lparr>ip_risk = ''write:external'', ip_fields = demo_invoice_fields, ip_validation = v\<rparr>))"
  by code_simp

lemma invoice_reads_only_before_approval_witness:
  "invoice_read_only_call ''img'' (Use ''pg_ro.query'' [(''sql'', JStr po_query)])"
  by (rule invoice_reads_only_before_approval
      [of _ "''invoice_agent''" "demo_invoice_env demo_reply" "''img''" "{}"])
     (simp add: demo_invoice_run)

text \<open>
  An invoice entry is drafted only after an approval, and it is the one the approver
  saw. If a run suspends, the approval item carries the extracted fields and their validation;
  a rejection then makes no call at all, and an approval makes exactly one: the draft entry with
  the fields of the item.
\<close>

theorem invoice_approval_decides:
  assumes "snd (invoice_run agent env Iv_Gate None (invoice_start img seen0)) = Suspended n t p"
  shows "(\<exists>seen found. ip_validation p = validation_for (ip_fields p) seen found) \<and>
     fst (invoice_run agent' env' n (Some (resume_with False)) t) = [] \<and>
     fst (invoice_run agent' env' n (Some (resume_with True)) t)
       = [Use ''erp.create_draft_entry'' (draft_args (ip_fields p))]"
proof -
  from invoice_suspends [OF assms] obtain f v where n: "n = Iv_Hitl" "\<not> iv_rejected t"
    and s: "iv_fields t = Some f" "iv_validation t = Some v"
    and v: "\<exists>seen found. v = validation_for f seen found"
    and p: "p = \<lparr>ip_risk = ''write:external'', ip_fields = f, ip_validation = v\<rparr>" by blast
  have "fst (invoice_run agent' env' n (Some (resume_with False)) t) = []"
    using n s by (simp add: invoice_run_def eval_nat_numeral eff_return_def)
  moreover have "fst (invoice_run agent' env' n (Some (resume_with True)) t)
       = [Use ''erp.create_draft_entry'' (draft_args f)]"
    using n s by (cases "ae_tool env' ''erp.create_draft_entry'' (draft_args f)")
      (simp_all add: invoice_run_def eval_nat_numeral eff_return_def use_tool_def)
  ultimately show ?thesis using v p by simp
qed

lemma invoice_approval_decides_witness:
  "fst (invoice_run ''invoice_agent'' (demo_invoice_env [])
      Iv_Hitl (Some (resume_with True))
      ((invoice_start ''img'' {})\<lparr>iv_ocr_text := Some (JStr ''invoice''), iv_fields := Some demo_invoice_fields,
         iv_validation := Some (validation_for demo_invoice_fields {} (Some \<lparr>po_number = ''PO-1'',
            po_vendor = '' ACME'', po_amount = Fin 100, po_currency = ''TRY''\<rparr>)), iv_seen := {''PO-1''}\<rparr>))
    = [Use ''erp.create_draft_entry'' (draft_args demo_invoice_fields)]"
  using invoice_approval_decides
    [of "''invoice_agent''" "demo_invoice_env demo_reply" "''img''" "{}" _ _ _ "''invoice_agent''" "demo_invoice_env []"]
  by (auto simp: demo_invoice_run Let_def)

text \<open>
  What \<open>ok\<close> promises. For finite amounts and a positive purchase-order amount,
  validation passes exactly when the number is new, a purchase order was found, the amounts
  differ by at most one percent of the order, and the vendors agree up to case and outer white
  space.
\<close>

theorem validation_ok_iff:
  assumes "f_amount f = Fin a" "found = Some po" "po_amount po = Fin b" "0 < b"
  shows "vr_ok (validation_for f seen found) \<longleftrightarrow>
     f_po_number f \<notin> seen \<and> \<bar>a - b\<bar> \<le> b / 100 \<and>
     lower (strip (f_vendor f)) = lower (strip (po_vendor po))"
proof -
  have "amount_mismatches (f_amount f) (po_amount po) \<longleftrightarrow> b / 100 < \<bar>a - b\<bar>"
    using assms by (auto simp: amount_mismatches_def pf_eq_def field_simps)
  then show ?thesis
    using assms(2) by (auto simp: validation_for_def check_duplicate_def Let_def)
qed

lemma validation_ok_iff_witness:
  "vr_ok (validation_for demo_invoice_fields {} (Some \<lparr>po_number = ''PO-1'', po_vendor = ''acme '',
     po_amount = Fin 101, po_currency = ''TRY''\<rparr>))"
  using validation_ok_iff [of demo_invoice_fields 100 "Some \<lparr>po_number = ''PO-1'', po_vendor = ''acme '',
     po_amount = Fin 101, po_currency = ''TRY''\<rparr>" "\<lparr>po_number = ''PO-1'', po_vendor = ''acme '',
     po_amount = Fin 101, po_currency = ''TRY''\<rparr>" 101 "{}"]
  by (simp add: demo_invoice_fields_def) code_simp

text \<open>
  Outside those amounts the check is void: an amount that is not a number (the
  reply's \<open>NaN\<close>, or the string \<open>nan\<close>) is never a mismatch, and neither is any finite amount
  against a purchase order with a negative amount.
\<close>

theorem amount_check_gaps:
  assumes "b < 0" "c \<noteq> 0"
  shows "\<not> amount_mismatches (Fin a) (Fin b) \<and> \<not> amount_mismatches NaN (Fin c)"
proof -
  have "\<bar>a - b\<bar> * 100 / b \<le> 0" using assms(1) by (simp add: divide_nonneg_neg)
  then have "\<not> 1 < \<bar>a - b\<bar> * 100 / b" by linarith
  with assms show ?thesis by (simp add: amount_mismatches_def pf_eq_def)
qed

lemma amount_check_gaps_witness:
  "\<not> amount_mismatches (Fin 5000) (Fin (- 100)) \<and> \<not> amount_mismatches NaN (Fin 100)"
  by (rule amount_check_gaps) simp_all

end
