(* ===== verification/Dev_Agent.thy ===== *)
theory Dev_Agent
  imports Agent_Common
begin

text \<open>
  The dev agent (\<open>agents/dev_agent\<close>): its guardrails, the plan it asks the model for, and the
  graph from ticket to pull request. The eight hexadecimal digits of \<open>uuid4\<close> are the parameter
  \<open>token\<close>; \<open>OtherError\<close> names the guardrail exceptions.
\<close>

section \<open>Guardrails\<close>

definition protected_path_prefixes :: "string list" where
  "protected_path_prefixes = [''infra/'', ''.github/'']"

definition max_diff_lines :: int where
  "max_diff_lines = 400"

definition assert_ticket_labeled :: "json \<Rightarrow> unit res" where
  "assert_ticket_labeled ticket =
     res_bind (py_get (JList []) ticket ''labels'') (\<lambda>labels.
     res_bind (py_in ''agent-ok'' labels) (\<lambda>b.
       if b then Inr () else Inl (OtherError ''TicketNotLabeledError'')))"

definition is_protected :: "string \<Rightarrow> bool" where
  "is_protected path \<longleftrightarrow> (\<exists>p \<in> set protected_path_prefixes. startswith path p)"

definition assert_no_protected_paths :: "string list \<Rightarrow> unit res" where
  "assert_no_protected_paths paths =
     (if \<exists>p \<in> set paths. is_protected p then Inl (OtherError ''ProtectedPathError'') else Inr ())"

definition assert_diff_size_ok :: "int \<Rightarrow> unit res" where
  "assert_diff_size_ok line_count =
     (if line_count > max_diff_lines then Inl (OtherError ''DiffTooLargeError'') else Inr ())"

section \<open>The plan\<close>

record dev_plan =
  dp_branch_suffix :: string
  dp_title :: string
  dp_body :: string
  dp_paths :: "string list"
  dp_diff :: int

definition plan_required :: "string list" where
  "plan_required = [''branch_suffix'', ''pr_title'', ''pr_body'', ''target_paths'', ''diff_line_estimate'']"

definition read_plan :: "(json \<Rightarrow> string) \<Rightarrow> string \<Rightarrow> dev_plan res" where
  "read_plan rp content =
     res_bind (parse_reply content) (\<lambda>parsed.
     res_bind (require_fields plan_required parsed) (\<lambda>_.
     res_bind (str_field rp parsed ''branch_suffix'') (\<lambda>suffix.
     res_bind (str_field rp parsed ''pr_title'') (\<lambda>title.
     res_bind (str_field rp parsed ''pr_body'') (\<lambda>body.
     res_bind (res_bind (py_index parsed ''target_paths'') py_iter) (\<lambda>paths.
     res_bind (res_bind (py_index parsed ''diff_line_estimate'') py_int) (\<lambda>diff.
       Inr \<lparr>dp_branch_suffix = suffix, dp_title = title, dp_body = body,
            dp_paths = map (py_str rp) paths, dp_diff = diff\<rparr>)))))))"

definition plan_ticket :: "agent_env \<Rightarrow> string \<Rightarrow> json \<Rightarrow> (agent_call, dev_plan) eff" where
  "plan_ticket env sensitivity ticket =
     eff_bind (eff_lift (py_get (JStr ''?'') ticket ''key'')) (\<lambda>key.
     eff_bind (eff_lift (py_get (JStr []) ticket ''summary'')) (\<lambda>summary.
     eff_bind (ask env sensitivity False
         [(''system'', ae_prompt env),
          (''user'', ''Ticket '' @ py_str (ae_repr env) key @ '': '' @ py_str (ae_repr env) summary)])
       (\<lambda>content. eff_lift (read_plan (ae_repr env) content))))"

definition check_plan :: "dev_plan \<Rightarrow> unit res" where
  "check_plan p = res_bind (assert_no_protected_paths (dp_paths p)) (\<lambda>_. assert_diff_size_ok (dp_diff p))"

section \<open>The graph\<close>

record dev_state =
  dv_key :: string
  dv_ticket :: "json option"
  dv_blocked :: "exn option"
  dv_plan :: "dev_plan option"
  dv_branch :: "string option"
  dv_pr :: "json option"
  dv_rejected :: bool
  dv_paused :: bool
  dv_slack_error :: "exn option"

definition dev_start :: "string \<Rightarrow> dev_state" where
  "dev_start key = \<lparr>dv_key = key, dv_ticket = None, dv_blocked = None, dv_plan = None, dv_branch = None,
     dv_pr = None, dv_rejected = False, dv_paused = False, dv_slack_error = None\<rparr>"

record dev_config =
  dc_agent :: string
  dc_channel :: string
  dc_base_ref :: string
  dc_token :: string

datatype dev_node =
  Dv_Gate | Dv_Fetch | Dv_Guard | Dv_Plan | Dv_Branch | Dv_Hitl | Dv_Open_Pr | Dv_Slack | Dv_End

record dev_payload =
  dpl_risk :: string
  dpl_branch :: string
  dpl_title :: string
  dpl_body :: string

definition open_pr_args :: "string \<Rightarrow> string \<Rightarrow> string \<Rightarrow> (string \<times> json) list" where
  "open_pr_args branch title body =
     [(''branch_name'', JStr branch), (''title'', JStr title), (''body'', JStr body)]"

definition draft_note :: "(json \<Rightarrow> string) \<Rightarrow> string \<Rightarrow> dev_plan \<Rightarrow> json \<Rightarrow> string" where
  "draft_note rp key plan summary =
     ''Dev Agent draft for '' @ key @ '': '' @ dp_title plan @ newline @ newline
     @ ''Ticket: '' @ py_str rp summary @ newline
     @ ''Target paths (proposed): '' @ join '', '' (dp_paths plan) @ newline"

definition dev_blocked :: "dev_state \<Rightarrow> exn \<Rightarrow> dev_state" where
  "dev_blocked s e = s\<lparr>dv_blocked := Some e\<rparr>"

fun dev_exec ::
  "dev_config \<Rightarrow> agent_env \<Rightarrow> dev_node \<Rightarrow> decision option \<Rightarrow> dev_state \<Rightarrow>
     (agent_call, (dev_state, dev_payload) step_out) eff" where
  "dev_exec cfg env Dv_Gate d s =
     update (if gate_closed (ae_kill env) (dc_agent cfg) then s\<lparr>dv_paused := True\<rparr> else s)"
| "dev_exec cfg env Dv_Fetch d s =
     eff_bind (use_tool env ''jira.get_issue'' [(''key'', JStr (dv_key s))])
       (\<lambda>ticket. update (s\<lparr>dv_ticket := Some ticket\<rparr>))"
| "dev_exec cfg env Dv_Guard d s =
     eff_bind (eff_lift (state_key ''ticket'' (dv_ticket s))) (\<lambda>ticket.
       eff_try (eff_bind (eff_lift (assert_ticket_labeled ticket)) (\<lambda>_. update s))
         (\<lambda>e. if e = OtherError ''TicketNotLabeledError'' then Some (Update (dev_blocked s e)) else None))"
| "dev_exec cfg env Dv_Plan d s =
     eff_bind (eff_lift (state_key ''ticket'' (dv_ticket s))) (\<lambda>ticket.
     eff_bind (eff_try (eff_bind (plan_ticket env ''internal'' ticket) (\<lambda>p. eff_return (Inr p)))
                 (\<lambda>e. if is_parse_error e then Some (Inl e) else None))
       (\<lambda>r. case r of
              Inl e \<Rightarrow> update (dev_blocked s e)
            | Inr p \<Rightarrow> (case check_plan p of
                          Inl e \<Rightarrow> update (dev_blocked s e)
                        | Inr _ \<Rightarrow> update (s\<lparr>dv_plan := Some p\<rparr>))))"
| "dev_exec cfg env Dv_Branch d s =
     eff_bind (eff_lift (state_key ''plan'' (dv_plan s))) (\<lambda>plan.
     let branch = ''agent/'' @ dp_branch_suffix plan @ ''-'' @ dc_token cfg in
     eff_bind (use_tool env ''github.create_branch''
                 [(''branch_name'', JStr branch), (''from_ref'', JStr (dc_base_ref cfg))]) (\<lambda>_.
     eff_bind (eff_lift (state_key ''ticket'' (dv_ticket s))) (\<lambda>ticket.
     eff_bind (eff_lift (py_get (JStr []) ticket ''summary'')) (\<lambda>summary.
     eff_bind (use_tool env ''github.commit_file''
                 [(''branch_name'', JStr branch), (''path'', JStr ''AGENT_DRAFT_NOTES.md''),
                  (''content'', JStr (draft_note (ae_repr env) (dv_key s) plan summary)),
                  (''message'', JStr (''Dev Agent draft notes for '' @ dv_key s))]) (\<lambda>_.
       update (s\<lparr>dv_branch := Some branch\<rparr>))))))"
| "dev_exec cfg env Dv_Hitl d s =
     eff_bind (eff_lift (assert_approval ''write:external'')) (\<lambda>_.
     eff_bind (eff_lift (state_key ''branch_name'' (dv_branch s))) (\<lambda>branch.
     eff_bind (eff_lift (state_key ''plan'' (dv_plan s))) (\<lambda>plan.
       interrupt \<lparr>dpl_risk = ''write:external'', dpl_branch = branch, dpl_title = dp_title plan,
                  dpl_body = dp_body plan\<rparr> d
         (\<lambda>dec. update (if approved_in dec then s else s\<lparr>dv_rejected := True\<rparr>)))))"
| "dev_exec cfg env Dv_Open_Pr d s =
     eff_bind (eff_lift (state_key ''branch_name'' (dv_branch s))) (\<lambda>branch.
     eff_bind (eff_lift (state_key ''plan'' (dv_plan s))) (\<lambda>plan.
     eff_bind (use_tool env ''github.open_pr'' (open_pr_args branch (dp_title plan) (dp_body plan)))
       (\<lambda>r. update (s\<lparr>dv_pr := Some r\<rparr>))))"
| "dev_exec cfg env Dv_Slack d s =
     eff_bind (eff_lift (state_key ''pr_result'' (dv_pr s))) (\<lambda>pr.
     eff_bind (eff_lift (py_get (JStr []) pr ''html_url'')) (\<lambda>url.
     eff_bind (eff_lift (state_key ''plan'' (dv_plan s))) (\<lambda>plan.
       eff_try (eff_bind (use_tool env ''slack.post''
                  [(''channel'', JStr (dc_channel cfg)),
                   (''text'', JStr (''Dev Agent opened PR for '' @ dv_key s @ '': '' @ dp_title plan @ '' ''
                               @ py_str (ae_repr env) url))])
                (\<lambda>_. update s))
         (\<lambda>e. Some (Update (s\<lparr>dv_slack_error := Some e\<rparr>))))))"
| "dev_exec cfg env Dv_End d s = update s"

fun dev_route :: "dev_node \<Rightarrow> dev_state \<Rightarrow> dev_node option res" where
  "dev_route Dv_Gate s = Inr (if dv_paused s then None else Some Dv_Fetch)"
| "dev_route Dv_Fetch s = Inr (Some Dv_Guard)"
| "dev_route Dv_Guard s = Inr (Some (if dv_blocked s \<noteq> None then Dv_End else Dv_Plan))"
| "dev_route Dv_Plan s = Inr (Some (if dv_blocked s \<noteq> None then Dv_End else Dv_Branch))"
| "dev_route Dv_Branch s = Inr (Some Dv_Hitl)"
| "dev_route Dv_Hitl s = Inr (Some (if dv_rejected s then Dv_End else Dv_Open_Pr))"
| "dev_route Dv_Open_Pr s = Inr (Some Dv_Slack)"
| "dev_route Dv_Slack s = Inr (Some Dv_End)"
| "dev_route Dv_End s = Inr None"

definition dev_run ::
  "dev_config \<Rightarrow> agent_env \<Rightarrow> dev_node \<Rightarrow> decision option \<Rightarrow> dev_state \<Rightarrow>
     agent_call list \<times> (dev_node, dev_state, dev_payload) run_out" where
  "dev_run cfg env = graph_run (dev_exec cfg env) dev_route 9"

section \<open>Runs\<close>

fun dev_rank :: "dev_node \<Rightarrow> nat" where
  "dev_rank Dv_Gate = 8" | "dev_rank Dv_Fetch = 7" | "dev_rank Dv_Guard = 6" | "dev_rank Dv_Plan = 5"
| "dev_rank Dv_Branch = 4" | "dev_rank Dv_Hitl = 3" | "dev_rank Dv_Open_Pr = 2" | "dev_rank Dv_Slack = 1"
| "dev_rank Dv_End = 0"

interpretation dev_acyclic: acyclic_graph "dev_exec cfg env" dev_route dev_rank for cfg env
proof
  fix n s n'
  assume "dev_route n s = Inr (Some n')"
  then show "dev_rank n' < dev_rank n" by (cases n) (auto split: if_splits)
qed

text \<open>What is known before each node of a fresh run.\<close>

definition dev_inv :: "agent_env \<Rightarrow> string \<Rightarrow> dev_node \<Rightarrow> dev_state \<Rightarrow> bool" where
  "dev_inv env key n s \<longleftrightarrow>
     dv_key s = key \<and> \<not> dv_rejected s \<and> n \<noteq> Dv_Open_Pr \<and> n \<noteq> Dv_Slack \<and>
     (n \<in> {Dv_Gate, Dv_Fetch, Dv_Guard, Dv_Plan} \<longrightarrow> dv_blocked s = None \<and> dv_plan s = None) \<and>
     (n \<in> {Dv_Guard, Dv_Plan, Dv_Branch, Dv_Hitl} \<longrightarrow>
        (\<exists>tk. dv_ticket s = Some tk \<and> ae_tool env ''jira.get_issue'' [(''key'', JStr key)] = Inr tk \<and>
           (n \<noteq> Dv_Guard \<longrightarrow> assert_ticket_labeled tk = Inr ()))) \<and>
     (n \<in> {Dv_Branch, Dv_Hitl} \<longrightarrow> (\<exists>p. dv_plan s = Some p \<and> check_plan p = Inr ())) \<and>
     (n = Dv_Hitl \<longrightarrow> (\<exists>b. dv_branch s = Some (''agent/'' @ b)))"

text \<open>The calls a fresh run may make, given the ticket it reads.\<close>

definition dev_safe_call :: "agent_env \<Rightarrow> string \<Rightarrow> agent_call \<Rightarrow> bool" where
  "dev_safe_call env key c =
     (case c of
        Ask sens _ _ \<Rightarrow>
          sens = ''internal'' \<and>
          (\<exists>tk. ae_tool env ''jira.get_issue'' [(''key'', JStr key)] = Inr tk \<and> assert_ticket_labeled tk = Inr ())
      | Use tool args \<Rightarrow>
          (tool = ''jira.get_issue'' \<and> args = [(''key'', JStr key)])
          \<or> (tool \<in> {''github.create_branch'', ''github.commit_file''} \<and>
             (\<exists>b. dict_get args ''branch_name'' = Some (JStr (''agent/'' @ b))) \<and>
             (\<exists>tk. ae_tool env ''jira.get_issue'' [(''key'', JStr key)] = Inr tk
                \<and> assert_ticket_labeled tk = Inr ())))"

lemma trace_plan_ticket:
  "set (trace (plan_ticket env sens tk)) \<subseteq> {c. \<exists>ms. c = Ask sens False ms}"
  by (auto simp: plan_ticket_def set_trace_eff_bind split: sum.splits)

lemma dev_exec_keeps:
  assumes "dev_inv env key n s" "dev_exec cfg env n None s = (l, Inr (Update s'))"
    "dev_route n s' = Inr (Some n')"
  shows "dev_inv env key n' s'"
proof -
  from assms(2) have out: "outcome (dev_exec cfg env n None s) = Inr (Update s')" by simp
  show ?thesis
  proof (cases n)
    case Dv_Fetch
    with out obtain tk where "ae_tool env ''jira.get_issue'' [(''key'', JStr (dv_key s))] = Inr tk"
      "s' = s\<lparr>dv_ticket := Some tk\<rparr>" by (auto simp: use_tool_def outcome_eff_bind split: sum.splits)
    with assms(1,3) Dv_Fetch show ?thesis by (auto simp: dev_inv_def)
  next
    case Dv_Guard
    with assms(1) obtain tk where tk: "dv_ticket s = Some tk" by (auto simp: dev_inv_def)
    show ?thesis
    proof (cases "assert_ticket_labeled tk")
      case (Inl e)
      with out Dv_Guard tk have "s' = dev_blocked s e"
        by (auto simp: eff_try_Inr outcome_eff_bind split: if_splits)
      with assms(1,3) Dv_Guard show ?thesis by (auto simp: dev_inv_def dev_blocked_def)
    next
      case (Inr u)
      with out Dv_Guard tk have "s' = s" by (auto simp: eff_try_Inr outcome_eff_bind split: if_splits)
      with assms(1,3) Dv_Guard tk Inr show ?thesis by (auto simp: dev_inv_def)
    qed
  next
    case Dv_Plan
    with assms(1) obtain tk where tk: "dv_ticket s = Some tk" by (auto simp: dev_inv_def)
    with out Dv_Plan have "(\<exists>e. s' = dev_blocked s e) \<or> (\<exists>p. check_plan p = Inr () \<and> s' = s\<lparr>dv_plan := Some p\<rparr>)"
      by (auto simp: outcome_eff_bind eff_try_Inr split: sum.splits if_splits)
    with assms(1,3) Dv_Plan tk show ?thesis by (auto simp: dev_inv_def dev_blocked_def)
  next
    case Dv_Branch
    with assms(1) obtain p where p: "dv_plan s = Some p" by (auto simp: dev_inv_def)
    with out Dv_Branch have "\<exists>b. s' = s\<lparr>dv_branch := Some (''agent/'' @ b)\<rparr>"
      by (auto simp: outcome_eff_bind Let_def split: sum.splits)
    with assms(1,3) Dv_Branch p show ?thesis by (auto simp: dev_inv_def)
  next
    case Dv_Hitl
    with out show ?thesis by (auto simp: outcome_eff_bind split: sum.splits)
  qed (use assms(1,3) out in \<open>auto simp: dev_inv_def split: if_splits\<close>)
qed

lemma dev_exec_safe:
  assumes "dev_inv env key n s" "e \<in> set (trace (dev_exec cfg env n None s))"
  shows "dev_safe_call env key e"
proof (cases n)
  case Dv_Plan
  from assms(1) Dv_Plan obtain tk where tk: "dv_ticket s = Some tk"
    "ae_tool env ''jira.get_issue'' [(''key'', JStr key)] = Inr tk" "assert_ticket_labeled tk = Inr ()"
    by (auto simp: dev_inv_def)
  with assms(2) Dv_Plan have "e \<in> set (trace (plan_ticket env ''internal'' tk))"
    by (auto simp: set_trace_eff_bind split: sum.splits)
  with trace_plan_ticket [of env "''internal''" tk] tk show ?thesis by (auto simp: dev_safe_call_def)
next
  case Dv_Branch
  from assms(1) Dv_Branch obtain tk where tk: "dv_ticket s = Some tk"
    "ae_tool env ''jira.get_issue'' [(''key'', JStr key)] = Inr tk" "assert_ticket_labeled tk = Inr ()"
    by (auto simp: dev_inv_def)
  with assms(2) Dv_Branch have "\<exists>t a b. e = Use t a \<and> t \<in> {''github.create_branch'', ''github.commit_file''}
      \<and> dict_get a ''branch_name'' = Some (JStr (''agent/'' @ b))"
    by (auto simp: set_trace_eff_bind dict_get_def Let_def split: sum.splits)
  with tk show ?thesis by (auto simp: dev_safe_call_def)
qed (use assms in \<open>auto simp: dev_inv_def dev_safe_call_def set_trace_eff_bind split: sum.splits\<close>)

interpretation dev_quiet:
  quiet_graph "dev_exec cfg env" dev_route "dev_inv env key" "\<lambda>c. \<not> dev_safe_call env key c"
  for cfg env key
proof
  fix n s l s' n'
  show "dev_inv env key n s \<Longrightarrow> dev_exec cfg env n None s = (l, Inr (Update s')) \<Longrightarrow>
      dev_route n s' = Inr (Some n') \<Longrightarrow> dev_inv env key n' s'"
    by (rule dev_exec_keeps)
next
  fix n s e
  show "dev_inv env key n s \<Longrightarrow> e \<in> set (trace (dev_exec cfg env n None s)) \<Longrightarrow>
      \<not> \<not> dev_safe_call env key e"
    by (simp add: dev_exec_safe)
qed

lemma dev_inv_start [simp]: "dev_inv env key Dv_Gate (dev_start key)"
  by (simp add: dev_inv_def dev_start_def)

lemma dev_suspends:
  assumes "snd (dev_run cfg env Dv_Gate None (dev_start key)) = Suspended n t p"
  shows "n = Dv_Hitl \<and> dev_inv env key Dv_Hitl t \<and>
     (\<exists>b plan. dv_branch t = Some b \<and> dv_plan t = Some plan \<and>
        p = \<lparr>dpl_risk = ''write:external'', dpl_branch = b, dpl_title = dp_title plan, dpl_body = dp_body plan\<rparr>)"
proof -
  from suspended_exec [OF assms [unfolded dev_run_def]] obtain d' l
    where ex: "dev_exec cfg env n d' t = (l, Inr (Suspend p))" by blast
  then have out: "outcome (dev_exec cfg env n d' t) = Inr (Suspend p)" by simp
  then have n: "n = Dv_Hitl"
    by (cases n)
      (auto simp: outcome_eff_bind eff_try_Inr Let_def split: sum.splits option.splits if_splits)
  from dev_quiet.suspended_inv [OF dev_inv_start assms [unfolded dev_run_def]] n
  have inv: "dev_inv env key Dv_Hitl t" by simp
  with n out show ?thesis
    by (cases d') (auto simp: dev_inv_def outcome_eff_bind interrupt_def split: sum.splits)
qed

section \<open>Properties\<close>

text \<open>
  Before an approval the dev agent opens no pull request and posts nothing: it reads
  the ticket, asks the model and writes to GitHub only when the ticket carries the \<open>agent-ok\<close>
  label, and every branch it creates or commits to is under \<open>agent/\<close>.
\<close>

theorem dev_safe_before_approval:
  assumes "c \<in> set (fst (dev_run cfg env Dv_Gate None (dev_start key)))"
  shows "dev_safe_call env key c"
  using dev_quiet.no_bad_call [OF dev_inv_start assms [unfolded dev_run_def]] by simp

definition demo_plan_reply :: string where
  "demo_plan_reply = ''{'' @ qt ''branch_suffix'' @ '':'' @ qt ''fix'' @ '','' @ qt ''pr_title'' @ '':''
     @ qt ''Fix'' @ '','' @ qt ''pr_body'' @ '':'' @ qt ''b'' @ '','' @ qt ''target_paths'' @ '':[''
     @ qt ''src/a.py'' @ ''],'' @ qt ''diff_line_estimate'' @ '':12}''"

definition demo_dev_env :: agent_env where
  "demo_dev_env = \<lparr>ae_prompt = ''p'', ae_model = (\<lambda>_ _ _. Inr demo_plan_reply),
     ae_tool = (\<lambda>tool _. if tool = ''jira.get_issue''
                  then Inr (JObj [(''key'', JStr ''T-1''), (''labels'', JList [JStr ''agent-ok''])]) else Inr (JObj [])),
     ae_kill = None, ae_repr = (\<lambda>_. [])\<rparr>"

definition demo_dev_config :: dev_config where
  "demo_dev_config = \<lparr>dc_agent = ''dev_agent'', dc_channel = ''#dev'', dc_base_ref = ''main'', dc_token = ''0a1b2c3d''\<rparr>"

definition demo_dev_suspended :: dev_state where
  "demo_dev_suspended = (dev_start ''T-1'')
     \<lparr>dv_ticket := Some (JObj [(''key'', JStr ''T-1''), (''labels'', JList [JStr ''agent-ok''])]),
      dv_plan := Some \<lparr>dp_branch_suffix = ''fix'', dp_title = ''Fix'', dp_body = ''b'', dp_paths = [''src/a.py''],
                       dp_diff = 12\<rparr>,
      dv_branch := Some ''agent/fix-0a1b2c3d''\<rparr>"

lemma demo_dev_run:
  "snd (dev_run demo_dev_config demo_dev_env Dv_Gate None (dev_start ''T-1''))
     = Suspended Dv_Hitl demo_dev_suspended
         \<lparr>dpl_risk = ''write:external'', dpl_branch = ''agent/fix-0a1b2c3d'', dpl_title = ''Fix'', dpl_body = ''b''\<rparr>"
  "Use ''github.create_branch'' [(''branch_name'', JStr ''agent/fix-0a1b2c3d''), (''from_ref'', JStr ''main'')]
     \<in> set (fst (dev_run demo_dev_config demo_dev_env Dv_Gate None (dev_start ''T-1'')))"
  by code_simp+

lemma dev_safe_before_approval_witness:
  "dev_safe_call demo_dev_env ''T-1''
     (Use ''github.create_branch'' [(''branch_name'', JStr ''agent/fix-0a1b2c3d''), (''from_ref'', JStr ''main'')])"
  by (rule dev_safe_before_approval [OF demo_dev_run(2)])

text \<open>
  Property C22: the pull request is the reviewed one. A run that suspends has a plan within the
  guardrails (no protected path, at most 400 lines) and shows its branch, title and body;
  resumed with a rejection it makes no call, resumed with an approval its first call opens the
  pull request with what was shown.
\<close>

theorem dev_approval_decides:
  assumes "snd (dev_run cfg env Dv_Gate None (dev_start key)) = Suspended n t p"
  shows "(\<exists>plan. dv_plan t = Some plan \<and> dp_diff plan \<le> 400 \<and> \<not> (\<exists>x \<in> set (dp_paths plan). is_protected x)) \<and>
     fst (dev_run cfg' env' n (Some (resume_with False)) t) = [] \<and>
     (\<exists>rest. fst (dev_run cfg' env' n (Some (resume_with True)) t)
        = Use ''github.open_pr'' (open_pr_args (dpl_branch p) (dpl_title p) (dpl_body p)) # rest)"
proof -
  from dev_suspends [OF assms] obtain b plan where n: "n = Dv_Hitl" and inv: "dev_inv env key Dv_Hitl t"
    and s: "dv_branch t = Some b" "dv_plan t = Some plan"
    and p: "p = \<lparr>dpl_risk = ''write:external'', dpl_branch = b, dpl_title = dp_title plan, dpl_body = dp_body plan\<rparr>"
    by blast
  from inv s have "check_plan plan = Inr ()" "\<not> dv_rejected t" by (auto simp: dev_inv_def)
  moreover have "fst (dev_run cfg' env' n (Some (resume_with False)) t) = []"
    using n s by (simp add: dev_run_def eval_nat_numeral eff_return_def)
  moreover have "\<exists>rest. fst (dev_run cfg' env' n (Some (resume_with True)) t)
       = Use ''github.open_pr'' (open_pr_args b (dp_title plan) (dp_body plan)) # rest"
    using n s \<open>\<not> dv_rejected t\<close>
    by (cases "ae_tool env' ''github.open_pr'' (open_pr_args b (dp_title plan) (dp_body plan))")
      (simp_all add: dev_run_def eval_nat_numeral eff_return_def use_tool_def split: prod.split)
  ultimately show ?thesis using p s
    by (auto simp: check_plan_def assert_no_protected_paths_def assert_diff_size_ok_def max_diff_lines_def
        split: if_splits)
qed

lemma dev_approval_decides_witness:
  "fst (dev_run demo_dev_config demo_dev_env Dv_Hitl (Some (resume_with False)) demo_dev_suspended) = []"
  using dev_approval_decides [OF demo_dev_run(1)] by blast

text \<open>
  The path guardrail reads \<open>target_paths\<close> as an iterable: a reply that gives one
  path as a plain string is split into characters, and no string of characters is ever
  protected, so \<open>infra/main.tf\<close> passes.
\<close>

theorem protected_paths_string_gap:
  "res_bind (py_iter (JStr path)) (\<lambda>ps. assert_no_protected_paths (map (py_str rp) ps)) = Inr ()"
  by (auto simp: py_iter_def assert_no_protected_paths_def is_protected_def protected_path_prefixes_def
      startswith_def py_str_def)

end
