(* ===== verification/Pii_Scrub.thy ===== *)
theory Pii_Scrub
  imports Py_Regex
begin

text \<open>
  The light-weight identifier scrub of \<open>apps/runtime/core/pii_scrub.py\<close>: four patterns applied
  one after the other, the Turkish national number with its checksum.
\<close>

abbreviation "is_c \<equiv> \<lambda>c. Cls (\<lambda>x. x = c)"
abbreviation "num \<equiv> Cls py_digit"

definition email_char :: "char \<Rightarrow> bool" where
  "email_char c \<longleftrightarrow> word_char c \<or> c \<in> set ''.+-''"

definition email_re :: rx where
  "email_re =
     seqs [WordB, Plus (Cls email_char), is_c CHR ''@'', Plus (Cls (\<lambda>c. word_char c \<or> c = CHR ''-'')),
           is_c CHR ''.'', Plus (Cls (\<lambda>c. word_char c \<or> c \<in> set ''.-'')), WordB]"

definition tr_iban_re :: rx where
  "tr_iban_re = seqs [WordB, lits ''TR'', times 2 num, times 5 num, times 17 num, WordB]"

definition phone_sep :: rx where
  "phone_sep = Opt (Cls (\<lambda>c. py_space c \<or> c \<in> set ''.-''))"

definition tr_phone_re :: rx where
  "tr_phone_re =
     seqs [WordB, Opt (Alt (lits ''+90'') (lits ''0'')), is_c CHR ''5'', times 2 num, phone_sep,
           times 3 num, phone_sep, times 2 num, phone_sep, times 2 num, WordB]"

definition tckn_candidate_re :: rx where
  "tckn_candidate_re = seqs [WordB, times 11 num, WordB]"

definition digit_nat :: "char \<Rightarrow> nat" where
  "digit_nat c = of_char c - 48"

text \<open>The three sums of the checksum, over the digits as numbers.\<close>

definition tckn_nums_valid :: "nat list \<Rightarrow> bool" where
  "tckn_nums_valid nums =
     (let odd_sum = nums ! 0 + nums ! 2 + nums ! 4 + nums ! 6 + nums ! 8;
          even_sum = nums ! 1 + nums ! 3 + nums ! 5 + nums ! 7;
          d10 = nat ((int (odd_sum * 7) - int even_sum) mod 10);
          d11 = (sum_list (take 9 nums) + d10) mod 10
      in nums ! 9 = d10 \<and> nums ! 10 = d11)"

definition tckn_checksum_valid :: "string \<Rightarrow> bool" where
  "tckn_checksum_valid digits =
     (if length digits \<noteq> 11 \<or> digits ! 0 = CHR ''0'' then False
      else tckn_nums_valid (map digit_nat digits))"

record scrub_result =
  sr_text :: string
  sr_found :: bool

definition scrub :: "string \<Rightarrow> scrub_result" where
  "scrub text =
     (let t1 = rx_sub email_re (\<lambda>_ _. ''[EMAIL]'') text;
          t2 = rx_sub tr_iban_re (\<lambda>_ _. ''[TR_IBAN]'') t1;
          t3 = rx_sub tr_phone_re (\<lambda>_ _. ''[TR_PHONE]'') t2;
          t4 = rx_sub tckn_candidate_re (\<lambda>w _. if tckn_checksum_valid w then ''[TR_TCKN]'' else w) t3;
          hit = list_ex (\<lambda>(w, _). tckn_checksum_valid w) (rx_finditer tckn_candidate_re t3)
      in \<lparr>sr_text = t4, sr_found = (t1 \<noteq> text \<or> t2 \<noteq> t1 \<or> t3 \<noteq> t2 \<or> hit)\<rparr>)"

definition has_pii :: "string \<Rightarrow> bool" where
  "has_pii text = sr_found (scrub text)"

section \<open>The scrub says what it did\<close>

lemma sub_unless_no_hit:
  assumes "\<not> list_ex (\<lambda>(w, _). q w) (rx_finditer r t)"
  shows "rx_sub r (\<lambda>w _. if q w then x else w) t = t"
proof -
  have "seg_sub (\<lambda>w _. if q w then x else w) s = seg_text s" if "s \<in> set (rx_segs r None t)" for s
    using assms that
    by (cases s) (force simp: rx_finditer_def list_ex_iff List.map_filter_def image_iff)+
  then have m: "map (seg_sub (\<lambda>w _. if q w then x else w)) (rx_segs r None t) = map seg_text (rx_segs r None t)"
    by simp
  show ?thesis unfolding rx_sub_def m by (rule segs_concat)
qed

text \<open>
  A scrub that reports nothing found returns the text unchanged, so the redaction
  flag of a caller is never raised over a text the scrub altered silently.
\<close>

theorem scrub_not_found_unchanged:
  assumes "\<not> has_pii text"
  shows "sr_text (scrub text) = text"
proof -
  define t1 where "t1 = rx_sub email_re (\<lambda>_ _. ''[EMAIL]'') text"
  define t2 where "t2 = rx_sub tr_iban_re (\<lambda>_ _. ''[TR_IBAN]'') t1"
  define t3 where "t3 = rx_sub tr_phone_re (\<lambda>_ _. ''[TR_PHONE]'') t2"
  have "t1 = text" "t2 = t1" "t3 = t2"
    and hit: "\<not> list_ex (\<lambda>(w, _). tckn_checksum_valid w) (rx_finditer tckn_candidate_re t3)"
    using assms unfolding has_pii_def scrub_def Let_def t1_def [symmetric] t2_def [symmetric] t3_def [symmetric]
    by simp_all
  moreover have "sr_text (scrub text)
      = rx_sub tckn_candidate_re (\<lambda>w _. if tckn_checksum_valid w then ''[TR_TCKN]'' else w) t3"
    unfolding scrub_def Let_def t1_def [symmetric] t2_def [symmetric] t3_def [symmetric] by simp
  ultimately show ?thesis using sub_unless_no_hit [OF hit] by simp
qed

lemma scrub_not_found_unchanged_witness: "sr_text (scrub ''call 12345678901'') = ''call 12345678901''"
proof (rule scrub_not_found_unchanged)
  show "\<not> has_pii ''call 12345678901''" by code_simp
qed

section \<open>The checksum\<close>

lemma list11: "length xs = 11 \<Longrightarrow> \<exists>a b c d e f g h i j k. xs = [a, b, c, d, e, f, g, h, i, j, k]"
  by (auto simp: eval_nat_numeral length_Suc_conv)

lemma digit_once: "(10::int) dvd int x - int y \<Longrightarrow> x < 10 \<Longrightarrow> y < 10 \<Longrightarrow> x = y"
proof -
  assume d: "(10::int) dvd int x - int y" and b: "x < 10" "y < 10"
  have "int x - int y = 0"
  proof (rule ccontr)
    assume "int x - int y \<noteq> 0"
    from dvd_imp_le_int [OF this d] b show False by linarith
  qed
  then show ?thesis by simp
qed

lemma digit_times7:
  assumes "(10::int) dvd 7 * int x - 7 * int y" "x < 10" "y < 10"
  shows "x = y"
proof -
  define d where "d = int x - int y"
  from assms(1) obtain m where "7 * d = 10 * m" by (auto simp: d_def right_diff_distrib)
  then have "d = 10 * (3 * m - 2 * d)" by simp
  then have "10 dvd d" by (rule dvdI)
  then have "10 dvd int x - int y" by (simp only: d_def)
  from digit_once [OF this assms(2,3)] show ?thesis .
qed

text \<open>Two sums that leave the same tenth digit are equal modulo ten.\<close>

lemma same_tenth:
  assumes "nat (A mod 10) = nat (B mod 10)"
  shows "(10::int) dvd A - B"
proof -
  have "0 \<le> A mod 10" "0 \<le> B mod 10" by simp_all
  with assms have "A mod 10 = B mod 10" by linarith
  then show ?thesis by (simp only: mod_eq_dvd_iff)
qed

lemma tenth_odd:
  assumes "j = nat ((int ((x + s) * 7) - int t) mod 10)" "j = nat ((int ((y + s) * 7) - int t) mod 10)"
    and "x < 10" "y < 10"
  shows "y = x"
proof -
  from assms(1,2) have "nat ((int ((x + s) * 7) - int t) mod 10) = nat ((int ((y + s) * 7) - int t) mod 10)" by simp
  from same_tenth [OF this] have "(10::int) dvd 7 * int x - 7 * int y" by (simp add: algebra_simps)
  from digit_times7 [OF this] assms(3,4) show ?thesis by simp
qed

lemma tenth_even:
  assumes "j = nat ((int s - int (x + t)) mod 10)" "j = nat ((int s - int (y + t)) mod 10)"
    and "x < 10" "y < 10"
  shows "y = x"
proof -
  from assms(1,2) have "nat ((int s - int (x + t)) mod 10) = nat ((int s - int (y + t)) mod 10)" by simp
  from same_tenth [OF this] have "(10::int) dvd int y - int x" by (simp add: algebra_simps)
  from digit_once [OF this] assms(3,4) show ?thesis by simp
qed

text \<open>
  The national-number checksum catches every single-digit error: of two valid
  numbers that agree in all places but one, the digit in that place agrees too.
\<close>

theorem tckn_single_digit_error:
  assumes "length xs = 11" "k < 11" "\<forall>x \<in> set xs. x < 10" "v < 10"
    and "tckn_nums_valid xs" "tckn_nums_valid (xs[k := v])"
  shows "v = xs ! k"
proof -
  obtain a b c d e f g h i j l where xs: "xs = [a, b, c, d, e, f, g, h, i, j, l]"
    using list11 [OF assms(1)] by blast
  have k: "k = 0 \<or> k = 1 \<or> k = 2 \<or> k = 3 \<or> k = 4 \<or> k = 5 \<or> k = 6 \<or> k = 7 \<or> k = 8 \<or> k = 9 \<or> k = 10"
    using assms(2) by arith
  have valid: "j = nat ((int ((a + c + e + g + i) * 7) - int (b + d + f + h)) mod 10)"
    "l = (a + b + c + d + e + f + g + h + i + j) mod 10"
    using assms(5) unfolding xs tckn_nums_valid_def Let_def by (simp_all add: add.assoc)
  note valid' = assms(6) [unfolded xs tckn_nums_valid_def Let_def]
  note bound = assms(3,4) [unfolded xs]
  from k show ?thesis
  proof (elim disjE)
    assume k: "k = 0"
    have "j = nat ((int ((v + c + e + g + i) * 7) - int (b + d + f + h)) mod 10)" using valid' unfolding k by simp
    then have B: "j = nat ((int ((v + (c + e + g + i)) * 7) - int (b + d + f + h)) mod 10)" by (simp only: ac_simps)
    have A: "j = nat ((int ((a + (c + e + g + i)) * 7) - int (b + d + f + h)) mod 10)" using valid(1) by (simp only: ac_simps)
    show ?thesis using tenth_odd [OF A B] bound unfolding xs k by simp
  next
    assume k: "k = 1"
    have "j = nat ((int ((a + c + e + g + i) * 7) - int (v + d + f + h)) mod 10)" using valid' unfolding k by simp
    then have B: "j = nat ((int ((a + c + e + g + i) * 7) - int (v + (d + f + h))) mod 10)" by (simp only: ac_simps)
    have A: "j = nat ((int ((a + c + e + g + i) * 7) - int (b + (d + f + h))) mod 10)" using valid(1) by (simp only: ac_simps)
    show ?thesis using tenth_even [OF A B] bound unfolding xs k by simp
  next
    assume k: "k = 2"
    have "j = nat ((int ((a + v + e + g + i) * 7) - int (b + d + f + h)) mod 10)" using valid' unfolding k by simp
    then have B: "j = nat ((int ((v + (a + e + g + i)) * 7) - int (b + d + f + h)) mod 10)" by (simp only: ac_simps)
    have A: "j = nat ((int ((c + (a + e + g + i)) * 7) - int (b + d + f + h)) mod 10)" using valid(1) by (simp only: ac_simps)
    show ?thesis using tenth_odd [OF A B] bound unfolding xs k by simp
  next
    assume k: "k = 3"
    have "j = nat ((int ((a + c + e + g + i) * 7) - int (b + v + f + h)) mod 10)" using valid' unfolding k by simp
    then have B: "j = nat ((int ((a + c + e + g + i) * 7) - int (v + (b + f + h))) mod 10)" by (simp only: ac_simps)
    have A: "j = nat ((int ((a + c + e + g + i) * 7) - int (d + (b + f + h))) mod 10)" using valid(1) by (simp only: ac_simps)
    show ?thesis using tenth_even [OF A B] bound unfolding xs k by simp
  next
    assume k: "k = 4"
    have "j = nat ((int ((a + c + v + g + i) * 7) - int (b + d + f + h)) mod 10)" using valid' unfolding k by simp
    then have B: "j = nat ((int ((v + (a + c + g + i)) * 7) - int (b + d + f + h)) mod 10)" by (simp only: ac_simps)
    have A: "j = nat ((int ((e + (a + c + g + i)) * 7) - int (b + d + f + h)) mod 10)" using valid(1) by (simp only: ac_simps)
    show ?thesis using tenth_odd [OF A B] bound unfolding xs k by simp
  next
    assume k: "k = 5"
    have "j = nat ((int ((a + c + e + g + i) * 7) - int (b + d + v + h)) mod 10)" using valid' unfolding k by simp
    then have B: "j = nat ((int ((a + c + e + g + i) * 7) - int (v + (b + d + h))) mod 10)" by (simp only: ac_simps)
    have A: "j = nat ((int ((a + c + e + g + i) * 7) - int (f + (b + d + h))) mod 10)" using valid(1) by (simp only: ac_simps)
    show ?thesis using tenth_even [OF A B] bound unfolding xs k by simp
  next
    assume k: "k = 6"
    have "j = nat ((int ((a + c + e + v + i) * 7) - int (b + d + f + h)) mod 10)" using valid' unfolding k by simp
    then have B: "j = nat ((int ((v + (a + c + e + i)) * 7) - int (b + d + f + h)) mod 10)" by (simp only: ac_simps)
    have A: "j = nat ((int ((g + (a + c + e + i)) * 7) - int (b + d + f + h)) mod 10)" using valid(1) by (simp only: ac_simps)
    show ?thesis using tenth_odd [OF A B] bound unfolding xs k by simp
  next
    assume k: "k = 7"
    have "j = nat ((int ((a + c + e + g + i) * 7) - int (b + d + f + v)) mod 10)" using valid' unfolding k by simp
    then have B: "j = nat ((int ((a + c + e + g + i) * 7) - int (v + (b + d + f))) mod 10)" by (simp only: ac_simps)
    have A: "j = nat ((int ((a + c + e + g + i) * 7) - int (h + (b + d + f))) mod 10)" using valid(1) by (simp only: ac_simps)
    show ?thesis using tenth_even [OF A B] bound unfolding xs k by simp
  next
    assume k: "k = 8"
    have "j = nat ((int ((a + c + e + g + v) * 7) - int (b + d + f + h)) mod 10)" using valid' unfolding k by simp
    then have B: "j = nat ((int ((v + (a + c + e + g)) * 7) - int (b + d + f + h)) mod 10)" by (simp only: ac_simps)
    have A: "j = nat ((int ((i + (a + c + e + g)) * 7) - int (b + d + f + h)) mod 10)" using valid(1) by (simp only: ac_simps)
    show ?thesis using tenth_odd [OF A B] bound unfolding xs k by simp
  next
    assume k: "k = 9"
    from valid' have "v = nat ((int ((a + c + e + g + i) * 7) - int (b + d + f + h)) mod 10)"
      unfolding k by (simp_all add: add.assoc)
    then have "v = j" unfolding valid(1) [symmetric] .
    then show ?thesis unfolding xs k by simp
  next
    assume k: "k = 10"
    from valid' have "v = (a + b + c + d + e + f + g + h + i + j) mod 10"
      unfolding k by (simp_all add: add.assoc)
    then have "v = l" unfolding valid(2) [symmetric] .
    then show ?thesis unfolding xs k by simp
  qed
qed

lemma tckn_single_digit_error_witness: "(6::nat) = [1, 0, 0, 0, 0, 0, 0, 0, 1, 4, 6] ! 10"
  by (rule tckn_single_digit_error) (simp_all, code_simp+)

text \<open>
  A Turkish mobile number in its international form without spaces is not found:
  the pattern asks for a word boundary before the plus sign, and none can be there after a space
  or at the start of a text.
\<close>

theorem scrub_misses_international_phone:
  "sr_text (scrub ''ara: +905551112233'') = ''ara: +905551112233'' \<and> \<not> has_pii ''ara: +905551112233''
   \<and> has_pii ''ara: 05551112233''"
  by code_simp

end
