(* ===== verification/Py_Round.thy ===== *)
theory Py_Round
  imports Fleet_Prelude
begin

text \<open>
  Rounding to cents. Python's \<open>round(x, 2)\<close> is round-half-even of the exact value; a \<open>NUMERIC(14, 2)\<close> column rounds a
  half away from zero.
\<close>

definition round_half_even :: "rat \<Rightarrow> int" where
  "round_half_even x =
     (let f = \<lfloor>x\<rfloor>; d = x - of_int f
      in if d < 1/2 \<or> (d = 1/2 \<and> even f) then f else f + 1)"

definition round2 :: "rat \<Rightarrow> rat" where
  "round2 x = of_int (round_half_even (x * 100)) / 100"

lemma round_half_even_bounds: "x - 1/2 \<le> of_int (round_half_even x)" "of_int (round_half_even x) \<le> x + 1/2"
proof -
  have f: "of_int \<lfloor>x\<rfloor> \<le> x" "x < of_int \<lfloor>x\<rfloor> + 1" by linarith+
  show "x - 1/2 \<le> of_int (round_half_even x)" "of_int (round_half_even x) \<le> x + 1/2"
    using f unfolding round_half_even_def Let_def by (simp_all split: if_split) linarith+
qed

lemma round2_bounds: "x - 1/200 \<le> round2 x" "round2 x \<le> x + 1/200"
  using round_half_even_bounds [of "x * 100"] by (simp_all add: round2_def field_simps)

definition numeric2 :: "rat \<Rightarrow> rat" where
  "numeric2 x = (if 0 \<le> x then of_int \<lfloor>x * 100 + 1/2\<rfloor> / 100 else - (of_int \<lfloor>1/2 - x * 100\<rfloor> / 100))"

lemma numeric2_bounds: "x - 1/200 \<le> numeric2 x" "numeric2 x \<le> x + 1/200"
proof -
  have f: "of_int \<lfloor>y\<rfloor> \<le> y" "y < of_int \<lfloor>y\<rfloor> + 1" for y :: rat by linarith+
  show "x - 1/200 \<le> numeric2 x" "numeric2 x \<le> x + 1/200"
    using f [of "x * 100 + 1/2"] f [of "1/2 - x * 100"] by (simp_all add: numeric2_def field_simps)
qed

lemma numeric2_nonneg: "0 \<le> x \<Longrightarrow> 0 \<le> numeric2 x"
  by (simp add: numeric2_def)

end
