(* ===== verification/Vehicle_Intake.thy ===== *)
theory Vehicle_Intake
  imports Agent_Common Pii_Scrub Py_Round
begin

text \<open>
  The vehicle-intake agent (\<open>agents/vehicle_intake\<close>): the expertise report is scrubbed before the
  cloud model sees it, the brief is read back, and a price band is computed from comparables.
  \<open>round(x, 2)\<close> is round-half-even of the exact value.
\<close>

section \<open>The brief\<close>

record vehicle_brief =
  vb_chassis :: "string option"
  vb_km :: "int option"
  vb_damage :: "string list"
  vb_incomplete :: bool
  vb_redacted :: bool

definition blank_field :: "json \<Rightarrow> bool" where
  "blank_field v \<longleftrightarrow> v = JNull \<or> v = JStr [] \<or> v = JStr ''null''"

text \<open>\<open>int(km)\<close>; a type or value error leaves the field empty.\<close>

definition read_km :: "json \<Rightarrow> int option res" where
  "read_km v =
     (if blank_field v then Inr None
      else (case py_int v of
              Inr i \<Rightarrow> Inr (Some i)
            | Inl (TypeError _) \<Rightarrow> Inr None
            | Inl (ValueError _) \<Rightarrow> Inr None
            | Inl e \<Rightarrow> Inl e))"

definition read_damage :: "(json \<Rightarrow> string) \<Rightarrow> json \<Rightarrow> string list" where
  "read_damage rp v =
     (case v of JList xs \<Rightarrow> filter (\<lambda>s. s \<noteq> []) (map (\<lambda>d. strip (py_str rp d)) xs) | _ \<Rightarrow> [])"

definition brief_of_parsed :: "(json \<Rightarrow> string) \<Rightarrow> bool \<Rightarrow> json \<Rightarrow> vehicle_brief res" where
  "brief_of_parsed rp redacted parsed =
     res_bind (py_get JNull parsed ''chassis'') (\<lambda>c.
     res_bind (py_get JNull parsed ''km'') (\<lambda>k.
     res_bind (read_km k) (\<lambda>km.
     res_bind (py_get (JList []) parsed ''damage'') (\<lambda>d.
       let chassis = (if blank_field c then None else Some (strip (py_str rp c)))
       in Inr \<lparr>vb_chassis = chassis, vb_km = km, vb_damage = read_damage rp d,
               vb_incomplete = (chassis = None \<and> km = None), vb_redacted = redacted\<rparr>))))"

definition extract_vehicle_brief :: "agent_env \<Rightarrow> string \<Rightarrow> string \<Rightarrow> (agent_call, vehicle_brief) eff" where
  "extract_vehicle_brief env sensitivity ocr_text =
     (let redacted = scrub ocr_text in
      eff_bind (ask env sensitivity True [(''system'', ae_prompt env), (''user'', sr_text redacted)])
        (\<lambda>content. eff_lift (res_bind (parse_reply content) (brief_of_parsed (ae_repr env) (sr_found redacted)))))"

section \<open>The price band\<close>

record price_band =
  pb_low :: rat
  pb_high :: rat
  pb_median :: rat
  pb_currency :: string
  pb_count :: nat

definition median :: "rat list \<Rightarrow> rat" where
  "median xs =
     (let s = sort xs; n = length s
      in if odd n then s ! (n div 2) else (s ! (n div 2 - 1) + s ! (n div 2)) / 2)"

definition suggest_band :: "string \<Rightarrow> rat list \<Rightarrow> price_band option" where
  "suggest_band currency prices =
     (if prices = [] then None
      else (let med = median prices
            in Some \<lparr>pb_low = round2 (med * (88/100)), pb_high = round2 (med * (112/100)), pb_median = med,
                     pb_currency = currency, pb_count = length prices\<rparr>))"

definition contains_median :: "price_band \<Rightarrow> bool" where
  "contains_median b \<longleftrightarrow> pb_low b \<le> pb_median b \<and> pb_median b \<le> pb_high b"

section \<open>The graph\<close>

record vehicle_state =
  vi_image :: string
  vi_segment :: string
  vi_ocr_text :: "json option"
  vi_brief :: "vehicle_brief option"
  vi_comparables :: "rat list option"
  vi_band :: "price_band option option"
  vi_incomplete :: bool
  vi_blocked :: "exn option"
  vi_paused :: bool

definition vehicle_start :: "string \<Rightarrow> string \<Rightarrow> vehicle_state" where
  "vehicle_start img segment = \<lparr>vi_image = img, vi_segment = segment, vi_ocr_text = None, vi_brief = None,
     vi_comparables = None, vi_band = None, vi_incomplete = False, vi_blocked = None, vi_paused = False\<rparr>"

datatype vehicle_node = Vi_Gate | Vi_Ocr | Vi_Extract | Vi_Comparables | Vi_Band | Vi_End

text \<open>\<open>comparables.top_prices\<close> returns a list of floats; the model reads its finite values.\<close>

definition price_list :: "json \<Rightarrow> rat list res" where
  "price_list v =
     res_bind (py_iter v) (res_map (\<lambda>x. case py_float x of Inr (Fin r) \<Rightarrow> Inr r | Inr _ \<Rightarrow> Inl (OtherError ''nan'') | Inl e \<Rightarrow> Inl e))"

fun vehicle_exec ::
  "string \<Rightarrow> agent_env \<Rightarrow> vehicle_node \<Rightarrow> decision option \<Rightarrow> vehicle_state \<Rightarrow>
     (agent_call, (vehicle_state, unit) step_out) eff" where
  "vehicle_exec agent env Vi_Gate d s =
     update (if gate_closed (ae_kill env) agent then s\<lparr>vi_paused := True\<rparr> else s)"
| "vehicle_exec agent env Vi_Ocr d s =
     eff_bind (use_tool env ''ocr.extract_text'' [(''image_base64'', JStr (vi_image s))])
       (\<lambda>r. eff_bind (eff_lift (py_index r ''text'')) (\<lambda>text. update (s\<lparr>vi_ocr_text := Some text\<rparr>)))"
| "vehicle_exec agent env Vi_Extract d s =
     eff_bind (eff_lift (state_key ''ocr_text'' (vi_ocr_text s))) (\<lambda>text.
       eff_try (eff_bind (extract_vehicle_brief env ''confidential'' (py_str (ae_repr env) text))
                  (\<lambda>b. update (s\<lparr>vi_brief := Some b, vi_incomplete := vb_incomplete b\<rparr>)))
         (\<lambda>e. if is_parse_error e then Some (Update (s\<lparr>vi_blocked := Some e, vi_incomplete := True\<rparr>)) else None))"
| "vehicle_exec agent env Vi_Comparables d s =
     eff_bind (use_tool env ''comparables.top_prices'' [(''segment'', JStr (vi_segment s)), (''limit'', JInt 5)])
       (\<lambda>r. eff_bind (eff_lift (price_list r)) (\<lambda>ps. update (s\<lparr>vi_comparables := Some ps\<rparr>)))"
| "vehicle_exec agent env Vi_Band d s =
     update (s\<lparr>vi_band := Some (suggest_band ''TRY'' (case vi_comparables s of Some ps \<Rightarrow> ps | None \<Rightarrow> []))\<rparr>)"
| "vehicle_exec agent env Vi_End d s = update s"

fun vehicle_route :: "vehicle_node \<Rightarrow> vehicle_state \<Rightarrow> vehicle_node option res" where
  "vehicle_route Vi_Gate s = Inr (if vi_paused s then None else Some Vi_Ocr)"
| "vehicle_route Vi_Ocr s = Inr (Some Vi_Extract)"
| "vehicle_route Vi_Extract s =
     Inr (Some (if vi_blocked s \<noteq> None \<or> vi_incomplete s then Vi_End else Vi_Comparables))"
| "vehicle_route Vi_Comparables s = Inr (Some Vi_Band)"
| "vehicle_route Vi_Band s = Inr (Some Vi_End)"
| "vehicle_route Vi_End s = Inr None"

definition vehicle_run ::
  "string \<Rightarrow> agent_env \<Rightarrow> vehicle_node \<Rightarrow> decision option \<Rightarrow> vehicle_state \<Rightarrow>
     agent_call list \<times> (vehicle_node, vehicle_state, unit) run_out" where
  "vehicle_run agent env = graph_run (vehicle_exec agent env) vehicle_route 6"

fun vehicle_rank :: "vehicle_node \<Rightarrow> nat" where
  "vehicle_rank Vi_Gate = 5" | "vehicle_rank Vi_Ocr = 4" | "vehicle_rank Vi_Extract = 3"
| "vehicle_rank Vi_Comparables = 2" | "vehicle_rank Vi_Band = 1" | "vehicle_rank Vi_End = 0"

interpretation vehicle_acyclic: acyclic_graph "vehicle_exec agent env" vehicle_route vehicle_rank for agent env
proof
  fix n s n'
  assume "vehicle_route n s = Inr (Some n')"
  then show "vehicle_rank n' < vehicle_rank n" by (cases n) (auto split: if_splits)
qed

section \<open>Properties\<close>

lemma median_ge:
  assumes "prices \<noteq> []" "\<forall>p \<in> set prices. b \<le> p"
  shows "b \<le> median prices"
proof -
  let ?s = "sort prices"
  have s: "b \<le> ?s ! i" if "i < length prices" for i
    using assms(2) that by (metis length_sort nth_mem set_sort)
  have "length prices div 2 < length prices" "length prices div 2 - 1 < length prices"
    using assms(1) by (auto intro: order_le_less_trans [OF diff_le_self])
  with s [of "length prices div 2"] s [of "length prices div 2 - 1"] show ?thesis
    by (auto simp: median_def Let_def field_simps)
qed

text \<open>
  The suggested band contains the median of the comparables whenever they are all at
  least five cents (rounding to cents can move either end by half a cent, and twelve percent of
  a smaller price is less than that).
\<close>

theorem suggest_band_contains_median:
  assumes "prices \<noteq> []" "\<forall>p \<in> set prices. 1/20 \<le> p"
  shows "\<exists>b. suggest_band currency prices = Some b \<and> contains_median b \<and> pb_count b = length prices"
proof -
  from median_ge [OF assms] have m: "1/20 \<le> median prices" .
  have "round2 (median prices * (88/100)) \<le> median prices"
    using round2_bounds(2) [of "median prices * (88/100)"] m by simp
  moreover have "median prices \<le> round2 (median prices * (112/100))"
    using round2_bounds(1) [of "median prices * (112/100)"] m by simp
  ultimately show ?thesis using assms(1) by (simp add: suggest_band_def Let_def contains_median_def)
qed

lemma suggest_band_contains_median_witness:
  "\<exists>b. suggest_band ''TRY'' [100, 300, 200] = Some b \<and> contains_median b \<and> pb_count b = 3"
  using suggest_band_contains_median [of "[100, 300, 200]" "''TRY''"] by (simp add: numeral_3_eq_3)

text \<open>Below that the band can miss its median: at 0.4 cents it collapses to zero.\<close>

lemma tiny_band_misses_median:
  "map_option contains_median (suggest_band ''TRY'' [4/1000]) = Some False"
  by code_simp

definition vehicle_call_ok :: "agent_call \<Rightarrow> bool" where
  "vehicle_call_ok c =
     (case c of
        Ask sens redacted ms \<Rightarrow>
          sens = ''confidential'' \<and> redacted \<and> (\<exists>p t. ms = [(''system'', p), (''user'', sr_text (scrub t))])
      | Use tool _ \<Rightarrow> tool = ''ocr.extract_text'' \<or> tool = ''comparables.top_prices'')"

text \<open>
  The cloud model of the vehicle agent only ever sees scrubbed text. In every run,
  each model call is marked redacted and its user message is the scrub of some text; the other
  calls are the local OCR and the comparables read, nothing is written, no run suspends, and
  every run ends.
\<close>

theorem vehicle_sends_scrubbed_text:
  "list_all vehicle_call_ok (fst (vehicle_run agent env n d s)) \<and>
   (\<forall>m t p. snd (vehicle_run agent env n d s) \<noteq> Suspended m t p) \<and>
   snd (vehicle_run agent env n d s) \<noteq> OutOfFuel"
proof (unfold list_all_iff, intro conjI allI ballI)
  fix c assume "c \<in> set (fst (vehicle_run agent env n d s))"
  from trace_from_exec [OF this [unfolded vehicle_run_def]] obtain m d' t
    where "c \<in> set (trace (vehicle_exec agent env m d' t))" by blast
  then show "vehicle_call_ok c"
    by (cases m)
      (auto simp: vehicle_call_ok_def set_trace_eff_bind extract_vehicle_brief_def Let_def split: sum.splits)
next
  fix m t p
  have "\<not> (\<exists>d l. vehicle_exec agent env m d t = (l, Inr (Suspend p)))"
  proof
    assume "\<exists>d l. vehicle_exec agent env m d t = (l, Inr (Suspend p))"
    then obtain d where "outcome (vehicle_exec agent env m d t) = Inr (Suspend p)" by (metis snd_conv)
    then show False by (cases m) (auto simp: outcome_eff_bind eff_try_Inr split: sum.splits if_splits)
  qed
  then show "snd (vehicle_run agent env n d s) \<noteq> Suspended m t p"
    unfolding vehicle_run_def using suspended_exec [of "vehicle_exec agent env" vehicle_route 6 n d s m t p] by blast
next
  show "snd (vehicle_run agent env n d s) \<noteq> OutOfFuel"
    unfolding vehicle_run_def by (rule vehicle_acyclic.enough_fuel) (cases n; simp)
qed

end
