(* ===== verification/Legal_Review.thy ===== *)
theory Legal_Review
  imports Agent_Common
begin

text \<open>
  The legal-review agent (\<open>agents/legal_review\<close>): parsing of the findings, the citation and quotation
  guardrail of \<open>build_review\<close>, and the advisory graph. Of the Turkish folding table the letters
  with code points below 256 are in the model.
\<close>

section \<open>Findings\<close>

definition risk_levels :: "string list" where
  "risk_levels = [''high'', ''medium'', ''low'']"

record finding =
  fi_clause :: string
  fi_risk :: string
  fi_ref :: string
  fi_excerpt :: string
  fi_rationale :: string

record uncited =
  un_clause :: string
  un_risk :: "string option"
  un_reason :: string

record review =
  rv_findings :: "finding list"
  rv_uncited :: "uncited list"

type_synonym raw_finding = "(string \<times> json) list"

definition parse_findings :: "string \<Rightarrow> raw_finding list res" where
  "parse_findings content =
     res_bind (parse_reply content) (\<lambda>parsed.
       let v = (case parsed of JObj kvs \<Rightarrow> dict_get_or (JList []) kvs ''findings'' | _ \<Rightarrow> parsed)
       in case v of
            JList items \<Rightarrow> Inr (List.map_filter (\<lambda>x. case x of JObj kvs \<Rightarrow> Some kvs | _ \<Rightarrow> None) items)
          | _ \<Rightarrow> Inl (ParseError ''expected a list of findings''))"

definition risk_aliases :: "(string \<times> string) list" where
  "risk_aliases =
     [(''y'' @ [char_of (252::nat)] @ ''ksek'', ''high''), (''yuksek'', ''high''), (''critical'', ''high''),
      (''severe'', ''high''), (''orta'', ''medium''), (''moderate'', ''medium''), (''dusuk'', ''low''),
      (''minor'', ''low'')]"

definition normalize_risk :: "(json \<Rightarrow> string) \<Rightarrow> json \<Rightarrow> string option" where
  "normalize_risk rp value =
     (if value = JNull then None
      else (let t = lower (strip (py_str rp value));
                text = (case map_of risk_aliases t of Some r \<Rightarrow> r | None \<Rightarrow> t)
            in if text \<in> set risk_levels then Some text else None))"

definition tr_fold_char :: "char \<Rightarrow> char" where
  "tr_fold_char c =
     (let n = (of_char c :: nat) in
      if n = 73 then CHR ''i''
      else if n = 252 \<or> n = 220 then CHR ''u''
      else if n = 246 \<or> n = 214 then CHR ''o''
      else if n = 231 \<or> n = 199 then CHR ''c''
      else c)"

definition casefold :: "string \<Rightarrow> string" where
  "casefold s = concat (map (\<lambda>c. if of_char c = (223::nat) then ''ss'' else [lower_char c]) s)"

definition normalize_for_match :: "string \<Rightarrow> string" where
  "normalize_for_match text = casefold (join '' '' (words (map tr_fold_char text)))"

text \<open>\<open>str(raw.get(k, "") or "")\<close>\<close>

definition str_or_empty :: "(json \<Rightarrow> string) \<Rightarrow> raw_finding \<Rightarrow> string \<Rightarrow> string" where
  "str_or_empty rp raw k =
     (let v = dict_get_or (JStr []) raw k in if truthy v then py_str rp v else [])"

definition is_conforming :: "(json \<Rightarrow> string) \<Rightarrow> raw_finding \<Rightarrow> bool" where
  "is_conforming rp raw \<longleftrightarrow> casefold (strip (str_or_empty rp raw ''matches'')) = ''standart''"

definition citation_position :: "(json \<Rightarrow> string) \<Rightarrow> json \<Rightarrow> int option" where
  "citation_position rp value =
     (case value of
        JNull \<Rightarrow> None
      | JBool _ \<Rightarrow> None
      | JInt i \<Rightarrow> Some i
      | _ \<Rightarrow> (case rx_search (Group 1 (Plus (Cls py_digit))) (py_str rp value) of
                Some (_, g) \<Rightarrow> Some (digits_value (cap g 1))
              | None \<Rightarrow> None))"

definition position_resolves :: "int option \<Rightarrow> string list \<Rightarrow> bool" where
  "position_resolves p refs \<longleftrightarrow> (case p of None \<Rightarrow> False | Some i \<Rightarrow> 1 \<le> i \<and> i \<le> int (length refs))"

definition rejection ::
  "string option \<Rightarrow> int option \<Rightarrow> string \<Rightarrow> string list \<Rightarrow> string option \<Rightarrow> string option" where
  "rejection risk position excerpt refs haystack =
     (if risk = None then Some ''risk level outside the vocabulary''
      else if \<not> position_resolves position refs
      then Some ''playbook reference does not resolve to a retrieved excerpt''
      else (case haystack of
              None \<Rightarrow> None
            | Some h \<Rightarrow>
                if excerpt = [] \<or> \<not> py_contains h (normalize_for_match excerpt)
                then Some ''quoted clause does not appear in the contract under review'' else None))"

definition raw_clause :: "(json \<Rightarrow> string) \<Rightarrow> raw_finding \<Rightarrow> string" where
  "raw_clause rp raw = strip (str_or_empty rp raw ''clause'')"

definition review_one ::
  "(json \<Rightarrow> string) \<Rightarrow> string list \<Rightarrow> string option \<Rightarrow> raw_finding \<Rightarrow> review \<Rightarrow> review" where
  "review_one rp refs haystack raw acc =
     (let clause = raw_clause rp raw;
          risk = normalize_risk rp (dict_get_or JNull raw ''risk_level'');
          position = citation_position rp (dict_get_or JNull raw ''playbook_ref'');
          excerpt = strip (str_or_empty rp raw ''contract_excerpt'')
      in if clause = [] then acc
         else if is_conforming rp raw then acc
         else (case rejection risk position excerpt refs haystack of
                 Some reason \<Rightarrow>
                   acc\<lparr>rv_uncited := rv_uncited acc @ [\<lparr>un_clause = clause, un_risk = risk, un_reason = reason\<rparr>]\<rparr>
               | None \<Rightarrow>
                   acc\<lparr>rv_findings := rv_findings acc @
                     [\<lparr>fi_clause = clause, fi_risk = the risk, fi_ref = refs ! nat (the position - 1),
                       fi_excerpt = excerpt, fi_rationale = strip (str_or_empty rp raw ''rationale'')\<rparr>]\<rparr>))"

definition build_review ::
  "(json \<Rightarrow> string) \<Rightarrow> raw_finding list \<Rightarrow> string list \<Rightarrow> string option \<Rightarrow> review" where
  "build_review rp raws refs contract =
     (let haystack = map_option normalize_for_match contract
      in foldl (\<lambda>acc raw. review_one rp refs haystack raw acc) \<lparr>rv_findings = [], rv_uncited = []\<rparr> raws)"

section \<open>The reviewer call and the graph\<close>

definition format_excerpts :: "string list \<Rightarrow> string" where
  "format_excerpts excerpts =
     join (newline @ newline)
       (map (\<lambda>(i, text). ''[playbook:'' @ nat_str i @ ''] '' @ text) (zip [1..<Suc (length excerpts)] excerpts))"

definition review_contract ::
  "agent_env \<Rightarrow> string \<times> string \<Rightarrow> string \<Rightarrow> string \<Rightarrow> string list \<Rightarrow> string list \<Rightarrow> (agent_call, review) eff" where
  "review_contract env nonces sensitivity contract excerpts refs =
     eff_bind (ask env sensitivity False
        [(''system'', ae_prompt env),
         (''user'', ''Playbook excerpts:'' @ newline
            @ wrap_untrusted (fst nonces) (Single (format_excerpts excerpts)) @ newline @ newline
            @ ''Contract under review:'' @ newline @ wrap_untrusted (snd nonces) (Single contract))])
       (\<lambda>content. eff_lift (res_bind (parse_findings content)
          (\<lambda>raws. Inr (build_review (ae_repr env) raws refs (Some contract)))))"

record excerpt =
  ex_content :: string
  ex_ref :: string

record legal_state =
  lg_contract :: string
  lg_excerpts :: "excerpt list option"
  lg_review :: "review option"
  lg_blocked :: "exn option"
  lg_paused :: bool

definition legal_start :: "string \<Rightarrow> legal_state" where
  "legal_start contract = \<lparr>lg_contract = contract, lg_excerpts = None, lg_review = None, lg_blocked = None,
     lg_paused = False\<rparr>"

datatype legal_node = Lg_Gate | Lg_Retrieve | Lg_Review | Lg_End

definition no_excerpts :: "legal_state \<Rightarrow> bool" where
  "no_excerpts s \<longleftrightarrow> (case lg_excerpts s of None \<Rightarrow> True | Some xs \<Rightarrow> xs = [])"

text \<open>\<open>playbooks.retrieve\<close> is the knowledge-base retriever: its reply is the parameter \<open>found\<close>.\<close>

fun legal_exec ::
  "string \<Rightarrow> agent_env \<Rightarrow> string \<times> string \<Rightarrow> (string \<Rightarrow> excerpt list res) \<Rightarrow> legal_node \<Rightarrow>
     decision option \<Rightarrow> legal_state \<Rightarrow> (agent_call, (legal_state, unit) step_out) eff" where
  "legal_exec agent env nonces found Lg_Gate d s =
     update (if gate_closed (ae_kill env) agent then s\<lparr>lg_paused := True\<rparr> else s)"
| "legal_exec agent env nonces found Lg_Retrieve d s =
     eff_bind (eff_call (Use ''playbooks.retrieve'' [(''query'', JStr (lg_contract s))]) (found (lg_contract s)))
       (\<lambda>xs. update (s\<lparr>lg_excerpts := Some xs\<rparr>))"
| "legal_exec agent env nonces found Lg_Review d s =
     eff_bind (eff_lift (state_key ''excerpts'' (lg_excerpts s))) (\<lambda>xs.
       eff_try (eff_bind (review_contract env nonces ''confidential'' (lg_contract s)
                            (map ex_content xs) (map ex_ref xs))
                  (\<lambda>r. update (s\<lparr>lg_review := Some r\<rparr>)))
         (\<lambda>e. if is_parse_error e then Some (Update (s\<lparr>lg_blocked := Some e\<rparr>)) else None))"
| "legal_exec agent env nonces found Lg_End d s =
     update (if no_excerpts s \<and> lg_blocked s = None
             then s\<lparr>lg_blocked := Some (OtherError ''no legal-playbooks excerpts retrieved''),
                    lg_review := Some \<lparr>rv_findings = [], rv_uncited = []\<rparr>\<rparr>
             else s)"

fun legal_route :: "legal_node \<Rightarrow> legal_state \<Rightarrow> legal_node option res" where
  "legal_route Lg_Gate s = Inr (if lg_paused s then None else Some Lg_Retrieve)"
| "legal_route Lg_Retrieve s = Inr (Some (if no_excerpts s then Lg_End else Lg_Review))"
| "legal_route Lg_Review s = Inr (Some Lg_End)"
| "legal_route Lg_End s = Inr None"

definition legal_run ::
  "string \<Rightarrow> agent_env \<Rightarrow> string \<times> string \<Rightarrow> (string \<Rightarrow> excerpt list res) \<Rightarrow> legal_node \<Rightarrow>
     decision option \<Rightarrow> legal_state \<Rightarrow> agent_call list \<times> (legal_node, legal_state, unit) run_out" where
  "legal_run agent env nonces found = graph_run (legal_exec agent env nonces found) legal_route 4"

fun legal_rank :: "legal_node \<Rightarrow> nat" where
  "legal_rank Lg_Gate = 3" | "legal_rank Lg_Retrieve = 2" | "legal_rank Lg_Review = 1" | "legal_rank Lg_End = 0"

interpretation legal_acyclic: acyclic_graph "legal_exec agent env nonces found" legal_route legal_rank
  for agent env nonces found
proof
  fix n s n'
  assume "legal_route n s = Inr (Some n')"
  then show "legal_rank n' < legal_rank n" by (cases n) (auto split: if_splits)
qed

section \<open>Grounding\<close>

text \<open>What the guardrail promises of a finding.\<close>

definition grounded_finding :: "string list \<Rightarrow> string option \<Rightarrow> finding \<Rightarrow> bool" where
  "grounded_finding refs contract f \<longleftrightarrow>
     fi_clause f \<noteq> [] \<and> fi_risk f \<in> set risk_levels \<and> fi_ref f \<in> set refs \<and>
     (case contract of
        None \<Rightarrow> True
      | Some c \<Rightarrow> fi_excerpt f \<noteq> [] \<and> py_contains (normalize_for_match c) (normalize_for_match (fi_excerpt f)))"

definition reportable :: "(json \<Rightarrow> string) \<Rightarrow> raw_finding \<Rightarrow> bool" where
  "reportable rp raw \<longleftrightarrow> raw_clause rp raw \<noteq> [] \<and> \<not> is_conforming rp raw"

lemma normalize_risk_level: "normalize_risk rp v = Some r \<Longrightarrow> r \<in> set risk_levels"
  by (auto simp: normalize_risk_def Let_def split: if_splits)

lemma position_in_refs:
  assumes "position_resolves (Some i) refs"
  shows "refs ! nat (i - 1) \<in> set refs"
  using assms by (intro nth_mem) (auto simp: position_resolves_def)

lemma review_one_cases:
  "review_one rp refs (map_option normalize_for_match contract) raw acc = acc \<and> \<not> reportable rp raw \<or>
   (\<exists>f. review_one rp refs (map_option normalize_for_match contract) raw acc
        = acc\<lparr>rv_findings := rv_findings acc @ [f]\<rparr> \<and> grounded_finding refs contract f
        \<and> fi_clause f = raw_clause rp raw \<and> reportable rp raw) \<or>
   (\<exists>u. review_one rp refs (map_option normalize_for_match contract) raw acc
        = acc\<lparr>rv_uncited := rv_uncited acc @ [u]\<rparr> \<and> un_clause u = raw_clause rp raw \<and> reportable rp raw)"
proof (cases "reportable rp raw")
  case False
  then show ?thesis by (auto simp: review_one_def reportable_def Let_def)
next
  case True
  define risk where "risk = normalize_risk rp (dict_get_or JNull raw ''risk_level'')"
  define position where "position = citation_position rp (dict_get_or JNull raw ''playbook_ref'')"
  define excerpt where "excerpt = strip (str_or_empty rp raw ''contract_excerpt'')"
  have step: "review_one rp refs (map_option normalize_for_match contract) raw acc =
      (case rejection risk position excerpt refs (map_option normalize_for_match contract) of
         Some reason \<Rightarrow>
           acc\<lparr>rv_uncited := rv_uncited acc @ [\<lparr>un_clause = raw_clause rp raw, un_risk = risk, un_reason = reason\<rparr>]\<rparr>
       | None \<Rightarrow>
           acc\<lparr>rv_findings := rv_findings acc @
             [\<lparr>fi_clause = raw_clause rp raw, fi_risk = the risk, fi_ref = refs ! nat (the position - 1),
               fi_excerpt = excerpt, fi_rationale = strip (str_or_empty rp raw ''rationale'')\<rparr>]\<rparr>)"
    using True unfolding risk_def position_def excerpt_def by (simp add: review_one_def reportable_def Let_def)
  show ?thesis
  proof (cases "rejection risk position excerpt refs (map_option normalize_for_match contract)")
    case (Some reason)
    with step True show ?thesis by auto
  next
    case None
    then obtain r i where ri: "risk = Some r" "position = Some i" "position_resolves (Some i) refs"
      by (auto simp: rejection_def position_resolves_def split: if_splits option.splits)
    from ri(1) have "r \<in> set risk_levels" unfolding risk_def by (rule normalize_risk_level)
    moreover have "refs ! nat (i - 1) \<in> set refs" by (rule position_in_refs [OF ri(3)])
    moreover have "case contract of None \<Rightarrow> True | Some c \<Rightarrow>
        excerpt \<noteq> [] \<and> py_contains (normalize_for_match c) (normalize_for_match excerpt)"
      using None ri by (auto simp: rejection_def split: if_splits option.splits)
    ultimately have "grounded_finding refs contract \<lparr>fi_clause = raw_clause rp raw, fi_risk = r,
        fi_ref = refs ! nat (i - 1), fi_excerpt = excerpt, fi_rationale = strip (str_or_empty rp raw ''rationale'')\<rparr>"
      using True by (simp add: grounded_finding_def reportable_def split: option.splits)
    with step None ri True show ?thesis by (intro disjI2 disjI1 exI conjI) (assumption | simp)+
  qed
qed

lemma build_review_fold:
  fixes rp refs contract
  defines "step \<equiv> \<lambda>acc raw. review_one rp refs (map_option normalize_for_match contract) raw acc"
  shows "(\<forall>f \<in> set (rv_findings acc). grounded_finding refs contract f) \<Longrightarrow>
     (\<forall>f \<in> set (rv_findings (foldl step acc raws)). grounded_finding refs contract f) \<and>
     length (rv_findings (foldl step acc raws)) + length (rv_uncited (foldl step acc raws))
       = length (rv_findings acc) + length (rv_uncited acc) + length (filter (reportable rp) raws)"
proof (induction raws arbitrary: acc)
  case (Cons raw raws)
  have "(\<forall>f \<in> set (rv_findings (step acc raw)). grounded_finding refs contract f) \<and>
      length (rv_findings (step acc raw)) + length (rv_uncited (step acc raw))
        = length (rv_findings acc) + length (rv_uncited acc) + (if reportable rp raw then 1 else 0)"
    using review_one_cases [of rp refs contract raw acc] Cons.prems unfolding step_def by auto
  with Cons.IH [of "step acc raw"] show ?case by simp
qed simp

section \<open>Properties\<close>

text \<open>
  Every finding is grounded in both sources and nothing reportable is lost. A finding
  has a clause, a risk level of the vocabulary, a reference that is one of the retrieved
  excerpts, and a quotation that occurs in the contract (up to white space, case and
  diacritics); every raw finding with a clause and without the verdict \<open>STANDART\<close> ends up
  either as a finding or as an uncited entry.
\<close>

theorem build_review_grounded:
  "(\<forall>f \<in> set (rv_findings (build_review rp raws refs contract)). grounded_finding refs contract f) \<and>
   length (rv_findings (build_review rp raws refs contract)) + length (rv_uncited (build_review rp raws refs contract))
     = length (filter (reportable rp) raws)"
  using build_review_fold [of "\<lparr>rv_findings = [], rv_uncited = []\<rparr>" refs contract rp raws]
  by (simp add: build_review_def)

definition demo_raw :: raw_finding where
  "demo_raw = [(''clause'', JStr ''Fesih''), (''matches'', JStr ''SAPMA''), (''risk_level'', JStr ''orta''),
     (''playbook_ref'', JStr ''[playbook:1]''), (''contract_excerpt'', JStr ''no  notice'')]"

lemma build_review_grounded_witness:
  "\<exists>f. rv_findings (build_review (\<lambda>_. []) [demo_raw] [''c1''] (Some ''There is NO notice.'')) = [f] \<and>
     grounded_finding [''c1''] (Some ''There is NO notice.'') f"
proof -
  have len: "length (rv_findings (build_review (\<lambda>_. []) [demo_raw] [''c1''] (Some ''There is NO notice.''))) = 1"
    by code_simp
  then obtain f where f: "rv_findings (build_review (\<lambda>_. []) [demo_raw] [''c1''] (Some ''There is NO notice.'')) = [f]"
    by (auto simp: length_Suc_conv)
  from build_review_grounded [of "\<lambda>_. []" "[demo_raw]" "[''c1'']" "Some ''There is NO notice.''"] f
  show ?thesis by simp
qed

definition legal_call_ok :: "agent_call \<Rightarrow> bool" where
  "legal_call_ok c =
     (case c of
        Ask sens redacted _ \<Rightarrow> sens = ''confidential'' \<and> \<not> redacted
      | Use tool _ \<Rightarrow> tool = ''playbooks.retrieve'')"

lemma trace_review_contract:
  "set (trace (review_contract env nonces sens c xs refs)) \<subseteq> {e. \<exists>ms. e = Ask sens False ms}"
  by (auto simp: review_contract_def set_trace_eff_bind split: sum.splits)

lemma legal_review_calls:
  assumes "c \<in> set (fst (legal_run agent env nonces found n d s))"
  shows "legal_call_ok c"
proof -
  from trace_from_exec [OF assms [unfolded legal_run_def]] obtain m d' t
    where c: "c \<in> set (trace (legal_exec agent env nonces found m d' t))" by blast
  show ?thesis
  proof (cases m)
    case Lg_Review
    show ?thesis
    proof (cases "lg_excerpts t")
      case (Some xs)
      with c Lg_Review have "c \<in> set (trace (review_contract env nonces ''confidential'' (lg_contract t)
          (map ex_content xs) (map ex_ref xs)))"
        by (auto simp: set_trace_eff_bind split: sum.splits)
      with trace_review_contract show ?thesis by (fastforce simp: legal_call_ok_def)
    qed (use c Lg_Review in simp)
  qed (use c in \<open>auto simp: legal_call_ok_def set_trace_eff_bind split: sum.splits\<close>)
qed

text \<open>
  The legal agent is advisory, local and never silently clean. Every call of every run
  is the playbook retrieval or a model call at \<open>confidential\<close> without the redaction downgrade;
  and a fresh run whose retrieval finds nothing makes no model call and finishes blocked.
\<close>

theorem legal_review_confidential_or_blocked:
  "(\<forall>c. c \<in> set (fst (legal_run agent env nonces found n d s)) \<longrightarrow> legal_call_ok c) \<and>
   (found contract = Inr [] \<longrightarrow> \<not> gate_closed (ae_kill env) agent \<longrightarrow>
      (\<exists>t. legal_run agent env nonces found Lg_Gate None (legal_start contract)
         = ([Use ''playbooks.retrieve'' [(''query'', JStr contract)]], Finished t) \<and> lg_blocked t \<noteq> None))"
proof (intro conjI allI impI)
  fix c assume "c \<in> set (fst (legal_run agent env nonces found n d s))"
  then show "legal_call_ok c" by (rule legal_review_calls)
next
  assume "found contract = Inr []" "\<not> gate_closed (ae_kill env) agent"
  then show "\<exists>t. legal_run agent env nonces found Lg_Gate None (legal_start contract)
       = ([Use ''playbooks.retrieve'' [(''query'', JStr contract)]], Finished t) \<and> lg_blocked t \<noteq> None"
    by (simp add: legal_run_def eval_nat_numeral eff_return_def legal_start_def no_excerpts_def)
qed

definition demo_legal_env :: agent_env where
  "demo_legal_env = \<lparr>ae_prompt = [], ae_model = (\<lambda>_ _ _. Inr []), ae_tool = (\<lambda>_ _. Inr JNull), ae_kill = None,
     ae_repr = (\<lambda>_. [])\<rparr>"

lemma legal_review_confidential_or_blocked_witness:
  "\<exists>t. legal_run ''legal_review'' demo_legal_env ([], []) (\<lambda>_. Inr []) Lg_Gate None (legal_start ''c'')
     = ([Use ''playbooks.retrieve'' [(''query'', JStr ''c'')]], Finished t) \<and> lg_blocked t \<noteq> None"
  using legal_review_confidential_or_blocked [of "''legal_review''" demo_legal_env "([], [])" "\<lambda>_. Inr []"]
  by (auto simp: gate_closed_def demo_legal_env_def)

end
