(* ===== verification/Dealer_Onboarding.thy ===== *)
theory Dealer_Onboarding
  imports Agent_Common
begin

text \<open>
  The dealer-onboarding agent (\<open>agents/dealer_onboarding\<close>): extraction with format validators, the
  deterministic cross-check, the missing-document e-mail and the graph with its three terminal
  paths. The Turkish wording of labels, notes and letter is the parameter \<open>letter_text\<close>: the
  model fixes what goes into it, not its words. Of the folding table and of NFKD the code points
  below 256 are in the model.
\<close>

section \<open>Extraction\<close>

record dossier =
  do_company :: "string option"
  do_tax_no :: "string option"
  do_iban :: "string option"
  do_certificate :: "string option"

definition missing_fields_of :: "dossier \<Rightarrow> string list" where
  "missing_fields_of d =
     map fst (filter (\<lambda>(_, v). v = None) [(''company_name'', do_company d), (''tax_no'', do_tax_no d)])"

definition clean_value :: "(json \<Rightarrow> string) \<Rightarrow> json \<Rightarrow> string option" where
  "clean_value rp v =
     (if v \<in> {JNull, JStr [], JStr ''null'', JStr ''None''} then None
      else (let text = strip (py_str rp v) in if text = [] then None else Some text))"

text \<open>\<open>^\d{10}$\<close> and \<open>^TR\d{24}$\<close> over texts without a newline.\<close>

definition tax_no_shape :: "string \<Rightarrow> bool" where
  "tax_no_shape s \<longleftrightarrow> length s = 10 \<and> list_all py_digit s"

definition iban_shape :: "string \<Rightarrow> bool" where
  "iban_shape s \<longleftrightarrow> length s = 26 \<and> startswith s ''TR'' \<and> list_all py_digit (drop 2 s)"

definition normalize_tax_no :: "(json \<Rightarrow> string) \<Rightarrow> json \<Rightarrow> string option" where
  "normalize_tax_no rp v =
     (case clean_value rp v of
        None \<Rightarrow> None
      | Some raw \<Rightarrow> (let digits = filter py_digit raw in if tax_no_shape digits then Some digits else None))"

definition normalize_iban :: "(json \<Rightarrow> string) \<Rightarrow> json \<Rightarrow> string option" where
  "normalize_iban rp v =
     (case clean_value rp v of
        None \<Rightarrow> None
      | Some raw \<Rightarrow> (let compact = upper (filter (\<lambda>c. \<not> py_space c) raw)
                     in if iban_shape compact then Some compact else None))"

definition dossier_of_parsed :: "(json \<Rightarrow> string) \<Rightarrow> json \<Rightarrow> dossier res" where
  "dossier_of_parsed rp parsed =
     (case parsed of
        JObj kvs \<Rightarrow>
          Inr \<lparr>do_company = clean_value rp (dict_get_or JNull kvs ''company_name''),
               do_tax_no = normalize_tax_no rp (dict_get_or JNull kvs ''tax_no''),
               do_iban = normalize_iban rp (dict_get_or JNull kvs ''iban''),
               do_certificate = clean_value rp (dict_get_or JNull kvs ''certificate_no'')\<rparr>
      | _ \<Rightarrow> Inl (ParseError ''expected a JSON object''))"

definition extract_dealer_dossier :: "agent_env \<Rightarrow> string \<Rightarrow> string \<Rightarrow> (agent_call, dossier) eff" where
  "extract_dealer_dossier env sensitivity ocr_text =
     eff_bind (ask env sensitivity False [(''system'', ae_prompt env), (''user'', ocr_text)])
       (\<lambda>content. eff_lift (res_bind (parse_reply content) (dossier_of_parsed (ae_repr env))))"

section \<open>Cross-check\<close>

definition required_documents :: "string list" where
  "required_documents = [''authorization_certificate'', ''tax_registration'']"

definition legal_form_tokens :: "string set" where
  "legal_form_tokens =
     {''as'', ''a s'', ''anonim'', ''sirketi'', ''sirket'', ''ltd'', ''limited'', ''sti'', ''ticaret'', ''tic'',
      ''sanayi'', ''san'', ''ve'', ''co'', ''inc''}"

definition tr_fold :: "char \<Rightarrow> char" where
  "tr_fold c =
     (let n = (of_char c :: nat) in
      if n = 252 \<or> n = 220 then CHR ''u''
      else if n = 246 \<or> n = 214 then CHR ''o''
      else if n = 231 \<or> n = 199 then CHR ''c''
      else c)"

text \<open>
  NFKD without its combining marks, of a lowered character: base letters, superscripts, the
  fractions as three characters, spacing accents as a space.
\<close>

definition nfkd_char :: "char \<Rightarrow> string" where
  "nfkd_char c =
     (let n = (of_char c :: nat) in
      if 224 \<le> n \<and> n \<le> 229 \<or> n = 170 then ''a''
      else if n = 231 then ''c''
      else if 232 \<le> n \<and> n \<le> 235 then ''e''
      else if 236 \<le> n \<and> n \<le> 239 then ''i''
      else if n = 241 then ''n''
      else if 242 \<le> n \<and> n \<le> 246 \<or> n = 186 then ''o''
      else if 249 \<le> n \<and> n \<le> 252 then ''u''
      else if n = 253 \<or> n = 255 then ''y''
      else if n = 178 then ''2'' else if n = 179 then ''3'' else if n = 185 then ''1''
      else if n = 188 then ''1/4'' else if n = 189 then ''1/2'' else if n = 190 then ''3/4''
      else if n \<in> {160, 168, 175, 180, 184} then '' ''
      else [c])"

definition ascii_alnum :: "char \<Rightarrow> bool" where
  "ascii_alnum c \<longleftrightarrow> py_digit c \<or> in_range CHR ''a'' CHR ''z'' c"

definition normalize_company_name :: "string \<Rightarrow> string" where
  "normalize_company_name name =
     (let folded = lower (map tr_fold name);
          plain = filter (\<lambda>c. c \<noteq> CHR ''.'') (concat (map nfkd_char folded));
          spaced = map (\<lambda>c. if ascii_alnum c \<or> py_space c then c else CHR '' '') plain
      in join '' '' (filter (\<lambda>t. length t > 1 \<and> t \<notin> legal_form_tokens) (words spaced)))"

record cross_check =
  cc_documents :: "string list"
  cc_fields :: "string list"
  cc_mismatch :: bool
  cc_certificate :: "string option"
  cc_application :: "string option"

definition cc_complete :: "cross_check \<Rightarrow> bool" where
  "cc_complete c \<longleftrightarrow> cc_documents c = [] \<and> cc_fields c = []"

definition cc_clean :: "cross_check \<Rightarrow> bool" where
  "cc_clean c \<longleftrightarrow> cc_complete c \<and> \<not> cc_mismatch c"

definition application_name :: "(json \<Rightarrow> string) \<Rightarrow> (string \<times> json) list \<Rightarrow> string option" where
  "application_name rp application =
     (case dict_get_or JNull application ''company_name'' of JNull \<Rightarrow> None | v \<Rightarrow> Some (py_str rp v))"

definition names_differ :: "string option \<Rightarrow> string option \<Rightarrow> bool" where
  "names_differ cert app =
     (case (cert, app) of
        (Some c, Some a) \<Rightarrow>
          c \<noteq> [] \<and> a \<noteq> [] \<and> normalize_company_name c \<noteq> normalize_company_name a
      | _ \<Rightarrow> False)"

definition cross_check_of ::
  "(json \<Rightarrow> string) \<Rightarrow> (string \<times> json) list \<Rightarrow> string list \<Rightarrow> string option \<Rightarrow> string list \<Rightarrow> cross_check" where
  "cross_check_of rp application provided certificate missing =
     \<lparr>cc_documents = filter (\<lambda>d. d \<notin> set provided) required_documents, cc_fields = missing,
      cc_mismatch = names_differ certificate (application_name rp application),
      cc_certificate = certificate, cc_application = application_name rp application\<rparr>"

section \<open>The e-mail\<close>

record letter_text =
  lt_document :: "string \<Rightarrow> string"
  lt_field :: "string \<Rightarrow> string"
  lt_subject :: "string \<Rightarrow> string"
  lt_body :: "string \<Rightarrow> string \<Rightarrow> string \<Rightarrow> string \<Rightarrow> string"
  lt_fallback_contact :: string
  lt_flag_note :: "string option \<Rightarrow> string option \<Rightarrow> string"
  lt_sent_note :: "string \<Rightarrow> string"
  lt_handoff_note :: string

definition labelled_fields :: "string list" where
  "labelled_fields = [''company_name'', ''tax_no'']"

definition missing_item_labels :: "letter_text \<Rightarrow> cross_check \<Rightarrow> string list" where
  "missing_item_labels lt c =
     map (lt_document lt) (cc_documents c) @ map (lt_field lt) (filter (\<lambda>f. f \<in> set labelled_fields) (cc_fields c))"

record email_msg =
  em_to :: string
  em_subject :: string
  em_body :: string
  em_items :: "string list"

definition get_str :: "(json \<Rightarrow> string) \<Rightarrow> (string \<times> json) list \<Rightarrow> string \<Rightarrow> string \<Rightarrow> string" where
  "get_str rp d k dflt =
     (let v = dict_get_or (JStr []) d k in if truthy v then py_str rp v else dflt)"

definition render_missing_docs_email ::
  "letter_text \<Rightarrow> (json \<Rightarrow> string) \<Rightarrow> (string \<times> json) list \<Rightarrow> cross_check \<Rightarrow> email_msg res" where
  "render_missing_docs_email lt rp application c =
     (let items = missing_item_labels lt c;
          ident = py_str rp (dict_get_or (JStr []) application ''application_id'');
          contact = get_str rp application ''contact_name'' (lt_fallback_contact lt);
          company = get_str rp application ''company_name'' [];
          bullets = join newline (map (\<lambda>i. ''- '' @ i) items)
      in if items = [] then Inl (ValueError ''render_missing_docs_email called with nothing missing'')
         else Inr \<lparr>em_to = py_str rp (dict_get_or (JStr []) application ''contact_email''),
                   em_subject = lt_subject lt ident, em_body = lt_body lt contact company ident bullets,
                   em_items = items\<rparr>)"

section \<open>The graph\<close>

record dealer_state =
  de_id :: string
  de_documents :: "(string \<times> string) list"
  de_application :: "(string \<times> json) list option"
  de_ocr_text :: "string option"
  de_dossier :: "dossier option"
  de_check :: "cross_check option"
  de_email :: "email_msg option"
  de_sent :: "(string \<times> string) option"
  de_status :: "json option"
  de_blocked :: "exn option"
  de_rejected :: bool
  de_paused :: bool

definition dealer_start :: "string \<Rightarrow> (string \<times> string) list \<Rightarrow> dealer_state" where
  "dealer_start ident docs = \<lparr>de_id = ident, de_documents = docs, de_application = None, de_ocr_text = None,
     de_dossier = None, de_check = None, de_email = None, de_sent = None, de_status = None, de_blocked = None,
     de_rejected = False, de_paused = False\<rparr>"

datatype dealer_node =
  De_Gate | De_Fetch | De_Ocr | De_Extract | De_Check | De_Flag | De_Compose | De_Hitl | De_Send | De_Handoff | De_End

record dealer_payload =
  dep_risk :: string
  dep_email :: email_msg
  dep_dossier :: dossier

fun ocr_documents :: "agent_env \<Rightarrow> (string \<times> string) list \<Rightarrow> (agent_call, string list) eff" where
  "ocr_documents env [] = eff_return []"
| "ocr_documents env ((kind, img) # docs) =
     eff_bind (use_tool env ''ocr.extract_text'' [(''image_base64'', JStr img)]) (\<lambda>r.
     eff_bind (eff_lift (py_index r ''text'')) (\<lambda>text.
     eff_bind (ocr_documents env docs) (\<lambda>rest.
       eff_return ((''['' @ kind @ '']'' @ newline @ py_str (ae_repr env) text) # rest))))"

definition application_reply :: "json \<Rightarrow> (string \<times> json) list" where
  "application_reply v = (case v of JObj kvs \<Rightarrow> kvs | _ \<Rightarrow> [])"

definition empty_dossier :: dossier where
  "empty_dossier = \<lparr>do_company = None, do_tax_no = None, do_iban = None, do_certificate = None\<rparr>"

definition email_args :: "email_msg \<Rightarrow> (string \<times> json) list" where
  "email_args m = [(''to'', JStr (em_to m)), (''subject'', JStr (em_subject m)), (''body'', JStr (em_body m))]"

definition status_args :: "string \<Rightarrow> string \<Rightarrow> string \<Rightarrow> (string \<times> json) list" where
  "status_args ident status note =
     [(''application_id'', JStr ident), (''status'', JStr status), (''note'', JStr note)]"

definition update_status ::
  "agent_env \<Rightarrow> string \<Rightarrow> string \<Rightarrow> string \<Rightarrow> (agent_call, json) eff" where
  "update_status env ident status note = use_tool env ''crm.update_status'' (status_args ident status note)"

fun dealer_exec ::
  "string \<Rightarrow> letter_text \<Rightarrow> agent_env \<Rightarrow> dealer_node \<Rightarrow> decision option \<Rightarrow> dealer_state \<Rightarrow>
     (agent_call, (dealer_state, dealer_payload) step_out) eff" where
  "dealer_exec agent lt env De_Gate d s =
     update (if gate_closed (ae_kill env) agent then s\<lparr>de_paused := True\<rparr> else s)"
| "dealer_exec agent lt env De_Fetch d s =
     eff_bind (use_tool env ''crm.get_application'' [(''application_id'', JStr (de_id s))])
       (\<lambda>r. update (s\<lparr>de_application := Some (application_reply r)\<rparr>))"
| "dealer_exec agent lt env De_Ocr d s =
     eff_bind (ocr_documents env (de_documents s))
       (\<lambda>texts. update (s\<lparr>de_ocr_text := Some (join (newline @ newline) texts)\<rparr>))"
| "dealer_exec agent lt env De_Extract d s =
     (if strip (case de_ocr_text s of Some t \<Rightarrow> t | None \<Rightarrow> []) = []
      then update (s\<lparr>de_dossier := Some empty_dossier\<rparr>)
      else eff_bind (eff_lift (state_key ''ocr_text'' (de_ocr_text s))) (\<lambda>text.
        eff_try (eff_bind (extract_dealer_dossier env ''pii'' text) (\<lambda>dos. update (s\<lparr>de_dossier := Some dos\<rparr>)))
          (\<lambda>e. if is_parse_error e then Some (Update (s\<lparr>de_blocked := Some e\<rparr>)) else None)))"
| "dealer_exec agent lt env De_Check d s =
     eff_bind (eff_lift (state_key ''dossier'' (de_dossier s))) (\<lambda>dos.
       update (s\<lparr>de_check := Some (cross_check_of (ae_repr env)
                   (case de_application s of Some a \<Rightarrow> a | None \<Rightarrow> []) (map fst (de_documents s))
                   (do_company dos) (missing_fields_of dos))\<rparr>))"
| "dealer_exec agent lt env De_Flag d s =
     eff_bind (eff_lift (state_key ''check'' (de_check s))) (\<lambda>c.
     eff_bind (update_status env (de_id s) ''manual_review'' (lt_flag_note lt (cc_certificate c) (cc_application c)))
       (\<lambda>r. update (s\<lparr>de_status := Some r\<rparr>)))"
| "dealer_exec agent lt env De_Compose d s =
     eff_bind (eff_lift (state_key ''check'' (de_check s))) (\<lambda>c.
     eff_bind (eff_lift (render_missing_docs_email lt (ae_repr env)
                 (case de_application s of Some a \<Rightarrow> a | None \<Rightarrow> []) c))
       (\<lambda>m. update (s\<lparr>de_email := Some m\<rparr>)))"
| "dealer_exec agent lt env De_Hitl d s =
     eff_bind (eff_lift (assert_approval ''write:external'')) (\<lambda>_.
     eff_bind (eff_lift (state_key ''email'' (de_email s))) (\<lambda>m.
     eff_bind (eff_lift (state_key ''dossier'' (de_dossier s))) (\<lambda>dos.
       interrupt \<lparr>dep_risk = ''write:external'', dep_email = m, dep_dossier = dos\<rparr> d
         (\<lambda>dec. update (if approved_in dec then s else s\<lparr>de_rejected := True\<rparr>)))))"
| "dealer_exec agent lt env De_Send d s =
     eff_bind (eff_lift (state_key ''email'' (de_email s))) (\<lambda>m.
     eff_bind (use_tool env ''email.send'' (email_args m)) (\<lambda>_.
     eff_bind (update_status env (de_id s) ''awaiting_documents'' (lt_sent_note lt (join '', '' (em_items m))))
       (\<lambda>r. update (s\<lparr>de_sent := Some (em_to m, em_subject m), de_status := Some r\<rparr>))))"
| "dealer_exec agent lt env De_Handoff d s =
     eff_bind (update_status env (de_id s) ''ready_for_sales'' (lt_handoff_note lt))
       (\<lambda>r. update (s\<lparr>de_status := Some r\<rparr>))"
| "dealer_exec agent lt env De_End d s = update s"

fun dealer_route :: "dealer_node \<Rightarrow> dealer_state \<Rightarrow> dealer_node option res" where
  "dealer_route De_Gate s = Inr (if de_paused s then None else Some De_Fetch)"
| "dealer_route De_Fetch s = Inr (Some De_Ocr)"
| "dealer_route De_Ocr s = Inr (Some De_Extract)"
| "dealer_route De_Extract s = Inr (Some (if de_blocked s \<noteq> None then De_End else De_Check))"
| "dealer_route De_Check s =
     (case de_check s of
        None \<Rightarrow> Inl (KeyError ''check'')
      | Some c \<Rightarrow> Inr (Some (if cc_mismatch c then De_Flag
                              else if \<not> cc_complete c then De_Compose else De_Handoff)))"
| "dealer_route De_Flag s = Inr (Some De_End)"
| "dealer_route De_Compose s = Inr (Some De_Hitl)"
| "dealer_route De_Hitl s = Inr (Some (if de_rejected s then De_End else De_Send))"
| "dealer_route De_Send s = Inr (Some De_End)"
| "dealer_route De_Handoff s = Inr (Some De_End)"
| "dealer_route De_End s = Inr None"

definition dealer_run ::
  "string \<Rightarrow> letter_text \<Rightarrow> agent_env \<Rightarrow> dealer_node \<Rightarrow> decision option \<Rightarrow> dealer_state \<Rightarrow>
     agent_call list \<times> (dealer_node, dealer_state, dealer_payload) run_out" where
  "dealer_run agent lt env = graph_run (dealer_exec agent lt env) dealer_route 11"

fun dealer_rank :: "dealer_node \<Rightarrow> nat" where
  "dealer_rank De_Gate = 10" | "dealer_rank De_Fetch = 9" | "dealer_rank De_Ocr = 8"
| "dealer_rank De_Extract = 7" | "dealer_rank De_Check = 6" | "dealer_rank De_Flag = 1"
| "dealer_rank De_Compose = 5" | "dealer_rank De_Hitl = 4" | "dealer_rank De_Send = 1"
| "dealer_rank De_Handoff = 1" | "dealer_rank De_End = 0"

interpretation dealer_acyclic: acyclic_graph "dealer_exec agent lt env" dealer_route dealer_rank for agent lt env
proof
  fix n s n'
  assume "dealer_route n s = Inr (Some n')"
  then show "dealer_rank n' < dealer_rank n" by (cases n) (auto split: if_splits option.splits)
qed

section \<open>Runs\<close>

definition dealer_inv :: "letter_text \<Rightarrow> dealer_node \<Rightarrow> dealer_state \<Rightarrow> bool" where
  "dealer_inv lt n s \<longleftrightarrow>
     \<not> de_rejected s \<and> n \<noteq> De_Send \<and>
     (n \<in> {De_Compose, De_Hitl} \<longrightarrow>
        (\<exists>c dos. de_check s = Some c \<and> de_dossier s = Some dos \<and> \<not> cc_mismatch c \<and> \<not> cc_complete c \<and>
           cc_fields c = missing_fields_of dos)) \<and>
     (n = De_Hitl \<longrightarrow> (\<exists>m. de_email s = Some m \<and> em_items m \<noteq> [])) \<and>
     (n = De_Flag \<longrightarrow> (\<exists>c. de_check s = Some c \<and> cc_mismatch c)) \<and>
     (n = De_Handoff \<longrightarrow> (\<exists>c. de_check s = Some c \<and> cc_clean c))"

definition dealer_quiet_call :: "agent_call \<Rightarrow> bool" where
  "dealer_quiet_call c =
     (case c of
        Ask sens redacted _ \<Rightarrow> sens = ''pii'' \<and> \<not> redacted
      | Use tool args \<Rightarrow>
          tool \<in> {''crm.get_application'', ''ocr.extract_text''}
          \<or> (tool = ''crm.update_status'' \<and>
             (\<exists>ident status note. args = status_args ident status note \<and>
                status \<in> {''manual_review'', ''ready_for_sales''})))"

lemma trace_ocr_documents:
  "set (trace (ocr_documents env docs)) \<subseteq> {c. \<exists>a. c = Use ''ocr.extract_text'' a}"
  by (induction env docs rule: ocr_documents.induct)
    (auto simp: set_trace_eff_bind split: sum.splits)

lemma trace_extract_dealer [simp]:
  "trace (extract_dealer_dossier env sens t) = [Ask sens False [(''system'', ae_prompt env), (''user'', t)]]"
  by (simp add: extract_dealer_dossier_def trace_eff_bind split: sum.split)

lemma trace_update_status [simp]: "trace (update_status env i st note) = [Use ''crm.update_status'' (status_args i st note)]"
  by (simp add: update_status_def)

text \<open>An incomplete check has something to ask for, so the letter is always rendered.\<close>

lemma incomplete_has_items:
  "\<not> cc_complete c \<Longrightarrow> cc_fields c = missing_fields_of dos \<Longrightarrow> missing_item_labels lt c \<noteq> []"
  by (auto simp: cc_complete_def missing_item_labels_def missing_fields_of_def labelled_fields_def split: if_splits)

lemma rendered_items: "render_missing_docs_email lt rp app c = Inr m \<Longrightarrow> em_items m \<noteq> []"
  by (auto simp: render_missing_docs_email_def Let_def split: if_splits)

lemma dealer_exec_keeps:
  assumes "dealer_inv lt n s" "dealer_exec agent lt env n None s = (l, Inr (Update s'))"
    "dealer_route n s' = Inr (Some n')"
  shows "dealer_inv lt n' s'"
proof -
  from assms(2) have out: "outcome (dealer_exec agent lt env n None s) = Inr (Update s')" by simp
  show ?thesis
  proof (cases n)
    case De_Check
    with out obtain dos where "de_dossier s = Some dos"
      and s': "s' = s\<lparr>de_check := Some (cross_check_of (ae_repr env)
           (case de_application s of Some a \<Rightarrow> a | None \<Rightarrow> []) (map fst (de_documents s))
           (do_company dos) (missing_fields_of dos))\<rparr>"
      by (auto simp: outcome_eff_bind split: sum.splits)
    moreover have "cc_fields (the (de_check s')) = missing_fields_of dos" by (simp add: s' cross_check_of_def)
    ultimately show ?thesis using assms(1,3) De_Check
      by (auto simp: dealer_inv_def cc_clean_def split: if_splits)
  next
    case De_Compose
    with assms(1) obtain c dos where c: "de_check s = Some c" "\<not> cc_complete c" "cc_fields c = missing_fields_of dos"
      by (auto simp: dealer_inv_def)
    with out De_Compose obtain m where "s' = s\<lparr>de_email := Some m\<rparr>"
      and "render_missing_docs_email lt (ae_repr env) (case de_application s of Some a \<Rightarrow> a | None \<Rightarrow> []) c = Inr m"
      by (auto simp: outcome_eff_bind split: sum.splits)
    with rendered_items [OF this(2)] have "\<exists>m. em_items m \<noteq> [] \<and> s' = s\<lparr>de_email := Some m\<rparr>" by blast
    with assms(1,3) De_Compose show ?thesis by (auto simp: dealer_inv_def)
  next
    case De_Hitl
    with out show ?thesis by (auto simp: outcome_eff_bind split: sum.splits)
  next
    case De_Extract
    with out have "(\<exists>dos. s' = s\<lparr>de_dossier := Some dos\<rparr>) \<or> (\<exists>e. s' = s\<lparr>de_blocked := Some e\<rparr>)"
      by (auto simp: outcome_eff_bind eff_try_Inr split: sum.splits if_splits)
    with assms(1,3) De_Extract show ?thesis by (auto simp: dealer_inv_def split: if_splits)
  qed (use assms(1,3) out in \<open>auto simp: dealer_inv_def outcome_eff_bind split: sum.splits if_splits\<close>)
qed

lemma dealer_exec_quiet:
  assumes "dealer_inv lt n s" "e \<in> set (trace (dealer_exec agent lt env n None s))"
  shows "dealer_quiet_call e"
proof (cases n)
  case De_Ocr
  with assms(2) trace_ocr_documents [of env "de_documents s"] show ?thesis
    by (auto simp: dealer_quiet_call_def set_trace_eff_bind split: sum.splits)
qed (use assms in \<open>auto simp: dealer_inv_def dealer_quiet_call_def set_trace_eff_bind split: sum.splits if_splits\<close>)

interpretation dealer_quiet:
  quiet_graph "dealer_exec agent lt env" dealer_route "dealer_inv lt" "\<lambda>c. \<not> dealer_quiet_call c"
  for agent lt env
proof
  fix n s l s' n'
  show "dealer_inv lt n s \<Longrightarrow> dealer_exec agent lt env n None s = (l, Inr (Update s')) \<Longrightarrow>
      dealer_route n s' = Inr (Some n') \<Longrightarrow> dealer_inv lt n' s'"
    by (rule dealer_exec_keeps)
next
  fix n s e
  show "dealer_inv lt n s \<Longrightarrow> e \<in> set (trace (dealer_exec agent lt env n None s)) \<Longrightarrow> \<not> \<not> dealer_quiet_call e"
    by (simp add: dealer_exec_quiet)
qed

lemma dealer_inv_start [simp]: "dealer_inv lt De_Gate (dealer_start ident docs)"
  by (simp add: dealer_inv_def dealer_start_def)

lemma dealer_suspends:
  assumes "snd (dealer_run agent lt env De_Gate None (dealer_start ident docs)) = Suspended n t p"
  shows "n = De_Hitl \<and> dealer_inv lt De_Hitl t \<and>
     (\<exists>m dos. de_email t = Some m \<and> p = \<lparr>dep_risk = ''write:external'', dep_email = m, dep_dossier = dos\<rparr>)"
proof -
  from suspended_exec [OF assms [unfolded dealer_run_def]] obtain d' l
    where ex: "dealer_exec agent lt env n d' t = (l, Inr (Suspend p))" by blast
  then have out: "outcome (dealer_exec agent lt env n d' t) = Inr (Suspend p)" by simp
  then have n: "n = De_Hitl"
    by (cases n) (auto simp: outcome_eff_bind eff_try_Inr split: sum.splits if_splits)
  from dealer_quiet.suspended_inv [OF dealer_inv_start assms [unfolded dealer_run_def]] n
  have inv: "dealer_inv lt De_Hitl t" by simp
  with n out show ?thesis
    by (cases d') (auto simp: dealer_inv_def outcome_eff_bind split: sum.splits)
qed

section \<open>Properties\<close>

text \<open>
  An applicant is written to only after an approval, and never over a name mismatch.
  Until then a run makes local PII model calls, reads, and internal status moves only. If it
  suspends, the names agreed and something is missing; a rejection makes no call, and an approval
  first sends exactly the previewed message and, once it is sent, moves the application to
  \<open>awaiting_documents\<close>.
\<close>

theorem dealer_mail_needs_approval:
  assumes "snd (dealer_run agent lt env De_Gate None (dealer_start ident docs)) = Suspended n t p"
  shows "list_all dealer_quiet_call (fst (dealer_run agent lt env De_Gate None (dealer_start ident docs))) \<and>
     (\<exists>c. de_check t = Some c \<and> \<not> cc_mismatch c \<and> \<not> cc_complete c) \<and> em_items (dep_email p) \<noteq> [] \<and>
     fst (dealer_run agent' lt' env' n (Some (resume_with False)) t) = [] \<and>
     fst (dealer_run agent' lt' env' n (Some (resume_with True)) t)
       = Use ''email.send'' (email_args (dep_email p)) #
         (case ae_tool env' ''email.send'' (email_args (dep_email p)) of
            Inl _ \<Rightarrow> []
          | Inr _ \<Rightarrow> [Use ''crm.update_status'' (status_args (de_id t) ''awaiting_documents''
                         (lt_sent_note lt' (join '', '' (em_items (dep_email p)))))])"
proof -
  from dealer_suspends [OF assms] obtain m dos where n: "n = De_Hitl" and inv: "dealer_inv lt De_Hitl t"
    and m: "de_email t = Some m" and p: "p = \<lparr>dep_risk = ''write:external'', dep_email = m, dep_dossier = dos\<rparr>"
    by blast
  from inv obtain c dos' where c: "de_check t = Some c" "\<not> cc_mismatch c" "\<not> cc_complete c"
    and dos': "de_dossier t = Some dos'" and items: "em_items m \<noteq> []" and r: "\<not> de_rejected t"
    using m by (auto simp: dealer_inv_def)
  have "list_all dealer_quiet_call (fst (dealer_run agent lt env De_Gate None (dealer_start ident docs)))"
    using dealer_quiet.no_bad_call [OF dealer_inv_start] by (auto simp: list_all_iff dealer_run_def)
  moreover have "fst (dealer_run agent' lt' env' n (Some (resume_with False)) t) = []"
    using n m dos' by (simp add: dealer_run_def eval_nat_numeral eff_return_def)
  moreover have "fst (dealer_run agent' lt' env' n (Some (resume_with True)) t)
       = Use ''email.send'' (email_args m) #
         (case ae_tool env' ''email.send'' (email_args m) of
            Inl _ \<Rightarrow> []
          | Inr _ \<Rightarrow> [Use ''crm.update_status'' (status_args (de_id t) ''awaiting_documents''
                         (lt_sent_note lt' (join '', '' (em_items m))))])"
    using n m dos' r
    by (cases "ae_tool env' ''email.send'' (email_args m)";
        cases "ae_tool env' ''crm.update_status'' (status_args (de_id t) ''awaiting_documents''
                 (lt_sent_note lt' (join '', '' (em_items m))))")
       (simp_all add: dealer_run_def eval_nat_numeral eff_return_def use_tool_def update_status_def)
  ultimately show ?thesis using c items by (simp add: p cong: sum.case_cong)
qed

definition demo_letter :: letter_text where
  "demo_letter = \<lparr>lt_document = (\<lambda>d. d), lt_field = (\<lambda>f. f), lt_subject = (\<lambda>i. i), lt_body = (\<lambda>c n i b. b),
     lt_fallback_contact = ''Yetkili'', lt_flag_note = (\<lambda>_ _. []), lt_sent_note = (\<lambda>s. s), lt_handoff_note = []\<rparr>"

definition demo_dealer_env :: agent_env where
  "demo_dealer_env = \<lparr>ae_prompt = ''p'',
     ae_model = (\<lambda>_ _ _. Inr (''{'' @ qt ''company_name'' @ '':'' @ qt ''Anadolu Oto A.S.'' @ '','' @ qt ''tax_no'' @ '':'' @ qt ''123 456 7890'' @ ''}'')),
     ae_tool = (\<lambda>tool _. if tool = ''crm.get_application'' then Inr (JObj [(''company_name'', JStr ''ANADOLU OTO AS''), (''contact_email'', JStr ''a@b.tr'')])
                  else Inr (JObj [(''text'', JStr ''x'')])),
     ae_kill = None, ae_repr = (\<lambda>_. [])\<rparr>"

definition demo_dealer_email :: email_msg where
  "demo_dealer_email = \<lparr>em_to = ''a@b.tr'', em_subject = [], em_body = ''- tax_registration'', em_items = [''tax_registration'']\<rparr>"

definition demo_dealer_docs :: "(string \<times> string) list" where
  "demo_dealer_docs = [(''authorization_certificate'', ''img'')]"

definition demo_dealer_suspended :: dealer_state where
  "demo_dealer_suspended = (dealer_start ''B-1'' demo_dealer_docs)
     \<lparr>de_application := Some [(''company_name'', JStr ''ANADOLU OTO AS''), (''contact_email'', JStr ''a@b.tr'')],
      de_ocr_text := Some (''[authorization_certificate]'' @ newline @ ''x''),
      de_dossier := Some \<lparr>do_company = Some ''Anadolu Oto A.S.'', do_tax_no = Some ''1234567890'', do_iban = None, do_certificate = None\<rparr>,
      de_check := Some \<lparr>cc_documents = [''tax_registration''], cc_fields = [], cc_mismatch = False,
         cc_certificate = Some ''Anadolu Oto A.S.'', cc_application = Some ''ANADOLU OTO AS''\<rparr>,
      de_email := Some demo_dealer_email\<rparr>"

lemma dealer_mail_needs_approval_witness:
  "fst (dealer_run ''dealer_onboarding'' demo_letter demo_dealer_env De_Hitl (Some (resume_with True)) demo_dealer_suspended)
     = [Use ''email.send'' (email_args demo_dealer_email),
        Use ''crm.update_status'' (status_args ''B-1'' ''awaiting_documents'' ''tax_registration'')]"
proof -
  have run: "snd (dealer_run ''dealer_onboarding'' demo_letter demo_dealer_env De_Gate None (dealer_start ''B-1'' demo_dealer_docs))
     = Suspended De_Hitl demo_dealer_suspended \<lparr>dep_risk = ''write:external'', dep_email = demo_dealer_email,
         dep_dossier = \<lparr>do_company = Some ''Anadolu Oto A.S.'', do_tax_no = Some ''1234567890'', do_iban = None, do_certificate = None\<rparr>\<rparr>"
    by code_simp
  have "ae_tool demo_dealer_env ''email.send'' a = Inr (JObj [(''text'', JStr ''x'')])" for a
    by (simp add: demo_dealer_env_def)
  with dealer_mail_needs_approval [OF run, of "''dealer_onboarding''" demo_letter demo_dealer_env]
  show ?thesis by (simp add: demo_letter_def demo_dealer_email_def demo_dealer_suspended_def dealer_start_def)
qed

text \<open>
  Extracted identifiers are never invented: a tax number that is kept has exactly ten
  digits, which are the digits of the model's value in order, and a kept IBAN is \<open>TR\<close> and
  twenty-four digits.
\<close>

theorem dealer_identifiers_well_formed:
  "(\<forall>t. normalize_tax_no rp v = Some t \<longrightarrow>
      length t = 10 \<and> list_all py_digit t \<and> (\<exists>raw. clean_value rp v = Some raw \<and> t = filter py_digit raw)) \<and>
   (\<forall>i. normalize_iban rp v = Some i \<longrightarrow>
      length i = 26 \<and> take 2 i = ''TR'' \<and> list_all py_digit (drop 2 i))"
  by (auto simp: normalize_tax_no_def normalize_iban_def tax_no_shape_def iban_shape_def startswith_def Let_def
      numeral_2_eq_2 split: option.splits if_splits)

lemma dealer_identifiers_well_formed_witness:
  "normalize_tax_no (\<lambda>_. []) (JStr ''123.456.7890'') = Some ''1234567890'' \<and> length ''1234567890'' = 10"
proof -
  have n: "normalize_tax_no (\<lambda>_. []) (JStr ''123.456.7890'') = Some ''1234567890''" by code_simp
  with dealer_identifiers_well_formed [of "\<lambda>_. []" "JStr ''123.456.7890''"] show ?thesis by blast
qed

end
