(* ===== verification/Lane_Rehearsal.thy ===== *)
theory Lane_Rehearsal
  imports Eval_Scoring
begin

text \<open>
  The quality rehearsal of the local lane (\<open>evals/local_lane_rehearsal.py\<close>): synthetic CVs are drawn, read by the local
  OCR and extracted by the local model; the report has a word accuracy and a number of recovered fields per CV, and
  never fails because one CV does. The drawing with the OCR of its image is the parameter \<open>scan\<close>. The printing is left out.
\<close>

section \<open>The fixtures\<close>

record cv_fixture =
  cx_id :: string
  cx_lines :: "string list"
  cx_full_name :: string
  cx_email :: string
  cx_phone :: string
  cx_education :: string
  cx_experience :: string
  cx_skill :: string

definition cv_case ::
  "string \<Rightarrow> string \<Rightarrow> string \<Rightarrow> string \<Rightarrow> string \<times> string \<Rightarrow> string \<times> string \<Rightarrow> string \<times> string \<Rightarrow> cv_fixture" where
  "cv_case i name mail phone education experience skills =
     \<lparr>cx_id = i,
      cx_lines = [name, ''E-posta: '' @ mail, ''Telefon: '' @ phone, ''Egitim: '' @ fst education, ''Deneyim: '' @ fst experience,
                  ''Yetenekler: '' @ fst skills],
      cx_full_name = name, cx_email = mail, cx_phone = phone, cx_education = snd education, cx_experience = snd experience,
      cx_skill = snd skills\<rparr>"

definition cv_fixtures :: "cv_fixture list" where
  "cv_fixtures =
     [cv_case ''cv-01'' ''Ayse Yilmaz'' ''ayse.yilmaz@example.com'' ''+90 555 111 2233''
        (''BSc Bilgisayar Muhendisligi, ODTU, 2019'', ''ODTU'') (''Yazilim Muhendisi, Acme A.S., 2019-2022'', ''Acme'')
        (''Python, SQL, Docker'', ''Python''),
      cv_case ''cv-02'' ''Mehmet Demir'' ''mehmet.demir@example.com'' ''+90 532 444 5566''
        (''MSc Elektrik Muhendisligi, Bogazici Universitesi, 2017'', ''Bogazici'')
        (''Kidemli Muhendis, Trink Otomotiv, 2018-2023'', ''Trink'') (''Java, Kubernetes, CI/CD'', ''Java''),
      cv_case ''cv-03'' ''Zeynep Kaya'' ''zeynep.kaya@example.com'' ''+90 505 777 8899''
        (''BSc Endustri Muhendisligi, ITU, 2020'', ''ITU'') (''Veri Analisti, Fleet Lojistik, 2020-2024'', ''Fleet Lojistik'')
        (''SQL, Tableau, Excel'', ''Tableau''),
      cv_case ''cv-04'' ''Can Ozturk'' ''can.ozturk@example.com'' ''+90 542 222 3344''
        (''BSc Makine Muhendisligi, Yildiz Teknik Universitesi, 2018'', ''Yildiz'')
        (''Proje Muhendisi, Anadolu Sanayi, 2019-2023'', ''Anadolu'') (''SolidWorks, AutoCAD, MS Project'', ''AutoCAD''),
      cv_case ''cv-05'' ''Elif Sahin'' ''elif.sahin@example.com'' ''+90 555 999 1122''
        (''BSc Isletme, Marmara Universitesi, 2021'', ''Marmara'')
        (''Insan Kaynaklari Uzmani, Fleet Holding, 2021-2024'', ''Fleet Holding'') (''Ise Alim, Bordro, SAP'', ''SAP''),
      cv_case ''cv-06'' ''Burak Aydin'' ''burak.aydin@example.com'' ''+90 533 666 7788''
        (''BSc Matematik, Hacettepe Universitesi, 2016'', ''Hacettepe'')
        (''Veri Bilimci, Trink Analitik, 2019-2024'', ''Trink Analitik'') (''Python, Makine Ogrenmesi, Pandas'', ''Pandas''),
      cv_case ''cv-07'' ''Selin Arslan'' ''selin.arslan@example.com'' ''+90 505 333 4455''
        (''BSc Grafik Tasarim, Marmara Universitesi, 2019'', ''Marmara'')
        (''UI/UX Tasarimci, Fleet Dijital, 2020-2024'', ''Fleet Dijital'') (''Figma, Adobe XD, Sketch'', ''Figma''),
      cv_case ''cv-08'' ''Emre Celik'' ''emre.celik@example.com'' ''+90 542 888 9900''
        (''BSc Bilgisayar Muhendisligi, Ege Universitesi, 2015'', ''Ege'')
        (''DevOps Muhendisi, Trink Bulut, 2017-2024'', ''Trink Bulut'') (''Terraform, AWS, Linux'', ''Terraform'')]"

section \<open>One CV\<close>

record rehearsal_result =
  rh_id :: string
  rh_source :: string
  rh_accuracy :: rat
  rh_hits :: nat
  rh_total :: nat
  rh_reasons :: "string list"

definition fold_ascii :: "string \<Rightarrow> string" where
  "fold_ascii t = map tr_ascii_map (fold_text t)"

definition ocr_word_accuracy :: "string list \<Rightarrow> string \<Rightarrow> rat" where
  "ocr_word_accuracy expected_lines ocr_text =
     (let expected = words (fold_ascii (join '' '' expected_lines)); found = set (words (fold_ascii ocr_text)) in
      if expected = [] then 1
      else of_nat (length (filter (\<lambda>w. w \<in> found) expected)) / of_nat (length expected))"

definition field_hit :: "string \<Rightarrow> string \<Rightarrow> bool" where
  "field_hit expected actual =
     (let e = fold_ascii expected; a = fold_ascii actual in py_contains a e \<or> 85/100 \<le> similarity e a)"

definition cv_checks :: "cv_fixture \<Rightarrow> cv_profile \<Rightarrow> (string \<times> string \<times> string) list" where
  "cv_checks f p =
     [(''full_name'', cx_full_name f, cv_full_name p), (''email'', cx_email f, cv_email p), (''phone'', cx_phone f, cv_phone p),
      (''education'', cx_education f, join '' '' (cv_education p)), (''experience'', cx_experience f, join '' '' (cv_experience p)),
      (''skills'', cx_skill f, join '' '' (cv_skills p))]"

definition rehearsed :: "cv_fixture \<Rightarrow> rat \<Rightarrow> cv_profile \<Rightarrow> rehearsal_result" where
  "rehearsed f accuracy p =
     (let hits = filter (\<lambda>(_, e, a). field_hit e a) (cv_checks f p); misses = filter (\<lambda>(_, e, a). \<not> field_hit e a) (cv_checks f p) in
      \<lparr>rh_id = cx_id f, rh_source = ''tesseract'', rh_accuracy = accuracy, rh_hits = length hits, rh_total = 6,
       rh_reasons = map (\<lambda>(n, _, _). n @ '': expected'') misses\<rparr>)"

definition extraction_failure :: "cv_fixture \<Rightarrow> rat \<Rightarrow> rehearsal_result" where
  "extraction_failure f accuracy =
     \<lparr>rh_id = cx_id f, rh_source = ''tesseract'', rh_accuracy = accuracy, rh_hits = 0, rh_total = 6,
      rh_reasons = [''extraction failed'']\<rparr>"

text \<open>A reply that cannot be parsed counts as no field recovered; every other exception leaves the function.\<close>

definition run_cv_fixture :: "agent_env \<Rightarrow> (string list \<Rightarrow> string res) \<Rightarrow> cv_fixture \<Rightarrow> (agent_call, rehearsal_result) eff" where
  "run_cv_fixture env scan f =
     eff_bind (eff_lift (scan (cx_lines f))) (\<lambda>t.
       let accuracy = ocr_word_accuracy (cx_lines f) t in
       eff_try (eff_bind (extract_cv_profile env t) (\<lambda>p. eff_return (rehearsed f accuracy p)))
         (\<lambda>e. if is_parse_error e then Some (extraction_failure f accuracy) else None))"

section \<open>The rehearsal\<close>

definition gateway_failure :: "cv_fixture \<Rightarrow> rehearsal_result" where
  "gateway_failure f =
     \<lparr>rh_id = cx_id f, rh_source = ''none'', rh_accuracy = 0, rh_hits = 0, rh_total = 6, rh_reasons = [''gateway error'']\<rparr>"

text \<open>\<open>_FIXTURES[:limit]\<close>; a negative limit counts from the end, and 0 is no limit.\<close>

definition chosen_fixtures :: "int option \<Rightarrow> cv_fixture list" where
  "chosen_fixtures limit =
     (case limit of
        None \<Rightarrow> cv_fixtures
      | Some n \<Rightarrow> (if n = 0 then cv_fixtures
                  else if 0 < n then take (nat n) cv_fixtures else take (length cv_fixtures - nat (- n)) cv_fixtures))"

fun rehearse :: "agent_env \<Rightarrow> (string list \<Rightarrow> string res) \<Rightarrow> cv_fixture list \<Rightarrow> (agent_call, rehearsal_result list) eff" where
  "rehearse env scan [] = eff_return []"
| "rehearse env scan (f # fs) =
     eff_bind (eff_try (run_cv_fixture env scan f) (\<lambda>_. Some (gateway_failure f))) (\<lambda>r.
     eff_bind (rehearse env scan fs) (\<lambda>rs. eff_return (r # rs)))"

definition run_cv_rehearsal :: "agent_env \<Rightarrow> (string list \<Rightarrow> string res) \<Rightarrow> int option \<Rightarrow> (agent_call, rehearsal_result list) eff" where
  "run_cv_rehearsal env scan limit = rehearse env scan (chosen_fixtures limit)"

text \<open>The two averages the command prints.\<close>

definition averages :: "rehearsal_result list \<Rightarrow> (rat \<times> rat) res" where
  "averages rs =
     (if rs = [] then Inl (OtherError ''ZeroDivisionError'')
      else Inr (sum_list (map rh_accuracy rs) / of_nat (length rs),
                sum_list (map (\<lambda>r. of_nat (rh_hits r) / of_nat (rh_total r)) rs) / of_nat (length rs)))"

definition rehearsal_main :: "agent_env \<Rightarrow> (string list \<Rightarrow> string res) \<Rightarrow> int option \<Rightarrow> (agent_call, rat \<times> rat) eff" where
  "rehearsal_main env scan limit = eff_bind (run_cv_rehearsal env scan limit) (\<lambda>rs. eff_lift (averages rs))"

section \<open>What a rehearsal reports\<close>

definition result_ok :: "rehearsal_result \<Rightarrow> bool" where
  "result_ok r \<longleftrightarrow> 0 \<le> rh_accuracy r \<and> rh_accuracy r \<le> 1 \<and> rh_hits r \<le> rh_total r \<and> rh_total r = 6"

lemma accuracy_bounds: "0 \<le> ocr_word_accuracy ls t \<and> ocr_word_accuracy ls t \<le> 1"
  by (simp add: ocr_word_accuracy_def Let_def divide_le_eq_1)

lemma cv_checks_length: "length (filter P (cv_checks f p)) \<le> 6"
  by (rule order_trans [OF length_filter_le]) (simp add: cv_checks_def)

lemma results_ok [simp]:
  "result_ok (rehearsed f (ocr_word_accuracy ls t) p)" "result_ok (extraction_failure f (ocr_word_accuracy ls t))" "result_ok (gateway_failure f)"
  using accuracy_bounds [of ls t] by (simp_all add: result_ok_def rehearsed_def extraction_failure_def gateway_failure_def Let_def cv_checks_length)

lemma results_id [simp]: "rh_id (rehearsed f a p) = cx_id f" "rh_id (extraction_failure f a) = cx_id f" "rh_id (gateway_failure f) = cx_id f"
  by (simp_all add: rehearsed_def extraction_failure_def gateway_failure_def Let_def)

lemma run_cv_fixture_ok: "outcome (run_cv_fixture env scan f) = Inr r \<Longrightarrow> result_ok r \<and> rh_id r = cx_id f"
  by (auto simp: run_cv_fixture_def Let_def eff_bind_Inr_iff eff_try_Inr split: if_splits)

lemma caught_fixture:
  "\<exists>r. outcome (eff_try (run_cv_fixture env scan f) (\<lambda>_. Some (gateway_failure f))) = Inr r \<and> result_ok r \<and> rh_id r = cx_id f"
  by (cases "outcome (run_cv_fixture env scan f)") (auto simp: eff_try_def dest: run_cv_fixture_ok)

definition local_ask :: "agent_call \<Rightarrow> bool" where
  "local_ask c = (case c of Ask sens redacted _ \<Rightarrow> sens = ''pii'' \<and> \<not> redacted | Use _ _ \<Rightarrow> False)"

lemma run_cv_fixture_calls: "list_all local_ask (trace (run_cv_fixture env scan f)) \<and> length (trace (run_cv_fixture env scan f)) \<le> 1"
  by (simp add: run_cv_fixture_def Let_def trace_eff_bind local_ask_def split: sum.split)

lemma rehearse_reports:
  "\<exists>rs. outcome (rehearse env scan fs) = Inr rs \<and> map rh_id rs = map cx_id fs \<and> list_all result_ok rs \<and>
     list_all local_ask (trace (rehearse env scan fs)) \<and> length (trace (rehearse env scan fs)) \<le> length fs"
proof (induction fs)
  case (Cons f fs)
  obtain r where r: "outcome (eff_try (run_cv_fixture env scan f) (\<lambda>_. Some (gateway_failure f))) = Inr r" "result_ok r" "rh_id r = cx_id f"
    using caught_fixture by blast
  from Cons obtain rs where rs: "outcome (rehearse env scan fs) = Inr rs" "map rh_id rs = map cx_id fs" "list_all result_ok rs"
    "list_all local_ask (trace (rehearse env scan fs))" "length (trace (rehearse env scan fs)) \<le> length fs" by blast
  from run_cv_fixture_calls [of env scan f] r rs show ?case
    by (intro exI [of _ "r # rs"]) (simp add: trace_eff_bind outcome_eff_bind)
qed simp

text \<open>
  The rehearsal always reports. Whatever the OCR and the model do, a run has one result per chosen CV, in
  order, with a word accuracy between 0 and 1 and at most six of six fields, and the model is asked at most once per CV,
  always in the PII lane; the averages exist unless a negative limit leaves no CV.
\<close>

theorem rehearsal_always_reports:
  "case outcome (run_cv_rehearsal env scan limit) of
     Inl _ \<Rightarrow> False
   | Inr rs \<Rightarrow> map rh_id rs = map cx_id (chosen_fixtures limit) \<and> list_all result_ok rs \<and>
       (outcome (rehearsal_main env scan limit) = Inl (OtherError ''ZeroDivisionError'') \<longleftrightarrow> chosen_fixtures limit = []) \<and>
       list_all local_ask (trace (run_cv_rehearsal env scan limit)) \<and>
       length (trace (run_cv_rehearsal env scan limit)) \<le> length (chosen_fixtures limit)"
proof -
  from rehearse_reports [of env scan "chosen_fixtures limit"] obtain rs where
    rs: "outcome (run_cv_rehearsal env scan limit) = Inr rs" "map rh_id rs = map cx_id (chosen_fixtures limit)" "list_all result_ok rs"
      "list_all local_ask (trace (run_cv_rehearsal env scan limit))"
      "length (trace (run_cv_rehearsal env scan limit)) \<le> length (chosen_fixtures limit)"
    unfolding run_cv_rehearsal_def by blast
  have "rs = [] \<longleftrightarrow> chosen_fixtures limit = []" using rs(2) by (metis map_is_Nil_conv)
  with rs show ?thesis by (simp add: rehearsal_main_def outcome_eff_bind averages_def)
qed

lemma negative_limit_has_no_average: "chosen_fixtures (Some (- 8)) = []" "chosen_fixtures (Some 0) = cv_fixtures"
  by (simp_all add: chosen_fixtures_def cv_fixtures_def)

end
