(* ===== verification/Json_Dumps.thy ===== *)
theory Json_Dumps
  imports Json_Loads
begin

text \<open>
  \<open>json.dumps\<close> with the default separators, with and without \<open>ensure_ascii\<close>, and the proof that \<open>json.loads\<close> reads its
  text back. The rendering of a float is a parameter, so values with floats are left out of the round trip.
\<close>

definition escape_char :: "bool \<Rightarrow> char \<Rightarrow> string" where
  "escape_char ascii c = (if \<not> ascii \<and> 127 \<le> (of_char c :: nat) then [c] else json_escape c)"

definition dumps_str :: "bool \<Rightarrow> string \<Rightarrow> string" where
  "dumps_str ascii s = char_of (34 :: nat) # concat (map (escape_char ascii) s) @ [char_of (34 :: nat)]"

fun json_dumps :: "(pyfloat \<Rightarrow> string) \<Rightarrow> bool \<Rightarrow> json \<Rightarrow> string" where
  "json_dumps fl ascii JNull = ''null''"
| "json_dumps fl ascii (JBool b) = (if b then ''true'' else ''false'')"
| "json_dumps fl ascii (JInt i) = int_str i"
| "json_dumps fl ascii (JFloat f) = fl f"
| "json_dumps fl ascii (JStr s) = dumps_str ascii s"
| "json_dumps fl ascii (JList xs) = ''['' @ join '', '' (map (json_dumps fl ascii) xs) @ '']''"
| "json_dumps fl ascii (JObj kvs) =
     ''{'' @ join '', '' (map (\<lambda>(k, v). dumps_str ascii k @ '': '' @ json_dumps fl ascii v) kvs) @ ''}''"

text \<open>No float, and the keys of every dict are distinct, as in every Python dict.\<close>

fun storable :: "json \<Rightarrow> bool" where
  "storable (JFloat f) = False"
| "storable (JList xs) \<longleftrightarrow> list_all storable xs"
| "storable (JObj kvs) \<longleftrightarrow> distinct (map fst kvs) \<and> list_all (\<lambda>(k, v). storable v) kvs"
| "storable _ = True"

section \<open>Strings\<close>

lemma read_escaped_char: "json_read_str (escape_char ascii c @ s) = map_option (\<lambda>(w, r). (c # w, r)) (json_read_str s)"
proof (cases "\<not> ascii \<and> 127 \<le> (of_char c :: nat)")
  case True
  then show ?thesis using json_read_plain [of c s] by (simp add: escape_char_def)
next
  case False
  then have "escape_char ascii c = json_escape c" by (auto simp: escape_char_def)
  then show ?thesis by (simp add: json_read_escaped)
qed

lemma read_dumps_str: "json_read_str (tl (dumps_str ascii w) @ s) = Some (w, s)"
proof -
  have "json_read_str (concat (map (escape_char ascii) w) @ char_of (34::nat) # s) = Some (w, s)"
    by (induction w) (simp_all add: read_escaped_char json_read_quote)
  then show ?thesis by (simp add: dumps_str_def)
qed

section \<open>Integers\<close>

text \<open>What follows a value inside another one.\<close>

definition delimited :: "string \<Rightarrow> bool" where
  "delimited rest \<longleftrightarrow> (case rest of [] \<Rightarrow> True | c # _ \<Rightarrow> c \<in> {CHR '','', CHR '']'', CHR ''}''})"

definition first_match :: "rx \<Rightarrow> char option \<Rightarrow> string \<Rightarrow> caps \<Rightarrow> position \<Rightarrow> bool" where
  "first_match r p s g x \<longleftrightarrow> (\<exists>ms. rx_match r p s g = x # ms)"

lemma first_cls: "f c \<Longrightarrow> first_match (Cls f) p (c # t) g (Some c, t, g)"
  by (simp add: first_match_def)

lemma first_seq: "first_match a p s g (p1, s1, g1) \<Longrightarrow> first_match b p1 s1 g1 x \<Longrightarrow> first_match (Seq a b) p s g x"
  by (auto simp: first_match_def)

lemma first_alt: "first_match a p s g x \<Longrightarrow> first_match (Alt a b) p s g x"
  by (auto simp: first_match_def)

lemma first_alt2: "rx_match a p s g = [] \<Longrightarrow> first_match b p s g x \<Longrightarrow> first_match (Alt a b) p s g x"
  by (auto simp: first_match_def)

lemma first_opt: "first_match a p s g x \<Longrightarrow> first_match (Opt a) p s g x"
  by (simp add: Opt_def first_alt)

lemma first_opt_none: "rx_match a p s g = [] \<Longrightarrow> first_match (Opt a) p s g (p, s, g)"
  by (simp add: Opt_def first_match_def)

lemma first_group: "first_match a p s g (p1, s1, g1) \<Longrightarrow> first_match (Group i a) p s g (p1, s1, (i, take (length s - length s1) s) # g1)"
  by (auto simp: first_match_def)

lemma first_star:
  "list_all f ds \<Longrightarrow> (case rest of [] \<Rightarrow> True | c # _ \<Rightarrow> \<not> f c) \<Longrightarrow> \<exists>p'. first_match (Star (Cls f)) p (ds @ rest) g (p', rest, g)"
proof (induction ds arbitrary: p)
  case Nil
  then have "rx_match (Cls f) p rest g = []" by (cases rest) simp_all
  then have "rx_match (Star (Cls f)) p rest g = [(p, rest, g)]" by (subst rx_match.simps) simp
  then show ?case by (simp add: first_match_def)
next
  case (Cons d ds)
  from Cons.IH [of "Some d"] Cons.prems obtain p' ms where more: "rx_match (Star (Cls f)) (Some d) (ds @ rest) g = (p', rest, g) # ms"
    by (auto simp: first_match_def)
  have "rx_match (Cls f) p ((d # ds) @ rest) g = [(Some d, ds @ rest, g)]" using Cons.prems(1) by simp
  with more have "rx_match (Star (Cls f)) p ((d # ds) @ rest) g = (p', rest, g) # ms @ [(p, (d # ds) @ rest, g)]"
    by (subst rx_match.simps) simp
  then show ?case unfolding first_match_def by blast
qed

lemma delimited_no_digit: "delimited rest \<Longrightarrow> case rest of [] \<Rightarrow> True | c # _ \<Rightarrow> \<not> py_digit c"
  by (auto simp: delimited_def py_digit_def split: list.splits)

lemma digits_value_snoc: "digits_value (xs @ [c]) = 10 * digits_value xs + digit_value c"
  by (simp add: digits_value_def)

lemma digit_value_digit: "d < 10 \<Longrightarrow> digit_value (char_of (48 + d)) = int d"
proof -
  assume "d < 10"
  then have "(of_char (char_of (48 + d)) :: nat) = 48 + d" by simp
  then have "(of_char (char_of (48 + d)) :: int) = int (48 + d)" by (metis of_nat_of_char)
  then show ?thesis by (simp add: digit_value_def)
qed

lemma digits_value_nat_str: "digits_value (nat_str n) = int n"
proof (induction n rule: nat_str.induct)
  case (1 n)
  show ?case
  proof (cases "n < 10")
    case True
    then show ?thesis by (subst nat_str.simps) (simp add: digits_value_def digit_value_digit)
  next
    case False
    with 1 have "digits_value (nat_str (n div 10)) = int (n div 10)" by simp
    then have "digits_value (nat_str n) = 10 * int (n div 10) + int (n mod 10)"
      using False by (subst nat_str.simps) (simp add: digits_value_snoc digit_value_digit)
    moreover have "10 * (n div 10) + n mod 10 = n" by simp
    ultimately show ?thesis by linarith
  qed
qed

lemma nat_str_digits: "list_all py_digit (nat_str n)"
proof (induction n rule: nat_str.induct)
  case (1 n)
  have d: "py_digit (char_of (48 + k))" if "k < 10" for k :: nat using that by (simp add: py_digit_def)
  show ?case
  proof (cases "n < 10")
    case True
    with d show ?thesis by (subst nat_str.simps) simp
  next
    case False
    moreover have "list_all py_digit (nat_str (n div 10))" using 1 [OF False] .
    ultimately show ?thesis using d [of "n mod 10"] by (subst nat_str.simps) simp
  qed
qed

lemma nat_str_head: "0 < n \<Longrightarrow> in_range CHR ''1'' CHR ''9'' (hd (nat_str n))"
proof (induction n rule: nat_str.induct)
  case (1 n)
  show ?case
  proof (cases "n < 10")
    case True
    with 1(2) show ?thesis by (subst nat_str.simps) (simp add: in_range_def)
  next
    case False
    with 1 show ?thesis by (subst nat_str.simps) (simp add: hd_append)
  qed
qed

text \<open>The pattern of a number takes the whole integer, and nothing of its other groups.\<close>

abbreviation "whole_rx \<equiv> Seq (Opt (Cls (\<lambda>c. c = CHR ''-'')))
    (Alt (Cls (\<lambda>c. c = CHR ''0'')) (Seq (Cls (in_range CHR ''1'' CHR ''9'')) (Star digit_rx)))"

lemma first_nat:
  assumes "delimited rest"
  shows "\<exists>p'. first_match (Alt (Cls (\<lambda>c. c = CHR ''0'')) (Seq (Cls (in_range CHR ''1'' CHR ''9'')) (Star digit_rx))) p (nat_str n @ rest) g (p', rest, g)"
proof (cases "n = 0")
  case True
  moreover have "nat_str 0 = ''0''" by code_simp
  ultimately have "nat_str n = ''0''" by simp
  then have "first_match (Alt (Cls (\<lambda>c. c = CHR ''0'')) (Seq (Cls (in_range CHR ''1'' CHR ''9'')) (Star digit_rx))) p (nat_str n @ rest) g
      (Some CHR ''0'', rest, g)" by (simp add: first_alt first_cls)
  then show ?thesis by blast
next
  case False
  obtain c ds where s: "nat_str n = c # ds" using nat_str_nonempty [of n] by (cases "nat_str n") auto
  with nat_str_head [of n] False nat_str_digits [of n] have c: "in_range CHR ''1'' CHR ''9'' c" "list_all py_digit ds" by simp_all
  from c(1) have no0: "c \<noteq> CHR ''0''" by (auto simp: in_range_def)
  from first_star [OF c(2) delimited_no_digit [OF assms]] obtain p' where st: "first_match (Star digit_rx) (Some c) (ds @ rest) g (p', rest, g)"
    by blast
  have "first_match (Seq (Cls (in_range CHR ''1'' CHR ''9'')) (Star digit_rx)) p (c # ds @ rest) g (p', rest, g)"
    using c(1) by (intro first_seq [OF first_cls st])
  then have "first_match (Alt (Cls (\<lambda>c. c = CHR ''0'')) (Seq (Cls (in_range CHR ''1'' CHR ''9'')) (Star digit_rx))) p (nat_str n @ rest) g
      (p', rest, g)" using no0 by (intro first_alt2) (simp_all add: s)
  then show ?thesis by blast
qed

lemma first_int:
  assumes "delimited rest"
  shows "\<exists>p'. first_match whole_rx p (int_str i @ rest) g (p', rest, g)"
proof (cases "i < 0")
  case True
  from first_nat [OF assms, of "Some CHR ''-''"] obtain p'
    where n: "first_match (Alt (Cls (\<lambda>c. c = CHR ''0'')) (Seq (Cls (in_range CHR ''1'' CHR ''9'')) (Star digit_rx))) (Some CHR ''-'') (nat_str (nat (- i)) @ rest) g (p', rest, g)"
    by blast
  have "first_match (Opt (Cls (\<lambda>c. c = CHR ''-''))) p (CHR ''-'' # nat_str (nat (- i)) @ rest) g (Some CHR ''-'', nat_str (nat (- i)) @ rest, g)"
    by (simp add: first_opt first_cls)
  from first_seq [OF this n] True show ?thesis by (auto simp: int_str_def)
next
  case False
  from first_nat [OF assms, of p] obtain p'
    where n: "first_match (Alt (Cls (\<lambda>c. c = CHR ''0'')) (Seq (Cls (in_range CHR ''1'' CHR ''9'')) (Star digit_rx))) p (nat_str (nat i) @ rest) g (p', rest, g)"
    by blast
  obtain c ds where s: "nat_str (nat i) = c # ds" using nat_str_nonempty [of "nat i"] by (cases "nat_str (nat i)") auto
  with nat_str_digits [of "nat i"] have "c \<noteq> CHR ''-''" by (auto simp: py_digit_def)
  then have "first_match (Opt (Cls (\<lambda>c. c = CHR ''-''))) p (nat_str (nat i) @ rest) g (p, nat_str (nat i) @ rest, g)"
    by (intro first_opt_none) (simp add: s)
  from first_seq [OF this n] False show ?thesis by (auto simp: int_str_def)
qed

lemma signed_value_int_str: "signed_value (int_str i) = i"
proof (cases "i < 0")
  case True
  then show ?thesis by (simp add: int_str_def signed_value_def digits_value_nat_str)
next
  case False
  obtain c ds where s: "nat_str (nat i) = c # ds" using nat_str_nonempty [of "nat i"] by (cases "nat_str (nat i)") auto
  with nat_str_digits [of "nat i"] have "c \<noteq> CHR ''-''" "c \<noteq> CHR ''+''" by (auto simp: py_digit_def)
  with False s digits_value_nat_str [of "nat i"] show ?thesis by (simp add: int_str_def signed_value_def)
qed

lemma no_cls: "(case rest of [] \<Rightarrow> True | c # _ \<Rightarrow> \<not> f c) \<Longrightarrow> rx_match (Seq (Cls f) b) p rest g = []"
  by (cases rest) simp_all

lemma json_number_int:
  assumes "delimited rest"
  shows "json_number (int_str i @ rest) = Some (JInt i, rest)"
proof -
  let ?s = "int_str i @ rest"
  from first_int [OF assms] obtain p' where "first_match whole_rx None ?s [] (p', rest, [])" by blast
  from first_group [OF this, of 1] have g1: "first_match (Group 1 whole_rx) None ?s [] (p', rest, [(1, int_str i)])" by simp
  have d: "case rest of [] \<Rightarrow> True | c # _ \<Rightarrow> \<not> c = CHR ''.''" "case rest of [] \<Rightarrow> True | c # _ \<Rightarrow> \<not> (c = CHR ''e'' \<or> c = CHR ''E'')"
    using assms by (auto simp: delimited_def split: list.splits)
  have g2: "first_match (Opt (Group 2 (Seq (Cls (\<lambda>c. c = CHR ''.'')) (Plus digit_rx)))) p' rest [(1, int_str i)] (p', rest, [(1, int_str i)])"
    by (rule first_opt_none) (simp only: rx_match.simps(7) no_cls [OF d(1)] list.map)
  have g3: "first_match (Opt (Group 3 exp_rx)) p' rest [(1, int_str i)] (p', rest, [(1, int_str i)])"
    by (rule first_opt_none) (simp only: rx_match.simps(7) no_cls [OF d(2)] list.map)
  have "first_match json_number_re None ?s [] (p', rest, [(1, int_str i)])"
    unfolding json_number_re_def seqs.simps by (rule first_seq [OF g1 first_seq [OF g2 g3]])
  then show ?thesis by (auto simp: first_match_def json_number_def cap_def signed_value_int_str)
qed

section \<open>Values\<close>

text \<open>How a text begins, so that neither white space nor a closing bracket is read there.\<close>

definition starts_value :: "string \<Rightarrow> bool" where
  "starts_value s \<longleftrightarrow> (case s of [] \<Rightarrow> False | c # _ \<Rightarrow> \<not> json_ws c \<and> c \<noteq> CHR '']'' \<and> c \<noteq> CHR ''}'')"

lemma starts_value_append [simp]: "starts_value s \<Longrightarrow> starts_value (s @ t)"
  by (cases s) (simp_all add: starts_value_def)

lemma skip_ws_value [simp]: "starts_value s \<Longrightarrow> skip_ws s = s"
  by (cases s) (simp_all add: starts_value_def skip_ws_def)

lemma starts_value_str [simp]: "starts_value (dumps_str ascii w)"
proof -
  have "\<not> json_ws (char_of (34 :: nat)) \<and> char_of (34 :: nat) \<noteq> CHR '']'' \<and> char_of (34 :: nat) \<noteq> CHR ''}''" by code_simp
  then show ?thesis by (simp add: starts_value_def dumps_str_def)
qed

lemma digit_starts: "py_digit c \<Longrightarrow> \<not> json_ws c \<and> c \<noteq> CHR '']'' \<and> c \<noteq> CHR ''}''"
  by (auto simp: py_digit_def json_ws_def Let_def)

lemma starts_value_int [simp]: "starts_value (int_str i)"
proof (cases "i < 0")
  case True
  have "\<not> json_ws CHR ''-''" by code_simp
  with True show ?thesis by (simp add: int_str_def starts_value_def)
next
  case False
  obtain c ds where "nat_str (nat i) = c # ds" using nat_str_nonempty [of "nat i"] by (cases "nat_str (nat i)") auto
  with False nat_str_digits [of "nat i"] digit_starts [of c] show ?thesis by (simp add: int_str_def starts_value_def)
qed

lemma starts_value_words:
  "starts_value ''null''" "starts_value ''true''" "starts_value ''false''" "starts_value (CHR ''['' # s)" "starts_value (CHR ''{'' # s)"
proof -
  have "\<not> json_ws CHR ''n'' \<and> \<not> json_ws CHR ''t'' \<and> \<not> json_ws CHR ''f'' \<and> \<not> json_ws CHR ''['' \<and> \<not> json_ws CHR ''{''" by code_simp
  then show "starts_value ''null''" "starts_value ''true''" "starts_value ''false''" "starts_value (CHR ''['' # s)" "starts_value (CHR ''{'' # s)"
    by (simp_all add: starts_value_def)
qed

lemma starts_value_dumps [simp]: "storable v \<Longrightarrow> starts_value (json_dumps fl ascii v)"
  by (cases v) (simp_all add: starts_value_words)

lemma skip_delimited [simp]: "delimited s \<Longrightarrow> skip_ws s = s"
proof (cases s)
  case (Cons c t)
  have "\<not> json_ws CHR '','' \<and> \<not> json_ws CHR '']'' \<and> \<not> json_ws CHR ''}''" by code_simp
  moreover assume "delimited s"
  ultimately show ?thesis using Cons by (auto simp: delimited_def skip_ws_def)
qed (simp add: skip_ws_def)

lemma skip_space [simp]: "skip_ws (CHR '' '' # s) = skip_ws s"
proof -
  have "json_ws CHR '' ''" by code_simp
  then show ?thesis by (simp add: skip_ws_def)
qed

lemma skip_colon [simp]: "skip_ws (CHR '':'' # s) = CHR '':'' # s"
proof -
  have "\<not> json_ws CHR '':''" by code_simp
  then show ?thesis by (simp add: skip_ws_def)
qed

text \<open>With enough fuel the reader takes the value and stops at what follows.\<close>

definition reads :: "string \<Rightarrow> json \<Rightarrow> bool" where
  "reads s v \<longleftrightarrow> (\<forall>n rest. delimited rest \<longrightarrow> 2 * length (s @ rest) < n \<longrightarrow> json_value n (s @ rest) = Some (v, rest))"

lemma readsD: "reads s v \<Longrightarrow> delimited rest \<Longrightarrow> 2 * length (s @ rest) < n \<Longrightarrow> json_value n (s @ rest) = Some (v, rest)"
  by (simp add: reads_def)

lemma delimited_close [simp]: "delimited (CHR '']'' # s)" "delimited (CHR ''}'' # s)" "delimited (CHR '','' # s)" "delimited []"
  by (simp_all add: delimited_def)

lemma items_read:
  assumes "xs \<noteq> []" "list_all (\<lambda>x. storable x \<and> reads (json_dumps fl ascii x) x) xs"
    and "s = join '', '' (map (json_dumps fl ascii) xs) @ CHR '']'' # rest" "Suc (2 * length s) < n"
  shows "json_items n s = Some (xs, rest)"
  using assms
proof (induction xs arbitrary: s n)
  case (Cons x xs)
  obtain m where n: "n = Suc m" using Cons.prems(4) by (cases n) auto
  let ?d = "json_dumps fl ascii x"
  from Cons.prems(2) have x: "reads ?d x" by simp
  show ?case
  proof (cases xs)
    case Nil
    with Cons.prems(3) have s: "s = ?d @ CHR '']'' # rest" by simp
    from readsD [OF x, of "CHR '']'' # rest" m] Cons.prems(4) n s have "json_value m s = Some (x, CHR '']'' # rest)" by simp
    then show ?thesis by (simp add: n Nil)
  next
    case (Cons y ys)
    let ?t = "join '', '' (map (json_dumps fl ascii) xs) @ CHR '']'' # rest"
    have s: "s = ?d @ CHR '','' # CHR '' '' # ?t" using Cons.prems(3) Cons by simp
    from readsD [OF x, of "CHR '','' # CHR '' '' # ?t" m] Cons.prems(4) n s
    have v: "json_value m s = Some (x, CHR '','' # CHR '' '' # ?t)" by simp
    have "starts_value (json_dumps fl ascii y)" using Cons.prems(2) Cons by simp
    then have t: "skip_ws ?t = ?t" using Cons by (cases ys) simp_all
    have "json_items m ?t = Some (xs, rest)"
      using Cons.prems(2,4) Cons n s by (intro Cons.IH) (auto simp: Cons)
    with v t show ?thesis by (simp add: n)
  qed
qed simp

lemma dict_put_new: "k \<notin> fst ` set acc \<Longrightarrow> dict_put k v acc = acc @ [(k, v)]"
  by (induction k v acc rule: dict_put.induct) auto

abbreviation "dump_member fl ascii \<equiv> (\<lambda>(k, v). dumps_str ascii k @ '': '' @ json_dumps fl ascii v)"

lemma members_read:
  assumes "kvs \<noteq> []" "list_all (\<lambda>(k, x). storable x \<and> reads (json_dumps fl ascii x) x) kvs" "distinct (map fst (acc @ kvs))"
    and "s = join '', '' (map (dump_member fl ascii) kvs) @ CHR ''}'' # rest" "Suc (2 * length s) < n"
  shows "json_members n acc s = Some (acc @ kvs, rest)"
  using assms
proof (induction kvs arbitrary: acc s n)
  case (Cons kv kvs)
  obtain k x where kv: "kv = (k, x)" by fastforce
  obtain m where n: "n = Suc m" using Cons.prems(5) by (cases n) auto
  let ?d = "json_dumps fl ascii x"
  from Cons.prems(2) have x: "reads ?d x" "storable x" by (simp_all add: kv)
  from Cons.prems(3) have acc: "dict_put k x acc = acc @ [(k, x)]" by (intro dict_put_new) (auto simp: kv)
  have q: "of_char (char_of (34 :: nat)) = (34 :: nat)" by simp
  show ?case
  proof (cases kvs)
    case Nil
    with Cons.prems(4) have s: "s = dumps_str ascii k @ CHR '':'' # CHR '' '' # ?d @ CHR ''}'' # rest"
      by (simp add: kv)
    from readsD [OF x(1), of "CHR ''}'' # rest" m] Cons.prems(5) n s
    have "json_value m (?d @ CHR ''}'' # rest) = Some (x, CHR ''}'' # rest)" by simp
    then show ?thesis
      using read_dumps_str [of ascii k "CHR '':'' # CHR '' '' # ?d @ CHR ''}'' # rest"] x(2)
      by (simp add: n s dumps_str_def acc kv Nil)
  next
    case (Cons kv' kvs')
    let ?t = "join '', '' (map (dump_member fl ascii) kvs) @ CHR ''}'' # rest"
    have s: "s = dumps_str ascii k @ CHR '':'' # CHR '' '' # ?d @ CHR '','' # CHR '' '' # ?t"
      using Cons.prems(4) Cons by (simp add: kv)
    from readsD [OF x(1), of "CHR '','' # CHR '' '' # ?t" m] Cons.prems(5) n s
    have v: "json_value m (?d @ CHR '','' # CHR '' '' # ?t) = Some (x, CHR '','' # CHR '' '' # ?t)" by simp
    have "starts_value (dump_member fl ascii kv')" by (simp split: prod.split)
    then have t: "skip_ws ?t = ?t" using Cons by (cases kvs') simp_all
    have "json_members m (acc @ [(k, x)]) ?t = Some ((acc @ [(k, x)]) @ kvs, rest)"
      using Cons.prems(2,3,5) Cons n s by (intro Cons.IH) (auto simp: kv)
    with v t show ?thesis
      using read_dumps_str [of ascii k "CHR '':'' # CHR '' '' # ?d @ CHR '','' # CHR '' '' # ?t"] x(2)
      by (simp add: n s dumps_str_def acc kv)
  qed
qed simp

lemma word_keyword: "json_keyword (''null'' @ s) = Some (JNull, s)" "json_keyword (''true'' @ s) = Some (JBool True, s)"
  "json_keyword (''false'' @ s) = Some (JBool False, s)"
  by (simp_all add: json_keyword_def startswith_def)

lemma int_no_keyword: "json_keyword (int_str i @ s) = None"
proof -
  obtain c ds where d: "nat_str (nat \<bar>i\<bar>) = c # ds" using nat_str_nonempty [of "nat \<bar>i\<bar>"] by (cases "nat_str (nat \<bar>i\<bar>)") auto
  with nat_str_digits [of "nat \<bar>i\<bar>"] have "py_digit c" by simp
  then have "c \<noteq> CHR ''n'' \<and> c \<noteq> CHR ''t'' \<and> c \<noteq> CHR ''f'' \<and> c \<noteq> CHR ''N'' \<and> c \<noteq> CHR ''I'' \<and> c \<noteq> CHR ''-''"
    by (auto simp: py_digit_def)
  with d show ?thesis by (cases "i < 0") (simp_all add: int_str_def json_keyword_def startswith_def)
qed

lemma int_head: "\<exists>c t. int_str i = c # t \<and> of_char c \<noteq> (34 :: nat) \<and> c \<noteq> CHR ''['' \<and> c \<noteq> CHR ''{''"
proof -
  obtain c ds where d: "nat_str (nat \<bar>i\<bar>) = c # ds" using nat_str_nonempty [of "nat \<bar>i\<bar>"] by (cases "nat_str (nat \<bar>i\<bar>)") auto
  with nat_str_digits [of "nat \<bar>i\<bar>"] have "py_digit c" by simp
  with d show ?thesis by (cases "i < 0") (auto simp: int_str_def py_digit_def)
qed

lemma reads_int: "reads (int_str i) (JInt i)"
proof (unfold reads_def, intro allI impI)
  fix n rest assume "delimited rest" "2 * length (int_str i @ rest) < n"
  then obtain m where "n = Suc m" by (cases n) auto
  moreover obtain c t where "int_str i = c # t" "of_char c \<noteq> (34 :: nat)" "c \<noteq> CHR ''[''" "c \<noteq> CHR ''{''"
    using int_head by blast
  ultimately show "json_value n (int_str i @ rest) = Some (JInt i, rest)"
    using int_no_keyword [of i rest] json_number_int [OF \<open>delimited rest\<close>, of i] by simp
qed

lemma reads_word:
  assumes "s = c # t" "of_char c \<noteq> (34 :: nat)" "c \<noteq> CHR ''[''" "c \<noteq> CHR ''{''" "\<And>r. json_keyword (s @ r) = Some (v, r)"
  shows "reads s v"
proof (unfold reads_def, intro allI impI)
  fix n rest assume "delimited rest" "2 * length (s @ rest) < n"
  then obtain m where "n = Suc m" by (cases n) auto
  with assms(1-4) assms(5) [of rest] show "json_value n (s @ rest) = Some (v, rest)" by simp
qed

lemma reads_str: "reads (dumps_str ascii w) (JStr w)"
proof (unfold reads_def, intro allI impI)
  fix n rest assume "2 * length (dumps_str ascii w @ rest) < n"
  then obtain m where "n = Suc m" by (cases n) auto
  with read_dumps_str [of ascii w rest] show "json_value n (dumps_str ascii w @ rest) = Some (JStr w, rest)"
    by (simp add: dumps_str_def)
qed

lemma reads_list:
  assumes "list_all (\<lambda>x. storable x \<and> reads (json_dumps fl ascii x) x) xs"
  shows "reads (json_dumps fl ascii (JList xs)) (JList xs)"
proof (unfold reads_def, intro allI impI)
  fix n rest assume n: "2 * length (json_dumps fl ascii (JList xs) @ rest) < n"
  then obtain m where m: "n = Suc m" by (cases n) auto
  have b: "of_char CHR ''['' \<noteq> (34 :: nat)" by code_simp
  show "json_value n (json_dumps fl ascii (JList xs) @ rest) = Some (JList xs, rest)"
  proof (cases xs)
    case Nil
    then show ?thesis by (simp add: m b)
  next
    case (Cons x ys)
    let ?t = "join '', '' (map (json_dumps fl ascii) xs) @ CHR '']'' # rest"
    have "starts_value (json_dumps fl ascii x)" using assms Cons by simp
    then have "starts_value ?t" using Cons by (cases ys) simp_all
    then obtain d u where t: "?t = d # u" "d \<noteq> CHR '']''" "skip_ws ?t = d # u"
      by (cases ?t) (auto simp: starts_value_def skip_ws_def)
    have "json_items m ?t = Some (xs, rest)" using Cons assms n m by (intro items_read [OF _ assms]) simp_all
    with t show ?thesis by (simp add: m b)
  qed
qed

lemma reads_obj:
  assumes "list_all (\<lambda>(k, x). storable x \<and> reads (json_dumps fl ascii x) x) kvs" "distinct (map fst kvs)"
  shows "reads (json_dumps fl ascii (JObj kvs)) (JObj kvs)"
proof (unfold reads_def, intro allI impI)
  fix n rest assume n: "2 * length (json_dumps fl ascii (JObj kvs) @ rest) < n"
  then obtain m where m: "n = Suc m" by (cases n) auto
  have b: "of_char CHR ''{'' \<noteq> (34 :: nat)" by code_simp
  show "json_value n (json_dumps fl ascii (JObj kvs) @ rest) = Some (JObj kvs, rest)"
  proof (cases kvs)
    case Nil
    then show ?thesis by (simp add: m b)
  next
    case (Cons kv ys)
    let ?t = "join '', '' (map (dump_member fl ascii) kvs) @ CHR ''}'' # rest"
    have "starts_value (dump_member fl ascii kv)" by (simp split: prod.split)
    then have "starts_value ?t" using Cons by (cases ys) simp_all
    then obtain d u where t: "?t = d # u" "d \<noteq> CHR ''}''" "skip_ws ?t = d # u"
      by (cases ?t) (auto simp: starts_value_def skip_ws_def)
    have "json_members m [] ?t = Some ([] @ kvs, rest)"
      using Cons assms n m by (intro members_read [OF _ assms(1)]) simp_all
    with t show ?thesis by (simp add: m b)
  qed
qed

lemma reads_dumps: "storable v \<Longrightarrow> reads (json_dumps fl ascii v) v"
proof (induction fl ascii v rule: json_dumps.induct)
  case (1 fl ascii)
  then show ?case by (simp, intro reads_word [OF refl]) (simp_all add: word_keyword [simplified])
next
  case (2 fl ascii b)
  then show ?case
    by (cases b; simp; intro reads_word [OF refl]) (simp_all add: word_keyword [simplified])
next
  case (3 fl ascii i)
  then show ?case by (simp add: reads_int)
next
  case (5 fl ascii s)
  then show ?case by (simp add: reads_str)
next
  case (6 fl ascii xs)
  then show ?case by (intro reads_list) (auto simp: list_all_iff)
next
  case (7 fl ascii kvs)
  then show ?case by (intro reads_obj) (auto simp: list_all_iff)
qed simp

text \<open>What \<open>json.dumps\<close> writes, with or without \<open>ensure_ascii\<close>, \<open>json.loads\<close> reads back.\<close>

lemma json_dumps_reads_back:
  assumes "storable v"
  shows "json_loads (json_dumps fl ascii v) = Some v"
proof -
  from readsD [OF reads_dumps [OF assms, of fl ascii], of "[]" "Suc (2 * length (json_dumps fl ascii v))"]
  have r: "json_value (Suc (2 * length (json_dumps fl ascii v))) (json_dumps fl ascii v) = Some (v, [])"
    by (simp only: delimited_close append_Nil2 lessI simp_thms)
  have "skip_ws (json_dumps fl ascii v) = json_dumps fl ascii v" using assms by simp
  then show ?thesis unfolding json_loads_def by (simp only: r) (simp add: skip_ws_def)
qed

section \<open>One line\<close>

text \<open>
  A dumped text has no control character; and a character beyond ASCII only without \<open>ensure_ascii\<close>, and only if the value
  has it.
\<close>

fun avoids :: "char \<Rightarrow> json \<Rightarrow> bool" where
  "avoids c (JStr s) \<longleftrightarrow> c \<notin> set s"
| "avoids c (JList xs) \<longleftrightarrow> list_all (avoids c) xs"
| "avoids c (JObj kvs) \<longleftrightarrow> list_all (\<lambda>(k, v). c \<notin> set k \<and> avoids c v) kvs"
| "avoids c _ \<longleftrightarrow> True"

definition plain :: "char \<Rightarrow> bool" where
  "plain c \<longleftrightarrow> 32 \<le> (of_char c :: nat) \<and> (of_char c :: nat) < 127"

definition written :: "bool \<Rightarrow> (char \<Rightarrow> bool) \<Rightarrow> string \<Rightarrow> bool" where
  "written ascii has s \<longleftrightarrow> list_all (\<lambda>x. plain x \<or> (\<not> ascii \<and> 127 \<le> (of_char x :: nat) \<and> has x)) s"

lemma written_append [simp]: "written ascii has (s @ t) \<longleftrightarrow> written ascii has s \<and> written ascii has t"
  by (simp add: written_def)

lemma written_plain: "list_all plain s \<Longrightarrow> written ascii has s"
  by (auto simp: written_def list_all_iff)

lemma written_mono: "written ascii has s \<Longrightarrow> (\<And>x. has x \<Longrightarrow> has' x) \<Longrightarrow> written ascii has' s"
  by (auto simp: written_def list_all_iff)

lemma written_join: "list_all plain sep \<Longrightarrow> list_all (written ascii has) ss \<Longrightarrow> written ascii has (join sep ss)"
  by (induction sep ss rule: join.induct) (auto simp: written_plain written_def list_all_iff)

lemma plain_hex: "d < 16 \<Longrightarrow> plain (hex_digit d)"
  by (simp add: plain_def hex_digit_def)

lemma plain_escape: "list_all plain (json_escape c)"
proof -
  have "(of_char c :: nat) < 256" by simp
  then have "(of_char c :: nat) div 16 < 16" by linarith
  then have h: "plain (hex_digit (of_char c div 16))" "plain (hex_digit (of_char c mod 16))" by (simp_all add: plain_hex)
  have k: "plain CHR ''n''" "plain CHR ''r''" "plain CHR ''t''" "plain CHR ''f''" "plain CHR ''b''" "plain CHR ''u''" "plain CHR ''0''"
    "plain (char_of (92 :: nat))" "plain (char_of (34 :: nat))" by code_simp+
  have c: "32 \<le> (of_char c :: nat) \<Longrightarrow> (of_char c :: nat) < 127 \<Longrightarrow> plain c" by (simp add: plain_def)
  show ?thesis using h k c by (simp add: json_escape_def Let_def not_less)
qed

lemma written_char: "written ascii (\<lambda>x. x = c) (escape_char ascii c)"
proof (cases "\<not> ascii \<and> 127 \<le> (of_char c :: nat)")
  case True
  then show ?thesis by (simp add: escape_char_def written_def)
next
  case False
  then have "escape_char ascii c = json_escape c" by (auto simp: escape_char_def)
  then show ?thesis by (simp add: written_plain plain_escape)
qed

lemma written_concat: "written ascii has (concat ss) \<longleftrightarrow> list_all (written ascii has) ss"
  by (induction ss) (simp_all add: written_def)

lemma plain_quote: "plain (char_of (34 :: nat))"
  by code_simp

lemma written_str: "written ascii (\<lambda>x. x \<in> set s) (dumps_str ascii s)"
proof -
  have c: "written ascii (\<lambda>x. x \<in> set s) (escape_char ascii c)" if "c \<in> set s" for c
    using that by (intro written_mono [OF written_char]) simp
  have "written ascii (\<lambda>x. x \<in> set s) (concat (map (escape_char ascii) s))"
    unfolding written_concat by (simp add: list_all_iff c)
  moreover have "written ascii has [char_of (34 :: nat)]" for has by (simp add: written_plain plain_quote)
  ultimately show ?thesis unfolding dumps_str_def using written_append [of ascii _ "[char_of (34 :: nat)]"] by force
qed

lemma written_int: "written ascii has (int_str i)"
proof -
  have "list_all plain (nat_str n)" for n
    using nat_str_digits [of n] by (auto simp: list_all_iff py_digit_def plain_def Let_def)
  then show ?thesis by (auto simp: int_str_def intro!: written_plain) (simp_all add: plain_def)
qed

lemma brackets_written [simp]: "written ascii has ''[''" "written ascii has '']''" "written ascii has ''{''" "written ascii has ''}''"
  by (simp_all add: written_def plain_def)

lemma written_words: "written ascii has ''null''" "written ascii has ''true''" "written ascii has ''false''" "written ascii has '': ''"
  by (simp_all add: written_def plain_def)

lemma written_list:
  assumes "\<And>v. v \<in> set xs \<Longrightarrow> written ascii (\<lambda>x. \<not> avoids x v) (json_dumps fl ascii v)"
  shows "written ascii (\<lambda>x. \<not> avoids x (JList xs)) (json_dumps fl ascii (JList xs))"
proof -
  have "written ascii (\<lambda>x. \<not> avoids x (JList xs)) (json_dumps fl ascii v)" if "v \<in> set xs" for v
    using that by (intro written_mono [OF assms]) (auto simp: list_all_iff)
  then have "list_all (written ascii (\<lambda>x. \<not> avoids x (JList xs))) (map (json_dumps fl ascii) xs)" by (simp add: list_all_iff)
  moreover have "list_all plain '', ''" by (simp add: plain_def)
  ultimately have "written ascii (\<lambda>x. \<not> avoids x (JList xs)) (join '', '' (map (json_dumps fl ascii) xs))"
    by (intro written_join)
  then show ?thesis unfolding json_dumps.simps written_append by (intro conjI brackets_written)
qed

lemma written_obj:
  assumes "\<And>k v. (k, v) \<in> set kvs \<Longrightarrow> written ascii (\<lambda>x. \<not> avoids x v) (json_dumps fl ascii v)"
  shows "written ascii (\<lambda>x. \<not> avoids x (JObj kvs)) (json_dumps fl ascii (JObj kvs))"
proof -
  have "written ascii (\<lambda>x. \<not> avoids x (JObj kvs)) (dumps_str ascii k @ '': '' @ json_dumps fl ascii v)" if kv: "(k, v) \<in> set kvs" for k v
    unfolding written_append
  proof (intro conjI written_words)
    show "written ascii (\<lambda>x. \<not> avoids x (JObj kvs)) (dumps_str ascii k)"
      using kv by (intro written_mono [OF written_str]) (auto simp: list_all_iff)
    show "written ascii (\<lambda>x. \<not> avoids x (JObj kvs)) (json_dumps fl ascii v)"
      using kv by (intro written_mono [OF assms]) (auto simp: list_all_iff)
  qed
  then have "list_all (written ascii (\<lambda>x. \<not> avoids x (JObj kvs))) (map (\<lambda>(k, v). dumps_str ascii k @ '': '' @ json_dumps fl ascii v) kvs)"
    by (auto simp only: list_all_iff set_map ball_simps split: prod.split)
  moreover have "list_all plain '', ''" by (simp add: plain_def)
  ultimately have "written ascii (\<lambda>x. \<not> avoids x (JObj kvs)) (join '', '' (map (\<lambda>(k, v). dumps_str ascii k @ '': '' @ json_dumps fl ascii v) kvs))"
    by (intro written_join)
  then show ?thesis unfolding json_dumps.simps written_append by (intro conjI brackets_written)
qed

lemma written_dumps: "storable v \<Longrightarrow> written ascii (\<lambda>x. \<not> avoids x v) (json_dumps fl ascii v)"
proof (induction fl ascii v rule: json_dumps.induct)
  case (1 fl ascii)
  show ?case by (simp only: json_dumps.simps written_words)
next
  case (2 fl ascii b)
  show ?case by (cases b) (simp_all only: json_dumps.simps written_words if_True if_False)
next
  case (3 fl ascii i)
  show ?case by (simp only: json_dumps.simps written_int)
next
  case (5 fl ascii s)
  show ?case using written_str by simp
next
  case (6 fl ascii xs)
  then show ?case by (intro written_list) (simp add: list_all_iff)
next
  case (7 fl ascii kvs)
  then show ?case by (intro written_obj) (auto simp: list_all_iff)
qed simp

end
