(* ===== verification/Agents_Admin.thy ===== *)
theory Agents_Admin
  imports Access Kill_Switch
begin

text \<open>
  The agent registry and its kill switches (\<open>apps/api/fleet_api/routers/agents_admin.py\<close>): the rows of
  \<open>agents\<close>, their create, read, update and delete routes, pause and resume (the row and the Redis flag),
  and the global read-only switch. \<open>who\<close> is the outcome of the route's permission dependency
  (\<open>require_permission\<close> of the theory \<open>Access\<close>); Redis is the pair \<open>rget\<close>, \<open>rset\<close>.
\<close>

record agent_row =
  ag_id :: nat
  ag_name :: string
  ag_dept_id :: "nat option"
  ag_status :: string
  ag_reasoning_model :: string
  ag_utility_model :: string
  ag_sensitivity :: string
  ag_guardrail_policy_id :: "string option"
  ag_semantic_cache :: bool
  ag_semantic_cache_threshold :: rat
  ag_max_context_tokens :: int
  ag_collection_ids :: "nat list"

record agent_in =
  ai_name :: string
  ai_dept_id :: "nat option"
  ai_reasoning_model :: string
  ai_utility_model :: string
  ai_sensitivity :: string
  ai_guardrail_policy_id :: "string option"
  ai_semantic_cache :: bool
  ai_semantic_cache_threshold :: rat
  ai_max_context_tokens :: int
  ai_collection_ids :: "nat list"

record agent_table =
  at_rows :: "agent_row list"
  at_next :: nat
  at_departments :: "nat list"

definition guarded :: "principal res \<Rightarrow> (principal \<Rightarrow> 's \<Rightarrow> 'a res \<times> 's) \<Rightarrow> 's \<Rightarrow> 'a res \<times> 's" where
  "guarded who k s = (case who of Inl e \<Rightarrow> (Inl e, s) | Inr p \<Rightarrow> k p s)"

text \<open>The request schema's bounds, then \<open>_validate\<close>.\<close>

definition valid_sensitivity :: "string list" where
  "valid_sensitivity = [''public'', ''internal'', ''confidential'', ''pii'']"

definition validate_agent :: "agent_in \<Rightarrow> unit res" where
  "validate_agent body =
     (if ai_semantic_cache_threshold body < 0 \<or> 1 < ai_semantic_cache_threshold body \<or> ai_max_context_tokens body \<le> 0
      then Inl (HTTPException 422 ''request validation'')
      else if ai_sensitivity body \<notin> set valid_sensitivity
      then Inl (HTTPException 422 (''unknown sensitivity: '' @ ai_sensitivity body))
      else Inr ())"

definition agent_of :: "nat \<Rightarrow> string \<Rightarrow> agent_in \<Rightarrow> agent_row" where
  "agent_of ident status body =
     \<lparr>ag_id = ident, ag_name = ai_name body, ag_dept_id = ai_dept_id body, ag_status = status,
      ag_reasoning_model = ai_reasoning_model body, ag_utility_model = ai_utility_model body,
      ag_sensitivity = ai_sensitivity body, ag_guardrail_policy_id = ai_guardrail_policy_id body,
      ag_semantic_cache = ai_semantic_cache body, ag_semantic_cache_threshold = ai_semantic_cache_threshold body,
      ag_max_context_tokens = ai_max_context_tokens body, ag_collection_ids = ai_collection_ids body\<rparr>"

definition agent_by_name :: "agent_row list \<Rightarrow> string \<Rightarrow> agent_row option" where
  "agent_by_name rows n = find (\<lambda>a. ag_name a = n) rows"

definition agent_by_id :: "agent_row list \<Rightarrow> nat \<Rightarrow> agent_row option" where
  "agent_by_id rows i = find (\<lambda>a. ag_id a = i) rows"

definition dept_ok :: "agent_table \<Rightarrow> nat option \<Rightarrow> bool" where
  "dept_ok t d = (case d of None \<Rightarrow> True | Some i \<Rightarrow> i \<in> set (at_departments t))"

definition create_agent :: "principal res \<Rightarrow> agent_in \<Rightarrow> agent_table \<Rightarrow> agent_row res \<times> agent_table" where
  "create_agent who body = guarded who (\<lambda>_ t.
     case validate_agent body of
       Inl e \<Rightarrow> (Inl e, t)
     | Inr _ \<Rightarrow>
         (if agent_by_name (at_rows t) (ai_name body) \<noteq> None
          then (Inl (HTTPException 409 ''agent name already exists''), t)
          else if \<not> dept_ok t (ai_dept_id body) then (Inl (OtherError ''IntegrityError''), t)
          else (let row = agent_of (at_next t) ''active'' body
                in (Inr row, t\<lparr>at_rows := at_rows t @ [row], at_next := Suc (at_next t)\<rparr>))))"

definition list_agents :: "principal res \<Rightarrow> agent_table \<Rightarrow> agent_row list res \<times> agent_table" where
  "list_agents who = guarded who (\<lambda>_ t. (Inr (sort_key ag_id (at_rows t)), t))"

text \<open>What every route on one agent starts with.\<close>

definition on_agent ::
  "principal res \<Rightarrow> nat \<Rightarrow> (agent_row \<Rightarrow> agent_table \<Rightarrow> 'a res \<times> agent_table) \<Rightarrow> agent_table \<Rightarrow> 'a res \<times> agent_table" where
  "on_agent who i k = guarded who (\<lambda>_ t.
     case agent_by_id (at_rows t) i of
       None \<Rightarrow> (Inl (HTTPException 404 ''agent not found''), t)
     | Some row \<Rightarrow> k row t)"

definition put_agent :: "agent_row \<Rightarrow> agent_table \<Rightarrow> agent_table" where
  "put_agent row t = t\<lparr>at_rows := map (\<lambda>a. if ag_id a = ag_id row then row else a) (at_rows t)\<rparr>"

definition get_agent :: "principal res \<Rightarrow> nat \<Rightarrow> agent_table \<Rightarrow> agent_row res \<times> agent_table" where
  "get_agent who i = on_agent who i (\<lambda>row t. (Inr row, t))"

text \<open>A name that another row has fails the unique column at the commit.\<close>

definition update_agent :: "principal res \<Rightarrow> nat \<Rightarrow> agent_in \<Rightarrow> agent_table \<Rightarrow> agent_row res \<times> agent_table" where
  "update_agent who i body = guarded who (\<lambda>_ t.
     case validate_agent body of
       Inl e \<Rightarrow> (Inl e, t)
     | Inr _ \<Rightarrow>
         (case agent_by_id (at_rows t) i of
            None \<Rightarrow> (Inl (HTTPException 404 ''agent not found''), t)
          | Some row \<Rightarrow>
              (if (\<exists>a \<in> set (at_rows t). ag_name a = ai_name body \<and> ag_id a \<noteq> i) \<or> \<not> dept_ok t (ai_dept_id body)
               then (Inl (OtherError ''IntegrityError''), t)
               else (let row' = agent_of i (ag_status row) body in (Inr row', put_agent row' t)))))"

text \<open>\<open>referenced\<close> says whether another table has a row of that agent.\<close>

definition delete_agent :: "(nat \<Rightarrow> bool) \<Rightarrow> principal res \<Rightarrow> nat \<Rightarrow> agent_table \<Rightarrow> unit res \<times> agent_table" where
  "delete_agent referenced who i = on_agent who i (\<lambda>row t.
     if referenced i then (Inl (OtherError ''IntegrityError''), t)
     else (Inr (), t\<lparr>at_rows := filter (\<lambda>a. ag_id a \<noteq> i) (at_rows t)\<rparr>))"

section \<open>The switches\<close>

text \<open>The row first, then the Redis flag under the row's name.\<close>

definition set_status :: "principal res \<Rightarrow> nat \<Rightarrow> string \<Rightarrow> agent_table \<Rightarrow> agent_row res \<times> agent_table" where
  "set_status who i status = on_agent who i (\<lambda>row t. (Inr row, put_agent (row\<lparr>ag_status := status\<rparr>) t))"

definition pause_route ::
  "('r \<Rightarrow> string \<Rightarrow> string \<Rightarrow> 'r) \<Rightarrow> principal res \<Rightarrow> nat \<Rightarrow> agent_table \<times> 'r \<Rightarrow> unit res \<times> agent_table \<times> 'r" where
  "pause_route rset who i st =
     (case set_status who i ''paused'' (fst st) of
        (Inl e, t) \<Rightarrow> (Inl e, t, snd st)
      | (Inr row, t) \<Rightarrow> (Inr (), t, pause_agent rset (snd st) (ag_name row)))"

definition resume_route ::
  "('r \<Rightarrow> string \<Rightarrow> string \<Rightarrow> 'r) \<Rightarrow> principal res \<Rightarrow> nat \<Rightarrow> agent_table \<times> 'r \<Rightarrow> unit res \<times> agent_table \<times> 'r" where
  "resume_route rset who i st =
     (case set_status who i ''active'' (fst st) of
        (Inl e, t) \<Rightarrow> (Inl e, t, snd st)
      | (Inr row, t) \<Rightarrow> (Inr (), t, resume_agent rset (snd st) (ag_name row)))"

definition get_read_only_route :: "('r \<Rightarrow> string \<Rightarrow> redis_value option) \<Rightarrow> principal res \<Rightarrow> 'r \<Rightarrow> bool res \<times> 'r" where
  "get_read_only_route rget who = guarded who (\<lambda>_ r. (Inr (is_global_read_only rget r), r))"

definition set_read_only_route ::
  "('r \<Rightarrow> string \<Rightarrow> string \<Rightarrow> 'r) \<Rightarrow> principal res \<Rightarrow> bool \<Rightarrow> 'r \<Rightarrow> unit res \<times> 'r" where
  "set_read_only_route rset who enabled = guarded who (\<lambda>_ r. (Inr (), set_global_read_only rset r enabled))"

section \<open>The registry invariant\<close>

definition agents_wf :: "agent_table \<Rightarrow> bool" where
  "agents_wf t \<longleftrightarrow> distinct (map ag_id (at_rows t)) \<and> distinct (map ag_name (at_rows t)) \<and>
     list_all (\<lambda>a. ag_id a < at_next t \<and> ag_sensitivity a \<in> set valid_sensitivity \<and> ag_status a \<in> {''active'', ''paused''}
        \<and> 0 < ag_max_context_tokens a) (at_rows t)"

lemma agent_by_idD: "agent_by_id rows i = Some a \<Longrightarrow> a \<in> set rows \<and> ag_id a = i"
  by (auto simp: agent_by_id_def find_Some_iff)

lemma put_agent_wf:
  assumes "agents_wf t" "a \<in> set (at_rows t)" "ag_id row = ag_id a"
    and "\<And>b. b \<in> set (at_rows t) \<Longrightarrow> ag_id b \<noteq> ag_id a \<Longrightarrow> ag_name b \<noteq> ag_name row"
    and "ag_sensitivity row \<in> set valid_sensitivity" "ag_status row \<in> {''active'', ''paused''}" "0 < ag_max_context_tokens row"
  shows "agents_wf (put_agent row t)"
proof -
  let ?f = "\<lambda>x. if ag_id x = ag_id row then row else x"
  have "distinct (map (ag_id \<circ> ?f) (at_rows t))"
    using assms(1) distinct_map_same [of "at_rows t" ag_id ?f] by (simp add: agents_wf_def)
  moreover have "inj_on (ag_name \<circ> ?f) (set (at_rows t))"
    using assms(1-4) by (fastforce simp: agents_wf_def distinct_map inj_on_def)
  then have "distinct (map (ag_name \<circ> ?f) (at_rows t))"
    using assms(1) by (simp add: agents_wf_def distinct_map)
  moreover have "list_all (\<lambda>a. ag_id a < at_next t \<and> ag_sensitivity a \<in> set valid_sensitivity
      \<and> ag_status a \<in> {''active'', ''paused''} \<and> 0 < ag_max_context_tokens a) (map ?f (at_rows t))"
    using assms(1-3,5-7) by (auto simp: agents_wf_def list_all_iff)
  ultimately show ?thesis by (simp add: agents_wf_def put_agent_def)
qed

lemma on_agent_wf:
  assumes "agents_wf t" "on_agent who i k t = (r, t')"
    and "\<And>row. row \<in> set (at_rows t) \<Longrightarrow> ag_id row = i \<Longrightarrow> agents_wf (snd (k row t))"
  shows "agents_wf t'"
  using assms by (auto simp: on_agent_def guarded_def dest: agent_by_idD split: sum.splits option.splits)
     (metis agent_by_idD snd_conv)

lemma same_name_same_id:
  "agents_wf t \<Longrightarrow> a \<in> set (at_rows t) \<Longrightarrow> b \<in> set (at_rows t) \<Longrightarrow> ag_id b \<noteq> ag_id a \<Longrightarrow> ag_name b \<noteq> ag_name a"
  by (auto simp: agents_wf_def distinct_map inj_on_def)

lemma status_wf:
  assumes "agents_wf t" "row \<in> set (at_rows t)" "st \<in> {''active'', ''paused''}"
  shows "agents_wf (put_agent (row\<lparr>ag_status := st\<rparr>) t)"
proof (rule put_agent_wf [OF assms(1,2)])
  show "ag_name b \<noteq> ag_name (row\<lparr>ag_status := st\<rparr>)" if "b \<in> set (at_rows t)" "ag_id b \<noteq> ag_id row" for b
    using same_name_same_id [OF assms(1,2) that] by simp
qed (use assms in \<open>auto simp: agents_wf_def list_all_iff\<close>)

lemma create_agent_wf:
  assumes "agents_wf t" "create_agent who body t = (r, t')"
  shows "agents_wf t'"
proof (cases "t' = t")
  case False
  with assms(2) have v: "validate_agent body = Inr ()" and n: "agent_by_name (at_rows t) (ai_name body) = None"
    and t': "t' = t\<lparr>at_rows := at_rows t @ [agent_of (at_next t) ''active'' body], at_next := Suc (at_next t)\<rparr>"
    by (auto simp: create_agent_def guarded_def Let_def split: sum.splits if_splits)
  from v have "ai_sensitivity body \<in> set valid_sensitivity" "0 < ai_max_context_tokens body"
    by (auto simp: validate_agent_def split: if_splits)
  with assms(1) n show ?thesis
    by (fastforce simp: t' agents_wf_def agent_of_def agent_by_name_def find_None_iff list_all_iff)
qed (simp add: assms)

lemma update_agent_wf:
  assumes "agents_wf t" "update_agent who i body t = (r, t')"
  shows "agents_wf t'"
proof (cases "t' = t")
  case False
  with assms(2) obtain row where v: "validate_agent body = Inr ()" and row: "agent_by_id (at_rows t) i = Some row"
    and n: "\<forall>a \<in> set (at_rows t). ag_name a = ai_name body \<longrightarrow> ag_id a = i"
    and t': "t' = put_agent (agent_of i (ag_status row) body) t"
    by (auto simp: update_agent_def guarded_def Let_def split: sum.splits if_splits option.splits)
  from v have b: "ai_sensitivity body \<in> set valid_sensitivity" "0 < ai_max_context_tokens body"
    by (auto simp: validate_agent_def split: if_splits)
  note a = agent_by_idD [OF row]
  show ?thesis
    unfolding t'
  proof (rule put_agent_wf [OF assms(1) conjunct1 [OF a]])
    show "ag_name b \<noteq> ag_name (agent_of i (ag_status row) body)" if "b \<in> set (at_rows t)" "ag_id b \<noteq> ag_id row" for b
      using n that a by (auto simp: agent_of_def)
  qed (use a b assms(1) in \<open>auto simp: agent_of_def agents_wf_def list_all_iff\<close>)
qed (simp add: assms)

text \<open>The states of the table the routes can produce, with any caller, argument and references.\<close>

inductive agents_reachable :: "agent_table \<Rightarrow> bool" where
  start: "agents_reachable \<lparr>at_rows = [], at_next = 1, at_departments = ds\<rparr>"
| create: "agents_reachable t \<Longrightarrow> create_agent who body t = (r, t') \<Longrightarrow> agents_reachable t'"
| update: "agents_reachable t \<Longrightarrow> update_agent who i body t = (r, t') \<Longrightarrow> agents_reachable t'"
| delete: "agents_reachable t \<Longrightarrow> delete_agent referenced who i t = (n, t') \<Longrightarrow> agents_reachable t'"
| status: "agents_reachable t \<Longrightarrow> st \<in> {''active'', ''paused''} \<Longrightarrow> set_status who i st t = (a, t') \<Longrightarrow> agents_reachable t'"

text \<open>Pause and resume move the table by \<open>set_status\<close>.\<close>

lemma switch_routes_reachable:
  "agents_reachable t \<Longrightarrow> pause_route rset who i (t, rd) = (n, t', rd') \<Longrightarrow> agents_reachable t'"
  "agents_reachable t \<Longrightarrow> resume_route rset who i (t, rd) = (n, t', rd') \<Longrightarrow> agents_reachable t'"
  by (auto simp: pause_route_def resume_route_def split: prod.splits sum.splits intro: agents_reachable.status)

lemma agents_reachable_wf: "agents_reachable t \<Longrightarrow> agents_wf t"
proof (induction rule: agents_reachable.induct)
  case (start ds)
  show ?case by (simp add: agents_wf_def)
next
  case (delete t referenced who i n t')
  show ?case
    by (rule on_agent_wf [OF delete.IH delete.hyps(2) [unfolded delete_agent_def]])
       (use delete.IH in \<open>auto simp: agents_wf_def list_all_iff distinct_map_filter\<close>)
next
  case (status t st who i a t')
  show ?case
    by (rule on_agent_wf [OF status.IH status.hyps(3) [unfolded set_status_def]])
       (use status_wf [OF status.IH] status.hyps(2) in simp)
qed (blast intro: create_agent_wf update_agent_wf)+

text \<open>
  Whatever the agent routes did, the registry is well formed: ids and names are unique, every
  sensitivity is one of the four levels, every status is active or paused and every context budget is positive.
\<close>

theorem agents_invariant:
  assumes "agents_reachable t"
  shows "distinct (map ag_id (at_rows t)) \<and> distinct (map ag_name (at_rows t)) \<and>
     list_all (\<lambda>a. ag_sensitivity a \<in> set valid_sensitivity \<and> ag_status a \<in> {''active'', ''paused''}
        \<and> 0 < ag_max_context_tokens a) (at_rows t)"
  using agents_reachable_wf [OF assms] by (auto simp: agents_wf_def list_all_iff)

definition demo_agent_in :: agent_in where
  "demo_agent_in = \<lparr>ai_name = ''dev_agent'', ai_dept_id = None, ai_reasoning_model = ''reasoning'', ai_utility_model = ''utility'',
     ai_sensitivity = ''internal'', ai_guardrail_policy_id = None, ai_semantic_cache = False, ai_semantic_cache_threshold = 95/100,
     ai_max_context_tokens = 8000, ai_collection_ids = []\<rparr>"

definition demo_builder :: "principal res" where
  "demo_builder = Inr \<lparr>pr_sub = ''b'', pr_roles = {''builder''}\<rparr>"

definition demo_agents :: agent_table where
  "demo_agents = \<lparr>at_rows = [agent_of 1 ''active'' demo_agent_in], at_next = 2, at_departments = []\<rparr>"

lemma demo_agents_reachable: "agents_reachable demo_agents"
proof -
  have "create_agent demo_builder demo_agent_in \<lparr>at_rows = [], at_next = 1, at_departments = []\<rparr>
      = (Inr (agent_of 1 ''active'' demo_agent_in), demo_agents)" by code_simp
  from agents_reachable.create [OF agents_reachable.start this] show ?thesis .
qed

lemma agents_invariant_witness: "distinct (map ag_name (at_rows demo_agents)) \<and> length (at_rows demo_agents) = 1"
  using agents_invariant [OF demo_agents_reachable] by (simp add: demo_agents_def)

text \<open>
  A pause reaches both places at once: when the route answers, the row says \<open>paused\<close> and the
  Redis flag under the row's name is set, and no other agent's flag moved.
\<close>

theorem pause_sets_row_and_flag:
  assumes "redis_store rget rset" "agents_reachable t" "pause_route rset who i (t, rd) = (Inr u, t', rd')"
  shows "\<exists>row \<in> set (at_rows t'). ag_id row = i \<and> ag_status row = ''paused'' \<and>
     is_flag_set (rget rd' (pause_key (ag_name row))) \<and>
     (\<forall>n. n \<noteq> ag_name row \<longrightarrow> is_flag_set (rget rd' (pause_key n)) = is_flag_set (rget rd (pause_key n)))"
proof -
  from assms(3) obtain row where row: "agent_by_id (at_rows t) i = Some row"
    and t': "t' = put_agent (row\<lparr>ag_status := ''paused''\<rparr>) t" and rd': "rd' = pause_agent rset rd (ag_name row)"
    by (auto simp: pause_route_def set_status_def on_agent_def guarded_def split: sum.splits option.splits)
  note r = agent_by_idD [OF row]
  have "row\<lparr>ag_status := ''paused''\<rparr> \<in> set (at_rows t')" using r by (force simp: t' put_agent_def)
  moreover have "is_flag_set (rget rd' (pause_key n)) \<longleftrightarrow> n = ag_name row \<or> is_flag_set (rget rd (pause_key n))" for n
    using redis_store.flag_set [OF assms(1)] by (auto simp: rd' pause_agent_def)
  ultimately show ?thesis using r by (intro bexI [of _ "row\<lparr>ag_status := ''paused''\<rparr>"]) auto
qed

lemma pause_sets_row_and_flag_witness:
  "\<exists>row \<in> set (at_rows (fst (snd (pause_route store_set demo_builder 1 (demo_agents, Map.empty))))). ag_status row = ''paused''"
proof -
  have p: "pause_route store_set demo_builder 1 (demo_agents, Map.empty)
      = (Inr (), snd (pause_route store_set demo_builder 1 (demo_agents, Map.empty)))"
    by (simp add: pause_route_def set_status_def on_agent_def guarded_def demo_builder_def demo_agents_def agent_by_id_def agent_of_def)
  show ?thesis
    using pause_sets_row_and_flag [OF dict_store.redis_store_axioms demo_agents_reachable,
        of demo_builder 1 Map.empty "()" "fst (snd (pause_route store_set demo_builder 1 (demo_agents, Map.empty)))"
           "snd (snd (pause_route store_set demo_builder 1 (demo_agents, Map.empty)))"] p by auto
qed

end
