(* ===== verification/Py_Lines.thy ===== *)
theory Py_Lines
  imports Guardrails
begin

text \<open>
  Lines of a text: \<open>str.splitlines\<close>, the text of ended lines, and what the one makes of the other.
\<close>

text \<open>\<open>str.splitlines\<close> on a text whose line ends have been read as newlines.\<close>

definition line_break :: "char \<Rightarrow> bool" where
  "line_break c \<longleftrightarrow> of_char c \<in> {10, 11, 12, 13, 28, 29, 30, 133 :: nat}"

fun splitlines :: "string \<Rightarrow> string \<Rightarrow> string list" where
  "splitlines acc [] = (if acc = [] then [] else [rev acc])"
| "splitlines acc (c # cs) = (if line_break c then rev acc # splitlines [] cs else splitlines (c # acc) cs)"

definition as_lines :: "string list \<Rightarrow> string" where
  "as_lines ls = concat (map (\<lambda>l. l @ newline) ls)"

lemma newline_break [simp]: "line_break (char_of (10 :: nat))"
  by code_simp

lemma splitlines_line: "list_all (Not \<circ> line_break) l \<Longrightarrow> splitlines acc (l @ newline @ rest) = (rev acc @ l) # splitlines [] rest"
  by (induction l arbitrary: acc) (simp_all add: newline_def)

lemma splitlines_as_lines: "list_all (list_all (Not \<circ> line_break)) ls \<Longrightarrow> splitlines [] (as_lines ls) = ls"
  by (induction ls) (simp_all add: as_lines_def splitlines_line del: append.simps)

lemma splitlines_append: "splitlines acc (xs @ newline @ ys) = splitlines acc (xs @ newline) @ splitlines [] ys"
  by (induction xs arbitrary: acc) (simp_all add: newline_def)

lemma ends_in_newline: "endswith s newline \<Longrightarrow> \<exists>xs. s = xs @ newline"
  by (cases s rule: rev_cases) (auto simp: endswith_def startswith_def newline_def)

end
