(* ===== verification/Eval_Cases.thy ===== *)
theory Eval_Cases
  imports Agents_Admin Py_Lines Json_Loads "HOL-Library.List_Lexorder" "HOL-Library.Char_ord"
begin

text \<open>
  The examples gallery (\<open>apps/api/fleet_api/routers/examples.py\<close>) and the promotion of its cases into the versioned
  datasets (\<open>evals/promote.py\<close>). A dataset file is its text, or \<open>None\<close> while it does not exist. \<open>json.dumps\<close> of a
  whole payload, whose rendering of floats nothing depends on, is a parameter.
\<close>

section \<open>The gallery\<close>

record eval_case_row =
  ec_id :: nat
  ec_agent :: string
  ec_case_id :: string
  ec_payload :: "(string \<times> json) list"
  ec_source :: string
  ec_created_by :: "string option"

record case_table =
  ct_rows :: "eval_case_row list"
  ct_next :: nat

definition required_fields :: "(string \<times> string list) list" where
  "required_fields =
     [(''support_copilot'', [''id'', ''question'']), (''analytics'', [''id'', ''question'']), (''dev_agent'', [''id'', ''ticket_key'']),
      (''invoice_agent'', [''id'', ''vendor'', ''po_number'', ''amount'']), (''hr_agent'', [''id'', ''candidate_name'']),
      (''listing_quality'', [''id'', ''model'', ''color'', ''description'', ''price'', ''segment'']),
      (''vehicle_intake'', [''id'', ''report_lines'', ''segment'']), (''insights_publisher'', [''id'', ''data_rows'', ''brand_voice'']),
      (''dealer_onboarding'', [''id'', ''case_type'', ''application'']), (''legal_review'', [''id'', ''case_type'', ''contract_text''])]"

text \<open>\<open>_validate_agent\<close>, then \<open>_validate_payload\<close>.\<close>

definition validate_case :: "string \<Rightarrow> (string \<times> json) list \<Rightarrow> unit res" where
  "validate_case agent payload =
     (case map_of required_fields agent of
        None \<Rightarrow> Inl (HTTPException 422 (''unknown agent: '' @ agent))
      | Some fs \<Rightarrow>
          (if list_all (\<lambda>f. f \<in> fst ` set payload) fs then Inr ()
           else Inl (HTTPException 422 (''payload missing required fields for '' @ agent))))"

text \<open>Ordered by agent name, then id.\<close>

definition list_examples :: "principal res \<Rightarrow> string option \<Rightarrow> case_table \<Rightarrow> eval_case_row list res" where
  "list_examples who agent t =
     res_bind who (\<lambda>_.
       let rows = filter (\<lambda>r. case agent of None \<Rightarrow> True | Some a \<Rightarrow> ec_agent r = a) (ct_rows t)
       in Inr (concat (map (\<lambda>a. filter (\<lambda>r. ec_agent r = a) (sort_key ec_id rows)) (sort (remdups (map ec_agent rows))))))"

text \<open>\<open>str(payload.get("id") or "")\<close>.\<close>

definition case_id_of :: "(json \<Rightarrow> string) \<Rightarrow> (string \<times> json) list \<Rightarrow> string" where
  "case_id_of rp payload = (let v = dict_get_or JNull payload ''id'' in if truthy v then py_str rp v else [])"

definition create_example ::
  "(json \<Rightarrow> string) \<Rightarrow> principal res \<Rightarrow> string \<Rightarrow> (string \<times> json) list \<Rightarrow> case_table \<Rightarrow> eval_case_row res \<times> case_table" where
  "create_example rp who agent payload = guarded who (\<lambda>user t.
     case validate_case agent payload of
       Inl e \<Rightarrow> (Inl e, t)
     | Inr _ \<Rightarrow>
         (let cid = case_id_of rp payload in
          if cid = [] then (Inl (HTTPException 422 ''payload.id is required''), t)
          else if \<exists>r \<in> set (ct_rows t). ec_agent r = agent \<and> ec_case_id r = cid
          then (Inl (HTTPException 409 ''a case with this id already exists''), t)
          else if 255 < length cid then (Inl (OtherError ''DataError''), t)
          else (let row = \<lparr>ec_id = ct_next t, ec_agent = agent, ec_case_id = cid, ec_payload = payload, ec_source = ''user'',
                           ec_created_by = Some (pr_sub user)\<rparr>
                in (Inr row, t\<lparr>ct_rows := ct_rows t @ [row], ct_next := Suc (ct_next t)\<rparr>))))"

section \<open>Promotion\<close>

text \<open>The ids of the file; a number or another value never equals a case id.\<close>

fun existing_ids :: "string list \<Rightarrow> json list res" where
  "existing_ids [] = Inr []"
| "existing_ids (line # ls) =
     (if strip line = [] then existing_ids ls
      else (case json_loads (strip line) of
              None \<Rightarrow> Inl (ParseError ''json'')
            | Some v \<Rightarrow> res_bind (py_index v ''id'') (\<lambda>i. res_bind (existing_ids ls) (\<lambda>is. Inr (i # is)))))"

definition file_text :: "string option \<Rightarrow> string" where
  "file_text f = (case f of None \<Rightarrow> [] | Some t \<Rightarrow> t)"

definition user_cases :: "string \<Rightarrow> eval_case_row list \<Rightarrow> eval_case_row list" where
  "user_cases agent rows = sort_key ec_id (filter (\<lambda>r. ec_agent r = agent \<and> ec_source r = ''user'') rows)"

definition promote ::
  "((string \<times> json) list \<Rightarrow> string) \<Rightarrow> string \<Rightarrow> eval_case_row list \<Rightarrow> string option \<Rightarrow> nat res \<times> string option" where
  "promote dumps agent rows file =
     (let cases = user_cases agent rows in
      if cases = [] then (Inr 0, file)
      else (case existing_ids (splitlines [] (file_text file)) of
              Inl e \<Rightarrow> (Inl e, file)
            | Inr ids \<Rightarrow>
                (let new_lines = map (dumps \<circ> ec_payload) (filter (\<lambda>r. JStr (ec_case_id r) \<notin> set ids) cases) in
                 if new_lines = [] then (Inr 0, file)
                 else (Inr (length new_lines), Some (file_text file @ as_lines new_lines)))))"

section \<open>Properties\<close>

lemma existing_ids_append:
  "existing_ids (xs @ ys) = res_bind (existing_ids xs) (\<lambda>is. res_bind (existing_ids ys) (\<lambda>js. Inr (is @ js)))"
proof (induction xs)
  case (Cons x xs)
  then show ?case
    by (cases "json_loads (strip x)"; cases "existing_ids xs"; cases "existing_ids ys")
      (auto simp: res_bind_def split: sum.splits)
qed (simp add: res_bind_def split: sum.split)

text \<open>A file whose last line is ended, and a case that reads back from its one line under its own id.\<close>

definition ended :: "string option \<Rightarrow> bool" where
  "ended f \<longleftrightarrow> file_text f = [] \<or> endswith (file_text f) newline"

definition reads_back :: "((string \<times> json) list \<Rightarrow> string) \<Rightarrow> eval_case_row \<Rightarrow> bool" where
  "reads_back dumps r \<longleftrightarrow>
     list_all (Not \<circ> line_break) (dumps (ec_payload r)) \<and>
     strip (dumps (ec_payload r)) \<noteq> [] \<and> json_loads (strip (dumps (ec_payload r))) = Some (JObj (ec_payload r)) \<and>
     map_of (ec_payload r) ''id'' = Some (JStr (ec_case_id r))"

lemma existing_ids_of_rows:
  "list_all (reads_back dumps) rs \<Longrightarrow> existing_ids (map (dumps \<circ> ec_payload) rs) = Inr (map (JStr \<circ> ec_case_id) rs)"
  by (induction rs) (auto simp: reads_back_def py_index_def dict_index_def)

lemma existing_ids_grown:
  assumes "ended f" "list_all (reads_back dumps) rs" "existing_ids (splitlines [] (file_text f)) = Inr ids"
  shows "existing_ids (splitlines [] (file_text f @ as_lines (map (dumps \<circ> ec_payload) rs))) = Inr (ids @ map (JStr \<circ> ec_case_id) rs)"
proof -
  let ?ls = "map (dumps \<circ> ec_payload) rs"
  have "list_all (list_all (Not \<circ> line_break)) ?ls" using assms(2) by (auto simp: list_all_iff reads_back_def)
  note l = splitlines_as_lines [OF this]
  have "splitlines [] (file_text f @ as_lines ?ls) = splitlines [] (file_text f) @ ?ls"
  proof (cases "file_text f = []")
    case False
    with assms(1) obtain xs where "file_text f = xs @ newline"
      by (auto simp: ended_def dest: ends_in_newline)
    with splitlines_append [of "[]" xs "as_lines ?ls"] show ?thesis by (simp add: l)
  qed (simp add: l)
  with existing_ids_of_rows [OF assms(2)] assms(3) show ?thesis by (simp add: existing_ids_append)
qed

text \<open>
  Promoting twice is promoting once. When a promotion into a dataset that ends in a newline, of cases that read back
  under their own ids, succeeds, it appends one line per case the file did not have, changes no line that was there, and
  a second promotion changes nothing.
\<close>

theorem promotion_is_idempotent:
  assumes "promote dumps agent rows file = (Inr n, file')" "ended file" "list_all (reads_back dumps) (user_cases agent rows)"
  shows "\<exists>new. file_text file' = file_text file @ as_lines (map (dumps \<circ> ec_payload) new) \<and>
     set new \<subseteq> set (user_cases agent rows) \<and> length new = n \<and> promote dumps agent rows file' = (Inr 0, file')"
proof (cases "user_cases agent rows = []")
  case True
  with assms show ?thesis by (intro exI [of _ "[]"]) (simp add: promote_def as_lines_def)
next
  case False
  with assms(1) obtain ids where ids: "existing_ids (splitlines [] (file_text file)) = Inr ids"
    by (auto simp: promote_def Let_def split: sum.splits)
  let ?new = "filter (\<lambda>r. JStr (ec_case_id r) \<notin> set ids) (user_cases agent rows)"
  from assms(1) False ids have l: "file_text file' = file_text file @ as_lines (map (dumps \<circ> ec_payload) ?new)" "n = length ?new"
    by (auto simp: promote_def Let_def file_text_def as_lines_def split: if_splits)
  have "list_all (reads_back dumps) ?new" using assms(3) by (auto simp: list_all_iff)
  from existing_ids_grown [OF assms(2) this ids]
  have "existing_ids (splitlines [] (file_text file')) = Inr (ids @ map (JStr \<circ> ec_case_id) ?new)" unfolding l .
  moreover have "filter (\<lambda>r. JStr (ec_case_id r) \<notin> set (ids @ map (JStr \<circ> ec_case_id) ?new)) (user_cases agent rows) = []"
    by (auto simp: filter_empty_conv)
  ultimately have "promote dumps agent rows file' = (Inr 0, file')"
    using False by (simp add: promote_def Let_def)
  with l show ?thesis by (intro exI [of _ ?new]) auto
qed

definition demo_case :: eval_case_row where
  "demo_case = \<lparr>ec_id = 1, ec_agent = ''analytics'', ec_case_id = ''c1'', ec_payload = [(''id'', JStr ''c1''), (''question'', JStr ''q'')],
     ec_source = ''user'', ec_created_by = None\<rparr>"

definition demo_dumps :: "(string \<times> json) list \<Rightarrow> string" where
  "demo_dumps p = ''{'' @ join '', '' (map (\<lambda>(k, v). json_dumps_str k @ '': '' @ (case v of JStr s \<Rightarrow> json_dumps_str s | _ \<Rightarrow> ''5'')) p) @ ''}''"

lemma promotion_is_idempotent_witness:
  "\<exists>file. promote demo_dumps ''analytics'' [demo_case] None = (Inr 1, file) \<and>
     promote demo_dumps ''analytics'' [demo_case] file = (Inr 0, file)"
proof -
  have u: "user_cases ''analytics'' [demo_case] = [demo_case]" by (simp add: user_cases_def demo_case_def)
  have p: "promote demo_dumps ''analytics'' [demo_case] None = (Inr 1, Some (as_lines [demo_dumps (ec_payload demo_case)]))"
    by (simp add: promote_def Let_def u file_text_def)
  have e: "ended None" by (simp add: ended_def file_text_def)
  have "reads_back demo_dumps demo_case" by code_simp
  then have "list_all (reads_back demo_dumps) (user_cases ''analytics'' [demo_case])" by (simp add: u)
  from promotion_is_idempotent [OF p e this] p show ?thesis by blast
qed

text \<open>A case whose id is a number in its payload is promoted again every time.\<close>

lemma numeric_id_is_promoted_again:
  "let r = demo_case\<lparr>ec_case_id := ''5'', ec_payload := [(''id'', JInt 5), (''question'', JStr ''q'')]\<rparr>;
       f = snd (promote demo_dumps ''analytics'' [r] None)
   in fst (promote demo_dumps ''analytics'' [r] f) = Inr 1"
  by code_simp

text \<open>A file without a final newline is spoilt: the new case is glued to its last line, which no longer parses.\<close>

lemma unended_file_is_spoilt:
  "let f = snd (promote demo_dumps ''analytics'' [demo_case] (Some (demo_dumps [(''id'', JStr ''c0'')])))
   in promote demo_dumps ''analytics'' [demo_case] f = (Inl (ParseError ''json''), f)"
  by code_simp

end
