(* ===== verification/Routing.thy ===== *)
theory Routing
  imports Py_Strings
begin

text \<open>
  Sensitivity routing (\<open>apps/runtime/core/llm/routing.py\<close>) and the registry rows it routes
  over (\<open>apps/runtime/core/llm/factory.py\<close>): the ordered classification, the redaction
  downgrade, the choice of a model whose clearance covers the request.
\<close>

section \<open>The classification\<close>

datatype sensitivity = PUBLIC | INTERNAL | CONFIDENTIAL | PII

fun level :: "sensitivity \<Rightarrow> nat" where
  "level PUBLIC = 0"
| "level INTERNAL = 1"
| "level CONFIDENTIAL = 2"
| "level PII = 3"

lemma level_inject [simp]: "level a = level b \<longleftrightarrow> a = b"
  by (cases a; cases b) auto

instantiation sensitivity :: linorder
begin

definition less_eq_sensitivity :: "sensitivity \<Rightarrow> sensitivity \<Rightarrow> bool" where
  "less_eq_sensitivity a b \<longleftrightarrow> level a \<le> level b"

definition less_sensitivity :: "sensitivity \<Rightarrow> sensitivity \<Rightarrow> bool" where
  "less_sensitivity a b \<longleftrightarrow> level a < level b"

instance
  by standard (auto simp: less_eq_sensitivity_def less_sensitivity_def)

end

lemmas sensitivity_order = less_eq_sensitivity_def less_sensitivity_def

lemma PUBLIC_least [simp]: "PUBLIC \<le> s"
  by (cases s) (auto simp: less_eq_sensitivity_def)

lemma PII_greatest [simp]: "PII \<le> s \<longleftrightarrow> s = PII"
  by (cases s) (auto simp: less_eq_sensitivity_def)

text \<open>A \<open>str | Sensitivity\<close> argument, and \<open>Sensitivity.parse\<close>.\<close>

datatype sens_arg = Level sensitivity | Name string

definition sens_member :: "string \<Rightarrow> sensitivity option" where
  "sens_member n =
     (if n = ''PUBLIC'' then Some PUBLIC
      else if n = ''INTERNAL'' then Some INTERNAL
      else if n = ''CONFIDENTIAL'' then Some CONFIDENTIAL
      else if n = ''PII'' then Some PII
      else None)"

fun parse_sensitivity :: "sens_arg \<Rightarrow> sensitivity res" where
  "parse_sensitivity (Level s) = Inr s"
| "parse_sensitivity (Name v) =
     (case sens_member (upper v) of
        Some s \<Rightarrow> Inr s
      | None \<Rightarrow> Inl (ValueError (''unknown sensitivity: '' @ v)))"

definition effective_sensitivity :: "sens_arg list \<Rightarrow> bool \<Rightarrow> sensitivity res" where
  "effective_sensitivity inputs redacted =
     (case res_map parse_sensitivity inputs of
        Inl e \<Rightarrow> Inl e
      | Inr levels \<Rightarrow>
          (let top = (case levels of [] \<Rightarrow> PUBLIC | l # ls \<Rightarrow> max_first id l ls)
           in if redacted \<and> top = CONFIDENTIAL then Inr INTERNAL else Inr top))"

section \<open>Registry rows\<close>

text \<open>A registry row as the client reads it: \<open>None\<close> is a key the dict does not have.\<close>

record model_row =
  m_name :: string
  m_provider :: string
  m_litellm_model_id :: "string option"
  m_clearance :: "string option"
  m_fleet_role :: "string option"
  m_input_price :: "rat option"
  m_output_price :: "rat option"
  m_cached_price :: "rat option"

definition derive_role :: "string \<Rightarrow> string" where
  "derive_role n =
     (if py_contains n ''embeddings'' then ''embeddings''
      else if py_contains n ''utility'' then ''utility''
      else if py_contains n ''reasoning'' then ''reasoning''
      else ''reasoning'')"

definition annotate_roles :: "model_row list \<Rightarrow> model_row list" where
  "annotate_roles rows =
     map (\<lambda>row. case m_fleet_role row of
            None \<Rightarrow> row\<lparr>m_fleet_role := Some (derive_role (m_name row))\<rparr>
          | Some _ \<Rightarrow> row) rows"

section \<open>Model selection\<close>

definition clearance_of :: "model_row \<Rightarrow> sensitivity res" where
  "clearance_of m =
     (case m_clearance m of
        None \<Rightarrow> Inl (KeyError ''sensitivity_clearance'')
      | Some c \<Rightarrow> parse_sensitivity (Name c))"

text \<open>The comprehension's condition: the clearance is only read when the role matches.\<close>

definition eligible :: "string \<Rightarrow> sensitivity \<Rightarrow> model_row \<Rightarrow> bool res" where
  "eligible role eff m =
     (if m_fleet_role m = Some role
      then (case clearance_of m of Inl e \<Rightarrow> Inl e | Inr c \<Rightarrow> Inr (eff \<le> c))
      else Inr False)"

text \<open>
  \<open>min(candidates, key=_clearance)\<close>: every candidate has passed \<open>eligible\<close>, so its key
  is defined; \<open>clearance_key\<close> reads it.
\<close>

definition clearance_key :: "model_row \<Rightarrow> sensitivity" where
  "clearance_key m = (case clearance_of m of Inr c \<Rightarrow> c | Inl _ \<Rightarrow> PUBLIC)"

definition select_model ::
  "model_row list \<Rightarrow> string \<Rightarrow> sens_arg \<Rightarrow> bool \<Rightarrow> model_row res" where
  "select_model models role sens redacted =
     (case effective_sensitivity [sens] redacted of
        Inl e \<Rightarrow> Inl e
      | Inr eff \<Rightarrow>
          (case res_filter (eligible role eff) models of
             Inl e \<Rightarrow> Inl e
           | Inr [] \<Rightarrow> Inl (SensitivityRefusal role (level eff))
           | Inr (c # cs) \<Rightarrow> Inr (min_first clearance_key c cs)))"

section \<open>Properties of the routing rules\<close>

lemma effective_sensitivity_single:
  "effective_sensitivity [a] redacted =
     (case parse_sensitivity a of
        Inl e \<Rightarrow> Inl e
      | Inr s \<Rightarrow> Inr (if redacted \<and> s = CONFIDENTIAL then INTERNAL else s))"
  by (auto simp: effective_sensitivity_def split: sum.splits)

lemma eligible_True_iff:
  "eligible role eff m = Inr True \<longleftrightarrow>
     m_fleet_role m = Some role \<and> (\<exists>c. clearance_of m = Inr c \<and> eff \<le> c)"
  by (auto simp: eligible_def split: sum.splits)

lemma select_model_eligible:
  assumes "select_model models role sens redacted = Inr m"
  obtains eff where
    "effective_sensitivity [sens] redacted = Inr eff" "m \<in> set models"
    "eligible role eff m = Inr True"
    "\<And>m'. m' \<in> set models \<Longrightarrow> eligible role eff m' = Inr True \<Longrightarrow> clearance_key m \<le> clearance_key m'"
proof -
  from assms obtain eff c cs where
    eff: "effective_sensitivity [sens] redacted = Inr eff"
    and cand: "res_filter (eligible role eff) models = Inr (c # cs)"
    and m: "m = min_first clearance_key c cs"
    by (auto simp: select_model_def split: sum.splits list.splits)
  have cs: "c # cs = filter (\<lambda>x. eligible role eff x = Inr True) models"
    using cand by (rule res_filter_Inr)
  have "m \<in> set (c # cs)" using min_first_in [of clearance_key c cs] m by simp
  moreover have "clearance_key m \<le> clearance_key m'" if "m' \<in> set (c # cs)" for m'
    using min_first_le [of m' c cs clearance_key] that m by simp
  ultimately show thesis using that [OF eff] unfolding cs by auto
qed

lemma select_model_refuses:
  assumes "effective_sensitivity [sens] redacted = Inr eff"
    and "\<And>m. m \<in> set models \<Longrightarrow> m_fleet_role m = Some role \<Longrightarrow> \<exists>c. clearance_of m = Inr c \<and> c < eff"
  shows "select_model models role sens redacted = Inl (SensitivityRefusal role (level eff))"
proof -
  have "eligible role eff m = Inr False" if "m \<in> set models" for m
    using assms(2) [OF that] by (auto simp: eligible_def)
  then have "res_filter (eligible role eff) models = Inr (filter (\<lambda>_. False) models)"
    by (rule res_filter_total)
  with assms(1) show ?thesis by (simp add: select_model_def)
qed

text \<open>
  The selected row has the asked role, is cleared for the effective sensitivity of the
  request, and no other such row has a lower clearance; when every row of the role is below that
  sensitivity the call is refused instead.
\<close>

theorem select_model_least_cleared:
  assumes "effective_sensitivity [sens] redacted = Inr eff"
    and "\<And>m. m \<in> set models \<Longrightarrow> \<exists>l. clearance_of m = Inr l"
  shows "(case select_model models role sens redacted of
            Inr m \<Rightarrow> m \<in> set models \<and> m_fleet_role m = Some role \<and> eff \<le> clearance_key m
              \<and> (\<forall>m' \<in> set models. m_fleet_role m' = Some role \<and> eff \<le> clearance_key m' \<longrightarrow>
                    clearance_key m \<le> clearance_key m')
          | Inl e \<Rightarrow> e = SensitivityRefusal role (level eff)
              \<and> (\<forall>m \<in> set models. m_fleet_role m = Some role \<longrightarrow> clearance_key m < eff))"
proof -
  have el: "eligible role eff m = Inr (m_fleet_role m = Some role \<and> eff \<le> clearance_key m)"
    if "m \<in> set models" for m
    using assms(2) [OF that] by (auto simp: eligible_def clearance_key_def)
  show ?thesis
  proof (cases "select_model models role sens redacted")
    case (Inr m)
    from Inr assms(1) have m: "m \<in> set models" "eligible role eff m = Inr True"
      "\<And>m'. m' \<in> set models \<Longrightarrow> eligible role eff m' = Inr True \<Longrightarrow> clearance_key m \<le> clearance_key m'"
      by (auto elim!: select_model_eligible)
    then show ?thesis using Inr el by auto
  next
    case (Inl e)
    have f: "res_filter (eligible role eff) models
        = Inr (filter (\<lambda>m. m_fleet_role m = Some role \<and> eff \<le> clearance_key m) models)"
      using el by (rule res_filter_total)
    then have "filter (\<lambda>m. m_fleet_role m = Some role \<and> eff \<le> clearance_key m) models = []"
      and "e = SensitivityRefusal role (level eff)"
      using Inl assms(1) by (auto simp: select_model_def split: list.splits)
    then show ?thesis using Inl by (auto simp: filter_empty_conv not_le)
  qed
qed

definition demo_models :: "model_row list" where
  "demo_models =
     [\<lparr>m_name = ''r1'', m_provider = ''x'', m_litellm_model_id = None, m_clearance = Some ''pii'', m_fleet_role = Some ''reasoning'',
       m_input_price = None, m_output_price = None, m_cached_price = None\<rparr>,
      \<lparr>m_name = ''r2'', m_provider = ''x'', m_litellm_model_id = None, m_clearance = Some ''internal'', m_fleet_role = Some ''reasoning'',
       m_input_price = None, m_output_price = None, m_cached_price = None\<rparr>]"

lemma select_model_least_cleared_witness:
  "select_model demo_models ''reasoning'' (Name ''confidential'') True = Inr (demo_models ! 1)
     \<and> clearance_key (demo_models ! 1) \<le> clearance_key (demo_models ! 0)"
proof -
  have e: "effective_sensitivity [Name ''confidential''] True = Inr INTERNAL" by code_simp
  have sel: "select_model demo_models ''reasoning'' (Name ''confidential'') True = Inr (demo_models ! 1)"
    by code_simp
  have c: "\<exists>l. clearance_of m = Inr l" if "m \<in> set demo_models" for m
  proof -
    have "list_all (\<lambda>m. \<not> isl (clearance_of m)) demo_models" by code_simp
    with that show ?thesis by (auto simp: list_all_iff isl_def) (metis old.sum.exhaust)
  qed
  have "demo_models ! 0 \<in> set demo_models" "m_fleet_role (demo_models ! 0) = Some ''reasoning''"
    "INTERNAL \<le> clearance_key (demo_models ! 0)"
    by (simp add: demo_models_def) code_simp+
  with select_model_least_cleared [where models = demo_models, OF e c, where role = "''reasoning''"] sel show ?thesis by simp
qed

end
