(* ===== verification/Rag_Chunk.thy ===== *)
theory Rag_Chunk
  imports Guardrails Pii_Scrub Routing "HOL-Library.Multiset"
begin

text \<open>
  Preparing document text for embedding: structure-aware chunking and deduplication
  (\<open>apps/rag/fleet_rag/ingest/chunk.py\<close>) and the PII policy of a collection (\<open>apps/rag/fleet_rag/ingest/pii.py\<close>).
  \<open>sha\<close> is \<open>hashlib.sha256(...).hexdigest()\<close>; \<open>scan\<close> is the third-party analyzer with its recognizers.
\<close>

section \<open>Chunks\<close>

record text_chunk =
  tc_content :: string
  tc_sha :: string

definition mk_chunk :: "(string \<Rightarrow> string) \<Rightarrow> string \<Rightarrow> text_chunk" where
  "mk_chunk sha content = \<lparr>tc_content = content, tc_sha = sha content\<rparr>"

definition paragraph_break :: string where
  "paragraph_break = newline @ newline"

definition paragraphs :: "string \<Rightarrow> string list" where
  "paragraphs text = map strip (filter (\<lambda>p. strip p \<noteq> []) (split_on paragraph_break [] text))"

text \<open>The slices of the word list, for a positive budget (\<open>range\<close> refuses a step of 0).\<close>

function pieces :: "nat \<Rightarrow> string list \<Rightarrow> string list list" where
  "pieces n ws = (if ws = [] \<or> n = 0 then [] else take n ws # pieces n (drop n ws))"
  by pat_completeness auto
termination by (relation "measure (\<lambda>(n, ws). length ws)") auto

declare pieces.simps [simp del]

definition flush :: "(string \<Rightarrow> string) \<Rightarrow> string list \<Rightarrow> text_chunk list" where
  "flush sha current = (if current = [] then [] else [mk_chunk sha (join paragraph_break current)])"

text \<open>The loop over the paragraphs, with \<open>current\<close> and \<open>current_len\<close>.\<close>

fun pack :: "(string \<Rightarrow> string) \<Rightarrow> nat \<Rightarrow> string list \<Rightarrow> nat \<Rightarrow> string list \<Rightarrow> text_chunk list" where
  "pack sha m current len [] = flush sha current"
| "pack sha m current len (para # rest) =
     (let ws = words para in
      if m < length ws
      then flush sha current @ map (\<lambda>piece. mk_chunk sha (join '' '' piece)) (pieces m ws) @ pack sha m [] 0 rest
      else if m < len + length ws \<and> current \<noteq> []
      then flush sha current @ pack sha m [para] (length ws) rest
      else pack sha m (current @ [para]) (len + length ws) rest)"

definition chunk_text :: "(string \<Rightarrow> string) \<Rightarrow> nat \<Rightarrow> string \<Rightarrow> text_chunk list" where
  "chunk_text sha max_tokens text =
     (let ps = paragraphs text in if ps = [] then [] else pack sha max_tokens [] 0 ps)"

definition dedup_chunks :: "text_chunk list \<Rightarrow> string set \<Rightarrow> text_chunk list" where
  "dedup_chunks chunks existing_hashes = filter (\<lambda>c. tc_sha c \<notin> existing_hashes) chunks"

section \<open>Findings and the policy\<close>

record pii_finding =
  fi_entity :: string
  fi_start :: nat
  fi_end :: nat
  fi_score :: rat

text \<open>
  The recognizer for national ids keeps the candidates of the pattern recognizer, a parameter, whose digits have
  a valid checksum.
\<close>

definition tckn_recognizer :: "(string \<Rightarrow> pii_finding list) \<Rightarrow> string \<Rightarrow> pii_finding list" where
  "tckn_recognizer candidates text =
     filter (\<lambda>r. tckn_checksum_valid (take (fi_end r - fi_start r) (drop (fi_start r) text))) (candidates text)"

record policy_result =
  po_text :: string
  po_redacted :: bool
  po_blocked :: bool
  po_local_only :: bool

definition known_policies :: "string set" where
  "known_policies = {''redact'', ''block'', ''allow-local-only''}"

definition label :: "pii_finding \<Rightarrow> string" where
  "label f = ''['' @ fi_entity f @ '']''"

definition redact_one :: "string \<Rightarrow> pii_finding \<Rightarrow> string" where
  "redact_one text f = take (fi_start f) text @ label f @ drop (fi_end f) text"

text \<open>A stable sort by descending start, as \<open>sorted(..., reverse=True)\<close> is.\<close>

definition redact :: "string \<Rightarrow> pii_finding list \<Rightarrow> string" where
  "redact text findings = foldl redact_one text (sort_key (\<lambda>f. - int (fi_start f)) findings)"

definition apply_pii_policy :: "(string \<Rightarrow> pii_finding list) \<Rightarrow> string \<Rightarrow> string \<Rightarrow> policy_result res" where
  "apply_pii_policy scan policy text =
     (if policy \<notin> known_policies then Inl (ValueError (''unknown pii_policy: '' @ policy))
      else
        (let findings = scan text in
         if policy = ''allow-local-only''
         then Inr \<lparr>po_text = text, po_redacted = False, po_blocked = False, po_local_only = True\<rparr>
         else if policy = ''block''
         then (if findings \<noteq> []
               then Inr \<lparr>po_text = [], po_redacted = False, po_blocked = True, po_local_only = False\<rparr>
               else Inr \<lparr>po_text = text, po_redacted = False, po_blocked = False, po_local_only = False\<rparr>)
         else if findings = []
         then Inr \<lparr>po_text = text, po_redacted = False, po_blocked = False, po_local_only = False\<rparr>
         else Inr \<lparr>po_text = redact text findings, po_redacted = True, po_blocked = False, po_local_only = False\<rparr>))"

section \<open>Chunking keeps the words and the budget\<close>

lemma words_append_break: "words (s @ paragraph_break @ t) = words s @ words t"
  by (simp add: paragraph_break_def newline_def words_append_space words_space_Cons py_space_def)

lemma words_join_break: "words (join paragraph_break ps) = concat (map words ps)"
proof (induction paragraph_break ps rule: join.induct)
  case 1 show ?case by (simp add: words_def)
qed (simp_all add: words_append_break)

lemma words_split_on_break: "concat (map words (split_on paragraph_break acc s)) = words (rev acc @ s)"
proof (induction paragraph_break acc s rule: split_on.induct)
  case (1 acc s)
  consider "s = []" | "s \<noteq> []" "startswith s paragraph_break" | "s \<noteq> []" "\<not> startswith s paragraph_break" by blast
  then show ?case
  proof cases
    case 1 then show ?thesis by (simp add: split_on.simps)
  next
    case 2
    then obtain t where s: "s = paragraph_break @ t" by (auto simp: startswith_iff_prefix prefix_def)
    have "paragraph_break \<noteq> []" by (simp add: paragraph_break_def newline_def)
    with 1 2 show ?thesis by (subst split_on.simps) (simp add: s words_append_break)
  next
    case 3
    with 1 show ?thesis by (subst split_on.simps) simp
  qed
qed

lemma concat_words_filter: "concat (map words (filter (\<lambda>p. strip p \<noteq> []) ps)) = concat (map words ps)"
  by (induction ps) (auto simp: words_eq_Nil_iff [symmetric])

lemma words_paragraphs: "concat (map words (paragraphs text)) = words text"
  using words_split_on_break [of "[]" "text"] concat_words_filter
  by (simp add: paragraphs_def o_def)

lemma concat_pieces: "0 < n \<Longrightarrow> concat (pieces n ws) = ws"
  by (induction n ws rule: pieces.induct) (subst pieces.simps, simp)

lemma pieces_short: "p \<in> set (pieces n ws) \<Longrightarrow> length p \<le> n \<and> set p \<subseteq> set ws"
proof (induction n ws rule: pieces.induct)
  case (1 n ws)
  show ?case
  proof (cases "ws = [] \<or> n = 0")
    case True with "1.prems" show ?thesis by (auto simp: pieces.simps [of n ws])
  next
    case False
    with "1.prems" consider "p = take n ws" | "p \<in> set (pieces n (drop n ws))" by (auto simp: pieces.simps [of n ws])
    then show ?thesis
    proof cases
      case 1 then show ?thesis by (auto dest: in_set_takeD)
    next
      case 2 with False "1.IH" show ?thesis by (auto dest: in_set_dropD)
    qed
  qed
qed

lemma words_piece: "p \<in> set (pieces n (words s)) \<Longrightarrow> words (join '' '' p) = p"
  by (rule words_join_space) (use pieces_short words_are_words in blast)

lemma words_pieces:
  assumes "0 < n"
  shows "concat (map (\<lambda>p. words (join '' '' p)) (pieces n (words s))) = words s"
proof -
  have "map (\<lambda>p. words (join '' '' p)) (pieces n (words s)) = map id (pieces n (words s))"
    by (rule map_cong) (auto simp: words_piece)
  with concat_pieces [OF assms] show ?thesis by simp
qed

lemma words_flush: "concat (map (\<lambda>c. words (tc_content c)) (flush sha current)) = concat (map words current)"
  by (simp add: flush_def mk_chunk_def words_join_break)

lemma pack_keeps_words:
  "0 < m \<Longrightarrow> concat (map (\<lambda>c. words (tc_content c)) (pack sha m current len ps)) = concat (map words (current @ ps))"
proof (induction sha m current len ps rule: pack.induct)
  case (1 sha m current len) then show ?case by (simp add: words_flush)
next
  case (2 sha m current len para rest)
  let ?goal = "concat (map (\<lambda>c. words (tc_content c)) (pack sha m current len (para # rest))) = concat (map words (current @ para # rest))"
  consider (long) "m < length (words para)"
    | (full) "\<not> m < length (words para)" "m < len + length (words para) \<and> current \<noteq> []"
    | (fits) "\<not> m < length (words para)" "\<not> (m < len + length (words para) \<and> current \<noteq> [])" by blast
  then show ?goal
  proof cases
    case long
    then have "concat (map (\<lambda>c. words (tc_content c)) (pack sha m [] 0 rest)) = concat (map words rest)" using 2 by simp
    with long 2(4) show ?thesis by (simp add: words_flush mk_chunk_def o_def words_pieces)
  next
    case full
    then have "concat (map (\<lambda>c. words (tc_content c)) (pack sha m [para] (length (words para)) rest)) = concat (map words (para # rest))"
      using 2 by simp
    with full show ?thesis by (simp add: words_flush)
  next
    case fits
    then have "concat (map (\<lambda>c. words (tc_content c)) (pack sha m (current @ [para]) (len + length (words para)) rest)) =
        concat (map words (current @ para # rest))" using 2 by simp
    with fits show ?thesis by (auto simp: Let_def)
  qed
qed

definition small_chunk :: "nat \<Rightarrow> text_chunk \<Rightarrow> bool" where
  "small_chunk m c \<longleftrightarrow> length (words (tc_content c)) \<le> m"

lemma flush_small:
  "length (concat (map words current)) \<le> m \<Longrightarrow> list_all (small_chunk m) (flush sha current)"
  by (simp add: flush_def small_chunk_def mk_chunk_def words_join_break)

lemma pack_small:
  "0 < m \<Longrightarrow> len = length (concat (map words current)) \<Longrightarrow> len \<le> m \<Longrightarrow> list_all (small_chunk m) (pack sha m current len ps)"
proof (induction sha m current len ps rule: pack.induct)
  case (1 sha m current len) then show ?case by (simp add: flush_small)
next
  case (2 sha m current len para rest)
  have fl: "list_all (small_chunk m) (flush sha current)" using 2 by (simp add: flush_small)
  consider (long) "m < length (words para)"
    | (full) "\<not> m < length (words para)" "m < len + length (words para) \<and> current \<noteq> []"
    | (fits) "\<not> m < length (words para)" "\<not> (m < len + length (words para) \<and> current \<noteq> [])" by blast
  then show ?case
  proof cases
    case long
    have "list_all (small_chunk m) (map (\<lambda>piece. mk_chunk sha (join '' '' piece)) (pieces m (words para)))"
      using pieces_short by (auto simp: list_all_iff small_chunk_def mk_chunk_def words_piece)
    with long 2 fl show ?thesis by simp
  next
    case full with 2 fl show ?thesis by simp
  next
    case fits
    have "len + length (words para) \<le> m" using fits 2(5) by (cases "current = []") auto
    with fits 2 show ?thesis by (auto simp: Let_def)
  qed
qed

lemma pack_hashed: "list_all (\<lambda>c. tc_sha c = sha (tc_content c)) (pack sha m current len ps)"
  by (induction sha m current len ps rule: pack.induct) (auto simp: Let_def flush_def mk_chunk_def list_all_iff)

section \<open>Redaction as a left-to-right mask\<close>

text \<open>The reference: walk the findings by ascending start and copy only what lies between them.\<close>

fun mask :: "nat \<Rightarrow> string \<Rightarrow> pii_finding list \<Rightarrow> string" where
  "mask pos text [] = drop pos text"
| "mask pos text (f # fs) = take (fi_start f - pos) (drop pos text) @ label f @ mask (fi_end f) text fs"

fun spread :: "nat \<Rightarrow> nat \<Rightarrow> pii_finding list \<Rightarrow> bool" where
  "spread pos n [] \<longleftrightarrow> pos \<le> n"
| "spread pos n (f # fs) \<longleftrightarrow> pos \<le> fi_start f \<and> fi_start f < fi_end f \<and> spread (fi_end f) n fs"

lemma spread_le: "spread pos n fs \<Longrightarrow> pos \<le> n"
  by (induction pos n fs rule: spread.induct) auto

lemma spread_starts: "spread pos n fs \<Longrightarrow> f \<in> set fs \<Longrightarrow> pos \<le> fi_start f"
  by (induction pos n fs rule: spread.induct) force+

lemma foldr_redact:
  "spread pos (length text) fs \<Longrightarrow>
     foldr (\<lambda>f t. redact_one t f) fs text = take pos text @ mask pos text fs"
proof (induction pos "length text" fs rule: spread.induct)
  case (1 pos) then show ?case by simp
next
  case (2 pos f fs)
  from 2 have f: "pos \<le> fi_start f" "fi_start f < fi_end f" "fi_end f \<le> length text"
    by (auto dest: spread_le)
  have "take (fi_start f) text = take pos text @ take (fi_start f - pos) (drop pos text)"
    using f by (metis le_add_diff_inverse take_add)
  with 2 f show ?case by (simp add: redact_one_def min_def)
qed

lemma spread_sorted: "spread pos n fs \<Longrightarrow> sorted_wrt (\<lambda>f g. fi_start f < fi_start g) fs"
proof (induction pos n fs rule: spread.induct)
  case (2 pos n f fs)
  then have "\<forall>g \<in> set fs. fi_start f < fi_start g" using spread_starts by force
  with 2 show ?case by simp
qed simp

lemma starts_inj: "sorted_wrt (\<lambda>f g. fi_start f < fi_start g) fs \<Longrightarrow> inj_on fi_start (set fs)"
  by (induction fs) auto

lemma filter_eq_replicate: "filter (\<lambda>x. f = x) xs = replicate (count (mset xs) f) f"
  by (induction xs) auto

lemma sort_findings:
  assumes "spread pos n fs" "mset findings = mset fs"
  shows "sort_key (\<lambda>f. - int (fi_start f)) findings = rev fs"
proof (rule properties_for_sort_key)
  show "mset (rev fs) = mset findings" using assms(2) by simp
  have s: "sorted_wrt (\<lambda>f g. fi_start f < fi_start g) fs" using spread_sorted [OF assms(1)] .
  then have "sorted_wrt (\<lambda>f g. fi_start g < fi_start f) (rev fs)" by (simp add: sorted_wrt_rev)
  then have "sorted_wrt (\<lambda>f g. - int (fi_start f) \<le> - int (fi_start g)) (rev fs)"
    by (rule sorted_wrt_mono_rel [rotated]) simp
  then show "sorted (map (\<lambda>f. - int (fi_start f)) (rev fs))" by (simp only: sorted_map)
  have inj: "inj_on fi_start (set fs)" by (rule starts_inj [OF s])
  have rep: "filter (\<lambda>x. - int (fi_start f) = - int (fi_start x)) xs = replicate (count (mset xs) f) f"
    if "set xs \<subseteq> set fs" "f \<in> set fs" for f xs
  proof -
    have "filter (\<lambda>x. - int (fi_start f) = - int (fi_start x)) xs = filter (\<lambda>x. f = x) xs"
      by (rule filter_cong) (use that in \<open>auto simp: inj_on_eq_iff [OF inj]\<close>)
    then show ?thesis by (simp only: filter_eq_replicate)
  qed
  have same: "set findings = set fs" using assms(2) by (metis mset_eq_setD)
  fix f assume "f \<in> set (rev fs)"
  then have f: "f \<in> set fs" by simp
  have "filter (\<lambda>x. - int (fi_start f) = - int (fi_start x)) (rev fs) = replicate (count (mset (rev fs)) f) f"
    by (rule rep [OF _ f]) simp
  moreover have "filter (\<lambda>x. - int (fi_start f) = - int (fi_start x)) findings = replicate (count (mset findings) f) f"
    by (rule rep [OF _ f]) (simp add: same)
  ultimately show "filter (\<lambda>x. - int (fi_start f) = - int (fi_start x)) (rev fs) =
      filter (\<lambda>x. - int (fi_start f) = - int (fi_start x)) findings"
    by (simp only: mset_rev assms(2))
qed

lemma foldl_rev: "foldl g a (rev xs) = foldr (\<lambda>x y. g y x) xs a"
  by (simp add: foldr_conv_foldl)

section \<open>Properties\<close>

text \<open>
  Property C35: chunking loses nothing and respects the budget. The words of the chunks, in order, are the words
  of the text, no chunk has more words than the budget, and each chunk carries the hash of its own content.
\<close>

theorem chunking_keeps_words_and_budget:
  assumes "0 < max_tokens"
  shows "concat (map (\<lambda>c. words (tc_content c)) (chunk_text sha max_tokens text)) = words text \<and>
     list_all (\<lambda>c. length (words (tc_content c)) \<le> max_tokens \<and> tc_sha c = sha (tc_content c)) (chunk_text sha max_tokens text)"
proof -
  have "concat (map (\<lambda>c. words (tc_content c)) (chunk_text sha max_tokens text)) = words text"
    using pack_keeps_words [OF assms, of sha "[]" 0 "paragraphs text"] words_paragraphs [of "text"]
    by (auto simp: chunk_text_def Let_def)
  moreover have "list_all (small_chunk max_tokens) (chunk_text sha max_tokens text)"
    using pack_small [OF assms, of 0 "[]" sha "paragraphs text"] by (simp add: chunk_text_def Let_def)
  moreover have "list_all (\<lambda>c. tc_sha c = sha (tc_content c)) (chunk_text sha max_tokens text)"
    using pack_hashed by (simp add: chunk_text_def Let_def)
  ultimately show ?thesis by (simp add: list_all_iff small_chunk_def)
qed

theorem chunking_keeps_words_and_budget_witness:
  "concat (map (\<lambda>c. words (tc_content c)) (chunk_text (\<lambda>s. ''h'' @ s) 2 ''a b c d e'')) = words ''a b c d e'' \<and>
     list_all (\<lambda>c. length (words (tc_content c)) \<le> 2 \<and> tc_sha c = ''h'' @ tc_content c) (chunk_text (\<lambda>s. ''h'' @ s) 2 ''a b c d e'')"
  using chunking_keeps_words_and_budget [of 2 "\<lambda>s. ''h'' @ s" "''a b c d e''"] by simp

text \<open>
  Property C34: when the findings lie apart, redaction is the left-to-right mask: whatever order the analyzer
  reports them in, the text between findings stays as it is and each finding becomes its label.
\<close>

theorem redaction_is_mask:
  assumes "spread 0 (length text) fs" "mset findings = mset fs"
  shows "redact text findings = mask 0 text fs"
  by (simp add: redact_def sort_findings [OF assms] foldl_rev foldr_redact [OF assms(1)])

theorem redaction_is_mask_witness:
  "redact ''Ali 5321112233 evi'' [\<lparr>fi_entity = ''TEL'', fi_start = 4, fi_end = 14, fi_score = 1\<rparr>,
       \<lparr>fi_entity = ''AD'', fi_start = 0, fi_end = 3, fi_score = 1\<rparr>] = ''[AD] [TEL] evi''"
  using redaction_is_mask [of "''Ali 5321112233 evi''" "[\<lparr>fi_entity = ''AD'', fi_start = 0, fi_end = 3, fi_score = 1\<rparr>,
       \<lparr>fi_entity = ''TEL'', fi_start = 4, fi_end = 14, fi_score = 1\<rparr>]" "[\<lparr>fi_entity = ''TEL'', fi_start = 4, fi_end = 14, fi_score = 1\<rparr>,
       \<lparr>fi_entity = ''AD'', fi_start = 0, fi_end = 3, fi_score = 1\<rparr>]"]
  by (simp add: label_def add_mset_commute)

text \<open>
  Redaction leaks when a finding lies inside another. The label of the inner finding moves the text,
  and the end of the outer one, an offset of the original text, then cuts too early: the last characters of the
  outer finding stay in what is embedded.
\<close>

theorem nested_findings_leak:
  "redact ''Ada 1907 Lovelace'' [\<lparr>fi_entity = ''PERSON'', fi_start = 0, fi_end = 17, fi_score = 1\<rparr>,
       \<lparr>fi_entity = ''DATE_TIME'', fi_start = 4, fi_end = 8, fi_score = 1\<rparr>] = ''[PERSON]ovelace''"
  by code_simp

end
