(* ===== verification/Model_Registry.thy ===== *)
theory Model_Registry
  imports Routing
begin

text \<open>
  The model registry: validation of a draft and the folding of its smoke test
  (\<open>apps/api/fleet_api/registry.py\<close>), the probe (\<open>registry_probe.py\<close>), the admin routes
  that add and delete rows (\<open>routers/models_admin.py\<close>), and the read the gateway client
  is built from (\<open>load_active_models\<close> in \<open>apps/runtime/core/llm/factory.py\<close>).
\<close>

section \<open>Drafts, probe results, table rows\<close>

record model_draft =
  d_name :: string
  d_provider :: string
  d_litellm_model_id :: string
  d_input_price :: rat
  d_output_price :: rat
  d_context_window :: int
  d_capabilities :: "string list"
  d_max_output_tokens :: int
  d_clearance :: string
  d_endpoint :: "string option"
  d_cached_input_price :: "rat option"
  d_region :: "string option"

record smoke_result =
  reachable :: bool
  capabilities_ok :: bool
  s_detail :: string
  s_latency_ms :: "int option"

record registry_row =
  r_id :: nat
  r_draft :: model_draft
  r_status :: string
  r_smoke_status :: string
  r_smoke_detail :: "string option"
  r_smoke_latency_ms :: "int option"

definition clearances :: "string list" where
  "clearances = [''public'', ''internal'', ''confidential'', ''pii'']"

definition local_providers :: "string list" where
  "local_providers = [''ollama'', ''vllm'']"

section \<open>Validation\<close>

definition is_local :: "model_draft \<Rightarrow> bool" where
  "is_local d \<longleftrightarrow>
     lower (d_provider d) \<in> set local_providers
     \<or> (\<exists>p \<in> set local_providers. startswith (d_litellm_model_id d) (p @ ''/''))"

definition build_model_row :: "model_draft \<Rightarrow> registry_row res" where
  "build_model_row d =
     (if d_clearance d \<notin> set clearances
      then Inl (ValueError (''unknown sensitivity_clearance: '' @ d_clearance d))
      else if d_clearance d = ''pii'' \<and> \<not> is_local d
      then Inl (ValueError (''no cloud model may be cleared for pii; provider='' @ d_provider d))
      else if d_input_price d < 0 \<or> d_output_price d < 0
      then Inl (ValueError ''prices must be non-negative'')
      else Inr \<lparr>r_id = 0, r_draft = d, r_status = ''pending'', r_smoke_status = ''pending'',
                r_smoke_detail = None, r_smoke_latency_ms = None\<rparr>)"

definition evaluate_smoke :: "smoke_result \<Rightarrow> string \<times> string \<times> string \<times> int option" where
  "evaluate_smoke p =
     (let (status, smoke) =
        (if \<not> reachable p then (''error'', ''failed'')
         else if \<not> capabilities_ok p then (''degraded'', ''degraded'')
         else (''active'', ''ok''))
      in (status, smoke, s_detail p, s_latency_ms p))"

text \<open>
  The probe: what the proxy answered to the one-token completion is a parameter. A body is
  \<open>None\<close> when it is not JSON, else the list of its choices with whether each has a
  \<open>message\<close> key.
\<close>

datatype probe_reply =
    TransportError string
  | Reply nat string int "bool list option"  \<comment> \<open>status code, text, latency, choices\<close>

definition probe_model :: "probe_reply \<Rightarrow> smoke_result" where
  "probe_model r =
     (case r of
        TransportError e \<Rightarrow>
          \<lparr>reachable = False, capabilities_ok = False, s_detail = ''transport error: '' @ e,
           s_latency_ms = None\<rparr>
      | Reply code txt ms body \<Rightarrow>
          (if code \<noteq> 200
           then \<lparr>reachable = False, capabilities_ok = False, s_detail = ''HTTP '' @ nat_str code @ '': '' @ take 200 txt,
                 s_latency_ms = Some ms\<rparr>
           else (let (ok, detail) =
                   (case body of
                      None \<Rightarrow> (False, ''reachable but response was not JSON'')
                    | Some choices \<Rightarrow>
                        (let ok = (choices \<noteq> [] \<and> hd choices)
                         in (ok, if ok then ''ok'' else ''reachable but response had no choices'')))
                 in \<lparr>reachable = True, capabilities_ok = ok, s_detail = detail,
                     s_latency_ms = Some ms\<rparr>)))"

section \<open>The admin routes over the \<open>models\<close> table\<close>

text \<open>
  The table: its rows in id order and the next id the sequence hands out. The \<open>name\<close>
  column is unique, so an insert of a name already there is refused by the database.
\<close>

record model_table =
  mt_rows :: "registry_row list"
  mt_next :: nat

text \<open>The bounds the request schema \<open>ModelIn\<close> declares.\<close>

definition model_in_ok :: "model_draft \<Rightarrow> bool" where
  "model_in_ok d \<longleftrightarrow>
     0 \<le> d_input_price d \<and> 0 \<le> d_output_price d \<and> 0 < d_context_window d
     \<and> 0 < d_max_output_tokens d"

definition add_model ::
  "model_table \<Rightarrow> model_draft \<Rightarrow> probe_reply \<Rightarrow> (registry_row \<times> model_table) res" where
  "add_model t d reply =
     (if \<not> model_in_ok d then Inl (HTTPException 422 ''request validation'')
      else (case build_model_row d of
        Inl (ValueError msg) \<Rightarrow> Inl (HTTPException 422 msg)
      | Inl e \<Rightarrow> Inl e
      | Inr row \<Rightarrow>
          (if d_name d \<in> set (map (d_name \<circ> r_draft) (mt_rows t))
           then Inl (OtherError ''IntegrityError'')
           else
             (let (status, smoke, detail, ms) = evaluate_smoke (probe_model reply);
                  row' = row\<lparr>r_id := mt_next t, r_status := status, r_smoke_status := smoke,
                             r_smoke_detail := Some detail, r_smoke_latency_ms := ms\<rparr>
              in Inr (row', \<lparr>mt_rows = mt_rows t @ [row'], mt_next = Suc (mt_next t)\<rparr>)))))"

definition get_model :: "model_table \<Rightarrow> nat \<Rightarrow> registry_row res" where
  "get_model t i =
     (case List.find (\<lambda>r. r_id r = i) (mt_rows t) of
        None \<Rightarrow> Inl (HTTPException 404 ''model not found'')
      | Some r \<Rightarrow> Inr r)"

definition list_models :: "model_table \<Rightarrow> registry_row list" where
  "list_models t = sort_key r_id (mt_rows t)"

definition delete_model :: "model_table \<Rightarrow> nat \<Rightarrow> model_table res" where
  "delete_model t i =
     (case get_model t i of
        Inl e \<Rightarrow> Inl e
      | Inr r \<Rightarrow> Inr (t\<lparr>mt_rows := filter (\<lambda>x. r_id x \<noteq> i) (mt_rows t)\<rparr>))"

section \<open>What the gateway client reads\<close>

definition as_model_row :: "registry_row \<Rightarrow> model_row" where
  "as_model_row r =
     (let d = r_draft r in
      \<lparr>m_name = d_name d, m_provider = d_provider d,
       m_litellm_model_id = Some (d_litellm_model_id d), m_clearance = Some (d_clearance d),
       m_fleet_role = None, m_input_price = Some (d_input_price d),
       m_output_price = Some (d_output_price d), m_cached_price = d_cached_input_price d\<rparr>)"

definition load_active_models :: "model_table \<Rightarrow> model_row list" where
  "load_active_models t =
     annotate_roles
       (map as_model_row
         (filter (\<lambda>r. r_status r \<in> {''active'', ''degraded''}) (mt_rows t)))"

section \<open>The registry invariant\<close>

definition row_wf :: "registry_row \<Rightarrow> bool" where
  "row_wf r \<longleftrightarrow>
     d_clearance (r_draft r) \<in> set clearances
     \<and> (d_clearance (r_draft r) = ''pii'' \<longrightarrow> is_local (r_draft r))
     \<and> 0 \<le> d_input_price (r_draft r) \<and> 0 \<le> d_output_price (r_draft r)"

definition table_wf :: "model_table \<Rightarrow> bool" where
  "table_wf t \<longleftrightarrow>
     (\<forall>r \<in> set (mt_rows t). row_wf r \<and> r_id r < mt_next t)
     \<and> distinct (map (d_name \<circ> r_draft) (mt_rows t))
     \<and> distinct (map r_id (mt_rows t))"

lemma build_model_row_wf:
  "build_model_row d = Inr r \<Longrightarrow> row_wf r \<and> r_draft r = d"
  by (auto simp: build_model_row_def row_wf_def split: if_splits)

lemma add_model_ok:
  assumes "add_model t d reply = Inr (r, t')"
  shows "row_wf r \<and> r_draft r = d \<and> r_id r = mt_next t
     \<and> d_name d \<notin> set (map (d_name \<circ> r_draft) (mt_rows t))
     \<and> t' = \<lparr>mt_rows = mt_rows t @ [r], mt_next = Suc (mt_next t)\<rparr>"
  using assms
  by (auto simp: add_model_def row_wf_def Let_def dest!: build_model_row_wf
      split: if_splits sum.splits exn.splits prod.splits)

lemma add_model_wf:
  assumes wf: "table_wf t" and ok: "add_model t d reply = Inr (r, t')"
  shows "table_wf t'"
proof -
  have "r_id r \<notin> set (map r_id (mt_rows t))"
    using wf add_model_ok [OF ok] by (auto simp: table_wf_def)
  with wf add_model_ok [OF ok] show ?thesis by (auto simp: table_wf_def less_Suc_eq)
qed

lemma delete_model_wf: "table_wf t \<Longrightarrow> delete_model t i = Inr t' \<Longrightarrow> table_wf t'"
  by (auto simp: delete_model_def table_wf_def distinct_map_filter split: sum.splits)

text \<open>The states of the table the routes can produce, from an empty table.\<close>

inductive registry_reachable :: "model_table \<Rightarrow> bool" where
  empty: "registry_reachable \<lparr>mt_rows = [], mt_next = 1\<rparr>"
| add: "registry_reachable t \<Longrightarrow> add_model t d reply = Inr (r, t') \<Longrightarrow> registry_reachable t'"
| delete: "registry_reachable t \<Longrightarrow> delete_model t i = Inr t' \<Longrightarrow> registry_reachable t'"

lemma registry_reachable_wf: "registry_reachable t \<Longrightarrow> table_wf t"
proof (induction rule: registry_reachable.induct)
  case empty
  show ?case by (simp add: table_wf_def)
qed (auto intro: add_model_wf delete_model_wf)

lemma load_active_modelsD:
  assumes "m \<in> set (load_active_models t)"
  obtains r where "r \<in> set (mt_rows t)" "r_status r \<in> {''active'', ''degraded''}"
    "m_name m = d_name (r_draft r)" "m_provider m = d_provider (r_draft r)"
    "m_litellm_model_id m = Some (d_litellm_model_id (r_draft r))"
    "m_clearance m = Some (d_clearance (r_draft r))"
    "m_fleet_role m = Some (derive_role (d_name (r_draft r)))"
    "m_input_price m = Some (d_input_price (r_draft r))"
    "m_output_price m = Some (d_output_price (r_draft r))"
    "m_cached_price m = d_cached_input_price (r_draft r)"
  using assms that
  by (auto simp: load_active_models_def annotate_roles_def as_model_row_def Let_def)

text \<open>
  Every table the add and delete routes can build satisfies the registry invariant: names
  and ids are unique, every clearance is one of the four levels, prices are non-negative, and a row
  cleared for PII is a local one.
\<close>

theorem registry_invariant:
  assumes "registry_reachable t"
  shows "distinct (map (d_name \<circ> r_draft) (mt_rows t)) \<and> distinct (map r_id (mt_rows t))
     \<and> list_all row_wf (mt_rows t)"
  using registry_reachable_wf [OF assms] by (simp add: table_wf_def list_all_iff)

lemma registry_invariant_witness:
  "list_all row_wf (mt_rows \<lparr>mt_rows = [], mt_next = 1\<rparr>)"
  using registry_invariant [OF registry_reachable.empty] by blast

end
