(* ===== verification/Budget.thy ===== *)
theory Budget
  imports Py_Strings "HOL-Library.Product_Lexorder"
begin

text \<open>
  Metering and budgets of the gateway client: token usage and cost
  (\<open>apps/runtime/core/llm/cost.py\<close>), the append-only spend ledger (\<open>ledger.py\<close>), the budget
  decision, the per-scope database check and the hierarchy over the scopes of a call
  (\<open>budget.py\<close>).
\<close>

section \<open>Usage and cost\<close>

record usage =
  tok_in :: int
  tok_out :: int
  tok_cached :: int

text \<open>
  The \<open>usage\<close> block of a proxy response; \<open>None\<close> is an absent or null key, at each level.
\<close>

record usage_block =
  ub_prompt :: "int option"
  ub_completion :: "int option"
  ub_cached :: "int option option"  \<comment> \<open>\<open>prompt_tokens_details\<close>, then its \<open>cached_tokens\<close>\<close>

definition opt_or :: "'a \<Rightarrow> 'a option \<Rightarrow> 'a" where
  "opt_or d x = (case x of None \<Rightarrow> d | Some v \<Rightarrow> v)"

lemma opt_or_simps [simp]: "opt_or d None = d" "opt_or d (Some v) = v"
  by (simp_all add: opt_or_def)

definition parse_usage :: "usage_block option \<Rightarrow> usage" where
  "parse_usage b =
     (case b of
        None \<Rightarrow> \<lparr>tok_in = 0, tok_out = 0, tok_cached = 0\<rparr>
      | Some u \<Rightarrow> \<lparr>tok_in = opt_or 0 (ub_prompt u), tok_out = opt_or 0 (ub_completion u),
                   tok_cached = opt_or 0 (opt_or None (ub_cached u))\<rparr>)"

definition compute_cost :: "usage \<Rightarrow> rat \<Rightarrow> rat \<Rightarrow> rat option \<Rightarrow> rat" where
  "compute_cost u input_price output_price cached_input_price =
     (let cached = min (tok_cached u) (tok_in u);
          uncached_in = tok_in u - cached;
          cached_price = (case cached_input_price of Some p \<Rightarrow> p | None \<Rightarrow> input_price)
      in of_int uncached_in / 1000 * input_price + of_int cached / 1000 * cached_price
         + of_int (tok_out u) / 1000 * output_price)"

lemma compute_cost_no_cached_price:
  "compute_cost u ip op None = (of_int (tok_in u) * ip + of_int (tok_out u) * op) / 1000"
  by (simp add: compute_cost_def Let_def field_simps)

lemma compute_cost_nonneg:
  assumes "0 \<le> tok_in u" "0 \<le> tok_out u" "0 \<le> tok_cached u"
    and "0 \<le> ip" "0 \<le> op" "\<And>p. cp = Some p \<Longrightarrow> 0 \<le> p"
  shows "0 \<le> compute_cost u ip op cp"
  using assms by (auto simp: compute_cost_def Let_def split: option.splits)

lemma compute_cost_cached_le:
  assumes "0 \<le> tok_in u" "0 \<le> tok_cached u" "p \<le> ip"
  shows "compute_cost u ip op (Some p) \<le> compute_cost u ip op None"
proof -
  define c where "c = (of_int (min (tok_cached u) (tok_in u)) / 1000 :: rat)"
  have "0 \<le> c" using assms by (simp add: c_def)
  then have "c * p \<le> c * ip" using assms(3) by (rule mult_left_mono [rotated])
  then show ?thesis by (simp add: compute_cost_def Let_def c_def)
qed

section \<open>The spend ledger\<close>

text \<open>A UTC timestamp: year, month, day, hour, minute, second, microsecond.\<close>

type_synonym datetime = "nat \<times> nat \<times> nat \<times> nat \<times> nat \<times> nat \<times> nat"

record ledger_row =
  l_model :: string
  l_agent_id :: "string option"
  l_user_id :: "string option"
  l_dept_id :: "string option"
  l_tok_in :: int
  l_tok_out :: int
  l_tok_cached :: int
  l_cost_usd :: rat
  l_trace_id :: "string option"

text \<open>The table stamps each inserted row with the time of the insert.\<close>

type_synonym ledger = "(datetime \<times> ledger_row) list"

definition record_row :: "datetime \<Rightarrow> ledger_row \<Rightarrow> ledger \<Rightarrow> ledger" where
  "record_row now row l = l @ [(now, row)]"

section \<open>The budget decision\<close>

record budget_status =
  bs_scope :: string
  bs_spent_usd :: rat
  bs_limit_usd :: "rat option"
  bs_soft_pct :: int
  bs_allowed :: bool
  bs_soft_exceeded :: bool
  bs_hard_exceeded :: bool
  bs_utilization :: rat

definition evaluate_budget :: "rat \<Rightarrow> rat option \<Rightarrow> int \<Rightarrow> string \<Rightarrow> budget_status" where
  "evaluate_budget spent limit_usd soft_pct scope =
     (case limit_usd of
        None \<Rightarrow>
          \<lparr>bs_scope = scope, bs_spent_usd = spent, bs_limit_usd = None, bs_soft_pct = soft_pct,
           bs_allowed = True, bs_soft_exceeded = False, bs_hard_exceeded = False,
           bs_utilization = 0\<rparr>
      | Some l \<Rightarrow>
          (let utilization = (if l > 0 then spent / l else 1);
               hard = (spent \<ge> l);
               soft = (spent \<ge> l * (of_int soft_pct / 100))
           in \<lparr>bs_scope = scope, bs_spent_usd = spent, bs_limit_usd = Some l,
               bs_soft_pct = soft_pct, bs_allowed = (\<not> hard), bs_soft_exceeded = soft,
               bs_hard_exceeded = hard, bs_utilization = utilization\<rparr>))"

definition raise_if_exceeded :: "budget_status \<Rightarrow> unit res" where
  "raise_if_exceeded s =
     (if bs_hard_exceeded s
      then Inl (BudgetExceeded (bs_scope s) (bs_spent_usd s) (opt_or 0 (bs_limit_usd s)))
      else Inr ())"

lemma evaluate_budget_fields [simp]:
  "bs_scope (evaluate_budget s l p sc) = sc"
  "bs_spent_usd (evaluate_budget s l p sc) = s"
  "bs_limit_usd (evaluate_budget s l p sc) = l"
  "bs_hard_exceeded (evaluate_budget s l p sc) \<longleftrightarrow> (\<exists>x. l = Some x \<and> x \<le> s)"
  "bs_allowed (evaluate_budget s l p sc) \<longleftrightarrow> \<not> (\<exists>x. l = Some x \<and> x \<le> s)"
  "bs_soft_exceeded (evaluate_budget s l p sc)
     \<longleftrightarrow> (\<exists>x. l = Some x \<and> x * (of_int p / 100) \<le> s)"
  by (auto simp: evaluate_budget_def Let_def split: option.splits)

section \<open>The period and the per-scope check\<close>

fun period_start :: "string \<Rightarrow> datetime \<Rightarrow> datetime" where
  "period_start period (y, mo, d, h, mi, s, us) =
     (if period = ''daily'' then (y, mo, d, 0, 0, 0, 0) else (y, mo, 1, 0, 0, 0, 0))"

record budget_row =
  b_scope_type :: string
  b_scope_id :: "string option"
  b_period :: string
  b_limit_usd :: rat
  b_soft_pct :: int

record spend_db =
  sd_budgets :: "budget_row list"
  sd_ledger :: ledger

definition scope_label :: "string \<Rightarrow> string option \<Rightarrow> string" where
  "scope_label st sid =
     (case sid of None \<Rightarrow> st | Some i \<Rightarrow> if i = [] then st else st @ '':'' @ i)"

definition budget_for :: "spend_db \<Rightarrow> string \<Rightarrow> string option \<Rightarrow> budget_row option" where
  "budget_for db st sid =
     List.find (\<lambda>b. b_scope_type b = st \<and> b_scope_id b = sid) (sd_budgets db)"

text \<open>\<open>SUM(cost_usd)\<close> over the rows of the period that carry the scope's column.\<close>

definition spent_since :: "spend_db \<Rightarrow> datetime \<Rightarrow> (ledger_row \<Rightarrow> bool) \<Rightarrow> rat" where
  "spent_since db start p =
     sum_list (map (l_cost_usd \<circ> snd) (filter (\<lambda>(ts, r). ts \<ge> start \<and> p r) (sd_ledger db)))"

definition check_budget ::
  "spend_db \<Rightarrow> datetime \<Rightarrow> string \<Rightarrow> string option \<Rightarrow> budget_status res" where
  "check_budget db now st sid =
     (let label = scope_label st sid in
      case budget_for db st sid of
        None \<Rightarrow> Inr (evaluate_budget 0 None 80 label)
      | Some b \<Rightarrow>
          (let start = period_start (b_period b) now;
               decide = (\<lambda>p. Inr (evaluate_budget (spent_since db start p)
                                  (Some (b_limit_usd b)) (b_soft_pct b) label))
           in if st = ''global'' then decide (\<lambda>_. True)
              else if st = ''dept'' then decide (\<lambda>r. sid \<noteq> None \<and> l_dept_id r = sid)
              else if st = ''agent'' then decide (\<lambda>r. sid \<noteq> None \<and> l_agent_id r = sid)
              else if st = ''user'' then decide (\<lambda>r. sid \<noteq> None \<and> l_user_id r = sid)
              else Inl (ValueError (''unknown scope_type: '' @ st))))"

section \<open>The hierarchy: \<open>DbBudgetChecker.__call__\<close>\<close>

record call_meta =
  cm_dept_id :: "string option"
  cm_agent_id :: "string option"
  cm_user_id :: "string option"
  cm_trace_id :: "string option"

definition scope_entry :: "string \<Rightarrow> string option \<Rightarrow> (string \<times> string option) list" where
  "scope_entry st v = (case v of None \<Rightarrow> [] | Some i \<Rightarrow> if i = [] then [] else [(st, Some i)])"

definition scopes_of :: "call_meta \<Rightarrow> (string \<times> string option) list" where
  "scopes_of m =
     (''global'', None) # scope_entry ''dept'' (cm_dept_id m)
       @ scope_entry ''agent'' (cm_agent_id m) @ scope_entry ''user'' (cm_user_id m)"

definition most_constrained :: "budget_status list \<Rightarrow> budget_status res" where
  "most_constrained statuses =
     (case List.find bs_hard_exceeded statuses of
        Some s \<Rightarrow> Inr s
      | None \<Rightarrow>
          (case filter bs_soft_exceeded statuses of
             s # soft \<Rightarrow> Inr (max_first bs_utilization s soft)
           | [] \<Rightarrow> (case statuses of
                      [] \<Rightarrow> Inl (ValueError ''max() arg is an empty sequence'')
                    | s # ss \<Rightarrow> Inr (max_first bs_utilization s ss))))"

definition db_budget_checker :: "spend_db \<Rightarrow> datetime \<Rightarrow> call_meta \<Rightarrow> budget_status res" where
  "db_budget_checker db now m =
     res_bind (res_map (\<lambda>(st, sid). check_budget db now st sid) (scopes_of m)) most_constrained"

section \<open>Lemmas on the hierarchy\<close>

lemma scopes_of_types:
  "(st, sid) \<in> set (scopes_of m) \<Longrightarrow>
     st \<in> {''global'', ''dept'', ''agent'', ''user''} \<and> (st \<noteq> ''global'' \<longrightarrow> sid \<noteq> None)"
  by (cases "cm_dept_id m"; cases "cm_agent_id m"; cases "cm_user_id m")
     (auto simp: scopes_of_def scope_entry_def split: if_splits)

lemma check_budget_known:
  "st \<in> {''global'', ''dept'', ''agent'', ''user''} \<Longrightarrow> \<exists>s. check_budget db now st sid = Inr s"
  by (auto simp: check_budget_def Let_def split: option.splits)

definition status_of :: "spend_db \<Rightarrow> datetime \<Rightarrow> string \<times> string option \<Rightarrow> budget_status" where
  "status_of db now sc = (case check_budget db now (fst sc) (snd sc) of
      Inr s \<Rightarrow> s | Inl _ \<Rightarrow> evaluate_budget 0 None 80 [])"

lemma checker_statuses:
  "res_map (\<lambda>(st, sid). check_budget db now st sid) (scopes_of m)
     = Inr (map (status_of db now) (scopes_of m))"
proof (rule res_map_total)
  fix x assume "x \<in> set (scopes_of m)"
  then obtain s where "check_budget db now (fst x) (snd x) = Inr s"
    using scopes_of_types [of "fst x" "snd x" m] check_budget_known [of "fst x" db now "snd x"] by auto
  then show "(case x of (st, sid) \<Rightarrow> check_budget db now st sid) = Inr (status_of db now x)"
    by (cases x) (simp add: status_of_def)
qed

lemma most_constrained_hard:
  assumes "most_constrained ss = Inr s"
  shows "s \<in> set ss \<and> (bs_hard_exceeded s \<longleftrightarrow> (\<exists>x \<in> set ss. bs_hard_exceeded x))"
proof (cases "List.find bs_hard_exceeded ss")
  case (Some h)
  with assms show ?thesis by (auto simp: most_constrained_def find_Some_iff)
next
  case None
  then have no: "\<forall>x \<in> set ss. \<not> bs_hard_exceeded x" by (simp add: find_None_iff)
  have "s \<in> set ss"
  proof (cases "filter bs_soft_exceeded ss")
    case Nil
    with assms None show ?thesis
      using max_first_in by (fastforce simp: most_constrained_def split: list.splits)
  next
    case (Cons a as)
    then have "set (a # as) \<subseteq> set ss" by (metis filter_is_subset)
    moreover have "s \<in> set (a # as)"
      using assms None Cons max_first_in [of bs_utilization a as] by (auto simp: most_constrained_def)
    ultimately show ?thesis by blast
  qed
  with no show ?thesis by blast
qed

lemma most_constrained_total: "ss \<noteq> [] \<Longrightarrow> \<exists>s. most_constrained ss = Inr s"
  by (cases ss) (auto simp: most_constrained_def split: option.splits list.splits)

lemma scopes_of_nonempty [simp]: "scopes_of m \<noteq> []"
  by (simp add: scopes_of_def)

lemma db_budget_checker_total: "\<exists>s. db_budget_checker db now m = Inr s"
  using most_constrained_total [of "map (status_of db now) (scopes_of m)"]
  by (simp add: db_budget_checker_def checker_statuses)

lemma db_budget_checker_hard:
  assumes "db_budget_checker db now m = Inr s"
  shows "bs_hard_exceeded s \<longleftrightarrow> (\<exists>sc \<in> set (scopes_of m). bs_hard_exceeded (status_of db now sc))"
  using assms most_constrained_hard [of "map (status_of db now) (scopes_of m)" s]
  by (auto simp: db_budget_checker_def checker_statuses)

text \<open>A recorded row raises the spend of exactly the scopes it carries.\<close>

lemma spent_since_record_row:
  "spent_since (db\<lparr>sd_ledger := record_row now row (sd_ledger db)\<rparr>) start p =
     spent_since db start p + (if now \<ge> start \<and> p row then l_cost_usd row else 0)"
  by (simp add: spent_since_def record_row_def)

text \<open>The rows of the ledger that count towards a scope.\<close>

definition charged_to :: "string \<Rightarrow> string option \<Rightarrow> ledger_row \<Rightarrow> bool" where
  "charged_to st sid r =
     (st = ''global'' \<or> sid \<noteq> None \<and>
        (st = ''dept'' \<and> l_dept_id r = sid \<or> st = ''agent'' \<and> l_agent_id r = sid
         \<or> st = ''user'' \<and> l_user_id r = sid))"

lemma check_budget_charged:
  assumes "st \<in> {''global'', ''dept'', ''agent'', ''user''}" "budget_for db st sid = Some b"
  shows "check_budget db now st sid =
     Inr (evaluate_budget (spent_since db (period_start (b_period b) now) (charged_to st sid))
            (Some (b_limit_usd b)) (b_soft_pct b) (scope_label st sid))"
proof -
  have "charged_to ''global'' sid = (\<lambda>_. True)"
    "charged_to ''dept'' sid = (\<lambda>r. sid \<noteq> None \<and> l_dept_id r = sid)"
    "charged_to ''agent'' sid = (\<lambda>r. sid \<noteq> None \<and> l_agent_id r = sid)"
    "charged_to ''user'' sid = (\<lambda>r. sid \<noteq> None \<and> l_user_id r = sid)"
    by (auto simp: charged_to_def)
  with assms show ?thesis by (auto simp: check_budget_def)
qed

lemma db_budget_checker_blocks:
  assumes "(st, sid) \<in> set (scopes_of m)" "budget_for db st sid = Some b"
    and "b_limit_usd b \<le> spent_since db (period_start (b_period b) now) (charged_to st sid)"
  shows "\<exists>s. db_budget_checker db now m = Inr s \<and> bs_hard_exceeded s"
proof -
  from scopes_of_types [OF assms(1)] have "st \<in> {''global'', ''dept'', ''agent'', ''user''}" by blast
  then have "bs_hard_exceeded (status_of db now (st, sid))"
    using assms(2,3) by (simp add: status_of_def check_budget_charged)
  moreover obtain s where s: "db_budget_checker db now m = Inr s" using db_budget_checker_total by blast
  ultimately show ?thesis using db_budget_checker_hard [OF s] assms(1) by blast
qed

end
