(* ===== verification/Llm_Client.thy ===== *)
theory Llm_Client
  imports Model_Registry Budget
begin

text \<open>
  The gateway client (\<open>apps/runtime/core/llm/client.py\<close>) and its assembly
  (\<open>build_client\<close> in \<open>factory.py\<close>): sensitivity first, then the budget, then one transport
  call, then one ledger row. The trace of a call lists everything that leaves the process, in
  order; transport, ledger and budget checker are the injected protocols of the source.
\<close>

section \<open>The injected protocols\<close>

type_synonym vector = "rat list"

record chat_body =
  cb_model :: "string option"
  cb_usage :: "usage_block option"
  cb_choices :: "string option list"  \<comment> \<open>\<open>message.content\<close> of each choice\<close>

record embed_body =
  eb_model :: "string option"
  eb_usage :: "usage_block option"
  eb_data :: "(nat option \<times> vector option) list"  \<comment> \<open>\<open>index\<close> and \<open>embedding\<close>\<close>

record chunk =
  ck_model :: "string option"
  ck_usage :: "usage_block option"
  ck_delta :: string

text \<open>
  A stream is the chunks it yields before it ends, or before it raises (\<open>Some e\<close>).
\<close>

record transport =
  t_complete :: "string \<Rightarrow> msg list \<Rightarrow> call_meta \<Rightarrow> chat_body res"
  t_embed :: "string \<Rightarrow> string list \<Rightarrow> call_meta \<Rightarrow> embed_body res"
  t_stream :: "string \<Rightarrow> msg list \<Rightarrow> call_meta \<Rightarrow> (chunk list \<times> exn option) res"

record client =
  c_models :: "model_row list"
  c_transport :: transport
  c_record :: "ledger_row \<Rightarrow> unit res"
  c_budget :: "(call_meta \<Rightarrow> budget_status res) option"

datatype llm_event =
    BudgetCheck call_meta
  | SoftLimitMetric string
  | Complete string "msg list" call_meta
  | Embed string "string list" call_meta
  | Stream string "msg list" call_meta
  | Yield string
  | Record ledger_row

definition is_transport :: "llm_event \<Rightarrow> bool" where
  "is_transport e = (case e of Complete _ _ _ \<Rightarrow> True | Embed _ _ _ \<Rightarrow> True
     | Stream _ _ _ \<Rightarrow> True | _ \<Rightarrow> False)"

definition is_record :: "llm_event \<Rightarrow> bool" where
  "is_record e = (case e of Record _ \<Rightarrow> True | _ \<Rightarrow> False)"

record llm_response =
  lr_model :: string
  lr_content :: string
  lr_usage :: usage
  lr_cost_usd :: rat
  lr_soft_exceeded :: bool
  lr_budget :: "budget_status option"

record embedding_response =
  er_model :: string
  er_vectors :: "vector list"
  er_tok_in :: int
  er_cost_usd :: rat

section \<open>Helpers of the client\<close>

definition first_content :: "chat_body \<Rightarrow> string" where
  "first_content b = (case cb_choices b of [] \<Rightarrow> [] | c # _ \<Rightarrow> opt_or [] c)"

definition price_for :: "model_row list \<Rightarrow> string \<Rightarrow> model_row \<Rightarrow> model_row" where
  "price_for models model_name fallback =
     (case List.find (\<lambda>m. m_name m = model_name \<or> m_litellm_model_id m = Some model_name) models of
        Some m \<Rightarrow> m | None \<Rightarrow> fallback)"

definition priced_cost :: "model_row \<Rightarrow> usage \<Rightarrow> rat" where
  "priced_cost m u =
     compute_cost u (opt_or 0 (m_input_price m)) (opt_or 0 (m_output_price m)) (m_cached_price m)"

definition wrap_gateway :: "string \<Rightarrow> 'a res \<Rightarrow> 'a res" where
  "wrap_gateway name r =
     (case r of Inr x \<Rightarrow> Inr x
      | Inl (GatewayError msg) \<Rightarrow> Inl (GatewayError msg)
      | Inl _ \<Rightarrow> Inl (GatewayError name))"

definition spend_row :: "string \<Rightarrow> call_meta \<Rightarrow> usage \<Rightarrow> rat \<Rightarrow> ledger_row" where
  "spend_row served meta u cost =
     \<lparr>l_model = served, l_agent_id = cm_agent_id meta, l_user_id = cm_user_id meta,
      l_dept_id = cm_dept_id meta, l_tok_in = tok_in u, l_tok_out = tok_out u,
      l_tok_cached = tok_cached u, l_cost_usd = cost, l_trace_id = cm_trace_id meta\<rparr>"

definition client_check_budget ::
  "client \<Rightarrow> call_meta \<Rightarrow> (llm_event, budget_status option) eff" where
  "client_check_budget c meta =
     (case c_budget c of
        None \<Rightarrow> eff_return None
      | Some checker \<Rightarrow>
          eff_bind (eff_call (BudgetCheck meta) (checker meta)) (\<lambda>b.
          eff_bind (if bs_soft_exceeded b then eff_call (SoftLimitMetric (bs_scope b)) (Inr ())
                    else eff_return ()) (\<lambda>_.
          eff_bind (eff_lift (raise_if_exceeded b)) (\<lambda>_.
          eff_return (Some b)))))"

section \<open>The call sites\<close>

text \<open>
  The first two steps are the same at every call site: choose a cleared model, then check the
  budget; \<open>k\<close> is the rest of the call site, given the model and the budget status.
\<close>

definition governed ::
  "client \<Rightarrow> string \<Rightarrow> sens_arg \<Rightarrow> bool \<Rightarrow> call_meta \<Rightarrow>
     (model_row \<Rightarrow> budget_status option \<Rightarrow> (llm_event, 'a) eff) \<Rightarrow> (llm_event, 'a) eff" where
  "governed c role sens redacted meta k =
     eff_bind (eff_lift (select_model (c_models c) role sens redacted)) (\<lambda>model.
     eff_bind (client_check_budget c meta) (k model))"

text \<open>Steps 3 to 5 of \<open>_call\<close>: call the proxy, meter, append the spend row.\<close>

definition complete_and_record ::
  "client \<Rightarrow> msg list \<Rightarrow> call_meta \<Rightarrow> model_row \<Rightarrow> budget_status option \<Rightarrow>
     (llm_event, llm_response) eff" where
  "complete_and_record c messages meta model budget =
     eff_bind (eff_call (Complete (m_name model) messages meta)
        (wrap_gateway (m_name model) (t_complete (c_transport c) (m_name model) messages meta)))
     (\<lambda>body.
       let served = opt_or (m_name model) (cb_model body);
           priced = price_for (c_models c) served model;
           usage = parse_usage (cb_usage body);
           cost = priced_cost priced usage;
           row = spend_row served meta usage cost
       in eff_bind (eff_call (Record row) (c_record c row)) (\<lambda>_.
          eff_return
            \<lparr>lr_model = served, lr_content = first_content body, lr_usage = usage,
             lr_cost_usd = cost,
             lr_soft_exceeded = (case budget of None \<Rightarrow> False | Some b \<Rightarrow> bs_soft_exceeded b),
             lr_budget = budget\<rparr>))"

definition client_call ::
  "client \<Rightarrow> string \<Rightarrow> msg list \<Rightarrow> sens_arg \<Rightarrow> bool \<Rightarrow> call_meta \<Rightarrow> (llm_event, llm_response) eff"
where
  "client_call c role messages sens redacted meta =
     governed c role sens redacted meta (complete_and_record c messages meta)"

definition client_reasoning ::
  "client \<Rightarrow> msg list \<Rightarrow> sens_arg \<Rightarrow> bool \<Rightarrow> call_meta \<Rightarrow> (llm_event, llm_response) eff" where
  "client_reasoning c messages sens redacted meta =
     client_call c ''reasoning'' messages sens redacted meta"

definition client_utility ::
  "client \<Rightarrow> msg list \<Rightarrow> sens_arg \<Rightarrow> bool \<Rightarrow> call_meta \<Rightarrow> (llm_event, llm_response) eff" where
  "client_utility c messages sens redacted meta =
     client_call c ''utility'' messages sens redacted meta"

definition vectors_of :: "embed_body \<Rightarrow> vector list res" where
  "vectors_of body =
     res_map (\<lambda>d. case snd d of Some v \<Rightarrow> Inr v | None \<Rightarrow> Inl (KeyError ''embedding''))
       (sort_key (\<lambda>d. opt_or 0 (fst d)) (eb_data body))"

definition embed_and_record ::
  "client \<Rightarrow> string list \<Rightarrow> call_meta \<Rightarrow> model_row \<Rightarrow> budget_status option \<Rightarrow>
     (llm_event, embedding_response) eff" where
  "embed_and_record c texts meta model budget =
     eff_bind (eff_call (Embed (m_name model) texts meta)
        (wrap_gateway (m_name model) (t_embed (c_transport c) (m_name model) texts meta)))
     (\<lambda>body.
       let served = opt_or (m_name model) (eb_model body);
           priced = price_for (c_models c) served model;
           usage = parse_usage (eb_usage body);
           cost = compute_cost usage (opt_or 0 (m_input_price priced))
                    (opt_or 0 (m_output_price priced)) None;
           row = spend_row served meta \<lparr>tok_in = tok_in usage, tok_out = 0, tok_cached = 0\<rparr> cost
       in eff_bind (eff_call (Record row) (c_record c row)) (\<lambda>_.
          eff_bind (eff_lift (vectors_of body)) (\<lambda>vectors.
          eff_return \<lparr>er_model = served, er_vectors = vectors, er_tok_in = tok_in usage,
                      er_cost_usd = cost\<rparr>)))"

definition client_embeddings ::
  "client \<Rightarrow> string list \<Rightarrow> sens_arg \<Rightarrow> bool \<Rightarrow> call_meta \<Rightarrow> (llm_event, embedding_response) eff"
where
  "client_embeddings c texts sens redacted meta =
     governed c ''embeddings'' sens redacted meta (embed_and_record c texts meta)"

text \<open>
  The consumer loop of \<open>reasoning_stream\<close>: the served model and the last chunk with a
  usage block are carried along, every non-empty delta is yielded.
\<close>

fun drain ::
  "chunk list \<Rightarrow> string \<Rightarrow> usage_block option \<Rightarrow> llm_event list \<times> string \<times> usage_block option"
where
  "drain [] served usage_body = ([], served, usage_body)"
| "drain (ch # chs) served usage_body =
     (let served' = opt_or served (ck_model ch);
          usage' = (case ck_usage ch of None \<Rightarrow> usage_body | Some u \<Rightarrow> Some u);
          (ys, res) = drain chs served' usage'
      in ((if ck_delta ch = [] then ys else Yield (ck_delta ch) # ys), res))"

definition stream_and_record ::
  "client \<Rightarrow> msg list \<Rightarrow> call_meta \<Rightarrow> model_row \<Rightarrow> budget_status option \<Rightarrow> (llm_event, unit) eff"
where
  "stream_and_record c messages meta model budget =
     eff_bind (eff_call (Stream (m_name model) messages meta)
        (wrap_gateway (m_name model) (t_stream (c_transport c) (m_name model) messages meta)))
     (\<lambda>(chunks, failure).
       let (yields, served, usage_body) = drain chunks (m_name model) None
       in eff_bind (yields, case failure of None \<Rightarrow> Inr ()
                            | Some e \<Rightarrow> wrap_gateway (m_name model) (Inl e)) (\<lambda>_.
          let priced = price_for (c_models c) served model;
              usage = parse_usage usage_body;
              row = spend_row served meta usage (priced_cost priced usage)
          in eff_call (Record row) (c_record c row)))"

definition client_reasoning_stream ::
  "client \<Rightarrow> msg list \<Rightarrow> sens_arg \<Rightarrow> bool \<Rightarrow> call_meta \<Rightarrow> (llm_event, unit) eff" where
  "client_reasoning_stream c messages sens redacted meta =
     governed c ''reasoning'' sens redacted meta (stream_and_record c messages meta)"

text \<open>
  The assembled client: the registry rows of the moment, the proxy, the ledger table and the
  checker over the budget tables. The environment variables only choose addresses and the timeout.
\<close>

definition build_client ::
  "model_table \<Rightarrow> transport \<Rightarrow> (ledger_row \<Rightarrow> unit res) \<Rightarrow> spend_db \<Rightarrow> datetime \<Rightarrow> client" where
  "build_client t proxy append_row db now =
     \<lparr>c_models = load_active_models t, c_transport = proxy, c_record = append_row,
      c_budget = Some (db_budget_checker db now)\<rparr>"

section \<open>What a call may do\<close>

lemma event_kinds [simp]:
  "is_transport (Complete n ms mt)" "is_transport (Embed n ts mt)" "is_transport (Stream n ms mt)"
  "\<not> is_transport (BudgetCheck mt)" "\<not> is_transport (SoftLimitMetric s)"
  "\<not> is_transport (Yield d)" "\<not> is_transport (Record r)"
  "is_record (Record r)" "\<not> is_record (Complete n ms mt)" "\<not> is_record (Embed n ts mt)"
  "\<not> is_record (Stream n ms mt)" "\<not> is_record (BudgetCheck mt)"
  "\<not> is_record (SoftLimitMetric s)" "\<not> is_record (Yield d)"
  by (simp_all add: is_transport_def is_record_def)

lemma wrap_gateway_Inr [simp]: "wrap_gateway n r = Inr x \<longleftrightarrow> r = Inr x"
  by (auto simp: wrap_gateway_def split: sum.splits exn.splits)

lemma wrap_gateway_of_Inr [simp]: "wrap_gateway n (Inr x) = Inr x"
  by (simp add: wrap_gateway_def)

lemma wrap_gateway_Inl: "wrap_gateway n r = Inl e \<Longrightarrow> \<exists>msg. e = GatewayError msg"
  by (auto simp: wrap_gateway_def split: sum.splits exn.splits)

lemma drain_yields: "e \<in> set (fst (drain chs served u)) \<Longrightarrow> \<exists>d. e = Yield d \<and> d \<noteq> []"
  by (induction chs served u rule: drain.induct)
     (auto simp: Let_def split: prod.splits if_splits)

lemma drain_no_transport:
  "drain chs served u = (ys, res) \<Longrightarrow> e \<in> set ys \<Longrightarrow> \<not> is_transport e"
  using drain_yields [of e chs served u] by auto

text \<open>The budget check itself only looks and counts, and passes only below the hard limit.\<close>

lemma check_budget_trace:
  "e \<in> set (trace (client_check_budget c meta)) \<Longrightarrow> \<not> is_transport e \<and> \<not> is_record e"
  by (auto simp: client_check_budget_def trace_eff_bind split: option.splits sum.splits if_splits)

definition budget_ok :: "client \<Rightarrow> call_meta \<Rightarrow> bool" where
  "budget_ok c meta \<longleftrightarrow>
     (case c_budget c of None \<Rightarrow> True
      | Some checker \<Rightarrow> \<exists>s. checker meta = Inr s \<and> \<not> bs_hard_exceeded s)"

lemma check_budget_passes_ok: "outcome (client_check_budget c meta) = Inr b \<Longrightarrow> budget_ok c meta"
  by (auto simp: client_check_budget_def budget_ok_def raise_if_exceeded_def eff_bind_Inr_iff
      split: option.splits if_splits)

lemma governed_transport:
  assumes "e \<in> set (trace (governed c role sens redacted meta k))" "is_transport e \<or> is_record e"
  obtains m b where "select_model (c_models c) role sens redacted = Inr m" "budget_ok c meta"
    "e \<in> set (trace (k m b))"
  using assms check_budget_trace [of e c meta]
  by (auto simp: governed_def set_trace_eff_bind check_budget_passes_ok split: sum.splits)

lemma governed_refused:
  "select_model (c_models c) role sens redacted = Inl e \<Longrightarrow>
     governed c role sens redacted meta k = eff_raise e"
  by (simp add: governed_def)

lemma governed_success:
  assumes "outcome (governed c role sens redacted meta k) = Inr r"
  obtains m b where "select_model (c_models c) role sens redacted = Inr m" "budget_ok c meta"
    "outcome (client_check_budget c meta) = Inr b" "outcome (k m b) = Inr r"
    "filter (\<lambda>e. is_transport e \<or> is_record e) (trace (governed c role sens redacted meta k))
       = filter (\<lambda>e. is_transport e \<or> is_record e) (trace (k m b))"
proof -
  from assms obtain m b where m: "select_model (c_models c) role sens redacted = Inr m"
    and b: "outcome (client_check_budget c meta) = Inr b" and k: "outcome (k m b) = Inr r"
    by (auto simp: governed_def eff_bind_Inr_iff)
  have "filter (\<lambda>e. is_transport e \<or> is_record e) (trace (client_check_budget c meta)) = []"
    using check_budget_trace by (fastforce simp: filter_empty_conv)
  with m b have "filter (\<lambda>e. is_transport e \<or> is_record e)
      (trace (governed c role sens redacted meta k))
    = filter (\<lambda>e. is_transport e \<or> is_record e) (trace (k m b))"
    by (simp add: governed_def trace_eff_bind)
  then show thesis by (rule that [OF m check_budget_passes_ok [OF b] b k])
qed

lemmas call_site_defs = complete_and_record_def embed_and_record_def stream_and_record_def Let_def

text \<open>Each call site sends one request, to the model it was given.\<close>

definition target :: "llm_event \<Rightarrow> string option" where
  "target e = (case e of Complete n _ _ \<Rightarrow> Some n | Embed n _ _ \<Rightarrow> Some n
     | Stream n _ _ \<Rightarrow> Some n | _ \<Rightarrow> None)"

lemma complete_and_record_target:
  "e \<in> set (trace (complete_and_record c ms meta m b)) \<Longrightarrow> is_transport e \<Longrightarrow> target e = Some (m_name m)"
  by (auto simp: call_site_defs target_def set_trace_eff_bind split: sum.splits)

lemma embed_and_record_target:
  "e \<in> set (trace (embed_and_record c ts meta m b)) \<Longrightarrow> is_transport e \<Longrightarrow> target e = Some (m_name m)"
  by (auto simp: call_site_defs target_def set_trace_eff_bind split: sum.splits)

lemma stream_and_record_target:
  "e \<in> set (trace (stream_and_record c ms meta m b)) \<Longrightarrow> is_transport e \<Longrightarrow> target e = Some (m_name m)"
  by (auto simp: call_site_defs target_def set_trace_eff_bind split: sum.splits prod.splits
      dest: drain_no_transport)

lemma complete_and_record_success:
  assumes "outcome (complete_and_record c ms meta m b) = Inr r"
  shows "lr_cost_usd r = priced_cost (price_for (c_models c) (lr_model r) m) (lr_usage r)
     \<and> trace (complete_and_record c ms meta m b)
       = [Complete (m_name m) ms meta,
          Record (spend_row (lr_model r) meta (lr_usage r) (lr_cost_usd r))]"
  using assms by (auto simp: call_site_defs eff_bind_Inr_iff trace_eff_bind)

end
