(* ===== verification/Rag_Ingest.thy ===== *)
theory Rag_Ingest
  imports Rag_Chunk Llm_Client
begin

text \<open>
  Ingestion of an uploaded document: extraction (\<open>apps/rag/fleet_rag/ingest/extract.py\<close>), OCR (\<open>ocr.py\<close>), the
  pipeline (\<open>pipeline.py\<close>), the vector store functions (\<open>store/qdrant_store.py\<close>) and the worker task with its
  tables (\<open>worker.py\<close>). The file readers, the OCR engine, the gateway, the analyzer, the hash functions and the
  vector database are the fields of \<open>ingest_env\<close>; what is asked of them is the trace.
\<close>

section \<open>Calls and environment\<close>

record point =
  pt_id :: string
  pt_vector :: vector
  pt_document :: nat
  pt_sha :: string
  pt_content :: string
  pt_redacted :: bool
  pt_original :: "string option"

datatype ingest_call =
    Vision string string
  | Tesseract string
  | Embed string "string list"
  | Collection_Exists string
  | Create_Collection string nat
  | Create_Text_Index string
  | Upsert_Points string "point list"

record ingest_env =
  ie_pdf :: "string \<Rightarrow> string list res"
  ie_docx :: "string \<Rightarrow> string list res"
  ie_utf8 :: "string \<Rightarrow> string"
  ie_vision :: "string \<Rightarrow> string \<Rightarrow> string res"
  ie_tesseract :: "string \<Rightarrow> string res"
  ie_scan :: "string \<Rightarrow> pii_finding list"
  ie_sha :: "string \<Rightarrow> string"
  ie_uuid5 :: "string \<Rightarrow> string"
  ie_embed :: "string \<Rightarrow> string list \<Rightarrow> vector list res"
  ie_exists :: "string \<Rightarrow> bool res"
  ie_store :: "ingest_call \<Rightarrow> unit res"

section \<open>Extraction\<close>

record extract_result =
  ex_text :: string
  ex_needs_ocr :: bool

definition image_extensions :: "string set" where
  "image_extensions = {''.png'', ''.jpg'', ''.jpeg'', ''.tiff'', ''.bmp'', ''.gif'', ''.webp''}"

definition extension :: "string \<Rightarrow> string" where
  "extension filename =
     (if CHR ''.'' \<in> set filename then lower (CHR ''.'' # rev (takeWhile (\<lambda>c. c \<noteq> CHR ''.'') (rev filename))) else [])"

definition extract_pdf :: "ingest_env \<Rightarrow> string \<Rightarrow> extract_result res" where
  "extract_pdf env data =
     res_bind (ie_pdf env data) (\<lambda>pages.
       let text = join paragraph_break (map strip (filter (\<lambda>t. strip t \<noteq> []) pages))
       in Inr \<lparr>ex_text = text, ex_needs_ocr = (strip text = [])\<rparr>)"

definition extract_docx :: "ingest_env \<Rightarrow> string \<Rightarrow> extract_result res" where
  "extract_docx env data =
     res_bind (ie_docx env data) (\<lambda>ps.
       Inr \<lparr>ex_text = join paragraph_break (filter (\<lambda>p. strip p \<noteq> []) ps), ex_needs_ocr = False\<rparr>)"

definition extract_txt :: "ingest_env \<Rightarrow> string \<Rightarrow> extract_result res" where
  "extract_txt env data = Inr \<lparr>ex_text = ie_utf8 env data, ex_needs_ocr = False\<rparr>"

definition extract_text :: "ingest_env \<Rightarrow> string \<Rightarrow> string \<Rightarrow> extract_result res" where
  "extract_text env data filename =
     (let ext = extension filename in
      if ext = ''.pdf'' then extract_pdf env data
      else if ext = ''.docx'' then extract_docx env data
      else if ext = ''.txt'' then extract_txt env data
      else if ext \<in> image_extensions then Inr \<lparr>ex_text = [], ex_needs_ocr = True\<rparr>
      else Inl (ValueError (''unsupported file type: '' @ ext)))"

section \<open>OCR\<close>

text \<open>An exception of the vision model or of the local engine counts as no text.\<close>

definition try_vision :: "ingest_env \<Rightarrow> string \<Rightarrow> string \<Rightarrow> (ingest_call, string) eff" where
  "try_vision env sens image_bytes =
     eff_call (Vision sens image_bytes)
       (case ie_vision env sens image_bytes of Inl _ \<Rightarrow> Inr [] | Inr content \<Rightarrow> Inr (strip content))"

definition try_tesseract :: "ingest_env \<Rightarrow> string \<Rightarrow> (ingest_call, string) eff" where
  "try_tesseract env image_bytes =
     eff_call (Tesseract image_bytes)
       (case ie_tesseract env image_bytes of Inl _ \<Rightarrow> Inr [] | Inr text \<Rightarrow> Inr text)"

text \<open>The text and its source.\<close>

definition tesseract_result :: "ingest_env \<Rightarrow> string \<Rightarrow> (ingest_call, string \<times> string) eff" where
  "tesseract_result env image_bytes =
     eff_bind (try_tesseract env image_bytes) (\<lambda>text.
       eff_return (if text \<noteq> [] then (text, ''tesseract'') else ([], ''none'')))"

definition ocr_image :: "ingest_env \<Rightarrow> string \<Rightarrow> string \<Rightarrow> (ingest_call, string \<times> string) eff" where
  "ocr_image env sens image_bytes =
     eff_bind (eff_lift (parse_sensitivity (Name sens))) (\<lambda>s.
       if CONFIDENTIAL \<le> s then tesseract_result env image_bytes
       else eff_bind (try_vision env sens image_bytes) (\<lambda>text.
         if text \<noteq> [] then eff_return (text, ''vision-llm'') else tesseract_result env image_bytes))"

section \<open>The vector store\<close>

definition collection_name :: "nat \<Rightarrow> string" where
  "collection_name i = ''fleet_'' @ nat_str i"

definition point_id_for :: "ingest_env \<Rightarrow> string \<Rightarrow> string" where
  "point_id_for env sha = ie_uuid5 env sha"

definition store_call :: "ingest_env \<Rightarrow> ingest_call \<Rightarrow> (ingest_call, unit) eff" where
  "store_call env c = eff_call c (ie_store env c)"

definition ensure_collection :: "ingest_env \<Rightarrow> string \<Rightarrow> nat \<Rightarrow> (ingest_call, unit) eff" where
  "ensure_collection env name vector_size =
     eff_bind (eff_call (Collection_Exists name) (ie_exists env name)) (\<lambda>there.
       if there then eff_return ()
       else eff_bind (store_call env (Create_Collection name vector_size)) (\<lambda>_.
         store_call env (Create_Text_Index name)))"

section \<open>The pipeline\<close>

record persisted_chunk =
  pc_sha :: string
  pc_point_id :: string
  pc_tokens :: nat
  pc_redacted :: bool
  pc_original :: "string option"

record ingest_outcome =
  io_embedded :: nat
  io_skipped :: nat
  io_blocked :: nat
  io_used_ocr :: bool
  io_persisted :: "persisted_chunk list"

definition original_of :: "string \<Rightarrow> policy_result \<Rightarrow> string option" where
  "original_of sens p = (if po_redacted p then Some sens else None)"

definition mk_point :: "ingest_env \<Rightarrow> string \<Rightarrow> nat \<Rightarrow> text_chunk \<times> policy_result \<Rightarrow> vector \<Rightarrow> point" where
  "mk_point env sens doc cp v =
     \<lparr>pt_id = point_id_for env (tc_sha (fst cp)), pt_vector = v, pt_document = doc, pt_sha = tc_sha (fst cp),
      pt_content = po_text (snd cp), pt_redacted = po_redacted (snd cp), pt_original = original_of sens (snd cp)\<rparr>"

definition mk_persisted :: "ingest_env \<Rightarrow> string \<Rightarrow> text_chunk \<times> policy_result \<Rightarrow> persisted_chunk" where
  "mk_persisted env sens cp =
     \<lparr>pc_sha = tc_sha (fst cp), pc_point_id = point_id_for env (tc_sha (fst cp)),
      pc_tokens = length (words (po_text (snd cp))), pc_redacted = po_redacted (snd cp),
      pc_original = original_of sens (snd cp)\<rparr>"

text \<open>\<open>strict=True\<close>: iterables of different lengths are an error.\<close>

definition zip_strict :: "'a list \<Rightarrow> 'b list \<Rightarrow> ('a \<times> 'b) list res" where
  "zip_strict xs ys = (if length xs = length ys then Inr (zip xs ys) else Inl (ValueError ''zip() argument lengths differ''))"

definition document_text :: "ingest_env \<Rightarrow> string \<Rightarrow> string \<Rightarrow> string \<Rightarrow> (ingest_call, string \<times> bool) eff" where
  "document_text env sens data filename =
     eff_bind (eff_lift (extract_text env data filename)) (\<lambda>ex.
       if ex_needs_ocr ex then eff_bind (ocr_image env sens data) (\<lambda>got. eff_return (fst got, True))
       else eff_return (ex_text ex, False))"

definition embed_sensitivity :: "string \<Rightarrow> (text_chunk \<times> policy_result) list \<Rightarrow> string" where
  "embed_sensitivity sens keep = (if list_ex (\<lambda>cp. po_local_only (snd cp)) keep then ''pii'' else sens)"

definition store_chunks ::
  "ingest_env \<Rightarrow> nat \<Rightarrow> nat \<Rightarrow> string \<Rightarrow> (text_chunk \<times> policy_result) list \<Rightarrow> (ingest_call, persisted_chunk list) eff" where
  "store_chunks env cid doc sens keep =
     (let texts = map (po_text \<circ> snd) keep; es = embed_sensitivity sens keep in
      eff_bind (eff_call (Embed es texts) (ie_embed env es texts)) (\<lambda>vectors.
      eff_bind (eff_lift (case vectors of [] \<Rightarrow> Inl (OtherError ''IndexError'') | v # _ \<Rightarrow> Inr (length v))) (\<lambda>vector_size.
      eff_bind (ensure_collection env (collection_name cid) vector_size) (\<lambda>_.
      eff_bind (eff_lift (zip_strict keep vectors)) (\<lambda>pairs.
      eff_bind (store_call env (Upsert_Points (collection_name cid) (map (\<lambda>(cp, v). mk_point env sens doc cp v) pairs))) (\<lambda>_.
        eff_return (map (mk_persisted env sens) keep)))))))"

definition run_ingestion ::
  "ingest_env \<Rightarrow> string \<Rightarrow> string \<Rightarrow> nat \<Rightarrow> string \<Rightarrow> string \<Rightarrow> string set \<Rightarrow> nat \<Rightarrow> (ingest_call, ingest_outcome) eff" where
  "run_ingestion env data filename cid sens pii_policy existing doc =
     eff_bind (document_text env sens data filename) (\<lambda>(text, used_ocr).
       let all_chunks = chunk_text (ie_sha env) 400 text;
           fresh = dedup_chunks all_chunks existing;
           skipped = length all_chunks - length fresh
       in eff_bind (eff_lift (res_map (\<lambda>c. apply_pii_policy (ie_scan env) pii_policy (tc_content c)) fresh)) (\<lambda>policies.
         let blocked = length (filter po_blocked policies);
             keep = filter (\<lambda>cp. \<not> po_blocked (snd cp)) (zip fresh policies)
         in if keep = []
            then eff_return \<lparr>io_embedded = 0, io_skipped = skipped, io_blocked = blocked, io_used_ocr = used_ocr, io_persisted = []\<rparr>
            else eff_bind (store_chunks env cid doc sens keep) (\<lambda>persisted.
              eff_return \<lparr>io_embedded = length keep, io_skipped = skipped, io_blocked = blocked,
                          io_used_ocr = used_ocr, io_persisted = persisted\<rparr>)))"

section \<open>The worker\<close>

record collection_row =
  co_id :: nat
  co_name :: string
  co_dept :: "nat option"
  co_sensitivity :: string
  co_pii_policy :: string
  co_retention_days :: "int option"

record document_row =
  dc_id :: nat
  dc_collection :: nat
  dc_uri :: string
  dc_sha :: string
  dc_ocr_status :: string
  dc_status :: string
  dc_subject_hash :: "string option"
  dc_created_at :: int

record chunk_row =
  ch_document :: nat
  ch_sha :: string
  ch_point_id :: string
  ch_tokens :: nat
  ch_redacted :: bool
  ch_original :: "string option"

record rag_db =
  rg_collections :: "collection_row list"
  rg_documents :: "document_row list"
  rg_chunks :: "chunk_row list"
  rg_next_collection :: nat
  rg_next_document :: nat

definition existing_hashes :: "nat \<Rightarrow> rag_db \<Rightarrow> string set" where
  "existing_hashes doc db = ch_sha ` set (filter (\<lambda>c. ch_document c = doc) (rg_chunks db))"

text \<open>\<open>ON CONFLICT DO NOTHING\<close> over the unique index on \<open>qdrant_point_id\<close>.\<close>

definition insert_chunk :: "chunk_row \<Rightarrow> rag_db \<Rightarrow> rag_db" where
  "insert_chunk c db =
     (if ch_point_id c \<in> ch_point_id ` set (rg_chunks db) then db else db\<lparr>rg_chunks := rg_chunks db @ [c]\<rparr>)"

definition chunk_row_of :: "nat \<Rightarrow> persisted_chunk \<Rightarrow> chunk_row" where
  "chunk_row_of doc c =
     \<lparr>ch_document = doc, ch_sha = pc_sha c, ch_point_id = pc_point_id c, ch_tokens = pc_tokens c,
      ch_redacted = pc_redacted c, ch_original = pc_original c\<rparr>"

definition record_chunks :: "nat \<Rightarrow> persisted_chunk list \<Rightarrow> rag_db \<Rightarrow> rag_db" where
  "record_chunks doc chunks db = fold (\<lambda>c. insert_chunk (chunk_row_of doc c)) chunks db"

definition update_document_status :: "nat \<Rightarrow> string \<Rightarrow> string \<Rightarrow> rag_db \<Rightarrow> rag_db" where
  "update_document_status doc status ocr_status db =
     db\<lparr>rg_documents := map (\<lambda>d. if dc_id d = doc then d\<lparr>dc_status := status, dc_ocr_status := ocr_status\<rparr> else d) (rg_documents db)\<rparr>"

text \<open>
  \<open>object\<close> is the stored object, or the error of the object store. Recording chunks of a document that is gone by
  then breaks the foreign key, after the vectors were written.
\<close>

definition ingest_document ::
  "ingest_env \<Rightarrow> string res \<Rightarrow> nat \<Rightarrow> nat \<Rightarrow> string \<Rightarrow> string \<Rightarrow> string \<Rightarrow> rag_db \<Rightarrow>
     ingest_call list \<times> ingest_outcome res \<times> rag_db" where
  "ingest_document env object doc cid filename sens pii_policy db =
     (case object of
        Inl e \<Rightarrow> ([], Inl e, db)
      | Inr data \<Rightarrow>
          (case run_ingestion env data filename cid sens pii_policy (existing_hashes doc db) doc of
             (calls, Inl e) \<Rightarrow> (calls, Inl e, update_document_status doc ''error'' ''error'' db)
           | (calls, Inr out) \<Rightarrow>
               if io_persisted out \<noteq> [] \<and> doc \<notin> dc_id ` set (rg_documents db)
               then (calls, Inl (OtherError ''IntegrityError''), db)
               else (calls, Inr out,
                update_document_status doc ''ready'' (if io_used_ocr out then ''done'' else ''not_needed'')
                  (record_chunks doc (io_persisted out) db))))"

section \<open>What the pipeline asks for\<close>





lemma store_chunks_persists:
  "outcome (store_chunks env cid doc sens keep) = Inr persisted \<Longrightarrow> persisted = map (mk_persisted env sens) keep"
  by (auto simp: store_chunks_def Let_def eff_bind_Inr_iff)

text \<open>The chunks the pipeline keeps for a text, or the error of the policy.\<close>

definition kept ::
  "ingest_env \<Rightarrow> string \<Rightarrow> string set \<Rightarrow> string \<Rightarrow> (text_chunk \<times> policy_result) list res" where
  "kept env pii_policy existing text =
     (let fresh = dedup_chunks (chunk_text (ie_sha env) 400 text) existing in
      res_bind (res_map (\<lambda>c. apply_pii_policy (ie_scan env) pii_policy (tc_content c)) fresh) (\<lambda>policies.
        Inr (filter (\<lambda>cp. \<not> po_blocked (snd cp)) (zip fresh policies))))"



lemma kept_complete:
  assumes "kept env pol existing text = Inr keep" "c \<in> set (chunk_text (ie_sha env) 400 text)" "tc_sha c \<notin> existing"
  shows "\<exists>p. apply_pii_policy (ie_scan env) pol (tc_content c) = Inr p \<and> (po_blocked p \<or> (c, p) \<in> set keep)"
proof -
  let ?fresh = "dedup_chunks (chunk_text (ie_sha env) 400 text) existing"
  from assms(1) obtain ps where ps: "list_all2 (\<lambda>c p. apply_pii_policy (ie_scan env) pol (tc_content c) = Inr p) ?fresh ps"
    and keep: "keep = filter (\<lambda>cp. \<not> po_blocked (snd cp)) (zip ?fresh ps)"
    by (auto simp: kept_def Let_def res_map_Inr_iff)
  have "c \<in> set ?fresh" using assms by (simp add: dedup_chunks_def)
  then obtain i where i: "i < length ?fresh" "c = ?fresh ! i" by (auto simp: in_set_conv_nth)
  have len: "length ps = length ?fresh" using ps by (simp add: list_all2_lengthD)
  have "apply_pii_policy (ie_scan env) pol (tc_content c) = Inr (ps ! i)" using list_all2_nthD [OF ps i(1)] i(2) by simp
  moreover have "(c, ps ! i) \<in> set (zip ?fresh ps)" using i len by (auto simp: in_set_zip)
  ultimately show ?thesis by (auto simp: keep)
qed


lemma run_ingestion_done:
  assumes "outcome (run_ingestion env data filename cid sens pol existing doc) = Inr out"
  shows "\<exists>tx used keep. outcome (document_text env sens data filename) = Inr (tx, used) \<and> kept env pol existing tx = Inr keep \<and>
     io_embedded out = length keep \<and> io_persisted out = map (mk_persisted env sens) keep"
  using assms store_chunks_persists
  by (fastforce simp: run_ingestion_def Let_def eff_bind_Inr_iff kept_def split: prod.splits if_splits)

lemma run_ingestion_nothing_fresh:
  assumes "outcome (document_text env sens data filename) = Inr (tx, used)" "kept env pol existing tx = Inr []"
  shows "\<exists>out. outcome (run_ingestion env data filename cid sens pol existing doc) = Inr out \<and> io_embedded out = 0 \<and> io_persisted out = []"
  using assms
  by (auto simp: run_ingestion_def Let_def outcome_eff_bind kept_def split: sum.splits)

lemma kept_nothing:
  assumes "kept env pol existing tx = Inr keep" "existing \<subseteq> existing'" "tc_sha ` fst ` set keep \<subseteq> existing'"
  shows "kept env pol existing' tx = Inr []"
proof -
  let ?f = "\<lambda>c. apply_pii_policy (ie_scan env) pol (tc_content c)"
  let ?fresh = "dedup_chunks (chunk_text (ie_sha env) 400 tx) existing'"
  define g where "g c = (case ?f c of Inr p \<Rightarrow> p | Inl _ \<Rightarrow> undefined)" for c :: text_chunk
  have f: "?f c = Inr (g c) \<and> po_blocked (g c)" if "c \<in> set ?fresh" for c
  proof -
    have "c \<in> set (chunk_text (ie_sha env) 400 tx)" "tc_sha c \<notin> existing" "tc_sha c \<notin> existing'"
      using that assms(2) by (auto simp: dedup_chunks_def)
    with kept_complete [OF assms(1)] assms(3) show ?thesis by (force simp: g_def)
  qed
  have "res_map ?f ?fresh = Inr (map g ?fresh)" by (rule res_map_total) (use f in simp)
  moreover have "filter (\<lambda>cp. \<not> po_blocked (snd cp)) (zip ?fresh (map g ?fresh)) = []"
    using f by (simp add: filter_empty_conv zip_map2 zip_same_conv_map)
  ultimately show ?thesis by (simp add: kept_def Let_def)
qed


section \<open>The chunk table\<close>

lemma insert_chunk_keeps: "set (rg_chunks db) \<subseteq> set (rg_chunks (insert_chunk c db))"
  by (auto simp: insert_chunk_def)

lemma insert_chunk_has: "ch_point_id c \<in> ch_point_id ` set (rg_chunks (insert_chunk c db))"
  by (auto simp: insert_chunk_def)

lemma insert_chunk_unique:
  "distinct (map ch_point_id (rg_chunks db)) \<Longrightarrow> distinct (map ch_point_id (rg_chunks (insert_chunk c db)))"
  by (auto simp: insert_chunk_def)

lemma insert_chunk_rows: "set (rg_chunks (insert_chunk c db)) \<subseteq> insert c (set (rg_chunks db))"
  by (auto simp: insert_chunk_def)

lemma record_chunks_simps:
  "record_chunks doc [] db = db"
  "record_chunks doc (c # cs) db = record_chunks doc cs (insert_chunk (chunk_row_of doc c) db)"
  by (simp_all add: record_chunks_def)

lemma record_chunks_keeps: "set (rg_chunks db) \<subseteq> set (rg_chunks (record_chunks doc cs db))"
  by (induction cs arbitrary: db) (auto simp: record_chunks_simps dest: set_mp [OF insert_chunk_keeps])

lemma record_chunks_has: "c \<in> set cs \<Longrightarrow> pc_point_id c \<in> ch_point_id ` set (rg_chunks (record_chunks doc cs db))"
proof (induction cs arbitrary: db)
  case (Cons a cs)
  show ?case
  proof (cases "c = a")
    case True
    have "ch_point_id (chunk_row_of doc a) \<in> ch_point_id ` set (rg_chunks (insert_chunk (chunk_row_of doc a) db))"
      by (rule insert_chunk_has)
    with True record_chunks_keeps [of "insert_chunk (chunk_row_of doc a) db" doc cs] show ?thesis
      by (auto simp: record_chunks_simps chunk_row_of_def)
  next
    case False with Cons show ?thesis by (simp add: record_chunks_simps)
  qed
qed simp

lemma record_chunks_rows:
  "r \<in> set (rg_chunks (record_chunks doc cs db)) \<Longrightarrow> r \<in> set (rg_chunks db) \<or> r \<in> chunk_row_of doc ` set cs"
proof (induction cs arbitrary: db)
  case (Cons a cs)
  then have "r \<in> set (rg_chunks (insert_chunk (chunk_row_of doc a) db)) \<or> r \<in> chunk_row_of doc ` set cs"
    by (simp add: record_chunks_simps)
  then show ?case using insert_chunk_rows [of "chunk_row_of doc a" db] by auto
qed (simp add: record_chunks_simps)

lemma record_chunks_unique:
  "distinct (map ch_point_id (rg_chunks db)) \<Longrightarrow> distinct (map ch_point_id (rg_chunks (record_chunks doc cs db)))"
  by (induction cs arbitrary: db) (simp_all add: record_chunks_simps insert_chunk_unique)

lemma update_document_status_chunks [simp]: "rg_chunks (update_document_status doc s o' db) = rg_chunks db"
  by (simp add: update_document_status_def)

section \<open>Properties\<close>


definition demo_env :: ingest_env where
  "demo_env = \<lparr>ie_pdf = (\<lambda>_. Inr []), ie_docx = (\<lambda>_. Inr []), ie_utf8 = id, ie_vision = (\<lambda>_ _. Inr []),
     ie_tesseract = (\<lambda>_. Inr []), ie_scan = (\<lambda>_. []), ie_sha = id, ie_uuid5 = id,
     ie_embed = (\<lambda>_ ts. Inr (map (\<lambda>_. [1]) ts)), ie_exists = (\<lambda>_. Inr True), ie_store = (\<lambda>_. Inr ())\<rparr>"

definition demo_rag :: rag_db where
  "demo_rag = \<lparr>rg_collections = [], rg_documents = [\<lparr>dc_id = 1, dc_collection = 1, dc_uri = ''1/x.txt'', dc_sha = ''x'',
       dc_ocr_status = ''pending'', dc_status = ''queued'', dc_subject_hash = None, dc_created_at = 0\<rparr>], rg_chunks = [], rg_next_collection = 1, rg_next_document = 1\<rparr>"


text \<open>
  Ingesting the same upload of a document again embeds nothing, whatever the policy, provided its
  chunks were recorded: no other document already holds the point of one of them.
\<close>

theorem reingestion_embeds_nothing:
  assumes "ingest_document env (Inr data) doc cid filename sens pol db = (calls, Inr out, db')"
    and "list_all (\<lambda>r. ch_point_id r \<in> pc_point_id ` set (io_persisted out) \<longrightarrow> ch_document r = doc \<and> ch_point_id r = point_id_for env (ch_sha r)) (rg_chunks db)"
    and "inj (point_id_for env)"
  shows "\<exists>calls' out' db''. ingest_document env (Inr data) doc cid filename sens pol db' = (calls', Inr out', db'') \<and> io_embedded out' = 0"
proof -
  from assms(1) have out: "outcome (run_ingestion env data filename cid sens pol (existing_hashes doc db) doc) = Inr out"
    and db': "db' = update_document_status doc ''ready'' (if io_used_ocr out then ''done'' else ''not_needed'')
        (record_chunks doc (io_persisted out) db)"
    by (auto simp: ingest_document_def split: prod.splits sum.splits if_splits)
  from run_ingestion_done [OF out] obtain tx used keep
    where tx: "outcome (document_text env sens data filename) = Inr (tx, used)"
      and keep: "kept env pol (existing_hashes doc db) tx = Inr keep"
      and persisted: "io_persisted out = map (mk_persisted env sens) keep" by blast
  have sub: "existing_hashes doc db \<subseteq> existing_hashes doc db'"
    using record_chunks_keeps [of db doc "io_persisted out"] by (auto simp: existing_hashes_def db')
  have "tc_sha c \<in> existing_hashes doc db'" if "(c, p) \<in> set keep" for c p
  proof -
    let ?pc = "mk_persisted env sens (c, p)"
    have pc: "?pc \<in> set (io_persisted out)" using that persisted by force
    from record_chunks_has [OF pc, of doc db] obtain r where r: "r \<in> set (rg_chunks db')" "ch_point_id r = pc_point_id ?pc"
      unfolding db' update_document_status_chunks by (metis imageE)
    have "ch_document r = doc \<and> ch_point_id r = point_id_for env (ch_sha r)"
    proof (cases "r \<in> set (rg_chunks db)")
      case True
      moreover have "ch_point_id r \<in> pc_point_id ` set (io_persisted out)" unfolding r(2) using pc by (rule imageI)
      ultimately show ?thesis using assms(2) by (simp add: list_all_iff)
    next
      case False
      with r(1) record_chunks_rows [of r doc "io_persisted out" db] obtain cp
        where "r = chunk_row_of doc (mk_persisted env sens cp)" by (auto simp: db' persisted)
      then show ?thesis by (simp add: chunk_row_of_def mk_persisted_def)
    qed
    moreover from this r(2) have "ch_sha r = tc_sha c" using assms(3) by (auto simp: mk_persisted_def inj_def)
    ultimately have "r \<in> {x \<in> set (rg_chunks db'). ch_document x = doc}" "tc_sha c = ch_sha r" using r(1) by simp_all
    then show ?thesis unfolding existing_hashes_def set_filter by (rule rev_image_eqI)
  qed
  then have "tc_sha ` fst ` set keep \<subseteq> existing_hashes doc db'" by auto
  from run_ingestion_nothing_fresh [OF tx kept_nothing [OF keep sub this]] obtain out' where
    "outcome (run_ingestion env data filename cid sens pol (existing_hashes doc db') doc) = Inr out'" "io_embedded out' = 0" "io_persisted out' = []" by blast
  then show ?thesis
    by (cases "run_ingestion env data filename cid sens pol (existing_hashes doc db') doc") (auto simp: ingest_document_def)
qed

lemma reingestion_embeds_nothing_witness:
  "\<exists>calls out db. ingest_document demo_env (Inr ''x'') 1 1 ''a.txt'' ''internal'' ''allow-local-only''
       (snd (snd (ingest_document demo_env (Inr ''x'') 1 1 ''a.txt'' ''internal'' ''allow-local-only'' demo_rag))) = (calls, Inr out, db) \<and>
     io_embedded out = 0"
proof -
  let ?first = "ingest_document demo_env (Inr ''x'') 1 1 ''a.txt'' ''internal'' ''allow-local-only'' demo_rag"
  have "\<not> isl (fst (snd ?first))" by code_simp
  then obtain calls out db where first: "?first = (calls, Inr out, db)" 
    by (cases ?first; cases "fst (snd ?first)") auto
  have "inj (point_id_for demo_env)" by (simp add: demo_env_def point_id_for_def [abs_def] inj_def)
  from reingestion_embeds_nothing [OF first _ this] show ?thesis unfolding first by (simp add: demo_rag_def)
qed

end
