(* ===== verification/Rag_Documents.thy ===== *)
theory Rag_Documents
  imports Rag_Query Agents_Admin
begin

text \<open>
  Collections and documents: the routes that administer collections (\<open>apps/api/fleet_api/routers/collections.py\<close>), the
  upload of a document (\<open>routers/documents.py\<close>) and the deletion of expired ones
  (\<open>apps/rag/fleet_rag/ingest/retention.py\<close>). The object store, the queue, the vector database and the commit of a
  deletion may fail: what they answer is a parameter, what is asked of them is the trace. Times are seconds.
\<close>

section \<open>Calls\<close>

datatype docs_call =
    Bucket_Exists string
  | Make_Bucket string
  | Put_Object string string string
  | Enqueue nat nat string string string string
  | Delete_Vectors string nat
  | Remove_Object string string

record docs_env =
  dv_sha :: "string \<Rightarrow> string"
  dv_bucket :: string
  dv_has_bucket :: "bool res"
  dv_do :: "docs_call \<Rightarrow> unit res"
  dv_commit :: "nat \<Rightarrow> unit res"

definition act :: "docs_env \<Rightarrow> docs_call \<Rightarrow> (docs_call, unit) eff" where
  "act env c = eff_call c (dv_do env c)"

section \<open>Collections\<close>

record collection_in =
  cn_name :: string
  cn_dept :: "nat option"
  cn_sensitivity :: string
  cn_retention_days :: "int option"
  cn_pii_policy :: string

definition valid_pii_policy :: "string list" where
  "valid_pii_policy = [''redact'', ''block'', ''allow-local-only'']"

text \<open>The schema's bound on the retention, then \<open>_validate\<close>.\<close>

definition validate_collection :: "collection_in \<Rightarrow> unit res" where
  "validate_collection body =
     (if (case cn_retention_days body of Some d \<Rightarrow> d \<le> 0 | None \<Rightarrow> False)
      then Inl (HTTPException 422 ''request validation'')
      else if cn_sensitivity body \<notin> set valid_sensitivity
      then Inl (HTTPException 422 (''unknown sensitivity: '' @ cn_sensitivity body))
      else if cn_pii_policy body \<notin> set valid_pii_policy
      then Inl (HTTPException 422 (''unknown pii_policy: '' @ cn_pii_policy body))
      else if cn_sensitivity body = ''pii'' \<and> cn_pii_policy body = ''redact''
      then Inl (HTTPException 422 (''pii collections must use pii_policy 'block' or 'allow-local-only', not 'redact'' @ [char_of (39::nat)]))
      else Inr ())"

definition collection_of :: "nat \<Rightarrow> collection_in \<Rightarrow> collection_row" where
  "collection_of i body =
     \<lparr>co_id = i, co_name = cn_name body, co_dept = cn_dept body, co_sensitivity = cn_sensitivity body,
      co_pii_policy = cn_pii_policy body, co_retention_days = cn_retention_days body\<rparr>"

lemma collection_of_keys [simp]: "co_id (collection_of i body) = i" "co_name (collection_of i body) = cn_name body"
  by (simp_all add: collection_of_def)

text \<open>\<open>depts\<close> are the department ids; a missing one breaks the foreign key.\<close>

definition create_collection :: "nat list \<Rightarrow> principal res \<Rightarrow> collection_in \<Rightarrow> rag_db \<Rightarrow> collection_row res \<times> rag_db" where
  "create_collection depts who body = guarded who (\<lambda>_ db.
     case validate_collection body of
       Inl e \<Rightarrow> (Inl e, db)
     | Inr _ \<Rightarrow>
         (if cn_name body \<in> co_name ` set (rg_collections db)
          then (Inl (HTTPException 409 ''collection name already exists''), db)
          else if (case cn_dept body of None \<Rightarrow> False | Some d \<Rightarrow> d \<notin> set depts)
          then (Inl (OtherError ''IntegrityError''), db)
          else (let row = collection_of (rg_next_collection db) body
                in (Inr row, db\<lparr>rg_collections := rg_collections db @ [row], rg_next_collection := Suc (rg_next_collection db)\<rparr>))))"

definition list_collections :: "principal res \<Rightarrow> rag_db \<Rightarrow> collection_row list res \<times> rag_db" where
  "list_collections who = guarded who (\<lambda>_ db. (Inr (sort_key co_id (rg_collections db)), db))"

definition on_collection ::
  "principal res \<Rightarrow> nat \<Rightarrow> (collection_row \<Rightarrow> rag_db \<Rightarrow> 'a res \<times> rag_db) \<Rightarrow> rag_db \<Rightarrow> 'a res \<times> rag_db" where
  "on_collection who i k = guarded who (\<lambda>_ db.
     case collection_by_id i db of None \<Rightarrow> (Inl (HTTPException 404 ''collection not found''), db) | Some c \<Rightarrow> k c db)"

definition get_collection :: "principal res \<Rightarrow> nat \<Rightarrow> rag_db \<Rightarrow> collection_row res \<times> rag_db" where
  "get_collection who i = on_collection who i (\<lambda>c db. (Inr c, db))"

text \<open>The body is validated before the row is looked up; a name in use breaks the unique constraint.\<close>

definition update_collection ::
  "nat list \<Rightarrow> principal res \<Rightarrow> nat \<Rightarrow> collection_in \<Rightarrow> rag_db \<Rightarrow> collection_row res \<times> rag_db" where
  "update_collection depts who i body = guarded who (\<lambda>_ db.
     case validate_collection body of
       Inl e \<Rightarrow> (Inl e, db)
     | Inr _ \<Rightarrow> on_collection who i (\<lambda>c db.
         if cn_name body \<in> co_name ` set (filter (\<lambda>x. co_id x \<noteq> i) (rg_collections db)) \<or>
            (case cn_dept body of None \<Rightarrow> False | Some d \<Rightarrow> d \<notin> set depts)
         then (Inl (OtherError ''IntegrityError''), db)
         else (let row = collection_of i body
               in (Inr row, db\<lparr>rg_collections := map (\<lambda>x. if co_id x = i then row else x) (rg_collections db)\<rparr>))) db)"

text \<open>A collection that still has documents cannot go: the foreign key refuses it.\<close>

definition delete_collection :: "principal res \<Rightarrow> nat \<Rightarrow> rag_db \<Rightarrow> unit res \<times> rag_db" where
  "delete_collection who i = on_collection who i (\<lambda>c db.
     if i \<in> dc_collection ` set (rg_documents db) then (Inl (OtherError ''IntegrityError''), db)
     else (Inr (), db\<lparr>rg_collections := filter (\<lambda>x. co_id x \<noteq> i) (rg_collections db)\<rparr>))"

section \<open>Documents\<close>

definition object_key :: "nat \<Rightarrow> string \<Rightarrow> string \<Rightarrow> string" where
  "object_key cid sha filename = nat_str cid @ ''/'' @ sha @ extension filename"

definition find_upload :: "nat \<Rightarrow> string \<Rightarrow> rag_db \<Rightarrow> document_row option" where
  "find_upload cid digest db = find (\<lambda>d. dc_collection d = cid \<and> dc_sha d = digest) (rg_documents db)"

definition put_upload :: "docs_env \<Rightarrow> string \<Rightarrow> string \<Rightarrow> (docs_call, unit) eff" where
  "put_upload env key data =
     eff_bind (eff_call (Bucket_Exists (dv_bucket env)) (dv_has_bucket env)) (\<lambda>there.
     eff_bind (if there then eff_return () else act env (Make_Bucket (dv_bucket env))) (\<lambda>_.
       act env (Put_Object (dv_bucket env) key data)))"

text \<open>The row is committed before the job is queued: an error of the queue leaves it behind.\<close>

definition upload_document ::
  "docs_env \<Rightarrow> int \<Rightarrow> principal res \<Rightarrow> nat \<Rightarrow> string option \<Rightarrow> string \<Rightarrow> string option \<Rightarrow> rag_db \<Rightarrow>
     docs_call list \<times> document_row res \<times> rag_db" where
  "upload_document env now who cid name data subject db =
     (case who of Inl e \<Rightarrow> ([], Inl e, db) | Inr _ \<Rightarrow>
      (case collection_by_id cid db of
         None \<Rightarrow> ([], Inl (HTTPException 404 ''collection not found''), db)
       | Some c \<Rightarrow>
           (let digest = dv_sha env data; filename = (if given name then the name else ''upload.bin'') in
            case find_upload cid digest db of
              Some d \<Rightarrow> ([], Inr d, db)
            | None \<Rightarrow>
                (let key = object_key cid digest filename in
                 case put_upload env key data of
                   (calls, Inl e) \<Rightarrow> (calls, Inl e, db)
                 | (calls, Inr _) \<Rightarrow>
                     (let d = \<lparr>dc_id = rg_next_document db, dc_collection = cid, dc_uri = key, dc_sha = digest,
                               dc_ocr_status = ''pending'', dc_status = ''queued'', dc_subject_hash = subject, dc_created_at = now\<rparr>;
                          db' = db\<lparr>rg_documents := rg_documents db @ [d], rg_next_document := Suc (rg_next_document db)\<rparr>;
                          job = Enqueue (dc_id d) cid key filename (co_sensitivity c) (co_pii_policy c)
                      in (calls @ [job], (case dv_do env job of Inl e \<Rightarrow> Inl e | Inr _ \<Rightarrow> Inr d), db'))))))"

definition list_documents :: "principal res \<Rightarrow> nat option \<Rightarrow> rag_db \<Rightarrow> document_row list res \<times> rag_db" where
  "list_documents who cid = guarded who (\<lambda>_ db.
     (Inr (sort_key dc_id (filter (\<lambda>d. case cid of None \<Rightarrow> True | Some i \<Rightarrow> dc_collection d = i) (rg_documents db))), db))"

definition get_document :: "principal res \<Rightarrow> nat \<Rightarrow> rag_db \<Rightarrow> document_row res \<times> rag_db" where
  "get_document who i = guarded who (\<lambda>_ db.
     (case find (\<lambda>d. dc_id d = i) (rg_documents db) of
        None \<Rightarrow> (Inl (HTTPException 404 ''document not found''), db) | Some d \<Rightarrow> (Inr d, db)))"

section \<open>Deletion and retention\<close>

definition delete_document_rows :: "nat \<Rightarrow> rag_db \<Rightarrow> rag_db" where
  "delete_document_rows doc db =
     db\<lparr>rg_chunks := filter (\<lambda>c. ch_document c \<noteq> doc) (rg_chunks db),
        rg_documents := filter (\<lambda>d. dc_id d \<noteq> doc) (rg_documents db)\<rparr>"

text \<open>The vectors first, then the object, whose errors do not matter, then the rows.\<close>

definition delete_document_fully ::
  "docs_env \<Rightarrow> document_row \<Rightarrow> rag_db \<Rightarrow> docs_call list \<times> unit res \<times> rag_db" where
  "delete_document_fully env d db =
     (let v = Delete_Vectors (collection_name (dc_collection d)) (dc_id d);
          r = Remove_Object (dv_bucket env) (dc_uri d) in
      case dv_do env v of
        Inl e \<Rightarrow> ([v], Inl e, db)
      | Inr _ \<Rightarrow> (case dv_commit env (dc_id d) of
                   Inl e \<Rightarrow> ([v, r], Inl e, db)
                 | Inr _ \<Rightarrow> ([v, r], Inr (), delete_document_rows (dc_id d) db)))"

definition is_expired :: "int \<Rightarrow> int option \<Rightarrow> int \<Rightarrow> bool" where
  "is_expired created_at retention_days now =
     (case retention_days of None \<Rightarrow> False | Some d \<Rightarrow> d * 86400 \<le> now - created_at)"

definition expired :: "int \<Rightarrow> rag_db \<Rightarrow> document_row \<Rightarrow> bool" where
  "expired now db d =
     (case collection_by_id (dc_collection d) db of
        None \<Rightarrow> False | Some c \<Rightarrow> is_expired (dc_created_at d) (co_retention_days c) now)"

text \<open>The documents of a query, deleted one after the other until one fails.\<close>

fun delete_each :: "docs_env \<Rightarrow> document_row list \<Rightarrow> rag_db \<Rightarrow> docs_call list \<times> nat list res \<times> rag_db" where
  "delete_each env [] db = ([], Inr [], db)"
| "delete_each env (d # ds) db =
     (case delete_document_fully env d db of
        (calls, Inl e, db') \<Rightarrow> (calls, Inl e, db')
      | (calls, Inr _, db') \<Rightarrow>
          (case delete_each env ds db' of
             (calls', Inl e, db'') \<Rightarrow> (calls @ calls', Inl e, db'')
           | (calls', Inr ids, db'') \<Rightarrow> (calls @ calls', Inr (dc_id d # ids), db'')))"

definition purge_expired :: "docs_env \<Rightarrow> int \<Rightarrow> rag_db \<Rightarrow> docs_call list \<times> nat list res \<times> rag_db" where
  "purge_expired env now db = delete_each env (filter (expired now db) (rg_documents db)) db"

section \<open>What deletion leaves\<close>

lemma delete_document_fully_cases:
  assumes "delete_document_fully env d db = (calls, r, db')"
  shows "Delete_Vectors (collection_name (dc_collection d)) (dc_id d) \<in> set calls \<and>
     (r = Inr () \<and> db' = delete_document_rows (dc_id d) db \<and> Remove_Object (dv_bucket env) (dc_uri d) \<in> set calls \<or>
      (\<exists>e. r = Inl e) \<and> db' = db)"
proof (cases "dv_do env (Delete_Vectors (collection_name (dc_collection d)) (dc_id d))")
  case (Inl e)
  then have "calls = [Delete_Vectors (collection_name (dc_collection d)) (dc_id d)]" "r = Inl e" "db' = db"
    using assms by (simp_all add: delete_document_fully_def Let_def)
  then show ?thesis by simp
next
  case Inr1: (Inr u)
  show ?thesis
  proof (cases "dv_commit env (dc_id d)")
    case (Inl e)
    then have "r = Inl e" "db' = db" "hd calls = Delete_Vectors (collection_name (dc_collection d)) (dc_id d)" "calls \<noteq> []"
      using assms Inr1 by (auto simp: delete_document_fully_def Let_def)
    then show ?thesis by (cases calls) auto
  next
    case (Inr u)
    then have "calls = [Delete_Vectors (collection_name (dc_collection d)) (dc_id d), Remove_Object (dv_bucket env) (dc_uri d)]"
      "r = Inr ()" "db' = delete_document_rows (dc_id d) db"
      using assms Inr1 by (simp_all add: delete_document_fully_def Let_def)
    then show ?thesis by simp
  qed
qed

definition keep_rows :: "nat set \<Rightarrow> rag_db \<Rightarrow> rag_db" where
  "keep_rows gone db =
     db\<lparr>rg_chunks := filter (\<lambda>c. ch_document c \<notin> gone) (rg_chunks db),
        rg_documents := filter (\<lambda>d. dc_id d \<notin> gone) (rg_documents db)\<rparr>"

lemma keep_rows_empty [simp]: "keep_rows {} db = db"
  by (simp add: keep_rows_def)

lemma keep_rows_step: "keep_rows gone (delete_document_rows i db) = keep_rows (insert i gone) db"
  by (simp add: keep_rows_def delete_document_rows_def conj_commute)

lemma delete_each_effect:
  assumes "delete_each env ds db = (calls, r, db')"
  shows "\<exists>done_ds rest. ds = done_ds @ rest \<and> db' = keep_rows (dc_id ` set done_ds) db \<and>
     list_all (\<lambda>d. Delete_Vectors (collection_name (dc_collection d)) (dc_id d) \<in> set calls \<and>
        Remove_Object (dv_bucket env) (dc_uri d) \<in> set calls) done_ds \<and>
     (case r of Inr ids \<Rightarrow> rest = [] \<and> ids = map dc_id ds
      | Inl _ \<Rightarrow> rest \<noteq> [] \<and> Delete_Vectors (collection_name (dc_collection (hd rest))) (dc_id (hd rest)) \<in> set calls)"
  using assms
proof (induction ds arbitrary: db calls r db')
  case Nil
  then show ?case by auto
next
  case (Cons d ds)
  obtain c1 r1 db1 where one: "delete_document_fully env d db = (c1, r1, db1)" by (cases "delete_document_fully env d db")
  note one' = delete_document_fully_cases [OF one]
  show ?case
  proof (cases r1)
    case (Inl e)
    with Cons.prems one one' show ?thesis by (intro exI [of _ "[]"] exI [of _ "d # ds"]) auto
  next
    case (Inr u)
    obtain c2 r2 db2 where two: "delete_each env ds db1 = (c2, r2, db2)" by (cases "delete_each env ds db1")
    from Cons.IH [OF two] obtain done_ds rest where IH: "ds = done_ds @ rest" "db2 = keep_rows (dc_id ` set done_ds) db1"
      "list_all (\<lambda>d. Delete_Vectors (collection_name (dc_collection d)) (dc_id d) \<in> set c2 \<and>
          Remove_Object (dv_bucket env) (dc_uri d) \<in> set c2) done_ds"
      "case r2 of Inr ids \<Rightarrow> rest = [] \<and> ids = map dc_id ds
       | Inl _ \<Rightarrow> rest \<noteq> [] \<and> Delete_Vectors (collection_name (dc_collection (hd rest))) (dc_id (hd rest)) \<in> set c2" by blast
    have all: "calls = c1 @ c2" "db' = db2" "r = (case r2 of Inl e \<Rightarrow> Inl e | Inr ids \<Rightarrow> Inr (dc_id d # ids))"
      using Cons.prems one Inr two by (auto split: sum.splits)
    have db1: "db1 = delete_document_rows (dc_id d) db" using one' Inr by auto
    show ?thesis
    proof (intro exI conjI)
      show "d # ds = (d # done_ds) @ rest" using IH(1) by simp
      show "db' = keep_rows (dc_id ` set (d # done_ds)) db" using all(2) IH(2) db1 by (simp add: keep_rows_step)
      show "list_all (\<lambda>d. Delete_Vectors (collection_name (dc_collection d)) (dc_id d) \<in> set calls \<and>
          Remove_Object (dv_bucket env) (dc_uri d) \<in> set calls) (d # done_ds)"
        using IH(3) one' Inr all(1) by (auto simp: list_all_iff)
      show "case r of Inr ids \<Rightarrow> rest = [] \<and> ids = map dc_id (d # ds)
          | Inl _ \<Rightarrow> rest \<noteq> [] \<and> Delete_Vectors (collection_name (dc_collection (hd rest))) (dc_id (hd rest)) \<in> set calls"
        using IH(4) all(1,3) by (cases r2) auto
    qed
  qed
qed

section \<open>The tables over time\<close>

text \<open>What the requests and the worker can do to the tables; an erasure deletes documents as \<open>delete_each\<close> does.\<close>

inductive rag_reachable :: "rag_db \<Rightarrow> bool" where
  start: "rag_reachable \<lparr>rg_collections = [], rg_documents = [], rg_chunks = [], rg_next_collection = 1, rg_next_document = 1\<rparr>"
| created: "rag_reachable db \<Longrightarrow> create_collection depts who body db = (c, db') \<Longrightarrow> rag_reachable db'"
| updated: "rag_reachable db \<Longrightarrow> update_collection depts who i body db = (c, db') \<Longrightarrow> rag_reachable db'"
| removed: "rag_reachable db \<Longrightarrow> delete_collection who i db = (u, db') \<Longrightarrow> rag_reachable db'"
| uploaded: "rag_reachable db \<Longrightarrow> upload_document env now who cid name data subject db = (calls, d, db') \<Longrightarrow> rag_reachable db'"
| ingested: "rag_reachable db \<Longrightarrow> ingest_document ienv object doc cid filename sens pol db = (icalls, out, db') \<Longrightarrow> rag_reachable db'"
| purged: "rag_reachable db \<Longrightarrow> delete_each env ds db = (calls, r, db') \<Longrightarrow> rag_reachable db'"

definition collection_ok :: "collection_row \<Rightarrow> bool" where
  "collection_ok c \<longleftrightarrow> co_sensitivity c \<in> set valid_sensitivity \<and> co_pii_policy c \<in> set valid_pii_policy \<and>
     \<not> (co_sensitivity c = ''pii'' \<and> co_pii_policy c = ''redact'')"

definition collections_wf :: "rag_db \<Rightarrow> bool" where
  "collections_wf db \<longleftrightarrow> distinct (map co_id (rg_collections db)) \<and> distinct (map co_name (rg_collections db)) \<and>
     list_all (\<lambda>c. co_id c < rg_next_collection db \<and> collection_ok c) (rg_collections db)"

definition documents_wf :: "rag_db \<Rightarrow> bool" where
  "documents_wf db \<longleftrightarrow> distinct (map dc_id (rg_documents db)) \<and> distinct (map (\<lambda>d. (dc_collection d, dc_sha d)) (rg_documents db)) \<and>
     list_all (\<lambda>d. dc_id d < rg_next_document db \<and> dc_collection d \<in> co_id ` set (rg_collections db)) (rg_documents db)"

definition chunks_wf :: "rag_db \<Rightarrow> bool" where
  "chunks_wf db \<longleftrightarrow> distinct (map ch_point_id (rg_chunks db)) \<and>
     list_all (\<lambda>c. ch_document c \<in> dc_id ` set (rg_documents db)) (rg_chunks db)"

definition rag_wf :: "rag_db \<Rightarrow> bool" where
  "rag_wf db \<longleftrightarrow> collections_wf db \<and> documents_wf db \<and> chunks_wf db"

lemmas rag_wf_defs = rag_wf_def collections_wf_def documents_wf_def chunks_wf_def

lemma validate_collection_ok: "validate_collection body = Inr u \<Longrightarrow> collection_ok (collection_of i body)"
  by (auto simp: validate_collection_def collection_ok_def collection_of_def split: if_splits option.splits)

lemma collection_by_idD: "collection_by_id i db = Some c \<Longrightarrow> c \<in> set (rg_collections db) \<and> co_id c = i"
  by (auto simp: collection_by_id_def find_Some_iff)

lemma create_collection_changes:
  assumes "create_collection depts who body db = (c, db')"
  shows "db' = db \<or> (\<exists>u. validate_collection body = Inr u \<and> cn_name body \<notin> co_name ` set (rg_collections db) \<and>
     db' = db\<lparr>rg_collections := rg_collections db @ [collection_of (rg_next_collection db) body],
              rg_next_collection := Suc (rg_next_collection db)\<rparr>)"
  using assms unfolding create_collection_def guarded_def Let_def by (fastforce split: sum.splits if_splits)

lemma create_collection_wf:
  assumes "rag_wf db" "create_collection depts who body db = (c, db')"
  shows "rag_wf db'"
  using create_collection_changes [OF assms(2)]
proof (elim disjE exE conjE)
  fix u
  let ?c = "collection_of (rg_next_collection db) body"
  assume v: "validate_collection body = Inr u" and new: "cn_name body \<notin> co_name ` set (rg_collections db)"
    and db': "db' = db\<lparr>rg_collections := rg_collections db @ [?c], rg_next_collection := Suc (rg_next_collection db)\<rparr>"
  have f: "co_id ?c = rg_next_collection db" "co_name ?c = cn_name body" by (simp_all add: collection_of_def)
  show ?thesis
    using assms(1) new validate_collection_ok [OF v, of "rg_next_collection db"]
    by (auto simp: db' rag_wf_defs f list_all_iff less_Suc_eq)
qed (use assms in simp)

lemma update_collection_changes:
  assumes "update_collection depts who i body db = (c, db')"
  shows "db' = db \<or> (\<exists>u. validate_collection body = Inr u \<and>
     cn_name body \<notin> co_name ` set (filter (\<lambda>x. co_id x \<noteq> i) (rg_collections db)) \<and>
     db' = db\<lparr>rg_collections := map (\<lambda>x. if co_id x = i then collection_of i body else x) (rg_collections db)\<rparr>)"
proof (cases who)
  case (Inl e)
  with assms show ?thesis by (simp add: update_collection_def guarded_def)
next
  case (Inr p)
  show ?thesis
  proof (cases "validate_collection body")
    case (Inl e)
    with assms Inr show ?thesis by (simp add: update_collection_def guarded_def)
  next
    case v: (Inr u)
    with assms Inr show ?thesis
      by (auto simp: update_collection_def on_collection_def guarded_def Let_def split: option.splits if_splits)
  qed
qed

lemma update_collection_wf:
  assumes "rag_wf db" "update_collection depts who i body db = (c, db')"
  shows "rag_wf db'"
  using update_collection_changes [OF assms(2)]
proof (elim disjE exE conjE)
  fix u
  let ?c = "collection_of i body" and ?cs = "rg_collections db"
  let ?f = "\<lambda>x. if co_id x = i then ?c else x"
  assume v: "validate_collection body = Inr u" and new: "cn_name body \<notin> co_name ` set (filter (\<lambda>x. co_id x \<noteq> i) ?cs)"
    and db': "db' = db\<lparr>rg_collections := map ?f ?cs\<rparr>"
  have f: "co_id ?c = i" "co_name ?c = cn_name body" by (simp_all add: collection_of_def)
  have new': "co_name z \<noteq> cn_name body" if "z \<in> set ?cs" "co_id z \<noteq> i" for z
  proof
    assume "co_name z = cn_name body"
    then have "cn_name body = co_name z" by simp
    moreover have "co_name z \<in> co_name ` set (filter (\<lambda>x. co_id x \<noteq> i) ?cs)" by (rule imageI) (simp add: that)
    ultimately show False using new by metis
  qed
  have ids: "co_id (?f x) = co_id x" for x by (simp add: f)
  then have same_ids: "map co_id (map ?f ?cs) = map co_id ?cs" by simp
  have names: "distinct (map co_name (map ?f ?cs))"
  proof -
    have "inj_on (co_name \<circ> ?f) (set ?cs)"
    proof (rule inj_onI)
      fix x y assume xy: "x \<in> set ?cs" "y \<in> set ?cs" "(co_name \<circ> ?f) x = (co_name \<circ> ?f) y"
      have inj: "inj_on co_id (set ?cs)" "inj_on co_name (set ?cs)" using assms(1) by (simp_all add: rag_wf_defs distinct_map)
      show "x = y"
      proof (cases "co_id x = i"; cases "co_id y = i")
        assume "co_id x = i" "co_id y = i" then show ?thesis using inj_onD [OF inj(1), of x y] xy by simp
      next
        assume "co_id x = i" "co_id y \<noteq> i" then show ?thesis using new' [of y] xy f by simp
      next
        assume "co_id x \<noteq> i" "co_id y = i" then show ?thesis using new' [of x] xy f by simp
      next
        assume "co_id x \<noteq> i" "co_id y \<noteq> i" then show ?thesis using inj_onD [OF inj(2), of x y] xy by simp
      qed
    qed
    moreover have "distinct ?cs" using assms(1) by (simp add: rag_wf_defs distinct_map)
    ultimately show ?thesis by (simp add: distinct_map)
  qed
  have colls: "collections_wf db'"
    using assms(1) names validate_collection_ok [OF v, of i]
    by (auto simp: collections_wf_def rag_wf_def db' list_all_iff same_ids f simp del: map_map)
  have "co_id ` set (map ?f ?cs) = co_id ` set ?cs" by (metis same_ids list.set_map)
  then have others: "co_id ` set (rg_collections db') = co_id ` set ?cs" "rg_documents db' = rg_documents db"
    "rg_chunks db' = rg_chunks db" "rg_next_document db' = rg_next_document db" by (simp_all add: db')
  have "documents_wf db' \<and> chunks_wf db'"
    using assms(1) unfolding rag_wf_def documents_wf_def chunks_wf_def others by blast
  with colls show ?thesis by (simp add: rag_wf_def)
qed (use assms in simp)

lemma delete_collection_wf:
  assumes "rag_wf db" "delete_collection who i db = (u, db')"
  shows "rag_wf db'"
proof (cases "db' = db")
  case False
  with assms(2) have "i \<notin> dc_collection ` set (rg_documents db)"
    "db' = db\<lparr>rg_collections := filter (\<lambda>x. co_id x \<noteq> i) (rg_collections db)\<rparr>"
    by (auto simp: delete_collection_def on_collection_def guarded_def split: sum.splits option.splits if_splits)
  moreover have "dc_collection d \<in> co_id ` set (filter (\<lambda>x. co_id x \<noteq> i) (rg_collections db))"
    if "d \<in> set (rg_documents db)" for d
  proof -
    have "dc_collection d \<noteq> i" using that \<open>i \<notin> dc_collection ` set (rg_documents db)\<close> by auto
    moreover have "dc_collection d \<in> co_id ` set (rg_collections db)" using that assms(1) by (simp add: rag_wf_defs list_all_iff)
    ultimately show ?thesis by auto
  qed
  moreover have "collections_wf db'"
    using assms(1) calculation(2) by (auto simp: rag_wf_def collections_wf_def distinct_map_filter list_all_iff)
  ultimately show ?thesis using assms(1) by (simp add: rag_wf_def documents_wf_def chunks_wf_def list_all_iff)
qed (use assms in simp)

lemma upload_document_changes:
  assumes "upload_document env now who cid name data subject db = (calls, r, db')"
  shows "db' = db \<or> (\<exists>c d. collection_by_id cid db = Some c \<and> find_upload cid (dc_sha d) db = None \<and>
     dc_id d = rg_next_document db \<and> dc_collection d = cid \<and>
     db' = db\<lparr>rg_documents := rg_documents db @ [d], rg_next_document := Suc (rg_next_document db)\<rparr>)"
  using assms unfolding upload_document_def Let_def
  by (force split: sum.splits option.splits prod.splits)

lemma upload_document_wf:
  assumes "rag_wf db" "upload_document env now who cid name data subject db = (calls, r, db')"
  shows "rag_wf db'"
  using upload_document_changes [OF assms(2)]
proof (elim disjE exE conjE)
  fix c d
  assume c: "collection_by_id cid db = Some c" and new: "find_upload cid (dc_sha d) db = None"
    and d: "dc_id d = rg_next_document db" "dc_collection d = cid"
    and db': "db' = db\<lparr>rg_documents := rg_documents db @ [d], rg_next_document := Suc (rg_next_document db)\<rparr>"
  have "cid \<in> co_id ` set (rg_collections db)" using collection_by_idD [OF c] by auto
  moreover have "(cid, dc_sha d) \<notin> (\<lambda>d. (dc_collection d, dc_sha d)) ` set (rg_documents db)"
    using new by (auto simp: find_upload_def find_None_iff)
  ultimately show ?thesis
    using assms(1) by (auto simp: rag_wf_defs db' d list_all_iff less_Suc_eq)
qed (use assms in simp)

lemma status_rows:
  "map dc_id (rg_documents (update_document_status doc s s' db)) = map dc_id (rg_documents db)"
  "map (\<lambda>d. (dc_collection d, dc_sha d)) (rg_documents (update_document_status doc s s' db)) =
     map (\<lambda>d. (dc_collection d, dc_sha d)) (rg_documents db)"
  "rg_collections (update_document_status doc s s' db) = rg_collections db"
  "rg_next_document (update_document_status doc s s' db) = rg_next_document db"
  "rg_next_collection (update_document_status doc s s' db) = rg_next_collection db"
  by (simp_all add: update_document_status_def)

lemma update_status_wf: "rag_wf db \<Longrightarrow> rag_wf (update_document_status doc s s' db)"
proof -
  assume wf: "rag_wf db"
  let ?db' = "update_document_status doc s s' db"
  have ids: "dc_id ` set (rg_documents ?db') = dc_id ` set (rg_documents db)" by (metis status_rows(1) list.set_map)
  have "list_all (\<lambda>d. dc_id d < rg_next_document db \<and> dc_collection d \<in> co_id ` set (rg_collections db)) (rg_documents ?db')"
    using wf by (auto simp: rag_wf_defs list_all_iff update_document_status_def)
  with wf show ?thesis unfolding rag_wf_defs status_rows ids update_document_status_chunks by blast
qed

lemma record_chunks_others [simp]:
  "rg_documents (record_chunks doc cs db) = rg_documents db" "rg_collections (record_chunks doc cs db) = rg_collections db"
  "rg_next_document (record_chunks doc cs db) = rg_next_document db"
  "rg_next_collection (record_chunks doc cs db) = rg_next_collection db"
  by (induction cs arbitrary: db) (simp_all add: record_chunks_simps insert_chunk_def)

lemma record_chunks_wf:
  assumes "rag_wf db" "cs = [] \<or> doc \<in> dc_id ` set (rg_documents db)"
  shows "rag_wf (record_chunks doc cs db)"
proof (cases "cs = []")
  case False
  have "ch_document r \<in> dc_id ` set (rg_documents db)" if "r \<in> set (rg_chunks (record_chunks doc cs db))" for r
    using record_chunks_rows [OF that] assms False by (auto simp: rag_wf_defs list_all_iff chunk_row_of_def)
  with assms record_chunks_unique [of db doc cs] show ?thesis
    by (simp add: rag_wf_def collections_wf_def documents_wf_def chunks_wf_def list_all_iff)
qed (use assms in \<open>simp add: record_chunks_simps\<close>)

lemma ingest_document_wf:
  assumes "rag_wf db" "ingest_document ienv object doc cid filename sens pol db = (icalls, out, db')"
  shows "rag_wf db'"
  using assms
  by (auto simp: ingest_document_def update_status_wf record_chunks_wf split: sum.splits prod.splits if_splits)

lemma keep_rows_wf: "rag_wf db \<Longrightarrow> rag_wf (keep_rows gone db)"
  by (auto simp: rag_wf_defs keep_rows_def distinct_map_filter list_all_iff)

lemma rag_wf_start:
  "rag_wf \<lparr>rg_collections = [], rg_documents = [], rg_chunks = [], rg_next_collection = 1, rg_next_document = 1\<rparr>"
  by (simp add: rag_wf_defs)

lemma delete_each_wf: "rag_wf db \<Longrightarrow> delete_each env ds db = (calls, r, db') \<Longrightarrow> rag_wf db'"
  using delete_each_effect keep_rows_wf by blast

lemma rag_reachable_wf: "rag_reachable db \<Longrightarrow> rag_wf db"
proof (induction rule: rag_reachable.induct)
  case start show ?case by (rule rag_wf_start)
qed (auto intro: create_collection_wf update_collection_wf delete_collection_wf upload_document_wf ingest_document_wf delete_each_wf)

section \<open>Properties\<close>

text \<open>
  The retention purge deletes the expired documents and nothing else. When it ends normally it reports
  exactly the documents past their collection's retention, their rows and chunk rows are gone, all others are
  untouched, and the vectors and the object of each were deleted.
\<close>

theorem purge_deletes_exactly_expired:
  assumes "purge_expired env now db = (calls, Inr ids, db')"
  shows "ids = map dc_id (filter (expired now db) (rg_documents db)) \<and> db' = keep_rows (set ids) db \<and>
     list_all (\<lambda>d. Delete_Vectors (collection_name (dc_collection d)) (dc_id d) \<in> set calls \<and>
       Remove_Object (dv_bucket env) (dc_uri d) \<in> set calls) (filter (expired now db) (rg_documents db))"
  using delete_each_effect [OF assms [unfolded purge_expired_def]] by auto

text \<open>
  A purge that breaks off loses no row before its data. Whatever fails, every row that is gone had its
  vectors and its object deleted first; but the document at which it stopped keeps its rows although the deletion of
  its vectors had already been asked for.
\<close>

theorem purge_breaks_off_after_vectors:
  assumes "purge_expired env now db = (calls, Inl e, db')"
  shows "\<exists>gone d rest. filter (expired now db) (rg_documents db) = gone @ d # rest \<and>
     db' = keep_rows (dc_id ` set gone) db \<and>
     list_all (\<lambda>d. Delete_Vectors (collection_name (dc_collection d)) (dc_id d) \<in> set calls \<and>
       Remove_Object (dv_bucket env) (dc_uri d) \<in> set calls) gone \<and>
     Delete_Vectors (collection_name (dc_collection d)) (dc_id d) \<in> set calls"
proof -
  from delete_each_effect [OF assms [unfolded purge_expired_def]] obtain gone rest where
    g: "filter (expired now db) (rg_documents db) = gone @ rest" "db' = keep_rows (dc_id ` set gone) db"
    "list_all (\<lambda>d. Delete_Vectors (collection_name (dc_collection d)) (dc_id d) \<in> set calls \<and>
       Remove_Object (dv_bucket env) (dc_uri d) \<in> set calls) gone"
    "rest \<noteq> []" "Delete_Vectors (collection_name (dc_collection (hd rest))) (dc_id (hd rest)) \<in> set calls" by auto
  then show ?thesis by (cases rest) auto
qed

text \<open>
  Property C21: the knowledge tables stay consistent. After any sequence of requests, ingestion runs and deletions,
  whatever the stores answer, an upload is stored once per collection, a vector point belongs to at most one chunk
  row, no chunk or document dangles, and a collection of sensitivity \<open>pii\<close> never has the policy that downgrades
  redacted text.
\<close>

theorem knowledge_tables_invariant:
  assumes "rag_reachable db"
  shows "distinct (map (\<lambda>d. (dc_collection d, dc_sha d)) (rg_documents db)) \<and> distinct (map ch_point_id (rg_chunks db)) \<and>
     list_all (\<lambda>c. ch_document c \<in> dc_id ` set (rg_documents db)) (rg_chunks db) \<and>
     list_all (\<lambda>d. dc_collection d \<in> co_id ` set (rg_collections db)) (rg_documents db) \<and>
     list_all (\<lambda>c. co_sensitivity c \<noteq> ''pii'' \<or> co_pii_policy c \<in> {''block'', ''allow-local-only''}) (rg_collections db)"
  using rag_reachable_wf [OF assms]
  by (auto simp: rag_wf_defs list_all_iff collection_ok_def valid_pii_policy_def)

definition demo_docs_env :: docs_env where
  "demo_docs_env = \<lparr>dv_sha = id, dv_bucket = ''b'', dv_has_bucket = Inr True, dv_do = (\<lambda>_. Inr ()),
     dv_commit = (\<lambda>i. if i = 2 then Inl (OtherError ''OperationalError'') else Inr ())\<rparr>"

definition demo_docs :: "nat list \<Rightarrow> rag_db" where
  "demo_docs ids = \<lparr>rg_collections = [\<lparr>co_id = 1, co_name = ''c'', co_dept = None, co_sensitivity = ''internal'', co_pii_policy = ''redact'',
       co_retention_days = Some 30\<rparr>],
     rg_documents = map (\<lambda>i. \<lparr>dc_id = i, dc_collection = 1, dc_uri = ''u'', dc_sha = nat_str i, dc_ocr_status = ''done'', dc_status = ''ready'',
       dc_subject_hash = None, dc_created_at = (if i = 3 then 9000000 else 0)\<rparr>) ids,
     rg_chunks = [], rg_next_collection = 2, rg_next_document = 9\<rparr>"

lemma purge_deletes_exactly_expired_witness:
  "\<exists>db'. db' = keep_rows {1} (demo_docs [1, 3]) \<and> map dc_id (rg_documents db') = [3]"
proof -
  have "fst (snd (purge_expired demo_docs_env 9000000 (demo_docs [1, 3]))) = Inr [1]" by code_simp
  then obtain calls db' where "purge_expired demo_docs_env 9000000 (demo_docs [1, 3]) = (calls, Inr [1], db')" by (metis prod.collapse)
  from purge_deletes_exactly_expired [OF this] show ?thesis by (auto simp: keep_rows_def demo_docs_def)
qed

lemma purge_breaks_off_after_vectors_witness:
  "Delete_Vectors ''fleet_1'' 2 \<in> set (fst (purge_expired demo_docs_env 9000000 (demo_docs [2])))"
proof -
  let ?ds = "filter (expired 9000000 (demo_docs [2])) (rg_documents (demo_docs [2]))"
  have "fst (snd (purge_expired demo_docs_env 9000000 (demo_docs [2]))) = Inl (OtherError ''OperationalError'')" by code_simp
  then obtain calls db' where p: "purge_expired demo_docs_env 9000000 (demo_docs [2]) = (calls, Inl (OtherError ''OperationalError''), db')"
    by (metis prod.collapse)
  have f: "map (\<lambda>d. (dc_id d, collection_name (dc_collection d))) ?ds = [(2, ''fleet_1'')]" by code_simp
  from purge_breaks_off_after_vectors [OF p] obtain gone d rest where ds: "?ds = gone @ d # rest"
    and v: "Delete_Vectors (collection_name (dc_collection d)) (dc_id d) \<in> set calls" by blast
  from f have "dc_id d = 2 \<and> collection_name (dc_collection d) = ''fleet_1''" unfolding ds by (cases gone) auto
  with v show ?thesis by (simp add: p)
qed

lemma knowledge_tables_invariant_witness:
  "let db = snd (create_collection [] (Inr undefined) \<lparr>cn_name = ''cv'', cn_dept = None, cn_sensitivity = ''pii'', cn_retention_days = Some 30,
       cn_pii_policy = ''block''\<rparr> \<lparr>rg_collections = [], rg_documents = [], rg_chunks = [], rg_next_collection = 1, rg_next_document = 1\<rparr>)
   in list_all (\<lambda>c. co_sensitivity c \<noteq> ''pii'' \<or> co_pii_policy c \<in> {''block'', ''allow-local-only''}) (rg_collections db)"
proof -
  let ?r = "create_collection [] (Inr undefined) \<lparr>cn_name = ''cv'', cn_dept = None, cn_sensitivity = ''pii'', cn_retention_days = Some 30,
       cn_pii_policy = ''block''\<rparr> \<lparr>rg_collections = [], rg_documents = [], rg_chunks = [], rg_next_collection = 1, rg_next_document = 1\<rparr>"
  have "rag_reachable (snd ?r)" by (rule rag_reachable.created [OF rag_reachable.start]) (rule prod.collapse [symmetric])
  from knowledge_tables_invariant [OF this] show ?thesis by (simp add: Let_def)
qed

end
