(* ===== verification/Analytics.thy ===== *)
theory Analytics
  imports Agent_Common
begin

text \<open>
  The analytics agent (\<open>agents/analytics\<close>): the semantic layer, one model call that answers with
  SQL or with a clarifying question, and one governed query. The prompt template is the
  parameter \<open>template\<close>, applied to the glossary. \<open>OtherError\<close> names the two exceptions of the
  service; \<open>GovernedToolRefusal\<close> is the refusal of the query tool.
\<close>

record view_spec =
  vw_name :: string
  vw_description :: string
  vw_columns :: "(string \<times> string) list"

type_synonym semantic_layer = "view_spec list"

definition allowlisted_tables :: "semantic_layer \<Rightarrow> string set" where
  "allowlisted_tables layer = vw_name ` set layer"

definition describe_view :: "view_spec \<Rightarrow> string" where
  "describe_view v =
     ''### '' @ vw_name v @ newline @ vw_description v @ newline @ ''Columns:'' @ newline
     @ join newline (map (\<lambda>(col, desc). ''  - '' @ col @ '': '' @ desc) (vw_columns v))"

definition describe :: "semantic_layer \<Rightarrow> string" where
  "describe layer = join (newline @ newline) (map describe_view layer)"

definition default_semantic_layer :: semantic_layer where
  "default_semantic_layer =
     [\<lparr>vw_name = ''fixture_sales'', vw_description = ''One row per sale transaction.'',
       vw_columns = [(''id'', ''surrogate primary key''), (''region'', ''sale region code (TR, DE, US, FR)''),
                     (''amount_usd'', ''sale amount in US dollars''), (''sold_on'', ''date the sale closed'')]\<rparr>,
      \<lparr>vw_name = ''fixture_orders'', vw_description = ''One row per order line, referencing a sale.'',
       vw_columns = [(''id'', ''surrogate primary key''), (''sale_id'', ''foreign key into fixture_sales.id''),
                     (''quantity'', ''units ordered on this line''),
                     (''refunded'', ''true if this order line was refunded'')]\<rparr>]"

text \<open>\<open>ClarificationNeeded\<close> carries the question.\<close>

datatype sql_reply = Sql string | Clarify json

definition read_sql :: "(json \<Rightarrow> string) \<Rightarrow> string \<Rightarrow> sql_reply res" where
  "read_sql rp content =
     (case json_loads (strip_code_fence content) of
        None \<Rightarrow> Inl (ValueError ''model did not return valid JSON'')
      | Some parsed \<Rightarrow>
          res_bind (py_in ''clarify'' parsed) (\<lambda>c.
            if c then res_bind (py_index parsed ''clarify'') (\<lambda>q. Inr (Clarify q))
            else res_bind (py_in ''sql'' parsed) (\<lambda>s.
              if s then res_bind (str_field rp parsed ''sql'') (\<lambda>q. Inr (Sql q))
              else Inl (ValueError ''model response missing both sql and clarify''))))"

definition generate_sql ::
  "agent_env \<Rightarrow> (string \<Rightarrow> string) \<Rightarrow> string \<Rightarrow> string \<Rightarrow> semantic_layer \<Rightarrow> (agent_call, sql_reply) eff" where
  "generate_sql env template sensitivity question layer =
     eff_bind (ask env sensitivity False [(''system'', template (describe layer)), (''user'', question)])
       (\<lambda>content. eff_lift (read_sql (ae_repr env) content))"

datatype analytics_outcome = Rows string json | Clarification json | Refusal string

definition ask_analytics ::
  "agent_env \<Rightarrow> (string \<Rightarrow> string) \<Rightarrow> string \<Rightarrow> string \<Rightarrow> semantic_layer \<Rightarrow> (agent_call, analytics_outcome) eff" where
  "ask_analytics env template sens question layer =
     eff_bind (generate_sql env template sens question layer)
       (\<lambda>r. case r of
              Clarify q \<Rightarrow> eff_return (Clarification q)
            | Sql sql \<Rightarrow>
                eff_try (eff_bind (use_tool env ''pg_ro.query'' [(''sql'', JStr sql)])
                           (\<lambda>rows. eff_return (Rows sql rows)))
                  (\<lambda>e. case e of GovernedToolRefusal m \<Rightarrow> Some (Refusal m) | _ \<Rightarrow> None))"

lemma query_refused:
  "ae_tool env tool args = Inl (GovernedToolRefusal m) \<Longrightarrow>
     outcome (eff_try (eff_bind (use_tool env tool args) k)
       (\<lambda>e. case e of GovernedToolRefusal m \<Rightarrow> Some (f m) | _ \<Rightarrow> None)) = Inr (f m)"
  by (simp add: outcome_eff_bind eff_try_def use_tool_def)

lemma trace_query [simp]:
  "trace (eff_bind (use_tool env tool args) (\<lambda>r. eff_return (g r))) = [Use tool args]"
  by (simp add: trace_eff_bind split: sum.split)

text \<open>
  A question never runs a guessed query. The service makes one model call, and then
  at most one query, which is the SQL the model gave, word for word; when the model asks for a
  clarification no query is made, and a refusal of the governed tool comes back as a refusal.
\<close>

theorem ask_analytics_one_query:
  "\<exists>qs. trace (ask_analytics env template sens question layer)
      = Ask sens False [(''system'', template (describe layer)), (''user'', question)] # qs
    \<and> (case outcome (generate_sql env template sens question layer) of
         Inr (Sql sql) \<Rightarrow> qs = [Use ''pg_ro.query'' [(''sql'', JStr sql)]]
       | _ \<Rightarrow> qs = [])
    \<and> (\<forall>sql m. outcome (generate_sql env template sens question layer) = Inr (Sql sql)
          \<and> ae_tool env ''pg_ro.query'' [(''sql'', JStr sql)] = Inl (GovernedToolRefusal m)
        \<longrightarrow> outcome (ask_analytics env template sens question layer) = Inr (Refusal m))"
proof -
  let ?g = "generate_sql env template sens question layer"
  have tr: "trace ?g = [Ask sens False [(''system'', template (describe layer)), (''user'', question)]]"
    by (simp add: generate_sql_def trace_eff_bind split: sum.split)
  show ?thesis
  proof (cases "outcome ?g")
    case (Inl e)
    with tr show ?thesis by (simp add: ask_analytics_def trace_eff_bind)
  next
    case (Inr r)
    with tr show ?thesis
      by (cases r) (auto simp: ask_analytics_def trace_eff_bind outcome_eff_bind query_refused split: sum.split)
  qed
qed

definition demo_analytics_env :: agent_env where
  "demo_analytics_env = \<lparr>ae_prompt = [], ae_model = (\<lambda>_ _ _. Inr (''{'' @ qt ''sql'' @ '':'' @ qt ''DROP TABLE x'' @ ''}'')),
     ae_tool = (\<lambda>_ _. Inl (GovernedToolRefusal ''unsafe'')), ae_kill = None, ae_repr = (\<lambda>_. [])\<rparr>"

lemma ask_analytics_one_query_witness:
  "outcome (ask_analytics demo_analytics_env (\<lambda>g. g) ''internal'' ''q'' default_semantic_layer) = Inr (Refusal ''unsafe'')"
proof -
  have g: "outcome (generate_sql demo_analytics_env (\<lambda>g. g) ''internal'' ''q'' default_semantic_layer)
      = Inr (Sql ''DROP TABLE x'')" by code_simp
  have t: "ae_tool demo_analytics_env ''pg_ro.query'' [(''sql'', JStr ''DROP TABLE x'')]
      = Inl (GovernedToolRefusal ''unsafe'')" by (simp add: demo_analytics_env_def)
  from ask_analytics_one_query [of demo_analytics_env "\<lambda>g. g" "''internal''" "''q''" default_semantic_layer] g t
  show ?thesis by blast
qed

end
