(* ===== verification/Chat.thy ===== *)
theory Chat
  imports Rag_Documents Analytics Kill_Switch
begin

text \<open>
  Chat (\<open>apps/api/fleet_api/routers/chat.py\<close>): conversations, the streamed reply on its three paths, and feedback.
  The paths are the models of the analytics agent, of the knowledge query and of the gateway client; the kill switch,
  the tracing service and the ids of traces are parameters. A reply is the events it sends, the calls it makes, what
  ends it, and the tables it leaves.
\<close>

section \<open>Tables\<close>

record conversation_row =
  cv_id :: nat
  cv_agent :: nat
  cv_user :: nat
  cv_subject_hash :: "string option"

record message_row =
  ms_id :: nat
  ms_conv :: nat
  ms_role :: string
  ms_content :: string
  ms_citations :: "rag_citation list"
  ms_trace :: "string option"

record feedback_row =
  fb_id :: nat
  fb_message :: nat
  fb_score :: int
  fb_reason :: "string option"

record chat_db =
  cd_access :: access_db
  cd_agents :: "agent_row list"
  cd_rag :: rag_db
  cd_conversations :: "conversation_row list"
  cd_messages :: "message_row list"
  cd_feedback :: "feedback_row list"
  cd_next_conversation :: nat
  cd_next_message :: nat
  cd_next_feedback :: nat

section \<open>Events, calls, environment\<close>

datatype sse =
    Sse_Token string
  | Sse_Citations "rag_citation list"
  | Sse_Error string
  | Sse_Done nat string

text \<open>\<open>From_Client\<close> carries the switch that keeps the turn out of the tracing service.\<close>

datatype chat_call =
    Log_Message nat string
  | From_Analytics agent_call
  | From_Rag query_call
  | From_Client bool llm_event
  | Redact_Trace string
  | Push_Score string int "string option"

record chat_env =
  ce_sha :: "string \<Rightarrow> string"
  ce_paused :: "string \<Rightarrow> bool"
  ce_trace_id :: string
  ce_agent :: agent_env
  ce_template :: "string \<Rightarrow> string"
  ce_layer :: semantic_layer
  ce_query :: query_env
  ce_client :: client

section \<open>Conversations\<close>

definition list_chat_agents :: "principal res \<Rightarrow> chat_db \<Rightarrow> agent_row list res" where
  "list_chat_agents who db =
     res_bind who (\<lambda>_. Inr (sort_key ag_id (filter (\<lambda>a. ag_status a = ''active'') (cd_agents db))))"

definition create_conversation ::
  "chat_env \<Rightarrow> principal res \<Rightarrow> nat \<Rightarrow> chat_db \<Rightarrow> conversation_row res \<times> chat_db" where
  "create_conversation env who aid = guarded who (\<lambda>p db.
     case agent_by_id (cd_agents db) aid of
       None \<Rightarrow> (Inl (HTTPException 404 ''agent not found''), db)
     | Some a \<Rightarrow>
         (let (user, acc) = get_or_create_user (ce_sha env) (pr_sub p) None None (cd_access db);
              row = \<lparr>cv_id = cd_next_conversation db, cv_agent = ag_id a, cv_user = u_id user,
                     cv_subject_hash = Some (subject_hash (ce_sha env) (pr_sub p))\<rparr>
          in (Inr row, db\<lparr>cd_access := acc, cd_conversations := cd_conversations db @ [row],
                         cd_next_conversation := Suc (cd_next_conversation db)\<rparr>)))"

text \<open>The check of section 8 of the design: every collection of the agent, in the order of the query.\<close>

fun collections_readable :: "sensitivity \<Rightarrow> string \<Rightarrow> collection_row list \<Rightarrow> unit res" where
  "collections_readable agent_level sens [] = Inr ()"
| "collections_readable agent_level sens (c # cs) =
     res_bind (parse_sensitivity (Name (co_sensitivity c))) (\<lambda>level.
       if agent_level < level
       then Inl (HTTPException 403 (''agent sensitivity '' @ sens @ '' cannot read collection '' @ co_name c @
              '' (sensitivity '' @ co_sensitivity c @ '')''))
       else collections_readable agent_level sens cs)"

definition assert_agent_may_read :: "rag_db \<Rightarrow> agent_row \<Rightarrow> unit res" where
  "assert_agent_may_read db a =
     (if ag_collection_ids a = [] then Inr ()
      else res_bind (parse_sensitivity (Name (ag_sensitivity a))) (\<lambda>level.
        collections_readable level (ag_sensitivity a)
          (filter (\<lambda>c. co_id c \<in> set (ag_collection_ids a)) (rg_collections db))))"

section \<open>The three paths\<close>

definition map_calls :: "('a \<Rightarrow> 'b) \<Rightarrow> ('a, 'r) eff \<Rightarrow> ('b, 'r) eff" where
  "map_calls f m = (map f (trace m), outcome m)"

text \<open>A fenced block with the statement and the number of rows.\<close>

definition analytics_text :: "agent_env \<Rightarrow> analytics_outcome \<Rightarrow> string" where
  "analytics_text env out =
     (case out of
        Rows sql rows \<Rightarrow>
          fence @ ''sql'' @ newline @ sql @ newline @ fence @ newline @ newline @
          nat_str (case rows of JList rs \<Rightarrow> length rs | _ \<Rightarrow> 0) @ '' row(s) returned.''
      | Clarification q \<Rightarrow> py_str (ae_repr env) q
      | Refusal m \<Rightarrow> ''I can't run that query: '' @ m)"

definition analytics_reply :: "chat_env \<Rightarrow> agent_row \<Rightarrow> string \<Rightarrow> (chat_call, string) eff" where
  "analytics_reply env a content =
     map_calls From_Analytics
       (eff_bind (ask_analytics (ce_agent env) (ce_template env) (ag_sensitivity a) content (ce_layer env)) (\<lambda>out.
          eff_return (analytics_text (ce_agent env) out)))"

text \<open>The searcher over the collections of the agent: all hits, best score first, the first \<open>top_k\<close>.\<close>

fun search_all :: "query_env \<Rightarrow> string list \<Rightarrow> searcher" where
  "search_all env [] vec top_k keyword = eff_return []"
| "search_all env (name # names) vec top_k keyword =
     eff_bind (search_hybrid env name vec top_k keyword) (\<lambda>hits.
     eff_bind (search_all env names vec top_k keyword) (\<lambda>rest. eff_return (hits @ rest)))"

definition agent_searcher :: "query_env \<Rightarrow> nat list \<Rightarrow> searcher" where
  "agent_searcher env ids vec top_k keyword =
     eff_bind (search_all env (map collection_name ids) vec top_k keyword) (\<lambda>hits.
       eff_return (take top_k (sort_key (\<lambda>h. - ht_score h) hits)))"

definition rag_reply :: "chat_env \<Rightarrow> agent_row \<Rightarrow> string \<Rightarrow> (chat_call, string \<times> rag_citation list) eff" where
  "rag_reply env a content =
     map_calls From_Rag
       (eff_bind (answer_query (ce_query env) (agent_searcher (ce_query env) (ag_collection_ids a)) content
           (agent_query_config 5) (ag_sensitivity a) None) (\<lambda>ans. eff_return (an_text ans, an_citations ans)))"

definition plain_messages :: "string \<Rightarrow> msg list" where
  "plain_messages content = [(''system'', ''You are a helpful assistant.''), (''user'', content)]"

definition plain_meta :: "chat_env \<Rightarrow> conversation_row \<Rightarrow> agent_row \<Rightarrow> call_meta" where
  "plain_meta env conv a =
     \<lparr>cm_dept_id = None, cm_agent_id = Some (nat_str (ag_id a)), cm_user_id = Some (nat_str (cv_user conv)),
      cm_trace_id = Some (ce_trace_id env)\<rparr>"

definition plain_reply :: "chat_env \<Rightarrow> conversation_row \<Rightarrow> agent_row \<Rightarrow> string \<Rightarrow> bool \<Rightarrow> (chat_call, unit) eff" where
  "plain_reply env conv a content redact_langfuse =
     map_calls (From_Client redact_langfuse)
       (client_reasoning_stream (ce_client env) (plain_messages content) (Name (ag_sensitivity a)) False (plain_meta env conv a))"

text \<open>The deltas the stream yields, in order.\<close>

fun deltas :: "chat_call list \<Rightarrow> string list" where
  "deltas [] = []"
| "deltas (From_Client _ (Yield d) # cs) = d # deltas cs"
| "deltas (_ # cs) = deltas cs"

text \<open>
  What a path produced: the tokens it sent, its calls, and its text with citations or the error that ended it.
\<close>

definition reply_of ::
  "chat_env \<Rightarrow> conversation_row \<Rightarrow> agent_row \<Rightarrow> string \<Rightarrow> bool \<Rightarrow>
     sse list \<times> chat_call list \<times> (string \<times> rag_citation list) res" where
  "reply_of env conv a content redact_langfuse =
     (if ag_name a = ''analytics'' then
        (let r = analytics_reply env a content in
         case outcome r of
           Inl e \<Rightarrow> ([], trace r, Inl e)
         | Inr text \<Rightarrow> ([Sse_Token text], trace r, Inr (text, [])))
      else if ag_collection_ids a \<noteq> [] then
        (let r = rag_reply env a content in
         case outcome r of
           Inl e \<Rightarrow> ([], trace r, Inl e)
         | Inr (text, cs) \<Rightarrow> ([Sse_Token text], trace r, Inr (text, cs)))
      else
        (let r = plain_reply env conv a content redact_langfuse; ds = deltas (trace r) in
         (map Sse_Token ds, trace r,
          case outcome r of Inl e \<Rightarrow> Inl e | Inr _ \<Rightarrow> Inr (concat ds, []))))"

section \<open>Messages\<close>

record chat_reply =
  re_events :: "sse list"
  re_calls :: "chat_call list"
  re_ended :: "unit res"

definition add_message :: "nat \<Rightarrow> string \<Rightarrow> string \<Rightarrow> rag_citation list \<Rightarrow> string option \<Rightarrow> chat_db \<Rightarrow> chat_db" where
  "add_message conv role content cs tr db =
     db\<lparr>cd_messages := cd_messages db @ [\<lparr>ms_id = cd_next_message db, ms_conv = conv, ms_role = role, ms_content = content,
          ms_citations = cs, ms_trace = tr\<rparr>],
        cd_next_message := Suc (cd_next_message db)\<rparr>"

text \<open>
  Only a gateway error is turned into an event, and the user's message is then committed; any other exception ends the
  stream and rolls the message back.
\<close>

definition stream_reply ::
  "chat_env \<Rightarrow> conversation_row \<Rightarrow> agent_row \<Rightarrow> string \<Rightarrow> chat_db \<Rightarrow> chat_reply \<times> chat_db" where
  "stream_reply env conv a content db =
     (let pii = scrub content;
          log = Log_Message (cv_id conv) (sr_text pii);
          db1 = add_message (cv_id conv) ''user'' content [] None db
      in case reply_of env conv a content (sr_found pii) of
           (events, calls, Inl (GatewayError m)) \<Rightarrow>
             (\<lparr>re_events = events @ [Sse_Error m], re_calls = log # calls, re_ended = Inr ()\<rparr>, db1)
         | (events, calls, Inl e) \<Rightarrow> (\<lparr>re_events = events, re_calls = log # calls, re_ended = Inl e\<rparr>, db)
         | (events, calls, Inr (text, cs)) \<Rightarrow>
             (\<lparr>re_events = events @ [Sse_Citations cs, Sse_Done (cd_next_message db1) (ce_trace_id env)],
               re_calls = log # calls @ (if sr_found pii then [Redact_Trace (ce_trace_id env)] else []), re_ended = Inr ()\<rparr>,
              add_message (cv_id conv) ''assistant'' text cs (Some (ce_trace_id env)) db1))"

definition send_message ::
  "chat_env \<Rightarrow> principal res \<Rightarrow> nat \<Rightarrow> string \<Rightarrow> chat_db \<Rightarrow> chat_reply res \<times> chat_db" where
  "send_message env who cid content = guarded who (\<lambda>p db.
     case find (\<lambda>c. cv_id c = cid) (cd_conversations db) of
       None \<Rightarrow> (Inl (HTTPException 404 ''conversation not found''), db)
     | Some conv \<Rightarrow>
         (let (user, acc) = get_or_create_user (ce_sha env) (pr_sub p) None None (cd_access db) in
          if cv_user conv \<noteq> u_id user then (Inl (HTTPException 403 ''not your conversation''), db)
          else (case agent_by_id (cd_agents db) (cv_agent conv) of
                  None \<Rightarrow> (Inl (HTTPException 404 ''agent not found''), db)
                | Some a \<Rightarrow>
                    if ag_status a = ''paused'' \<or> ce_paused env (ag_name a)
                    then (Inl (HTTPException 409 ''agent is paused''), db)
                    else (case assert_agent_may_read (cd_rag db) a of
                            Inl e \<Rightarrow> (Inl e, db)
                          | Inr _ \<Rightarrow>
                              (case stream_reply env conv a content db of
                                 (reply, db') \<Rightarrow> (Inr reply, db'\<lparr>cd_access := acc\<rparr>))))))"

section \<open>Feedback\<close>

definition submit_feedback ::
  "principal res \<Rightarrow> nat \<Rightarrow> int \<Rightarrow> string option \<Rightarrow> chat_db \<Rightarrow> (chat_call list \<times> nat) res \<times> chat_db" where
  "submit_feedback who mid score reason = guarded who (\<lambda>_ db.
     if score \<noteq> 1 \<and> score \<noteq> -1 then (Inl (HTTPException 422 ''score must be 1 or -1''), db)
     else (case find (\<lambda>m. ms_id m = mid) (cd_messages db) of
             None \<Rightarrow> (Inl (HTTPException 404 ''message not found''), db)
           | Some m \<Rightarrow>
               (let row = \<lparr>fb_id = cd_next_feedback db, fb_message = mid, fb_score = score, fb_reason = reason\<rparr>
                in (Inr (case ms_trace m of Some (c # t) \<Rightarrow> [Push_Score (c # t) score reason] | _ \<Rightarrow> [], fb_id row),
                    db\<lparr>cd_feedback := cd_feedback db @ [row], cd_next_feedback := Suc (cd_next_feedback db)\<rparr>))))"

section \<open>What a reply leaves\<close>

fun sse_text :: "sse list \<Rightarrow> string" where
  "sse_text [] = []"
| "sse_text (Sse_Token d # es) = d @ sse_text es"
| "sse_text (_ # es) = sse_text es"

lemma sse_text_append [simp]: "sse_text (es @ fs) = sse_text es @ sse_text fs"
  by (induction es rule: sse_text.induct) simp_all

lemma sse_text_tokens [simp]: "sse_text (map Sse_Token ds) = concat ds"
  by (induction ds) simp_all

lemma reply_of_text: "reply_of env conv a content red = (events, calls, Inr (t, cs)) \<Longrightarrow> sse_text events = t"
  by (auto simp: reply_of_def Let_def split: if_splits sum.splits)

definition user_turn :: "conversation_row \<Rightarrow> string \<Rightarrow> chat_db \<Rightarrow> message_row" where
  "user_turn conv content db =
     \<lparr>ms_id = cd_next_message db, ms_conv = cv_id conv, ms_role = ''user'', ms_content = content, ms_citations = [], ms_trace = None\<rparr>"

definition assistant_turn :: "chat_env \<Rightarrow> conversation_row \<Rightarrow> string \<Rightarrow> rag_citation list \<Rightarrow> chat_db \<Rightarrow> message_row" where
  "assistant_turn env conv t cs db =
     \<lparr>ms_id = Suc (cd_next_message db), ms_conv = cv_id conv, ms_role = ''assistant'', ms_content = t, ms_citations = cs,
      ms_trace = Some (ce_trace_id env)\<rparr>"

text \<open>How a stream ends: with an answer, with an error event, or broken off.\<close>

definition answered :: "chat_env \<Rightarrow> conversation_row \<Rightarrow> string \<Rightarrow> chat_db \<Rightarrow> chat_reply \<Rightarrow> message_row list \<Rightarrow> bool" where
  "answered env conv content db reply rows \<longleftrightarrow>
     (\<exists>events cs. re_events reply = events @ [Sse_Citations cs, Sse_Done (Suc (cd_next_message db)) (ce_trace_id env)] \<and>
        re_ended reply = Inr () \<and>
        rows = cd_messages db @ [user_turn conv content db, assistant_turn env conv (sse_text events) cs db])"

definition errored :: "conversation_row \<Rightarrow> string \<Rightarrow> chat_db \<Rightarrow> chat_reply \<Rightarrow> message_row list \<Rightarrow> bool" where
  "errored conv content db reply rows \<longleftrightarrow>
     (\<exists>events m. re_events reply = events @ [Sse_Error m]) \<and> re_ended reply = Inr () \<and>
     rows = cd_messages db @ [user_turn conv content db]"

definition broken_off :: "chat_db \<Rightarrow> chat_reply \<Rightarrow> message_row list \<Rightarrow> bool" where
  "broken_off db reply rows \<longleftrightarrow>
     (\<exists>e. re_ended reply = Inl e \<and> (\<forall>m. e \<noteq> GatewayError m)) \<and> rows = cd_messages db"

lemma stream_reply_cases:
  assumes "stream_reply env conv a content db = (reply, db')"
  shows "answered env conv content db reply (cd_messages db') \<or> errored conv content db reply (cd_messages db') \<or>
     broken_off db reply (cd_messages db')"
proof -
  obtain events calls r where r: "reply_of env conv a content (sr_found (scrub content)) = (events, calls, r)"
    by (cases "reply_of env conv a content (sr_found (scrub content))") auto
  show ?thesis
  proof (cases r)
    case (Inl e)
    have "errored conv content db reply (cd_messages db') \<or> broken_off db reply (cd_messages db')"
      using assms r Inl
      by (cases e) (auto simp: stream_reply_def Let_def errored_def broken_off_def add_message_def user_turn_def)
    then show ?thesis by blast
  next
    case (Inr tc)
    obtain t cs where tc: "tc = (t, cs)" by (cases tc)
    have "sse_text events = t" using reply_of_text r Inr tc by blast
    then have "answered env conv content db reply (cd_messages db')"
      unfolding answered_def using assms r Inr tc
      by (intro exI [of _ events] exI [of _ cs])
        (auto simp: stream_reply_def Let_def add_message_def user_turn_def assistant_turn_def)
    then show ?thesis by blast
  qed
qed

lemma stream_reply_others:
  assumes "stream_reply env conv a content db = (reply, db')"
  shows "cd_conversations db' = cd_conversations db \<and> cd_agents db' = cd_agents db \<and> cd_rag db' = cd_rag db \<and>
     cd_feedback db' = cd_feedback db"
  using assms by (auto simp: stream_reply_def Let_def add_message_def split: prod.splits sum.splits exn.splits)

section \<open>What the knowledge path searches\<close>

lemma search_all_names:
  "c \<in> set (trace (search_all env names vec k w)) \<Longrightarrow> \<exists>name \<in> set names. \<exists>v n f. c = Q_Search name v n f"
  by (induction names) (auto simp: set_trace_eff_bind search_hybrid_def Let_def split: sum.splits)

lemma attempts_reason:
  "c \<in> set (trace (attempts (generate env sens q hits) hits n fuel)) \<Longrightarrow> \<exists>msgs. c = Q_Reason sens msgs"
  by (induction fuel arbitrary: n)
    (auto simp: set_trace_eff_bind generate_def Let_def split: sum.splits option.splits)

lemma answer_query_calls:
  assumes "c \<in> set (trace (answer_query env (agent_searcher env ids) q config sens w))"
  shows "(\<exists>ts. c = Q_Embed sens ts) \<or> (\<exists>i \<in> set ids. \<exists>v n f. c = Q_Search (collection_name i) v n f) \<or> (\<exists>msgs. c = Q_Reason sens msgs)"
proof -
  have search: "\<exists>i \<in> set ids. \<exists>v n f. c = Q_Search (collection_name i) v n f"
    if "c \<in> set (trace (retrieve (agent_searcher env ids) vec config w))" for vec
    using that search_all_names [of c env "map collection_name ids"]
    by (auto simp: retrieve_def agent_searcher_def set_trace_eff_bind outcome_eff_bind split: sum.splits)
  have "(\<exists>ts. c = Q_Embed sens ts) \<or> (\<exists>vec. c \<in> set (trace (retrieve (agent_searcher env ids) vec config w))) \<or>
      (\<exists>hits. c \<in> set (trace (build_answer hits (generate env sens q hits) 2)))"
    using assms by (auto simp: answer_query_def set_trace_eff_bind split: sum.splits list.splits)
  then show ?thesis
  proof (elim disjE exE)
    fix hits assume "c \<in> set (trace (build_answer hits (generate env sens q hits) 2))"
    then have "hits \<noteq> []" "c \<in> set (trace (attempts (generate env sens q hits) hits 0 2))"
      by (simp_all add: build_answer_def split: if_splits)
    with attempts_reason show ?thesis by blast
  qed (use search in blast)+
qed

lemma collections_readable_le:
  assumes "collections_readable lv sens cs = Inr u" "c \<in> set cs"
  shows "\<exists>l. parse_sensitivity (Name (co_sensitivity c)) = Inr l \<and> l \<le> lv"
  using assms
proof (induction cs)
  case (Cons d cs)
  then obtain l where "parse_sensitivity (Name (co_sensitivity d)) = Inr l" "\<not> lv < l" "collections_readable lv sens cs = Inr u"
    by (auto split: if_splits)
  with Cons show ?case by (auto simp: not_less)
qed simp

lemma assert_agent_may_read_le:
  assumes "assert_agent_may_read rdb a = Inr u" "c \<in> set (rg_collections rdb)" "co_id c \<in> set (ag_collection_ids a)"
  shows "\<exists>l l'. parse_sensitivity (Name (co_sensitivity c)) = Inr l \<and> parse_sensitivity (Name (ag_sensitivity a)) = Inr l' \<and> l \<le> l'"
proof -
  from assms(1,3) obtain l' where l': "parse_sensitivity (Name (ag_sensitivity a)) = Inr l'"
    "collections_readable l' (ag_sensitivity a) (filter (\<lambda>c. co_id c \<in> set (ag_collection_ids a)) (rg_collections rdb)) = Inr u"
    by (auto simp: assert_agent_may_read_def split: if_splits)
  from collections_readable_le [OF l'(2), of c] assms(2,3) l'(1) show ?thesis by simp
qed

lemma reply_of_rag_calls:
  assumes "reply_of env conv a content red = (events, calls, r)" "From_Rag q \<in> set calls"
  shows "q \<in> set (trace (answer_query (ce_query env) (agent_searcher (ce_query env) (ag_collection_ids a)) content
      (agent_query_config 5) (ag_sensitivity a) None))"
  using assms
  by (auto simp: reply_of_def Let_def analytics_reply_def rag_reply_def plain_reply_def map_calls_def set_trace_eff_bind
      split: if_splits sum.splits prod.splits)

lemma stream_reply_rag_calls:
  assumes "stream_reply env conv a content db = (reply, db')" "From_Rag q \<in> set (re_calls reply)"
  shows "q \<in> set (trace (answer_query (ce_query env) (agent_searcher (ce_query env) (ag_collection_ids a)) content
      (agent_query_config 5) (ag_sensitivity a) None))"
proof -
  obtain events calls r where r: "reply_of env conv a content (sr_found (scrub content)) = (events, calls, r)"
    by (cases "reply_of env conv a content (sr_found (scrub content))") auto
  have "From_Rag q \<in> set calls"
    using assms r by (auto simp: stream_reply_def Let_def split: sum.splits exn.splits prod.splits if_splits)
  with reply_of_rag_calls [OF r] show ?thesis .
qed

section \<open>Properties\<close>

text \<open>
  Property C36: a chat turn ends in one of three ways. Either the answer was streamed, and the stored assistant
  message is exactly the streamed tokens with the citations sent and the id announced; or the gateway failed, the
  client got an error event and only the user's message is stored; or another error - a spent budget, a refused
  sensitivity - broke the stream off without an event, and nothing of the turn is stored.
\<close>

theorem chat_turn_outcomes:
  assumes "send_message env who cid content db = (Inr reply, db')"
  shows "\<exists>conv. find (\<lambda>c. cv_id c = cid) (cd_conversations db) = Some conv \<and>
     (answered env conv content db reply (cd_messages db') \<or> errored conv content db reply (cd_messages db') \<or>
      broken_off db reply (cd_messages db'))"
proof -
  from assms obtain p conv a db1 acc where "find (\<lambda>c. cv_id c = cid) (cd_conversations db) = Some conv"
    "stream_reply env conv a content db = (reply, db1)" "db' = db1\<lparr>cd_access := acc\<rparr>"
    by (auto simp: send_message_def guarded_def Let_def split: sum.splits option.splits prod.splits if_splits)
  with stream_reply_cases [of env conv a content db reply db1] show ?thesis by auto
qed

text \<open>
  Property C18: a turn is answered only for the owner of the conversation and by an agent that is not paused; and the
  knowledge path searches only the agent's own collections, none of them classified above the agent, and asks the
  models at the agent's classification, so never below that of a text it retrieved.
\<close>

theorem chat_respects_ownership_and_classification:
  assumes "send_message env who cid content db = (Inr reply, db')"
  shows "\<exists>p conv a. who = Inr p \<and> find (\<lambda>c. cv_id c = cid) (cd_conversations db) = Some conv \<and>
     cv_user conv = u_id (fst (get_or_create_user (ce_sha env) (pr_sub p) None None (cd_access db))) \<and>
     agent_by_id (cd_agents db) (cv_agent conv) = Some a \<and> ag_status a \<noteq> ''paused'' \<and> \<not> ce_paused env (ag_name a) \<and>
     list_all (\<lambda>c. case c of
         From_Rag (Q_Search name _ _ _) \<Rightarrow> name \<in> collection_name ` set (ag_collection_ids a)
       | From_Rag (Q_Reason s _) \<Rightarrow> s = ag_sensitivity a
       | From_Rag (Q_Embed s _) \<Rightarrow> s = ag_sensitivity a
       | _ \<Rightarrow> True) (re_calls reply) \<and>
     list_all (\<lambda>c. co_id c \<notin> set (ag_collection_ids a) \<or>
       (\<exists>l l'. parse_sensitivity (Name (co_sensitivity c)) = Inr l \<and> parse_sensitivity (Name (ag_sensitivity a)) = Inr l' \<and> l \<le> l'))
       (rg_collections (cd_rag db))"
proof -
  from assms obtain p conv a db1 acc u where p: "who = Inr p" "find (\<lambda>c. cv_id c = cid) (cd_conversations db) = Some conv"
    "cv_user conv = u_id (fst (get_or_create_user (ce_sha env) (pr_sub p) None None (cd_access db)))"
    "agent_by_id (cd_agents db) (cv_agent conv) = Some a" "ag_status a \<noteq> ''paused''" "\<not> ce_paused env (ag_name a)"
    and read: "assert_agent_may_read (cd_rag db) a = Inr u"
    and st: "stream_reply env conv a content db = (reply, db1)"
    by (auto simp: send_message_def guarded_def Let_def split: sum.splits option.splits prod.splits if_splits)
  have "q \<in> set (trace (answer_query (ce_query env) (agent_searcher (ce_query env) (ag_collection_ids a)) content
      (agent_query_config 5) (ag_sensitivity a) None))" if "From_Rag q \<in> set (re_calls reply)" for q
    using stream_reply_rag_calls [OF st that] .
  then have "list_all (\<lambda>c. case c of
         From_Rag (Q_Search name _ _ _) \<Rightarrow> name \<in> collection_name ` set (ag_collection_ids a)
       | From_Rag (Q_Reason s _) \<Rightarrow> s = ag_sensitivity a
       | From_Rag (Q_Embed s _) \<Rightarrow> s = ag_sensitivity a
       | _ \<Rightarrow> True) (re_calls reply)"
    unfolding list_all_iff by (auto split: chat_call.splits query_call.splits dest!: answer_query_calls)
  moreover have "list_all (\<lambda>c. co_id c \<notin> set (ag_collection_ids a) \<or>
       (\<exists>l l'. parse_sensitivity (Name (co_sensitivity c)) = Inr l \<and> parse_sensitivity (Name (ag_sensitivity a)) = Inr l' \<and> l \<le> l'))
       (rg_collections (cd_rag db))"
    using assert_agent_may_read_le [OF read] by (auto simp: list_all_iff)
  ultimately show ?thesis using p by blast
qed

section \<open>An example\<close>

definition demo_chat_env :: chat_env where
  "demo_chat_env = \<lparr>ce_sha = id, ce_paused = (\<lambda>_. False), ce_trace_id = ''t'', ce_agent = demo_analytics_env, ce_template = id,
     ce_layer = default_semantic_layer, ce_query = demo_query_env, ce_client = undefined\<rparr>"

definition demo_agent :: agent_row where
  "demo_agent = \<lparr>ag_id = 1, ag_name = ''support'', ag_dept_id = None, ag_status = ''active'', ag_reasoning_model = [],
     ag_utility_model = [], ag_sensitivity = ''internal'', ag_guardrail_policy_id = None, ag_semantic_cache = False,
     ag_semantic_cache_threshold = 0, ag_max_context_tokens = 1, ag_collection_ids = [1]\<rparr>"

definition demo_chat_db :: chat_db where
  "demo_chat_db =
     \<lparr>cd_access = \<lparr>ad_users = [\<lparr>u_id = 1, u_kc_sub = ''ada'', u_email_hash = [], u_display_name = [], u_dept_id = None, u_status = ''active''\<rparr>],
        ad_roles = [], ad_keys = [], ad_departments = [], ad_next_user = 2, ad_next_role = 1, ad_next_key = 1\<rparr>,
      cd_agents = [demo_agent], cd_rag = demo_docs [1],
      cd_conversations = [\<lparr>cv_id = 1, cv_agent = 1, cv_user = 1, cv_subject_hash = None\<rparr>],
      cd_messages = [], cd_feedback = [], cd_next_conversation = 2, cd_next_message = 1, cd_next_feedback = 1\<rparr>"

lemma demo_turn:
  "\<exists>reply db'. send_message demo_chat_env (Inr \<lparr>pr_sub = ''ada'', pr_roles = {}\<rparr>) 1 ''hi'' demo_chat_db = (Inr reply, db')"
proof -
  let ?r = "send_message demo_chat_env (Inr \<lparr>pr_sub = ''ada'', pr_roles = {}\<rparr>) 1 ''hi'' demo_chat_db"
  have "\<not> isl (fst ?r)" by code_simp
  then show ?thesis by (cases ?r; cases "fst ?r") auto
qed

lemma chat_turn_outcomes_witness:
  "\<exists>conv reply db'. send_message demo_chat_env (Inr \<lparr>pr_sub = ''ada'', pr_roles = {}\<rparr>) 1 ''hi'' demo_chat_db = (Inr reply, db') \<and>
     (answered demo_chat_env conv ''hi'' demo_chat_db reply (cd_messages db') \<or>
      errored conv ''hi'' demo_chat_db reply (cd_messages db') \<or> broken_off demo_chat_db reply (cd_messages db'))"
proof -
  from demo_turn obtain reply db' where
    r: "send_message demo_chat_env (Inr \<lparr>pr_sub = ''ada'', pr_roles = {}\<rparr>) 1 ''hi'' demo_chat_db = (Inr reply, db')" by blast
  from chat_turn_outcomes [OF r] r show ?thesis by blast
qed

lemma chat_respects_ownership_and_classification_witness:
  "\<exists>(conv :: conversation_row) (a :: agent_row). find (\<lambda>c. cv_id c = 1) (cd_conversations demo_chat_db) = Some conv \<and>
     agent_by_id (cd_agents demo_chat_db) (cv_agent conv) = Some a \<and> ag_status a \<noteq> ''paused'' \<and>
     cv_user conv = u_id (fst (get_or_create_user (ce_sha demo_chat_env) ''ada'' None None (cd_access demo_chat_db)))"
proof -
  from demo_turn obtain reply db' where
    r: "send_message demo_chat_env (Inr \<lparr>pr_sub = ''ada'', pr_roles = {}\<rparr>) 1 ''hi'' demo_chat_db = (Inr reply, db')" by blast
  from chat_respects_ownership_and_classification [OF r] obtain p conv a where
    f: "(Inr \<lparr>pr_sub = ''ada'', pr_roles = {}\<rparr> :: principal res) = Inr p" "find (\<lambda>c. cv_id c = 1) (cd_conversations demo_chat_db) = Some conv"
    "cv_user conv = u_id (fst (get_or_create_user (ce_sha demo_chat_env) (pr_sub p) None None (cd_access demo_chat_db)))"
    "agent_by_id (cd_agents demo_chat_db) (cv_agent conv) = Some a" "ag_status a \<noteq> ''paused''" by blast
  from f(1) have "pr_sub p = ''ada''" by auto
  with f(2-) show ?thesis by (intro exI [of _ conv] exI [of _ a]) simp
qed

end
