(* ===== verification/Mcp_Base.thy ===== *)
theory Mcp_Base
  imports Json_Loads
begin

text \<open>
  The MCP server base (\<open>apps/mcp/fleet_mcp/base.py\<close>): tool contracts, the schema check of a
  payload, and \<open>call_tool\<close>, which authenticates, validates and only then runs the tool function.
  A tool function takes the payload and the state \<open>'w\<close> of what is behind the server (a mailbox, a
  mock CRM) and returns its result and the state it leaves.
\<close>

section \<open>Contracts and schemas\<close>

definition valid_risk_classes :: "string set" where
  "valid_risk_classes = {''read'', ''write:internal'', ''write:external''}"

text \<open>
  A schema as the tools write it: the declared type of each property (\<open>None\<close> when it has none), the
  required fields, and whether \<open>additionalProperties\<close> is \<open>False\<close>.
\<close>

record tool_schema =
  sc_properties :: "(string \<times> string option) list"
  sc_required :: "string list"
  sc_closed :: bool

type_synonym payload = "(string \<times> json) list"

record 'w tool_contract =
  tc_name :: string
  tc_risk_class :: string
  tc_schema :: tool_schema
  tc_fn :: "payload \<Rightarrow> 'w \<Rightarrow> json res \<times> 'w"

definition validation_error :: "string \<Rightarrow> exn" where
  "validation_error msg = OtherError (''MCPValidationError: '' @ msg)"

text \<open>\<open>isinstance(value, _TYPE_MAP[t])\<close>; a boolean is an \<open>int\<close>. \<open>None\<close> for a type not in the map.\<close>

definition has_type :: "string \<Rightarrow> json \<Rightarrow> bool option" where
  "has_type t v =
     (if t = ''string'' then Some (case v of JStr _ \<Rightarrow> True | _ \<Rightarrow> False)
      else if t = ''number'' then Some (case v of JInt _ \<Rightarrow> True | JFloat _ \<Rightarrow> True | JBool _ \<Rightarrow> True | _ \<Rightarrow> False)
      else if t = ''integer'' then Some (case v of JInt _ \<Rightarrow> True | JBool _ \<Rightarrow> True | _ \<Rightarrow> False)
      else if t = ''boolean'' then Some (case v of JBool _ \<Rightarrow> True | _ \<Rightarrow> False)
      else if t = ''object'' then Some (case v of JObj _ \<Rightarrow> True | _ \<Rightarrow> False)
      else if t = ''array'' then Some (case v of JList _ \<Rightarrow> True | _ \<Rightarrow> False)
      else None)"

definition mistyped :: "tool_schema \<Rightarrow> string \<times> json \<Rightarrow> bool" where
  "mistyped schema fv =
     (case map_of (sc_properties schema) (fst fv) of
        Some (Some t) \<Rightarrow> has_type t (snd fv) = Some False
      | _ \<Rightarrow> False)"

definition validate_schema :: "payload \<Rightarrow> tool_schema \<Rightarrow> unit res" where
  "validate_schema payload schema =
     (case find (\<lambda>f. f \<notin> set (map fst payload)) (sc_required schema) of
        Some f \<Rightarrow> Inl (validation_error (''missing required field: '' @ f))
      | None \<Rightarrow>
          (if sc_closed schema \<and> \<not> set (map fst payload) \<subseteq> set (map fst (sc_properties schema))
           then Inl (validation_error ''unexpected field(s)'')
           else (case find (mistyped schema) payload of
                   Some (f, _) \<Rightarrow> Inl (validation_error (''field expected type: '' @ f))
                 | None \<Rightarrow> Inr ())))"

section \<open>The server\<close>

record 'w mcp_server =
  ms_name :: string
  ms_api_key :: string
  ms_tools :: "(string \<times> 'w tool_contract) list"

definition new_server :: "string \<Rightarrow> string \<Rightarrow> 'w mcp_server" where
  "new_server name key = \<lparr>ms_name = name, ms_api_key = key, ms_tools = []\<rparr>"

definition register :: "'w tool_contract \<Rightarrow> 'w mcp_server \<Rightarrow> 'w mcp_server res" where
  "register tool server =
     (if tc_risk_class tool \<notin> valid_risk_classes
      then Inl (ValueError (''invalid risk_class '' @ tc_risk_class tool))
      else Inr (server\<lparr>ms_tools := dict_put (tc_name tool) tool (ms_tools server)\<rparr>))"

definition list_tools :: "'w mcp_server \<Rightarrow> (string \<times> string \<times> tool_schema) list" where
  "list_tools server = map (\<lambda>(_, t). (tc_name t, tc_risk_class t, tc_schema t)) (ms_tools server)"

definition check_auth :: "'w mcp_server \<Rightarrow> string \<Rightarrow> unit res" where
  "check_auth server api_key =
     (if api_key = ms_api_key server then Inr () else Inl (OtherError ''MCPAuthError''))"

definition call_tool ::
  "'w mcp_server \<Rightarrow> string \<Rightarrow> payload \<Rightarrow> string \<Rightarrow> 'w \<Rightarrow> json res \<times> 'w" where
  "call_tool server name payload api_key w =
     (case check_auth server api_key of
        Inl e \<Rightarrow> (Inl e, w)
      | Inr _ \<Rightarrow>
          (case map_of (ms_tools server) name of
             None \<Rightarrow> (Inl (KeyError name), w)
           | Some tool \<Rightarrow>
               (case validate_schema payload (tc_schema tool) of
                  Inl e \<Rightarrow> (Inl e, w)
                | Inr _ \<Rightarrow> tc_fn tool payload w)))"

text \<open>\<open>fn(**payload)\<close>: every required parameter is there and every key is a parameter.\<close>

definition bind_kwargs :: "string list \<Rightarrow> string list \<Rightarrow> payload \<Rightarrow> unit res" where
  "bind_kwargs required optional payload =
     (if set required \<subseteq> set (map fst payload) \<and> set (map fst payload) \<subseteq> set required \<union> set optional
      then Inr () else Inl (TypeError ''arguments''))"

section \<open>What the base guarantees\<close>

lemma find_SomeD: "find P xs = Some x \<Longrightarrow> x \<in> set xs \<and> P x"
  by (auto simp: find_Some_iff)

lemma validate_schema_Inr:
  "validate_schema payload schema = Inr u \<longleftrightarrow>
     set (sc_required schema) \<subseteq> set (map fst payload) \<and>
     (sc_closed schema \<longrightarrow> set (map fst payload) \<subseteq> set (map fst (sc_properties schema))) \<and>
     list_all (\<lambda>fv. \<not> mistyped schema fv) payload"
proof (cases "find (\<lambda>f. f \<notin> set (map fst payload)) (sc_required schema)")
  case None
  then have r: "set (sc_required schema) \<subseteq> set (map fst payload)" by (auto simp: find_None_iff)
  show ?thesis
  proof (cases "find (mistyped schema) payload")
    case None
    then have "list_all (\<lambda>fv. \<not> mistyped schema fv) payload" by (auto simp: find_None_iff list_all_iff)
    with r None \<open>find _ (sc_required schema) = None\<close> show ?thesis by (simp add: validate_schema_def)
  next
    case (Some fv)
    with find_SomeD [OF Some] None show ?thesis
      by (auto simp: validate_schema_def list_all_iff split: if_splits prod.splits)
  qed
next
  case (Some f)
  with find_SomeD [OF Some] show ?thesis by (auto simp: validate_schema_def)
qed

lemma map_of_dict_put: "map_of (dict_put k v d) = (map_of d)(k \<mapsto> v)"
  by (induction k v d rule: dict_put.induct) auto

definition tools_wf :: "'w mcp_server \<Rightarrow> bool" where
  "tools_wf server \<longleftrightarrow>
     (\<forall>n t. map_of (ms_tools server) n = Some t \<longrightarrow> tc_name t = n \<and> tc_risk_class t \<in> valid_risk_classes)"

lemma new_server_wf [simp]: "tools_wf (new_server n k)"
  by (simp add: tools_wf_def new_server_def)

lemma register_wf:
  "tools_wf server \<Longrightarrow> register tool server = Inr server' \<Longrightarrow> tools_wf server'"
  by (auto simp: tools_wf_def register_def map_of_dict_put split: if_splits)

lemma call_tool_cases:
  assumes "call_tool server name payload key w = (r, w')"
  obtains (refused) e where "r = Inl e" "w' = w"
  | (run) tool where "key = ms_api_key server" "map_of (ms_tools server) name = Some tool"
      "validate_schema payload (tc_schema tool) = Inr ()" "tc_fn tool payload w = (r, w')"
  using assms by (auto simp: call_tool_def check_auth_def split: if_splits option.splits sum.splits)

definition call_sequence :: "'w mcp_server \<Rightarrow> (string \<times> payload \<times> string) list \<Rightarrow> 'w \<Rightarrow> 'w" where
  "call_sequence server cs w = foldl (\<lambda>w (name, payload, key). snd (call_tool server name payload key w)) w cs"

text \<open>
  An invariant of the state behind a server that every registered tool keeps on payloads its schema
  admits is kept by every sequence of calls, authenticated or not, valid or not.
\<close>

locale tool_invariant =
  fixes server :: "'w mcp_server" and inv :: "'w \<Rightarrow> bool"
  assumes tool_keeps: "map_of (ms_tools server) name = Some tool \<Longrightarrow>
    validate_schema payload (tc_schema tool) = Inr () \<Longrightarrow> inv w \<Longrightarrow> tc_fn tool payload w = (r, w') \<Longrightarrow> inv w'"
begin

lemma call_keeps: "inv w \<Longrightarrow> call_tool server name payload key w = (r, w') \<Longrightarrow> inv w'"
  by (elim call_tool_cases) (auto dest: tool_keeps)

lemma calls_keep: "inv w \<Longrightarrow> inv (call_sequence server cs w)"
  unfolding call_sequence_def
proof (induction cs arbitrary: w)
  case (Cons c cs)
  obtain name payload key where c: "c = (name, payload, key)" by (cases c)
  obtain r w' where w': "call_tool server name payload key w = (r, w')" by fastforce
  with Cons call_keeps c show ?case by auto
qed simp

end

text \<open>
  No tool function runs unauthenticated or on a payload outside its schema: unless the
  caller presents the server's key, names a registered tool and sends every required field, no undeclared
  one (where the schema is closed) and no mistyped one, the call raises and the state behind the server is
  unchanged.
\<close>

theorem call_tool_guarded:
  assumes "call_tool server name payload key w = (r, w')" "w' \<noteq> w \<or> \<not> isl r"
  shows "key = ms_api_key server \<and>
     (\<exists>tool. map_of (ms_tools server) name = Some tool \<and>
        set (sc_required (tc_schema tool)) \<subseteq> set (map fst payload) \<and>
        (sc_closed (tc_schema tool) \<longrightarrow> set (map fst payload) \<subseteq> set (map fst (sc_properties (tc_schema tool)))) \<and>
        (\<forall>(f, v) \<in> set payload. \<forall>t. map_of (sc_properties (tc_schema tool)) f = Some (Some t) \<longrightarrow>
           has_type t v \<noteq> Some False) \<and>
        tc_fn tool payload w = (r, w'))"
  using assms(1)
proof (cases rule: call_tool_cases)
  case (run tool)
  from run(3) have "\<not> mistyped (tc_schema tool) fv" if "fv \<in> set payload" for fv
    using that by (simp add: validate_schema_Inr list_all_iff)
  then have "\<forall>(f, v) \<in> set payload. \<forall>t. map_of (sc_properties (tc_schema tool)) f = Some (Some t) \<longrightarrow>
      has_type t v \<noteq> Some False"
    by (fastforce simp: mistyped_def)
  with run show ?thesis unfolding validate_schema_Inr by blast
qed (use assms(2) in simp)

definition demo_server :: "nat mcp_server" where
  "demo_server = \<lparr>ms_name = ''demo'', ms_api_key = ''k'', ms_tools = [(''count'',
     \<lparr>tc_name = ''count'', tc_risk_class = ''read'', tc_schema = \<lparr>sc_properties = [(''n'', Some ''integer'')],
        sc_required = [''n''], sc_closed = True\<rparr>, tc_fn = (\<lambda>_ w. (Inr JNull, Suc w))\<rparr>)]\<rparr>"

lemma call_tool_guarded_witness:
  "''k'' = ms_api_key demo_server \<and> call_tool demo_server ''count'' [(''n'', JBool True)] ''k'' 0 = (Inr JNull, 1)"
proof -
  have c: "call_tool demo_server ''count'' [(''n'', JBool True)] ''k'' 0 = (Inr JNull, 1)" by code_simp
  from call_tool_guarded [OF c] c show ?thesis by simp
qed

end
