(* ===== verification/Mcp_Tools.thy ===== *)
theory Mcp_Tools
  imports Mcp_Base Py_Regex
begin

text \<open>
  The MCP tools of \<open>apps/mcp/fleet_mcp/servers\<close>: mail, Slack, CRM, ERP, CMS, listings, the internal
  fixture, Jira's fixture backend and GitHub's guard, with their schemas and risk classes. What a tool
  writes to (the SMTP sandbox, the Slack webhook, the in-memory mocks, the GitHub API) is a field of the
  state \<open>office\<close>; a fresh \<open>uuid4().hex[:10]\<close> is \<open>uid n\<close> for the next \<open>n\<close>.
\<close>

section \<open>The state behind the servers\<close>

record office =
  of_mails :: "(string \<times> string \<times> string) list"
  of_posts :: "(string \<times> string) list"
  of_entries :: "payload list"
  of_published :: "payload list"
  of_status_updates :: "payload list"
  of_flags :: "payload list"
  of_branches :: "(string \<times> string) list"
  of_commits :: "(string \<times> string) list"
  of_pull_requests :: "string list"
  of_next :: nat

type_synonym office_fn = "payload \<Rightarrow> office \<Rightarrow> json res \<times> office"

definition arg_str :: "payload \<Rightarrow> string \<Rightarrow> string" where
  "arg_str p k = (case map_of p k of Some (JStr s) \<Rightarrow> s | _ \<Rightarrow> [])"

definition arg :: "payload \<Rightarrow> string \<Rightarrow> json" where
  "arg p k = (case map_of p k of Some v \<Rightarrow> v | None \<Rightarrow> JNull)"

text \<open>Calling the Python function: the parameters bind first, then the body runs.\<close>

definition with_kwargs :: "string list \<Rightarrow> string list \<Rightarrow> office_fn \<Rightarrow> office_fn" where
  "with_kwargs required optional body p w =
     (case bind_kwargs required optional p of Inl e \<Rightarrow> (Inl e, w) | Inr _ \<Rightarrow> body p w)"

definition str_schema :: "string list \<Rightarrow> string list \<Rightarrow> tool_schema" where
  "str_schema props required =
     \<lparr>sc_properties = map (\<lambda>f. (f, Some ''string'')) props, sc_required = required, sc_closed = True\<rparr>"

section \<open>email.send\<close>

definition recipient_re :: rx where
  "recipient_re = (let part = Plus (Cls (\<lambda>c. c \<noteq> CHR ''@'' \<and> \<not> py_space c))
               in seqs [Bos, part, Cls (\<lambda>c. c = CHR ''@''), Group 1 part, Eos])"

definition is_allowed_recipient :: "string \<Rightarrow> string list \<Rightarrow> bool" where
  "is_allowed_recipient to allowed_domains =
     (case rx_at_start recipient_re to of None \<Rightarrow> False | Some g \<Rightarrow> cap g 1 \<in> set allowed_domains)"

definition email_input_schema :: tool_schema where
  "email_input_schema = str_schema [''to'', ''subject'', ''body''] [''to'', ''subject'', ''body'']"

definition email_send_mail :: "string list \<Rightarrow> string \<Rightarrow> string \<Rightarrow> string \<Rightarrow> office \<Rightarrow> json res \<times> office" where
  "email_send_mail allowed_domains to subject body w =
     (if \<not> is_allowed_recipient to allowed_domains
      then (Inl (OtherError ''InvalidRecipientError''), w)
      else (Inr JNull, w\<lparr>of_mails := of_mails w @ [(to, subject, body)]\<rparr>))"

definition email_contract :: "string list \<Rightarrow> office tool_contract" where
  "email_contract allowed_domains =
     \<lparr>tc_name = ''email.send'', tc_risk_class = ''write:external'', tc_schema = email_input_schema,
      tc_fn = with_kwargs [''to'', ''subject'', ''body''] []
        (\<lambda>p. email_send_mail allowed_domains (arg_str p ''to'') (arg_str p ''subject'') (arg_str p ''body''))\<rparr>"

section \<open>slack.post\<close>

definition slack_post_schema :: tool_schema where
  "slack_post_schema = str_schema [''channel'', ''text''] [''channel'', ''text'']"

definition slack_send :: "string list \<Rightarrow> string \<Rightarrow> string \<Rightarrow> office \<Rightarrow> json res \<times> office" where
  "slack_send allowed_channels channel text w =
     (if channel \<notin> set allowed_channels
      then (Inl (OtherError ''DisallowedChannelError''), w)
      else (Inr JNull, w\<lparr>of_posts := of_posts w @ [(channel, text)]\<rparr>))"

definition slack_contract :: "string list \<Rightarrow> office tool_contract" where
  "slack_contract allowed_channels =
     \<lparr>tc_name = ''slack.post'', tc_risk_class = ''write:internal'', tc_schema = slack_post_schema,
      tc_fn = with_kwargs [''channel'', ''text''] []
        (\<lambda>p. slack_send allowed_channels (arg_str p ''channel'') (arg_str p ''text''))\<rparr>"

section \<open>crm.get_application and crm.update_status\<close>

definition application_statuses :: "string list" where
  "application_statuses = [''awaiting_documents'', ''manual_review'', ''ready_for_sales'']"

definition get_application_schema :: tool_schema where
  "get_application_schema = str_schema [''application_id''] [''application_id'']"

definition update_status_schema :: tool_schema where
  "update_status_schema = str_schema [''application_id'', ''status'', ''note''] [''application_id'', ''status'']"

definition synthetic_application :: "string \<Rightarrow> payload" where
  "synthetic_application application_id =
     [(''application_id'', JStr application_id), (''company_name'', JStr ''Anadolu Otomotiv Ticaret A.S.''),
      (''contact_name'', JStr ''Mehmet Yilmaz''), (''contact_email'', JStr ''dealer@fleet.local''),
      (''city'', JStr ''Ankara''), (''status'', JStr ''submitted'')]"

text \<open>\<open>applications\<close> is the tool's own dictionary, which nothing ever writes to.\<close>

definition crm_get_application :: "(string \<rightharpoonup> payload) \<Rightarrow> string \<Rightarrow> payload" where
  "crm_get_application applications application_id =
     (case applications application_id of Some r \<Rightarrow> r | None \<Rightarrow> synthetic_application application_id)"

definition crm_update_status ::
  "(nat \<Rightarrow> string) \<Rightarrow> string \<Rightarrow> string \<Rightarrow> json \<Rightarrow> office \<Rightarrow> json res \<times> office" where
  "crm_update_status uid application_id status note w =
     (if status \<notin> set application_statuses then (Inl (OtherError ''UnknownStatusError''), w)
      else (let r = [(''update_id'', JStr (''CRMU-'' @ uid (of_next w))), (''application_id'', JStr application_id),
                     (''status'', JStr status), (''note'', if truthy note then note else JStr [])]
            in (Inr (JObj r), w\<lparr>of_status_updates := of_status_updates w @ [r], of_next := Suc (of_next w)\<rparr>)))"

definition crm_contracts :: "(nat \<Rightarrow> string) \<Rightarrow> (string \<rightharpoonup> payload) \<Rightarrow> office tool_contract list" where
  "crm_contracts uid applications =
     [\<lparr>tc_name = ''crm.get_application'', tc_risk_class = ''read'', tc_schema = get_application_schema,
       tc_fn = with_kwargs [''application_id''] []
         (\<lambda>p w. (Inr (JObj (crm_get_application applications (arg_str p ''application_id''))), w))\<rparr>,
      \<lparr>tc_name = ''crm.update_status'', tc_risk_class = ''write:internal'', tc_schema = update_status_schema,
       tc_fn = with_kwargs [''application_id'', ''status''] [''note'']
         (\<lambda>p. crm_update_status uid (arg_str p ''application_id'') (arg_str p ''status'') (arg p ''note''))\<rparr>]"

section \<open>erp.create_draft_entry and cms.publish\<close>

definition create_draft_entry_schema :: tool_schema where
  "create_draft_entry_schema =
     \<lparr>sc_properties = [(''vendor'', Some ''string''), (''po_number'', Some ''string''), (''amount'', Some ''number''),
        (''currency'', Some ''string'')],
      sc_required = [''vendor'', ''po_number'', ''amount'', ''currency''], sc_closed = True\<rparr>"

definition erp_create_draft_entry ::
  "(nat \<Rightarrow> string) \<Rightarrow> string \<Rightarrow> string \<Rightarrow> json \<Rightarrow> string \<Rightarrow> office \<Rightarrow> json res \<times> office" where
  "erp_create_draft_entry uid vendor po_number amount currency w =
     (let entry = [(''entry_id'', JStr (''DRAFT-'' @ uid (of_next w))), (''vendor'', JStr vendor),
            (''po_number'', JStr po_number), (''amount'', amount), (''currency'', JStr currency), (''status'', JStr ''draft'')]
      in (Inr (JObj entry), w\<lparr>of_entries := of_entries w @ [entry], of_next := Suc (of_next w)\<rparr>))"

definition erp_contract :: "(nat \<Rightarrow> string) \<Rightarrow> office tool_contract" where
  "erp_contract uid =
     \<lparr>tc_name = ''erp.create_draft_entry'', tc_risk_class = ''write:external'', tc_schema = create_draft_entry_schema,
      tc_fn = with_kwargs [''vendor'', ''po_number'', ''amount'', ''currency''] []
        (\<lambda>p. erp_create_draft_entry uid (arg_str p ''vendor'') (arg_str p ''po_number'') (arg p ''amount'')
               (arg_str p ''currency''))\<rparr>"

definition publish_schema :: tool_schema where
  "publish_schema = str_schema [''report'', ''social''] [''report'', ''social'']"

definition cms_publish :: "(nat \<Rightarrow> string) \<Rightarrow> string \<Rightarrow> string \<Rightarrow> office \<Rightarrow> json res \<times> office" where
  "cms_publish uid report social w =
     (let r = [(''cms_id'', JStr (''POST-'' @ uid (of_next w))), (''social_id'', JStr (''SOC-'' @ uid (Suc (of_next w)))),
               (''status'', JStr ''published'')]
      in (Inr (JObj r), w\<lparr>of_published := of_published w @ [r @ [(''report'', JStr report), (''social'', JStr social)]],
                          of_next := Suc (Suc (of_next w))\<rparr>))"

definition cms_contract :: "(nat \<Rightarrow> string) \<Rightarrow> office tool_contract" where
  "cms_contract uid =
     \<lparr>tc_name = ''cms.publish'', tc_risk_class = ''write:external'', tc_schema = publish_schema,
      tc_fn = with_kwargs [''report'', ''social''] []
        (\<lambda>p. cms_publish uid (arg_str p ''report'') (arg_str p ''social''))\<rparr>"

section \<open>listings.get_new and listings.flag\<close>

definition get_new_schema :: tool_schema where
  "get_new_schema = \<lparr>sc_properties = [(''limit'', Some ''integer'')], sc_required = [], sc_closed = True\<rparr>"

definition flag_schema :: tool_schema where
  "flag_schema = \<lparr>sc_properties = [(''listing_id'', Some ''string''), (''codes'', Some ''array''), (''reasons'', Some ''array'')],
     sc_required = [''listing_id'', ''codes''], sc_closed = True\<rparr>"

definition stub_png_b64 :: string where
  "stub_png_b64 =
     ''iVBORw0KGgoAAAANSUhEUgAAAAEAAAABCAQAAAC1HAwCAAAAC0lEQVR42mNk+M8AAAMBAQDJ/pLvAAAAAElFTkSuQmCC''"

definition listing_segments :: "string list" where
  "listing_segments = [''sedan-2018'', ''suv-2020'', ''hatchback-2019'']"

text \<open>\<open>f"L-{i:04d}"\<close>.\<close>

definition listing_id :: "nat \<Rightarrow> string" where
  "listing_id i = (let s = nat_str i in ''L-'' @ replicate (4 - length s) CHR ''0'' @ s)"

definition synthetic_listings :: "int \<Rightarrow> json list" where
  "synthetic_listings n =
     map (\<lambda>i. let seg = listing_segments ! (i mod 3) in
        JObj [(''listing_id'', JStr (listing_id i)), (''segment'', JStr seg),
              (''description'', JStr (map (\<lambda>c. if c = CHR ''-'' then CHR '' '' else c) seg @ '', clean, well maintained.'')),
              (''price'', JInt (400000 + int i * 25000)), (''currency'', JStr ''TRY''), (''image_base64'', JStr stub_png_b64)])
       [0..<nat n]"

text \<open>A boolean passes the integer check and counts as 0 or 1.\<close>

definition limit_of :: "payload \<Rightarrow> int" where
  "limit_of p = (case map_of p ''limit'' of Some (JInt n) \<Rightarrow> n | Some (JBool b) \<Rightarrow> (if b then 1 else 0) | _ \<Rightarrow> 10)"

definition listings_flag :: "(nat \<Rightarrow> string) \<Rightarrow> string \<Rightarrow> json \<Rightarrow> json \<Rightarrow> office \<Rightarrow> json res \<times> office" where
  "listings_flag uid lid codes reasons w =
     (let r = [(''flag_id'', JStr (''FLAG-'' @ uid (of_next w))), (''listing_id'', JStr lid), (''codes'', codes),
               (''reasons'', if truthy reasons then reasons else JList []), (''status'', JStr ''queued_for_review'')]
      in (Inr (JObj r), w\<lparr>of_flags := of_flags w @ [r], of_next := Suc (of_next w)\<rparr>))"

definition listings_contracts :: "(nat \<Rightarrow> string) \<Rightarrow> office tool_contract list" where
  "listings_contracts uid =
     [\<lparr>tc_name = ''listings.get_new'', tc_risk_class = ''read'', tc_schema = get_new_schema,
       tc_fn = with_kwargs [] [''limit'']
         (\<lambda>p w. (Inr (JObj [(''listings'', JList (synthetic_listings (limit_of p)))]), w))\<rparr>,
      \<lparr>tc_name = ''listings.flag'', tc_risk_class = ''write:internal'', tc_schema = flag_schema,
       tc_fn = with_kwargs [''listing_id'', ''codes''] [''reasons'']
         (\<lambda>p. listings_flag uid (arg_str p ''listing_id'') (arg p ''codes'') (arg p ''reasons''))\<rparr>]"

section \<open>internal.lookup and Jira's fixtures\<close>

definition internal_lookup_schema :: tool_schema where
  "internal_lookup_schema = str_schema [''record_id''] [''record_id'']"

definition internal_lookup :: "(string \<times> payload) list \<Rightarrow> string \<Rightarrow> json res" where
  "internal_lookup fixtures record_id =
     (case map_of fixtures record_id of
        None \<Rightarrow> Inl (OtherError ''RecordNotFoundError'') | Some r \<Rightarrow> Inr (JObj r))"

definition internal_contract :: "(string \<times> payload) list \<Rightarrow> office tool_contract" where
  "internal_contract fixtures =
     \<lparr>tc_name = ''internal.lookup'', tc_risk_class = ''read'', tc_schema = internal_lookup_schema,
      tc_fn = with_kwargs [''record_id''] [] (\<lambda>p w. (internal_lookup fixtures (arg_str p ''record_id''), w))\<rparr>"

definition demo_ticket :: "string \<Rightarrow> string \<Rightarrow> string list \<Rightarrow> string \<times> payload" where
  "demo_ticket key summary labels =
     (key, [(''key'', JStr key), (''summary'', JStr summary), (''labels'', JList (map JStr labels))])"

definition demo_fixture_tickets :: "(string \<times> payload) list" where
  "demo_fixture_tickets =
     [demo_ticket ''DEV-1'' ''Fix a typo in the README'' [''agent-ok''],
      demo_ticket ''DEV-2'' ''Update the CONTRIBUTING guide wording'' [''agent-ok''],
      demo_ticket ''DEV-3'' ''Rework the authentication middleware'' [],
      demo_ticket ''DEV-4'' ''Add a missing section to the README about local setup'' [''agent-ok''],
      demo_ticket ''DEV-5'' ''Correct a broken link in the CHANGELOG'' [''agent-ok''],
      demo_ticket ''DEV-6'' ''Improve the wording of an error message shown to users'' [],
      demo_ticket ''DEV-7'' ''Update the LICENSE year'' [''agent-ok''],
      demo_ticket ''DEV-8'' ''Fix a grammar mistake in the docs'' [''agent-ok''],
      demo_ticket ''DEV-9'' ''Migrate the database schema to add a new column'' [],
      demo_ticket ''DEV-10'' ''Refactor the CI pipeline configuration'' []]"

definition has_label :: "string \<Rightarrow> payload \<Rightarrow> bool res" where
  "has_label l issue = py_in l (dict_get_or (JList []) issue ''labels'')"

definition jira_search :: "(string \<times> payload) list \<Rightarrow> string \<Rightarrow> json res" where
  "jira_search issues jql =
     (if py_contains jql ''agent-ok''
      then res_bind (res_filter (has_label ''agent-ok'') (map snd issues)) (\<lambda>is. Inr (JList (map JObj is)))
      else Inr (JList (map (JObj \<circ> snd) issues)))"

definition jira_get_issue :: "(string \<times> payload) list \<Rightarrow> string \<Rightarrow> json res" where
  "jira_get_issue issues key =
     (case map_of issues key of None \<Rightarrow> Inl (OtherError ''IssueNotFoundError'') | Some i \<Rightarrow> Inr (JObj i))"

definition jira_contracts :: "(string \<times> payload) list \<Rightarrow> office tool_contract list" where
  "jira_contracts issues =
     [\<lparr>tc_name = ''jira.search'', tc_risk_class = ''read'', tc_schema = str_schema [''jql''] [''jql''],
       tc_fn = with_kwargs [''jql''] [] (\<lambda>p w. (jira_search issues (arg_str p ''jql''), w))\<rparr>,
      \<lparr>tc_name = ''jira.get_issue'', tc_risk_class = ''read'', tc_schema = str_schema [''key''] [''key''],
       tc_fn = with_kwargs [''key''] [] (\<lambda>p w. (jira_get_issue issues (arg_str p ''key''), w))\<rparr>]"

section \<open>GitHub's guard\<close>

text \<open>
  The REST backend is what the API does: a branch, a commit on a branch, a pull request. \<open>reply\<close> is
  what it answers, and an error answer leaves nothing behind.
\<close>

definition agent_branch_re :: rx where
  "agent_branch_re = seqs [Bos, lits ''agent/'', Plus (Cls (\<lambda>c. c \<noteq> char_of (10::nat)))]"

definition is_agent_branch :: "string \<Rightarrow> bool" where
  "is_agent_branch name \<longleftrightarrow> rx_at_start agent_branch_re name \<noteq> None"

definition on_success :: "json res \<Rightarrow> (office \<Rightarrow> office) \<Rightarrow> office \<Rightarrow> json res \<times> office" where
  "on_success reply f w = (reply, case reply of Inl _ \<Rightarrow> w | Inr _ \<Rightarrow> f w)"

definition github_create_branch :: "json res \<Rightarrow> string \<Rightarrow> string \<Rightarrow> office \<Rightarrow> json res \<times> office" where
  "github_create_branch reply branch from_ref w =
     (if \<not> is_agent_branch branch then (Inl (OtherError ''BranchNamePatternError''), w)
      else on_success reply (\<lambda>w. w\<lparr>of_branches := of_branches w @ [(branch, from_ref)]\<rparr>) w)"

definition github_commit_file :: "json res \<Rightarrow> string \<Rightarrow> string \<Rightarrow> office \<Rightarrow> json res \<times> office" where
  "github_commit_file reply branch path w =
     (if \<not> is_agent_branch branch then (Inl (OtherError ''BranchNamePatternError''), w)
      else on_success reply (\<lambda>w. w\<lparr>of_commits := of_commits w @ [(branch, path)]\<rparr>) w)"

definition github_open_pr :: "json res \<Rightarrow> string \<Rightarrow> office \<Rightarrow> json res \<times> office" where
  "github_open_pr reply branch w =
     on_success reply (\<lambda>w. w\<lparr>of_pull_requests := of_pull_requests w @ [branch]\<rparr>) w"

definition github_contracts :: "(string \<Rightarrow> payload \<Rightarrow> json res) \<Rightarrow> office tool_contract list" where
  "github_contracts api =
     [\<lparr>tc_name = ''github.read_repo'', tc_risk_class = ''read'',
       tc_schema = \<lparr>sc_properties = [], sc_required = [], sc_closed = True\<rparr>,
       tc_fn = with_kwargs [] [] (\<lambda>p w. (api ''read_repo'' p, w))\<rparr>,
      \<lparr>tc_name = ''github.create_branch'', tc_risk_class = ''write:internal'',
       tc_schema = str_schema [''branch_name'', ''from_ref''] [''branch_name'', ''from_ref''],
       tc_fn = with_kwargs [''branch_name'', ''from_ref''] []
         (\<lambda>p. github_create_branch (api ''create_branch'' p) (arg_str p ''branch_name'') (arg_str p ''from_ref''))\<rparr>,
      \<lparr>tc_name = ''github.commit_file'', tc_risk_class = ''write:internal'',
       tc_schema = str_schema [''branch_name'', ''path'', ''content'', ''message''] [''branch_name'', ''path'', ''content'', ''message''],
       tc_fn = with_kwargs [''branch_name'', ''path'', ''content'', ''message''] []
         (\<lambda>p. github_commit_file (api ''commit_file'' p) (arg_str p ''branch_name'') (arg_str p ''path''))\<rparr>,
      \<lparr>tc_name = ''github.open_pr'', tc_risk_class = ''write:external'',
       tc_schema = str_schema [''branch_name'', ''title'', ''body''] [''branch_name'', ''title'', ''body''],
       tc_fn = with_kwargs [''branch_name'', ''title'', ''body''] []
         (\<lambda>p. github_open_pr (api ''open_pr'' p) (arg_str p ''branch_name''))\<rparr>]"

section \<open>Servers\<close>

fun register_all :: "'w tool_contract list \<Rightarrow> 'w mcp_server \<Rightarrow> 'w mcp_server res" where
  "register_all [] s = Inr s"
| "register_all (t # ts) s = res_bind (register t s) (register_all ts)"

definition build_crm_server :: "(nat \<Rightarrow> string) \<Rightarrow> (string \<rightharpoonup> payload) \<Rightarrow> string \<Rightarrow> office mcp_server res" where
  "build_crm_server uid applications key = register_all (crm_contracts uid applications) (new_server ''crm'' key)"

definition build_cms_server :: "(nat \<Rightarrow> string) \<Rightarrow> string \<Rightarrow> office mcp_server res" where
  "build_cms_server uid key = register_all [cms_contract uid] (new_server ''cms'' key)"

definition build_listings_server :: "(nat \<Rightarrow> string) \<Rightarrow> string \<Rightarrow> office mcp_server res" where
  "build_listings_server uid key = register_all (listings_contracts uid) (new_server ''listings'' key)"

text \<open>One server that carries every tool with a contract.\<close>

definition all_contracts ::
  "(nat \<Rightarrow> string) \<Rightarrow> (string \<Rightarrow> payload \<Rightarrow> json res) \<Rightarrow> string list \<Rightarrow> string list \<Rightarrow> office tool_contract list" where
  "all_contracts uid api domains channels =
     [email_contract domains, slack_contract channels] @ crm_contracts uid Map.empty @ [erp_contract uid, cms_contract uid]
     @ listings_contracts uid @ [internal_contract []] @ jira_contracts demo_fixture_tickets @ github_contracts api"

definition office_server ::
  "(nat \<Rightarrow> string) \<Rightarrow> (string \<Rightarrow> payload \<Rightarrow> json res) \<Rightarrow> string list \<Rightarrow> string list \<Rightarrow> string \<Rightarrow> office mcp_server" where
  "office_server uid api domains channels key =
     \<lparr>ms_name = ''fleet'', ms_api_key = key,
      ms_tools = map (\<lambda>t. (tc_name t, t)) (all_contracts uid api domains channels)\<rparr>"

section \<open>What the patterns accept\<close>

definition newline_str :: string where
  "newline_str = [char_of (10::nat)]"

lemma star_cls_member:
  "(p', s', g') \<in> set (rx_match (Star (Cls f)) p s g) \<Longrightarrow> \<exists>u. s = u @ s' \<and> list_all f u \<and> g' = g"
proof (induction s arbitrary: p)
  case Nil
  then show ?case by (subst (asm) star_member) auto
next
  case (Cons c t)
  from Cons.prems consider "(p', s', g') = (p, c # t, g)" | "f c" "(p', s', g') \<in> set (rx_match (Star (Cls f)) (Some c) t g)"
    by (subst (asm) star_member) (auto split: if_splits)
  then show ?case
  proof cases
    case 2
    from Cons.IH [OF 2(2)] obtain u where "t = u @ s'" "list_all f u" "g' = g" by blast
    with 2(1) show ?thesis by (intro exI [of _ "c # u"]) simp
  qed simp
qed

lemma plus_cls_member:
  assumes "(p', s', g') \<in> set (rx_match (Plus (Cls f)) p s g)"
  shows "\<exists>u. s = u @ s' \<and> u \<noteq> [] \<and> list_all f u \<and> g' = g"
proof -
  from assms obtain c t where s: "s = c # t" "f c" "(p', s', g') \<in> set (rx_match (Star (Cls f)) (Some c) t g)"
    by (auto simp: Plus_def split: list.splits if_splits)
  from star_cls_member [OF s(3)] obtain u where "t = u @ s'" "list_all f u" "g' = g" by blast
  with s(1,2) show ?thesis by (intro exI [of _ "c # u"]) simp
qed

lemma seq_member:
  "x \<in> set (rx_match (Seq a b) p s g) \<longleftrightarrow>
     (\<exists>p1 s1 g1. (p1, s1, g1) \<in> set (rx_match a p s g) \<and> x \<in> set (rx_match b p1 s1 g1))"
  by force

lemma group_member:
  "(p', s', g') \<in> set (rx_match (Group i a) p s g) \<longleftrightarrow>
     (\<exists>g1. (p', s', g1) \<in> set (rx_match a p s g) \<and> g' = (i, take (length s - length s') s) # g1)"
  by force

lemma cls_member: "(p', s', g') \<in> set (rx_match (Cls f) p s g) \<longleftrightarrow> (\<exists>c. s = c # s' \<and> f c \<and> p' = Some c \<and> g' = g)"
  by (auto split: list.splits if_splits)

text \<open>
  An allowed recipient is a local part, an at sign and one of the domains; the dollar sign of the pattern
  also lets a single newline follow.
\<close>

lemma allowed_recipient_shape:
  assumes "is_allowed_recipient to domains"
  shows "\<exists>name d. d \<in> set domains \<and> name \<noteq> [] \<and> CHR ''@'' \<notin> set name \<and>
     (to = name @ CHR ''@'' # d \<or> to = name @ CHR ''@'' # d @ newline_str)"
    (is "\<exists>name d. ?P name d")
proof -
  define part where "part = Plus (Cls (\<lambda>c. c \<noteq> CHR ''@'' \<and> \<not> py_space c))"
  from assms obtain g where g: "rx_at_start recipient_re to = Some g" and dom: "cap g 1 \<in> set domains"
    by (auto simp: is_allowed_recipient_def split: option.splits)
  from g obtain p s where m: "(p, s, g) \<in> set (rx_match recipient_re None to [])"
    by (auto simp: rx_at_start_def split: list.splits)
  have re: "recipient_re = Seq Bos (Seq part (Seq (Cls (\<lambda>c. c = CHR ''@'')) (Seq (Group 1 part) Eos)))"
    by (simp add: recipient_re_def part_def Let_def)
  have bos: "(p1, s1, g1) \<in> set (rx_match Bos None to []) \<longleftrightarrow> p1 = None \<and> s1 = to \<and> g1 = []" for p1 s1 g1
    by auto
  from m obtain p1 s1 g1 where 1: "(p1, s1, g1) \<in> set (rx_match part None to [])"
    and m2: "(p, s, g) \<in> set (rx_match (Seq (Cls (\<lambda>c. c = CHR ''@'')) (Seq (Group 1 part) Eos)) p1 s1 g1)"
    unfolding re seq_member [of _ Bos] seq_member [of _ part] bos by blast
  from m2 obtain s2 where s1: "s1 = CHR ''@'' # s2"
    and m3: "(p, s, g) \<in> set (rx_match (Seq (Group 1 part) Eos) (Some CHR ''@'') s2 g1)"
    unfolding seq_member [of _ "Cls (\<lambda>c. c = CHR ''@'')"] cls_member by blast
  from plus_cls_member [OF 1 [unfolded part_def]] obtain u where u: "to = u @ s1" "u \<noteq> []"
      "list_all (\<lambda>c. c \<noteq> CHR ''@'' \<and> \<not> py_space c) u" "g1 = []" by blast
  from m3 obtain p3 s3 g3 where 3: "(p3, s3, g3) \<in> set (rx_match part (Some CHR ''@'') s2 g1)"
    and m4: "(p, s, g) \<in> set (rx_match Eos p3 s3 ((1, take (length s2 - length s3) s2) # g3))"
    unfolding seq_member group_member by blast
  from m4 have g: "g = (1, take (length s2 - length s3) s2) # g3" and rest: "s3 = [] \<or> s3 = [char_of (10::nat)]"
    by (simp_all split: if_splits)
  from plus_cls_member [OF 3 [unfolded part_def]] obtain v where v: "s2 = v @ s3" by blast
  with g have "cap g 1 = v" by (simp add: cap_def)
  with dom u s1 v rest have "?P u v" by (auto simp: newline_str_def list_all_iff)
  then show ?thesis by blast
qed

lemma agent_branch_shape: "is_agent_branch name \<Longrightarrow> startswith name ''agent/''"
  by (auto simp: is_agent_branch_def rx_at_start_def agent_branch_re_def lits_def startswith_def
      split: list.splits if_splits)

section \<open>What the tools never do\<close>

definition office_ok :: "string list \<Rightarrow> string list \<Rightarrow> office \<Rightarrow> bool" where
  "office_ok domains channels w \<longleftrightarrow>
     list_all (\<lambda>(to, _). is_allowed_recipient to domains) (of_mails w) \<and>
     list_all (\<lambda>(c, _). c \<in> set channels) (of_posts w) \<and>
     list_all (\<lambda>r. map_of r ''status'' \<in> Some ` JStr ` set application_statuses) (of_status_updates w) \<and>
     list_all (\<lambda>r. map_of r ''status'' = Some (JStr ''draft'')) (of_entries w) \<and>
     list_all (\<lambda>r. map_of r ''status'' = Some (JStr ''queued_for_review'')) (of_flags w) \<and>
     list_all (\<lambda>(b, _). is_agent_branch b) (of_branches w) \<and>
     list_all (\<lambda>(b, _). is_agent_branch b) (of_commits w)"

definition empty_office :: office where
  "empty_office = \<lparr>of_mails = [], of_posts = [], of_entries = [], of_published = [], of_status_updates = [], of_flags = [],
     of_branches = [], of_commits = [], of_pull_requests = [], of_next = 0\<rparr>"

lemma office_ok_empty: "office_ok domains channels empty_office"
  by (simp add: office_ok_def empty_office_def)

lemmas office_tools = email_contract_def slack_contract_def crm_contracts_def erp_contract_def cms_contract_def
  listings_contracts_def internal_contract_def jira_contracts_def github_contracts_def

definition body_ok :: "string list \<Rightarrow> string list \<Rightarrow> office_fn \<Rightarrow> bool" where
  "body_ok domains channels f = (\<forall>p w. office_ok domains channels w \<longrightarrow> office_ok domains channels (snd (f p w)))"

lemma with_kwargs_ok: "body_ok domains channels f \<Longrightarrow> body_ok domains channels (with_kwargs req opt f)"
  by (simp add: body_ok_def with_kwargs_def split: sum.split)

lemma read_ok: "body_ok domains channels (\<lambda>p w. (f p, w))"
  by (simp add: body_ok_def)

lemma on_success_ok:
  "office_ok domains channels w \<Longrightarrow> office_ok domains channels (f w) \<Longrightarrow> office_ok domains channels (snd (on_success r f w))"
  by (simp add: on_success_def split: sum.split)

lemma write_ok:
  "body_ok domains channels (\<lambda>p. email_send_mail domains (a p) (b p) (c p))"
  "body_ok domains channels (\<lambda>p. slack_send channels (a p) (b p))"
  "body_ok domains channels (\<lambda>p. crm_update_status uid (a p) (b p) (x p))"
  "body_ok domains channels (\<lambda>p. erp_create_draft_entry uid (a p) (b p) (x p) (c p))"
  "body_ok domains channels (\<lambda>p. cms_publish uid (a p) (b p))"
  "body_ok domains channels (\<lambda>p. listings_flag uid (a p) (x p) (y p))"
  "body_ok domains channels (\<lambda>p. github_create_branch (z p) (a p) (b p))"
  "body_ok domains channels (\<lambda>p. github_commit_file (z p) (a p) (b p))"
  "body_ok domains channels (\<lambda>p. github_open_pr (z p) (a p))"
  by (simp_all add: body_ok_def email_send_mail_def slack_send_def crm_update_status_def erp_create_draft_entry_def
      cms_publish_def listings_flag_def github_create_branch_def github_commit_file_def github_open_pr_def
      office_ok_def Let_def on_success_def split: sum.split)

lemma contracts_ok: "list_all (\<lambda>t. body_ok domains channels (tc_fn t)) (all_contracts uid api domains channels)"
  by (simp add: all_contracts_def office_tools with_kwargs_ok read_ok write_ok)

interpretation office_tools: tool_invariant "office_server uid api domains channels key" "office_ok domains channels"
  for uid api domains channels key
proof
  fix name tool p w r w'
  assume "map_of (ms_tools (office_server uid api domains channels key)) name = Some tool"
  then have "tool \<in> set (all_contracts uid api domains channels)"
    by (auto simp: office_server_def dest: map_of_SomeD)
  then have "body_ok domains channels (tc_fn tool)"
    using contracts_ok by (auto simp: list_all_iff)
  then show "office_ok domains channels w \<Longrightarrow> tc_fn tool p w = (r, w') \<Longrightarrow> office_ok domains channels w'"
    unfolding body_ok_def by (metis snd_conv)
qed

text \<open>
  Property C9: whatever is called, in whatever order and with whatever payloads, the tools stay inside
  their fences: mail only to addresses of the allowed domains, Slack only in the allowed channels, branches
  and commits only under \<open>agent/\<close>, dealer applications only in the three known states, ERP entries only as
  drafts, listings only queued for review.
\<close>

theorem tools_stay_inside_fences:
  "(let w = call_sequence (office_server uid api domains channels key) cs empty_office in
     list_all (\<lambda>(to, _). \<exists>name d. d \<in> set domains \<and> (to = name @ CHR ''@'' # d \<or> to = name @ CHR ''@'' # d @ newline_str))
       (of_mails w)
     \<and> list_all (\<lambda>(c, _). c \<in> set channels) (of_posts w)
     \<and> list_all (\<lambda>(b, _). startswith b ''agent/'') (of_branches w @ of_commits w)
     \<and> list_all (\<lambda>r. map_of r ''status'' \<in> Some ` JStr ` set application_statuses) (of_status_updates w)
     \<and> list_all (\<lambda>r. map_of r ''status'' = Some (JStr ''draft'')) (of_entries w)
     \<and> list_all (\<lambda>r. map_of r ''status'' = Some (JStr ''queued_for_review'')) (of_flags w))"
proof -
  define w where "w = call_sequence (office_server uid api domains channels key) cs empty_office"
  have ok: "office_ok domains channels w"
    unfolding w_def by (rule office_tools.calls_keep [OF office_ok_empty])
  have "list_all (\<lambda>(to, _). \<exists>name d. d \<in> set domains \<and> (to = name @ CHR ''@'' # d \<or> to = name @ CHR ''@'' # d @ newline_str))
       (of_mails w)"
    using ok allowed_recipient_shape unfolding office_ok_def list_all_iff by fastforce
  moreover have "list_all (\<lambda>(b, _). startswith b ''agent/'') (of_branches w @ of_commits w)"
    using ok agent_branch_shape unfolding office_ok_def list_all_iff by fastforce
  ultimately show ?thesis using ok by (simp add: office_ok_def Let_def flip: w_def)
qed

text \<open>
  Every registered tool declares one of the three risk classes, and exactly the four that
  reach the outside (mail, ERP entry, publication, pull request) are external writes.
\<close>

theorem external_tools_are_four:
  "list_all (\<lambda>t. tc_risk_class t \<in> valid_risk_classes) (all_contracts uid api domains channels) \<and>
   map tc_name (filter (\<lambda>t. tc_risk_class t = ''write:external'') (all_contracts uid api domains channels))
     = [''email.send'', ''erp.create_draft_entry'', ''cms.publish'', ''github.open_pr'']"
  by (simp add: all_contracts_def office_tools valid_risk_classes_def)

end
