(* ===== verification/Insights_Publisher.thy ===== *)
theory Insights_Publisher
  imports Agent_Common
begin

text \<open>
  The insights publisher (\<open>agents/insights_publisher\<close>): drafting from index rows and brand voice, the
  numbers-match grounding of \<open>grounding.py\<close>, and the graph that lets only grounded drafts reach
  an approver. The nonce of the quarantine block is a field of the environment here.
\<close>

section \<open>Grounding\<close>

text \<open>\<open>%?\s?\d[\d.,]*\<close>\<close>

definition number_re :: rx where
  "number_re =
     seqs [Opt (Cls (\<lambda>c. c = CHR ''%'')), Opt (Cls py_space), Cls py_digit,
           Star (Cls (\<lambda>c. py_digit c \<or> c = CHR ''.'' \<or> c = CHR '',''))]"

text \<open>\<open>,\d{1,2}$\<close>\<close>

definition decimal_comma_re :: rx where
  "decimal_comma_re = seqs [Cls (\<lambda>c. c = CHR '',''), Cls py_digit, Opt (Cls py_digit), Eos]"

definition drop_chars :: "string \<Rightarrow> string \<Rightarrow> string" where
  "drop_chars bad = filter (\<lambda>c. c \<notin> set bad)"

definition normalise :: "string \<Rightarrow> rat option" where
  "normalise token =
     (let t = strip (drop_chars ''% '' token) in
      if t = [] then None
      else (let u = (if rx_search decimal_comma_re t \<noteq> None
                     then map (\<lambda>c. if c = CHR '','' then CHR ''.'' else c) (drop_chars ''.'' t)
                     else drop_chars '',.'' t)
            in case parse_float u of Some (Fin r) \<Rightarrow> Some r | _ \<Rightarrow> None))"

definition number_tokens :: "string \<Rightarrow> string list" where
  "number_tokens text = map fst (rx_finditer number_re text)"

definition extract_numbers :: "string \<Rightarrow> rat list" where
  "extract_numbers text = List.map_filter normalise (number_tokens text)"

text \<open>One cell of a row: booleans are not numbers, and every number inside a string counts.\<close>

definition cell_values :: "json \<Rightarrow> pyfloat list" where
  "cell_values v =
     (case v of
        JInt i \<Rightarrow> [Fin (of_int i)]
      | JFloat f \<Rightarrow> [f]
      | JStr s \<Rightarrow> map Fin (extract_numbers s)
      | _ \<Rightarrow> [])"

type_synonym row = "(string \<times> json) list"

definition data_values :: "row list \<Rightarrow> pyfloat list" where
  "data_values rows = concat (map (\<lambda>row. concat (map (\<lambda>(_, v). cell_values v) row)) rows)"

text \<open>
  \<open>abs(num - d) <= max(tolerance, abs(d) * tolerance)\<close>: an infinite value admits every number
  (\<open>inf <= inf\<close>), NaN none.
\<close>

definition number_matches :: "rat \<Rightarrow> rat \<Rightarrow> pyfloat \<Rightarrow> bool" where
  "number_matches tolerance x d =
     (case d of
        Fin y \<Rightarrow> \<bar>x - y\<bar> \<le> max tolerance (\<bar>y\<bar> * tolerance)
      | NaN \<Rightarrow> False
      | _ \<Rightarrow> True)"

record grounding_result =
  gr_grounded :: bool
  gr_unmatched :: "rat list"

definition check_numbers_grounded :: "rat \<Rightarrow> string \<Rightarrow> row list \<Rightarrow> grounding_result" where
  "check_numbers_grounded tolerance draft_text rows =
     (let unmatched = filter (\<lambda>x. \<not> list_ex (number_matches tolerance x) (data_values rows))
                        (extract_numbers draft_text)
      in \<lparr>gr_grounded = (unmatched = []), gr_unmatched = unmatched\<rparr>)"

section \<open>Drafting\<close>

record draft =
  dr_report :: string
  dr_social :: string

definition read_draft :: "(json \<Rightarrow> string) \<Rightarrow> string \<Rightarrow> draft res" where
  "read_draft rp content =
     res_bind (parse_reply content) (\<lambda>parsed.
     res_bind (py_in ''report'' parsed) (\<lambda>has_report.
     res_bind (if has_report then py_in ''social'' parsed else Inr False) (\<lambda>ok.
       if \<not> ok then Inl (ParseError ''draft missing report/social'')
       else res_bind (str_field rp parsed ''report'') (\<lambda>report.
            res_bind (str_field rp parsed ''social'') (\<lambda>social.
              Inr \<lparr>dr_report = report, dr_social = social\<rparr>)))))"

text \<open>
  The Turkish headings of the user message play no role and are left out: the message is the
  rows, one per line as \<open>json.dumps\<close> renders them, and the quarantined brand voice.
\<close>

definition draft_report ::
  "agent_env \<Rightarrow> (row \<Rightarrow> string) \<Rightarrow> string \<Rightarrow> string \<Rightarrow> row list \<Rightarrow> string \<Rightarrow> (agent_call, draft) eff" where
  "draft_report env dumps nonce sensitivity rows voice =
     eff_bind (ask env sensitivity False
        [(''system'', ae_prompt env),
         (''user'', join newline (map dumps rows) @ newline @ newline @ wrap_untrusted nonce (Single voice))])
       (\<lambda>content. eff_lift (read_draft (ae_repr env) content))"

section \<open>The graph\<close>

record insights_state =
  in_rows :: "row list option"
  in_voice :: "string option"
  in_draft :: "draft option"
  in_grounded :: bool
  in_unmatched :: "rat list"
  in_blocked :: "exn option"
  in_rejected :: bool
  in_published :: "json option"
  in_paused :: bool

definition insights_start :: insights_state where
  "insights_start = \<lparr>in_rows = None, in_voice = None, in_draft = None, in_grounded = False, in_unmatched = [],
     in_blocked = None, in_rejected = False, in_published = None, in_paused = False\<rparr>"

datatype insights_node = In_Gate | In_Data | In_Brand | In_Draft | In_Grounding | In_Hitl | In_Publish | In_End

record insights_payload =
  inp_risk :: string
  inp_draft :: draft
  inp_rows :: "row list"

record insights_config =
  ic_agent :: string
  ic_nonce :: string
  ic_dumps :: "row \<Rightarrow> string"

definition rows_reply :: "json \<Rightarrow> row list res" where
  "rows_reply v =
     res_bind (py_iter v) (res_map (\<lambda>r. case r of JObj kvs \<Rightarrow> Inr kvs | _ \<Rightarrow> Inl (OtherError ''AttributeError'')))"

definition publish_args :: "draft \<Rightarrow> (string \<times> json) list" where
  "publish_args d = [(''report'', JStr (dr_report d)), (''social'', JStr (dr_social d))]"

definition draft_text :: "draft \<Rightarrow> string" where
  "draft_text d = dr_report d @ newline @ dr_social d"

fun insights_exec ::
  "insights_config \<Rightarrow> agent_env \<Rightarrow> insights_node \<Rightarrow> decision option \<Rightarrow> insights_state \<Rightarrow>
     (agent_call, (insights_state, insights_payload) step_out) eff" where
  "insights_exec cfg env In_Gate d s =
     update (if gate_closed (ae_kill env) (ic_agent cfg) then s\<lparr>in_paused := True\<rparr> else s)"
| "insights_exec cfg env In_Data d s =
     eff_bind (use_tool env ''index_data.monthly_rows'' [])
       (\<lambda>r. eff_bind (eff_lift (rows_reply r)) (\<lambda>rows. update (s\<lparr>in_rows := Some rows\<rparr>)))"
| "insights_exec cfg env In_Brand d s =
     eff_bind (use_tool env ''brand_voice.guidance'' [])
       (\<lambda>r. update (s\<lparr>in_voice := Some (py_str (ae_repr env) r)\<rparr>))"
| "insights_exec cfg env In_Draft d s =
     eff_bind (eff_lift (state_key ''data_rows'' (in_rows s))) (\<lambda>rows.
       eff_try (eff_bind (draft_report env (ic_dumps cfg) (ic_nonce cfg) ''internal'' rows
                            (case in_voice s of Some v \<Rightarrow> v | None \<Rightarrow> []))
                  (\<lambda>dr. update (s\<lparr>in_draft := Some dr\<rparr>)))
         (\<lambda>e. if is_parse_error e then Some (Update (s\<lparr>in_blocked := Some e\<rparr>)) else None))"
| "insights_exec cfg env In_Grounding d s =
     eff_bind (eff_lift (state_key ''draft'' (in_draft s))) (\<lambda>dr.
     eff_bind (eff_lift (state_key ''data_rows'' (in_rows s))) (\<lambda>rows.
       let r = check_numbers_grounded (1/100) (draft_text dr) rows
       in update (if \<not> gr_grounded r
                  then s\<lparr>in_grounded := False, in_unmatched := gr_unmatched r,
                         in_blocked := Some (OtherError ''ungrounded numbers in draft'')\<rparr>
                  else s\<lparr>in_grounded := True, in_unmatched := []\<rparr>)))"
| "insights_exec cfg env In_Hitl d s =
     eff_bind (eff_lift (assert_approval ''write:external'')) (\<lambda>_.
     eff_bind (eff_lift (state_key ''draft'' (in_draft s))) (\<lambda>dr.
     eff_bind (eff_lift (state_key ''data_rows'' (in_rows s))) (\<lambda>rows.
       interrupt \<lparr>inp_risk = ''write:external'', inp_draft = dr, inp_rows = rows\<rparr> d
         (\<lambda>dec. update (if approved_in dec then s else s\<lparr>in_rejected := True\<rparr>)))))"
| "insights_exec cfg env In_Publish d s =
     eff_bind (eff_lift (state_key ''draft'' (in_draft s))) (\<lambda>dr.
     eff_bind (use_tool env ''publisher.publish'' (publish_args dr))
       (\<lambda>r. update (s\<lparr>in_published := Some r\<rparr>)))"
| "insights_exec cfg env In_End d s = update s"

fun insights_route :: "insights_node \<Rightarrow> insights_state \<Rightarrow> insights_node option res" where
  "insights_route In_Gate s = Inr (if in_paused s then None else Some In_Data)"
| "insights_route In_Data s = Inr (Some In_Brand)"
| "insights_route In_Brand s = Inr (Some In_Draft)"
| "insights_route In_Draft s = Inr (Some (if in_blocked s \<noteq> None then In_End else In_Grounding))"
| "insights_route In_Grounding s = Inr (Some (if in_grounded s then In_Hitl else In_End))"
| "insights_route In_Hitl s = Inr (Some (if in_rejected s then In_End else In_Publish))"
| "insights_route In_Publish s = Inr (Some In_End)"
| "insights_route In_End s = Inr None"

definition insights_run ::
  "insights_config \<Rightarrow> agent_env \<Rightarrow> insights_node \<Rightarrow> decision option \<Rightarrow> insights_state \<Rightarrow>
     agent_call list \<times> (insights_node, insights_state, insights_payload) run_out" where
  "insights_run cfg env = graph_run (insights_exec cfg env) insights_route 8"

fun insights_rank :: "insights_node \<Rightarrow> nat" where
  "insights_rank In_Gate = 7" | "insights_rank In_Data = 6" | "insights_rank In_Brand = 5"
| "insights_rank In_Draft = 4" | "insights_rank In_Grounding = 3" | "insights_rank In_Hitl = 2"
| "insights_rank In_Publish = 1" | "insights_rank In_End = 0"

interpretation insights_acyclic: acyclic_graph "insights_exec cfg env" insights_route insights_rank for cfg env
proof
  fix n s n'
  assume "insights_route n s = Inr (Some n')"
  then show "insights_rank n' < insights_rank n" by (cases n) (auto split: if_splits)
qed

section \<open>Runs\<close>

text \<open>Every number of the draft agrees with some value of the rows.\<close>

definition draft_grounded :: "draft \<Rightarrow> row list \<Rightarrow> bool" where
  "draft_grounded dr rows \<longleftrightarrow>
     (\<forall>x \<in> set (extract_numbers (draft_text dr)). \<exists>d \<in> set (data_values rows). number_matches (1/100) x d)"

lemma check_numbers_grounded_iff:
  "gr_grounded (check_numbers_grounded (1/100) (draft_text dr) rows) \<longleftrightarrow> draft_grounded dr rows"
  by (auto simp: check_numbers_grounded_def draft_grounded_def Let_def filter_empty_conv list_ex_iff)

definition insights_inv :: "insights_node \<Rightarrow> insights_state \<Rightarrow> bool" where
  "insights_inv n s \<longleftrightarrow>
     \<not> in_rejected s \<and> n \<noteq> In_Publish \<and>
     (n = In_Hitl \<longrightarrow> (\<exists>dr rows. in_draft s = Some dr \<and> in_rows s = Some rows \<and> draft_grounded dr rows))"

definition insights_read_call :: "agent_call \<Rightarrow> bool" where
  "insights_read_call c =
     (case c of
        Ask sens _ _ \<Rightarrow> sens = ''internal''
      | Use tool _ \<Rightarrow> tool = ''index_data.monthly_rows'' \<or> tool = ''brand_voice.guidance'')"

lemma trace_draft_report: "set (trace (draft_report env dumps nonce sens rows v)) \<subseteq> {c. \<exists>ms. c = Ask sens False ms}"
  by (auto simp: draft_report_def set_trace_eff_bind split: sum.splits)

interpretation insights_quiet:
  quiet_graph "insights_exec cfg env" insights_route insights_inv "\<lambda>c. \<not> insights_read_call c" for cfg env
proof
  fix n s l s' n'
  assume inv: "insights_inv n s" and ex: "insights_exec cfg env n None s = (l, Inr (Update s'))"
    and rt: "insights_route n s' = Inr (Some n')"
  from ex have out: "outcome (insights_exec cfg env n None s) = Inr (Update s')" by simp
  show "insights_inv n' s'"
    using inv out rt
    by (cases n)
      (auto simp: insights_inv_def outcome_eff_bind eff_try_Inr Let_def check_numbers_grounded_iff
        split: sum.splits if_splits)
next
  fix n s e
  assume inv: "insights_inv n s" and e: "e \<in> set (trace (insights_exec cfg env n None s))"
  show "\<not> \<not> insights_read_call e"
  proof (cases n)
    case In_Draft
    with e obtain rows where "e \<in> set (trace (draft_report env (ic_dumps cfg) (ic_nonce cfg) ''internal'' rows
          (case in_voice s of Some v \<Rightarrow> v | None \<Rightarrow> [])))"
      by (auto simp: set_trace_eff_bind split: sum.splits)
    with trace_draft_report show ?thesis by (fastforce simp: insights_read_call_def)
  qed (use inv e in \<open>auto simp: insights_inv_def insights_read_call_def set_trace_eff_bind Let_def
        split: sum.splits if_splits\<close>)
qed

lemma insights_inv_start [simp]: "insights_inv In_Gate insights_start"
  by (simp add: insights_inv_def insights_start_def)

lemma insights_suspends:
  assumes "snd (insights_run cfg env In_Gate None insights_start) = Suspended n t p"
  shows "n = In_Hitl \<and> \<not> in_rejected t \<and>
     (\<exists>dr rows. in_draft t = Some dr \<and> in_rows t = Some rows \<and> draft_grounded dr rows \<and>
        p = \<lparr>inp_risk = ''write:external'', inp_draft = dr, inp_rows = rows\<rparr>)"
proof -
  from suspended_exec [OF assms [unfolded insights_run_def]] obtain d' l
    where ex: "insights_exec cfg env n d' t = (l, Inr (Suspend p))" by blast
  then have out: "outcome (insights_exec cfg env n d' t) = Inr (Suspend p)" by simp
  then have n: "n = In_Hitl"
    by (cases n) (auto simp: outcome_eff_bind eff_try_Inr Let_def split: sum.splits if_splits)
  from insights_quiet.suspended_inv [OF insights_inv_start assms [unfolded insights_run_def]] n
  have "insights_inv In_Hitl t" by simp
  with n out show ?thesis
    by (cases d') (auto simp: insights_inv_def outcome_eff_bind split: sum.splits)
qed

section \<open>Properties\<close>

text \<open>
  Only grounded drafts are published. If a publisher run suspends, every number of
  the draft on the approval item agrees within one percent with a value of the rows attached to
  it, nothing but reads and internal model calls has been made, a rejection makes no call, and
  an approval publishes exactly that draft.
\<close>

theorem insights_publishes_grounded_drafts:
  assumes "snd (insights_run cfg env In_Gate None insights_start) = Suspended n t p"
  shows "draft_grounded (inp_draft p) (inp_rows p) \<and>
     list_all insights_read_call (fst (insights_run cfg env In_Gate None insights_start)) \<and>
     fst (insights_run cfg' env' n (Some (resume_with False)) t) = [] \<and>
     fst (insights_run cfg' env' n (Some (resume_with True)) t)
       = [Use ''publisher.publish'' (publish_args (inp_draft p))]"
proof -
  from insights_suspends [OF assms] obtain dr rows where n: "n = In_Hitl" "\<not> in_rejected t"
    and s: "in_draft t = Some dr" "in_rows t = Some rows" and g: "draft_grounded dr rows"
    and p: "p = \<lparr>inp_risk = ''write:external'', inp_draft = dr, inp_rows = rows\<rparr>" by blast
  have "list_all insights_read_call (fst (insights_run cfg env In_Gate None insights_start))"
    using insights_quiet.no_bad_call [OF insights_inv_start] by (auto simp: list_all_iff insights_run_def)
  moreover have "fst (insights_run cfg' env' n (Some (resume_with False)) t) = []"
    using n s by (simp add: insights_run_def eval_nat_numeral eff_return_def)
  moreover have "fst (insights_run cfg' env' n (Some (resume_with True)) t)
       = [Use ''publisher.publish'' (publish_args dr)]"
    using n s by (cases "ae_tool env' ''publisher.publish'' (publish_args dr)")
      (simp_all add: insights_run_def eval_nat_numeral eff_return_def use_tool_def)
  ultimately show ?thesis using g p by simp
qed

definition demo_rows :: json where
  "demo_rows = JList [JObj [(''segment'', JStr ''sedan-2018''), (''median'', JInt 500000)]]"

definition demo_insights_env :: agent_env where
  "demo_insights_env = \<lparr>ae_prompt = ''p'',
     ae_model = (\<lambda>_ _ _. Inr (''{'' @ qt ''report'' @ '':'' @ qt ''2018: 500.000'' @ '','' @ qt ''social'' @ '':'' @ qt ''hi'' @ ''}'')),
     ae_tool = (\<lambda>tool _. if tool = ''index_data.monthly_rows'' then Inr demo_rows else Inr (JStr ''calm'')),
     ae_kill = None, ae_repr = (\<lambda>_. [])\<rparr>"

definition demo_insights_config :: insights_config where
  "demo_insights_config = \<lparr>ic_agent = ''insights_publisher'', ic_nonce = ''0a'', ic_dumps = (\<lambda>_. ''row'')\<rparr>"

definition demo_insights_suspended :: insights_state where
  "demo_insights_suspended = insights_start
     \<lparr>in_rows := Some [[(''segment'', JStr ''sedan-2018''), (''median'', JInt 500000)]], in_voice := Some ''calm'',
      in_draft := Some \<lparr>dr_report = ''2018: 500.000'', dr_social = ''hi''\<rparr>, in_grounded := True\<rparr>"

lemma insights_publishes_grounded_drafts_witness:
  "fst (insights_run demo_insights_config demo_insights_env In_Hitl (Some (resume_with True)) demo_insights_suspended)
     = [Use ''publisher.publish'' [(''report'', JStr ''2018: 500.000''), (''social'', JStr ''hi'')]]"
proof -
  have "snd (insights_run demo_insights_config demo_insights_env In_Gate None insights_start)
     = Suspended In_Hitl demo_insights_suspended \<lparr>inp_risk = ''write:external'',
         inp_draft = \<lparr>dr_report = ''2018: 500.000'', dr_social = ''hi''\<rparr>,
         inp_rows = [[(''segment'', JStr ''sedan-2018''), (''median'', JInt 500000)]]\<rparr>" by code_simp
  from insights_publishes_grounded_drafts [OF this] show ?thesis by (simp add: publish_args_def)
qed

text \<open>
  A decimal point is lost. \<open>12.5\<close> in a draft is read as 125, so it is refused
  against the value 12.5 it quotes, and accepted against 125.
\<close>

theorem decimal_point_is_lost:
  "normalise ''12.5'' = Some 125 \<and>
   \<not> gr_grounded (check_numbers_grounded (1/100) ''12.5'' [[(''v'', JFloat (Fin (25/2)))]]) \<and>
   gr_grounded (check_numbers_grounded (1/100) ''12.5'' [[(''v'', JInt 125)]])"
  by code_simp

end
