(* ===== verification/Agent_Runs.thy ===== *)
theory Agent_Runs
  imports Agents_Admin Mcp_Tools Invoice_Agent Dev_Agent Hr_Agent Dealer_Onboarding Insights_Publisher
begin

text \<open>
  The routes that start the five interrupting agents (\<open>apps/api/fleet_api/routers/dev_agent.py\<close>,
  \<open>invoice_agent.py\<close>, \<open>hr_agent.py\<close>, \<open>dealer_onboarding.py\<close>, \<open>insights_publisher.py\<close>) and what they leave
  behind: a suspended graph is a \<open>thread\<close> in the checkpoint store, found again by the run id, and a pending
  row of the approval queue. \<open>Resumed_Thread\<close> stands for whatever checkpoint a resumed run leaves; no route
  reads it again. What leaves the process in a request is its list of calls.
\<close>

section \<open>Tables and threads\<close>

datatype thread =
    Dev_Thread dev_node dev_state
  | Invoice_Thread invoice_node invoice_state
  | Hr_Thread hr_node hr_state
  | Dealer_Thread dealer_node dealer_state
  | Insights_Thread insights_node insights_state
  | Resumed_Thread

record approval_row =
  ap_id :: nat
  ap_agent_id :: nat
  ap_run_id :: string
  ap_action :: string
  ap_payload :: payload
  ap_status :: string
  ap_decided_by :: "string option"
  ap_decided_at :: "int option"
  ap_created_at :: int

record fleet_db =
  fd_agents :: agent_table
  fd_approvals :: "approval_row list"
  fd_next_approval :: nat
  fd_threads :: "string \<rightharpoonup> thread"

text \<open>
  What the routes build their graphs from: the gateway client and tools of each agent, the texts, the mail
  sender. \<open>fe_no_thread\<close> is what LangGraph raises when a run id has no checkpoint.
\<close>

record fleet_env =
  fe_env :: "string \<Rightarrow> agent_env"
  fe_dev :: dev_config
  fe_insights :: insights_config
  fe_letter :: letter_text
  fe_smtp :: "string \<Rightarrow> string \<Rightarrow> string \<Rightarrow> unit res"
  fe_no_thread :: exn

datatype fleet_call =
    By_Agent string agent_call
  | Recipe_Mail string string string

text \<open>None of the routes passes a kill switch to the graph it builds.\<close>

definition route_env :: "fleet_env \<Rightarrow> string \<Rightarrow> agent_env" where
  "route_env fe agent = (fe_env fe agent)\<lparr>ae_kill := None\<rparr>"

section \<open>Starting a run\<close>

text \<open>
  How the invoked graph came back: blocked with a reason, interrupted with an action and its arguments,
  ended, or raised.
\<close>

datatype started =
    Blocked exn
  | Waiting thread string payload
  | Ended string
  | Raised exn

definition dev_name :: string where "dev_name = ''dev_agent''"
definition invoice_name :: string where "invoice_name = ''invoice_agent''"
definition hr_name :: string where "hr_name = ''hr_agent''"
definition dealer_name :: string where "dealer_name = ''dealer_onboarding''"
definition insights_name :: string where "insights_name = ''insights_publisher''"
definition recipe_name :: string where "recipe_name = ''automation_recipe''"

text \<open>A run that ends without interrupt or blocked reason is the route's 500.\<close>

definition unexpected :: started where
  "unexpected = Raised (HTTPException 500 ''unexpected run result'')"

definition begin_dev :: "fleet_env \<Rightarrow> string \<Rightarrow> agent_call list \<times> started" where
  "begin_dev fe ticket_key =
     (case dev_run (fe_dev fe) (route_env fe dev_name) Dv_Gate None (dev_start ticket_key) of
        (calls, out) \<Rightarrow> (calls,
          case out of
            Failed e \<Rightarrow> Raised e
          | OutOfFuel \<Rightarrow> unexpected
          | Finished s \<Rightarrow> (case dv_blocked s of Some e \<Rightarrow> Blocked e | None \<Rightarrow> unexpected)
          | Suspended n s p \<Rightarrow>
              (case dv_blocked s of
                 Some e \<Rightarrow> Blocked e
               | None \<Rightarrow> Waiting (Dev_Thread n s) ''github.open_pr''
                           [(''branch_name'', JStr (dpl_branch p)), (''title'', JStr (dpl_title p)), (''body'', JStr (dpl_body p))])))"

definition begin_invoice :: "fleet_env \<Rightarrow> string \<Rightarrow> agent_call list \<times> started" where
  "begin_invoice fe image_base64 =
     (case invoice_run invoice_name (route_env fe invoice_name) Iv_Gate None (invoice_start image_base64 {}) of
        (calls, out) \<Rightarrow> (calls,
          case out of
            Failed e \<Rightarrow> Raised e
          | OutOfFuel \<Rightarrow> unexpected
          | Finished s \<Rightarrow> (case iv_blocked s of Some e \<Rightarrow> Blocked e | None \<Rightarrow> unexpected)
          | Suspended n s p \<Rightarrow>
              (case iv_blocked s of
                 Some e \<Rightarrow> Blocked e
               | None \<Rightarrow> Waiting (Invoice_Thread n s) ''erp.create_draft_entry'' (draft_args (ip_fields p)))))"

definition cv_args :: "cv_profile \<Rightarrow> payload" where
  "cv_args p =
     [(''full_name'', JStr (cv_full_name p)), (''email'', JStr (cv_email p)), (''phone'', JStr (cv_phone p)),
      (''education'', JList (map JStr (cv_education p))), (''experience'', JList (map JStr (cv_experience p))),
      (''skills'', JList (map JStr (cv_skills p)))]"

definition begin_hr :: "fleet_env \<Rightarrow> string \<Rightarrow> string list \<Rightarrow> agent_call list \<times> started" where
  "begin_hr fe image_base64 criteria =
     (case hr_run hr_name (route_env fe hr_name) Hr_Gate None (hr_start image_base64 criteria) of
        (calls, out) \<Rightarrow> (calls,
          case out of
            Failed e \<Rightarrow> Raised e
          | OutOfFuel \<Rightarrow> unexpected
          | Finished s \<Rightarrow> (case hr_blocked s of Some e \<Rightarrow> Blocked e | None \<Rightarrow> unexpected)
          | Suspended n s p \<Rightarrow>
              (case hr_blocked s of
                 Some e \<Rightarrow> Blocked e
               | None \<Rightarrow> Waiting (Hr_Thread n s) ''hr.shortlist_draft'' (cv_args (hp_profile p)))))"

text \<open>Here a run that just ends is an answer: flagged for a name mismatch, else completed.\<close>

definition begin_dealer :: "fleet_env \<Rightarrow> string \<Rightarrow> (string \<times> string) list \<Rightarrow> agent_call list \<times> started" where
  "begin_dealer fe application_id documents =
     (case dealer_run dealer_name (fe_letter fe) (route_env fe dealer_name) De_Gate None (dealer_start application_id documents) of
        (calls, out) \<Rightarrow> (calls,
          case out of
            Failed e \<Rightarrow> Raised e
          | OutOfFuel \<Rightarrow> unexpected
          | Finished s \<Rightarrow>
              (case de_blocked s of
                 Some e \<Rightarrow> Blocked e
               | None \<Rightarrow> Ended (case de_check s of Some c \<Rightarrow> if cc_mismatch c then ''flagged'' else ''completed''
                                 | None \<Rightarrow> ''completed''))
          | Suspended n s p \<Rightarrow>
              (case de_blocked s of
                 Some e \<Rightarrow> Blocked e
               | None \<Rightarrow> Waiting (Dealer_Thread n s) ''email.send'' (email_args (dep_email p)))))"

definition begin_insights :: "fleet_env \<Rightarrow> agent_call list \<times> started" where
  "begin_insights fe =
     (case insights_run (fe_insights fe) (route_env fe insights_name) In_Gate None insights_start of
        (calls, out) \<Rightarrow> (calls,
          case out of
            Failed e \<Rightarrow> Raised e
          | OutOfFuel \<Rightarrow> Blocked (OtherError ''no draft produced'')
          | Finished s \<Rightarrow>
              (case in_blocked s of Some e \<Rightarrow> Blocked e | None \<Rightarrow> Blocked (OtherError ''no draft produced''))
          | Suspended n s p \<Rightarrow>
              (case in_blocked s of
                 Some e \<Rightarrow> Blocked e
               | None \<Rightarrow> Waiting (Insights_Thread n s) ''cms.publish+social.post'' (publish_args (inp_draft p)))))"

datatype run_request =
    Run_Dev string
  | Run_Invoice string
  | Run_Hr string "string list"
  | Run_Dealer string "(string \<times> string) list"
  | Run_Insights

fun agent_of_request :: "run_request \<Rightarrow> string" where
  "agent_of_request (Run_Dev _) = dev_name"
| "agent_of_request (Run_Invoice _) = invoice_name"
| "agent_of_request (Run_Hr _ _) = hr_name"
| "agent_of_request (Run_Dealer _ _) = dealer_name"
| "agent_of_request Run_Insights = insights_name"

fun begin_run :: "fleet_env \<Rightarrow> run_request \<Rightarrow> agent_call list \<times> started" where
  "begin_run fe (Run_Dev k) = begin_dev fe k"
| "begin_run fe (Run_Invoice img) = begin_invoice fe img"
| "begin_run fe (Run_Hr img cs) = begin_hr fe img cs"
| "begin_run fe (Run_Dealer i ds) = begin_dealer fe i ds"
| "begin_run fe Run_Insights = begin_insights fe"

text \<open>The answer of a run route: its status and, when blocked, the reason.\<close>

datatype run_reply = Pending_Approval payload | Blocked_Reply exn | Ended_Reply string

definition add_approval :: "nat \<Rightarrow> string \<Rightarrow> string \<Rightarrow> payload \<Rightarrow> int \<Rightarrow> fleet_db \<Rightarrow> fleet_db" where
  "add_approval agent_id run_id action args now db =
     db\<lparr>fd_approvals := fd_approvals db @ [\<lparr>ap_id = fd_next_approval db, ap_agent_id = agent_id, ap_run_id = run_id,
          ap_action = action, ap_payload = args, ap_status = ''pending'', ap_decided_by = None, ap_decided_at = None,
          ap_created_at = now\<rparr>],
        fd_next_approval := Suc (fd_next_approval db)\<rparr>"

text \<open>\<open>admitted\<close> is the outcome of the route's caller check, \<open>run_id\<close> the uuid it draws.\<close>

definition start_run ::
  "fleet_env \<Rightarrow> unit res \<Rightarrow> run_request \<Rightarrow> string \<Rightarrow> int \<Rightarrow> fleet_db \<Rightarrow> fleet_call list \<times> run_reply res \<times> fleet_db" where
  "start_run fe admitted req run_id now db =
     (case admitted of Inl e \<Rightarrow> ([], Inl e, db) | Inr _ \<Rightarrow>
      (case agent_by_name (at_rows (fd_agents db)) (agent_of_request req) of
         None \<Rightarrow> ([], Inl (HTTPException 500 (agent_of_request req @ '' not seeded'')), db)
       | Some agent \<Rightarrow>
           (let (calls, out) = begin_run fe req; fleet_calls = map (By_Agent (agent_of_request req)) calls in
            case out of
              Raised e \<Rightarrow> (fleet_calls, Inl e, db)
            | Blocked e \<Rightarrow> (fleet_calls, Inr (Blocked_Reply e), db)
            | Ended st \<Rightarrow> (fleet_calls, Inr (Ended_Reply st), db)
            | Waiting th action args \<Rightarrow>
                (fleet_calls, Inr (Pending_Approval args),
                 add_approval (ag_id agent) run_id action args now (db\<lparr>fd_threads := (fd_threads db)(run_id \<mapsto> th)\<rparr>)))))"

section \<open>The kill switch and the runs\<close>

lemma route_env_kill [simp]:
  "route_env (fe\<lparr>fe_env := \<lambda>a. (fe_env fe a)\<lparr>ae_kill := k a\<rparr>\<rparr>) agent = route_env fe agent"
  by (simp add: route_env_def)

lemma begin_run_kill: "begin_run (fe\<lparr>fe_env := \<lambda>a. (fe_env fe a)\<lparr>ae_kill := k a\<rparr>\<rparr>) req = begin_run fe req"
  by (cases req) (simp_all add: begin_dev_def begin_invoice_def begin_hr_def begin_dealer_def begin_insights_def)

lemma find_put_status:
  assumes "distinct (map ag_id rows)" "row \<in> set rows"
  shows "map_option ag_id (agent_by_name (map (\<lambda>a. if ag_id a = ag_id row then row\<lparr>ag_status := st\<rparr> else a) rows) n)
     = map_option ag_id (agent_by_name rows n)"
  using assms
proof (induction rows)
  case (Cons a rows)
  show ?case
  proof (cases "ag_id a = ag_id row")
    case True
    with Cons.prems have row: "row = a" by (auto simp: image_iff)
    have "map (\<lambda>b. if ag_id b = ag_id a then a\<lparr>ag_status := st\<rparr> else b) rows = rows"
      using Cons.prems by (intro map_idI) (auto simp: image_iff)
    then show ?thesis unfolding row by (simp add: agent_by_name_def)
  next
    case False
    with Cons show ?thesis by (auto simp: agent_by_name_def)
  qed
qed simp

lemma status_keeps_agent:
  assumes "agents_wf t"
  shows "map_option ag_id (agent_by_name (at_rows (snd (set_status who i st t))) n)
     = map_option ag_id (agent_by_name (at_rows t) n)"
proof -
  have d: "distinct (map ag_id (at_rows t))" using assms by (simp add: agents_wf_def)
  show ?thesis
    by (auto simp: set_status_def on_agent_def guarded_def put_agent_def split: sum.split option.split
        dest!: agent_by_idD intro: find_put_status [OF d])
qed

section \<open>Fresh duplicate memory\<close>

definition unseen_inv :: "invoice_node \<Rightarrow> invoice_state \<Rightarrow> bool" where
  "unseen_inv n s \<longleftrightarrow>
     (n \<in> {Iv_Gate, Iv_Ocr, Iv_Extract, Iv_Validate} \<longrightarrow> iv_seen s = {}) \<and>
     (n = Iv_Hitl \<longrightarrow> (\<exists>v. iv_validation s = Some v \<and> (\<forall>x. Duplicate x \<notin> set (vr_reasons v))))"

lemma unseen_validation: "Duplicate x \<notin> set (vr_reasons (validation_for f {} found))"
  by (auto simp: validation_for_def check_duplicate_def Let_def split: option.split)

interpretation unseen: graph_invariant "invoice_exec agent env" invoice_route unseen_inv for agent env
proof
  fix n s l s' n'
  assume inv: "unseen_inv n s" and ex: "invoice_exec agent env n None s = (l, Inr (Update s'))"
    and rt: "invoice_route n s' = Inr (Some n')"
  from ex have out: "outcome (invoice_exec agent env n None s) = Inr (Update s')" by simp
  show "unseen_inv n' s'"
  proof (cases n)
    case Iv_Validate
    with out obtain f v where "outcome (validate_invoice env f (iv_seen s)) = Inr v"
      "s' = s\<lparr>iv_validation := Some v, iv_seen := insert (f_po_number f) (iv_seen s)\<rparr>"
      by (auto simp: outcome_eff_bind split: sum.splits)
    with inv rt Iv_Validate validate_invoice_outcome [of env f "iv_seen s" v] unseen_validation show ?thesis
      by (auto simp: unseen_inv_def)
  next
    case Iv_Hitl
    with out show ?thesis by (auto simp: outcome_eff_bind split: sum.splits)
  qed (use inv rt out in \<open>auto simp: unseen_inv_def outcome_eff_bind eff_try_Inr split: sum.splits if_splits\<close>)
qed

lemma unseen_start: "unseen_inv Iv_Gate (invoice_start img {})"
  by (simp add: unseen_inv_def invoice_start_def)

section \<open>Properties\<close>

text \<open>
  Pausing an agent does not stop its runs. Whatever a kill switch says, and after the row of any
  agent is set to any status, the run routes make the same calls and give the same answer: none of them
  reads the row's status or hands a kill switch to the graph it builds.
\<close>

theorem pause_does_not_stop_runs:
  assumes "agents_wf (fd_agents db)"
  shows "fst (start_run (fe\<lparr>fe_env := \<lambda>a. (fe_env fe a)\<lparr>ae_kill := k a\<rparr>\<rparr>) adm req r now
            (db\<lparr>fd_agents := snd (set_status who i st (fd_agents db))\<rparr>)) = fst (start_run fe adm req r now db) \<and>
    fst (snd (start_run (fe\<lparr>fe_env := \<lambda>a. (fe_env fe a)\<lparr>ae_kill := k a\<rparr>\<rparr>) adm req r now
            (db\<lparr>fd_agents := snd (set_status who i st (fd_agents db))\<rparr>))) = fst (snd (start_run fe adm req r now db))"
proof -
  have same: "agent_by_name (at_rows (snd (set_status who i st (fd_agents db)))) n = None
      \<longleftrightarrow> agent_by_name (at_rows (fd_agents db)) n = None" for n
    using status_keeps_agent [OF assms, of who i st n] by (metis map_option_is_None)
  show ?thesis
    using same [of "agent_of_request req"]
    by (cases adm; cases "agent_by_name (at_rows (fd_agents db)) (agent_of_request req)";
        cases "agent_by_name (at_rows (snd (set_status who i st (fd_agents db)))) (agent_of_request req)")
      (auto simp: start_run_def begin_run_kill Let_def case_prod_beta split: started.split)
qed

definition demo_fleet :: fleet_env where
  "demo_fleet = \<lparr>fe_env = (\<lambda>_. demo_dev_env), fe_dev = demo_dev_config, fe_insights = demo_insights_config,
     fe_letter = demo_letter, fe_smtp = (\<lambda>_ _ _. Inr ()), fe_no_thread = OtherError ''EmptyInputError''\<rparr>"

definition demo_fleet_db :: fleet_db where
  "demo_fleet_db = \<lparr>fd_agents = demo_agents, fd_approvals = [], fd_next_approval = 1, fd_threads = (\<lambda>_. None)\<rparr>"

lemma pause_does_not_stop_runs_witness:
  "fst (snd (start_run (demo_fleet\<lparr>fe_env := \<lambda>a. demo_dev_env\<lparr>ae_kill := Some \<lparr>kv_paused = (\<lambda>_. True), kv_blocks = (\<lambda>_. True)\<rparr>\<rparr>\<rparr>)
        (Inr ()) (Run_Dev ''T-1'') ''run-1'' 0
        (demo_fleet_db\<lparr>fd_agents := snd (set_status demo_builder 1 ''paused'' demo_agents)\<rparr>)))
     = Inr (Pending_Approval [(''branch_name'', JStr ''agent/fix-0a1b2c3d''), (''title'', JStr ''Fix''), (''body'', JStr ''b'')])"
proof -
  have "agents_wf (fd_agents demo_fleet_db)" by code_simp
  from conjunct2 [OF pause_does_not_stop_runs [where fe = demo_fleet and req = "Run_Dev ''T-1''" and adm = "Inr ()"
      and k = "\<lambda>_. Some \<lparr>kv_paused = (\<lambda>_. True), kv_blocks = (\<lambda>_. True)\<rparr>" and who = demo_builder and i = 1
      and st = "''paused''" and r = "''run-1''" and now = 0, OF this]]
  have "fst (snd (start_run (demo_fleet\<lparr>fe_env := \<lambda>a. (fe_env demo_fleet a)\<lparr>ae_kill := Some \<lparr>kv_paused = (\<lambda>_. True), kv_blocks = (\<lambda>_. True)\<rparr>\<rparr>\<rparr>)
        (Inr ()) (Run_Dev ''T-1'') ''run-1'' 0
        (demo_fleet_db\<lparr>fd_agents := snd (set_status demo_builder 1 ''paused'' (fd_agents demo_fleet_db))\<rparr>)))
     = fst (snd (start_run demo_fleet (Inr ()) (Run_Dev ''T-1'') ''run-1'' 0 demo_fleet_db))" .
  moreover have "fst (snd (start_run demo_fleet (Inr ()) (Run_Dev ''T-1'') ''run-1'' 0 demo_fleet_db))
     = Inr (Pending_Approval [(''branch_name'', JStr ''agent/fix-0a1b2c3d''), (''title'', JStr ''Fix''), (''body'', JStr ''b'')])"
    by code_simp
  ultimately show ?thesis by (simp add: demo_fleet_def demo_fleet_db_def)
qed

text \<open>
  The invoice route never reports a duplicate. The set of seen purchase orders is empty in
  every run it starts, so the validation an approver is shown has no duplicate among its reasons, however
  often the same invoice is submitted.
\<close>

theorem invoice_route_misses_duplicates:
  assumes "snd (begin_invoice fe img) = Waiting (Invoice_Thread n s) action args"
  shows "\<exists>v. iv_validation s = Some v \<and> \<not> list_ex (\<lambda>x. case x of Duplicate _ \<Rightarrow> True | _ \<Rightarrow> False) (vr_reasons v)"
proof -
  let ?run = "invoice_run invoice_name (route_env fe invoice_name) Iv_Gate None (invoice_start img {})"
  from assms obtain p where s: "snd ?run = Suspended n s p"
    by (auto simp: begin_invoice_def unexpected_def split: prod.splits run_out.splits option.splits)
  from invoice_suspends [OF s] unseen.suspended_inv [OF unseen_start s [unfolded invoice_run_def]]
  show ?thesis by (auto simp: unseen_inv_def list_ex_iff split: reason.splits)
qed

definition demo_invoice_fleet :: fleet_env where
  "demo_invoice_fleet = demo_fleet\<lparr>fe_env := \<lambda>_. demo_invoice_env demo_reply\<rparr>"

text \<open>The saved state of a waiting thread.\<close>

fun waiting_invoice :: "started \<Rightarrow> (invoice_node \<times> invoice_state) option" where
  "waiting_invoice (Waiting (Invoice_Thread n s) _ _) = Some (n, s)"
| "waiting_invoice _ = None"

lemma invoice_route_misses_duplicates_witness:
  "map_option (\<lambda>(_, s). map_option vr_ok (iv_validation s)) (waiting_invoice (snd (begin_invoice demo_invoice_fleet ''img'')))
     = Some (Some True) \<and>
   (\<exists>n s v. waiting_invoice (snd (begin_invoice demo_invoice_fleet ''img'')) = Some (n, s) \<and> iv_validation s = Some v \<and>
      \<not> list_ex (\<lambda>x. case x of Duplicate _ \<Rightarrow> True | _ \<Rightarrow> False) (vr_reasons v))"
proof -
  have ok: "map_option (\<lambda>(_, s). map_option vr_ok (iv_validation s))
      (waiting_invoice (snd (begin_invoice demo_invoice_fleet ''img''))) = Some (Some True)" by code_simp
  then obtain n s where w: "waiting_invoice (snd (begin_invoice demo_invoice_fleet ''img'')) = Some (n, s)" by auto
  then obtain action args where "snd (begin_invoice demo_invoice_fleet ''img'') = Waiting (Invoice_Thread n s) action args"
    by (cases "snd (begin_invoice demo_invoice_fleet ''img'')" rule: waiting_invoice.cases) auto
  from invoice_route_misses_duplicates [OF this] w ok show ?thesis by blast
qed

end
