(* ===== verification/Access_Admin.thy ===== *)
theory Access_Admin
  imports Access
begin

text \<open>
  The admin routes over users, roles and API keys (\<open>apps/api/fleet_api/routers/users_admin.py\<close>,
  \<open>routers/api_keys_admin.py\<close>), the invariant of the access tables, and what the two kinds of
  credentials guarantee over every sequence of logins and admin actions.
\<close>

section \<open>Routes\<close>

text \<open>The caller's identity; the routes only differ in what follows the permission check.\<close>

record ident =
  id_decode :: "string \<Rightarrow> claims option"
  id_sha :: "string \<Rightarrow> string"
  id_bearer :: "string option"

definition platform_admin_only :: "ident \<Rightarrow> (principal \<Rightarrow> 'a handler) \<Rightarrow> 'a handler" where
  "platform_admin_only i = h_bind (require_permission (id_decode i) (id_sha i) MANAGE_PLATFORM (id_bearer i))"

definition find_by_id :: "nat \<Rightarrow> access_db \<Rightarrow> user_row option" where
  "find_by_id uid db = find (\<lambda>u. u_id u = uid) (ad_users db)"

definition list_users :: "ident \<Rightarrow> (user_row \<times> role_row list) list handler" where
  "list_users i = platform_admin_only i
     (\<lambda>_ db. (Inr (map (\<lambda>u. (u, roles_of db (u_id u))) (sort_key u_id (ad_users db))), db))"

text \<open>A department id that names no department fails the foreign key at the commit.\<close>

definition dept_exists :: "access_db \<Rightarrow> nat option \<Rightarrow> bool" where
  "dept_exists db dept = (case dept of None \<Rightarrow> True | Some d \<Rightarrow> d \<in> set (map fst (ad_departments db)))"

definition update_user_dept :: "ident \<Rightarrow> nat \<Rightarrow> nat option \<Rightarrow> (user_row \<times> role_row list) handler" where
  "update_user_dept i uid dept = platform_admin_only i
     (\<lambda>_ db. case find_by_id uid db of
        None \<Rightarrow> (Inl (HTTPException 404 ''user not found''), db)
      | Some u \<Rightarrow>
          (if \<not> dept_exists db dept then (Inl (OtherError ''IntegrityError''), db)
           else (let u' = u\<lparr>u_dept_id := dept\<rparr>;
                     db' = db\<lparr>ad_users := map (\<lambda>x. if u_id x = uid then u' else x) (ad_users db)\<rparr>
                 in (Inr (u', roles_of db' uid), db'))))"

definition add_role :: "ident \<Rightarrow> nat \<Rightarrow> string \<Rightarrow> nat option \<Rightarrow> role_row handler" where
  "add_role i uid role dept = platform_admin_only i
     (\<lambda>_ db. if role \<notin> valid_roles then (Inl (HTTPException 422 (''unknown role: '' @ role)), db)
      else if find_by_id uid db = None then (Inl (HTTPException 404 ''user not found''), db)
      else if \<exists>r \<in> set (roles_of db uid). ro_role r = role \<and> ro_dept_id r = dept
      then (Inl (HTTPException 409 ''role already assigned''), db)
      else if \<not> dept_exists db dept then (Inl (OtherError ''IntegrityError''), db)
      else (let db' = insert_role uid dept db role in (Inr (last (ad_roles db')), db')))"

definition remove_role :: "ident \<Rightarrow> nat \<Rightarrow> nat \<Rightarrow> unit handler" where
  "remove_role i uid role_id = platform_admin_only i
     (\<lambda>_ db. case find (\<lambda>r. ro_id r = role_id) (ad_roles db) of
        None \<Rightarrow> (Inl (HTTPException 404 ''role not found''), db)
      | Some r \<Rightarrow>
          (if ro_user_id r \<noteq> uid then (Inl (HTTPException 404 ''role not found''), db)
           else (Inr (), db\<lparr>ad_roles := filter (\<lambda>x. ro_id x \<noteq> role_id) (ad_roles db)\<rparr>)))"

definition list_departments :: "ident \<Rightarrow> (nat \<times> string) list handler" where
  "list_departments i = platform_admin_only i (\<lambda>_ db. (Inr (sort_key fst (ad_departments db)), db))"

record api_key_in =
  ki_name :: string
  ki_scopes :: "string list"
  ki_dept_id :: "nat option"
  ki_expires_in_days :: "int option"

definition day_us :: int where "day_us = 86400000000"

text \<open>
  \<open>raw_key\<close> is what \<open>generate_key\<close> draws. The bound on the days is the request schema's; the unique
  hash column and the foreign key are the database's.
\<close>

definition issue_api_key :: "ident \<Rightarrow> string \<Rightarrow> int \<Rightarrow> api_key_in \<Rightarrow> (string \<times> api_key_row) handler" where
  "issue_api_key i raw_key now body =
     (if (case ki_expires_in_days body of None \<Rightarrow> False | Some d \<Rightarrow> d \<le> 0)
      then (\<lambda>db. (Inl (HTTPException 422 ''request validation''), db))
      else platform_admin_only i
        (\<lambda>user db.
           if id_sha i raw_key \<in> set (map k_hash (ad_keys db)) \<or> \<not> dept_exists db (ki_dept_id body)
           then (Inl (OtherError ''IntegrityError''), db)
           else (let row = \<lparr>k_id = ad_next_key db, k_name = ki_name body, k_hash = id_sha i raw_key,
                       k_scopes = ki_scopes body, k_dept_id = ki_dept_id body,
                       k_expires_at = map_option (\<lambda>d. now + d * day_us) (ki_expires_in_days body),
                       k_created_by = Some (pr_sub user), k_revoked_at = None\<rparr>
                 in (Inr (raw_key, row),
                     db\<lparr>ad_keys := ad_keys db @ [row], ad_next_key := Suc (ad_next_key db)\<rparr>))))"

definition list_api_keys :: "ident \<Rightarrow> api_key_row list handler" where
  "list_api_keys i = platform_admin_only i (\<lambda>_ db. (Inr (sort_key k_id (ad_keys db)), db))"

definition revoke_api_key :: "ident \<Rightarrow> int \<Rightarrow> nat \<Rightarrow> unit handler" where
  "revoke_api_key i now key_id = platform_admin_only i
     (\<lambda>_ db. case find (\<lambda>k. k_id k = key_id) (ad_keys db) of
        None \<Rightarrow> (Inl (HTTPException 404 ''api key not found''), db)
      | Some k \<Rightarrow>
          (if k_revoked_at k = None
           then (Inr (), db\<lparr>ad_keys := map (\<lambda>x. if k_id x = key_id then x\<lparr>k_revoked_at := Some now\<rparr> else x) (ad_keys db)\<rparr>)
           else (Inr (), db)))"

section \<open>The access invariant\<close>

definition access_wf :: "access_db \<Rightarrow> bool" where
  "access_wf db \<longleftrightarrow>
     distinct (map u_id (ad_users db)) \<and> distinct (map u_kc_sub (ad_users db))
     \<and> list_all (\<lambda>u. u_id u < ad_next_user db) (ad_users db)
     \<and> distinct (map ro_id (ad_roles db))
     \<and> list_all (\<lambda>r. ro_id r < ad_next_role db \<and> ro_user_id r \<in> set (map u_id (ad_users db))) (ad_roles db)
     \<and> distinct (map k_id (ad_keys db)) \<and> distinct (map k_hash (ad_keys db))
     \<and> list_all (\<lambda>k. k_id k < ad_next_key db) (ad_keys db)"

lemma access_wf_user_map:
  assumes "access_wf db" "\<And>u. u \<in> set (ad_users db) \<Longrightarrow> u_id (f u) = u_id u \<and> u_kc_sub (f u) = u_kc_sub u"
  shows "access_wf (db\<lparr>ad_users := map f (ad_users db)\<rparr>)"
proof -
  have "u_id ` f ` set (ad_users db) = u_id ` set (ad_users db)" using assms(2) by (auto simp: image_image)
  with assms distinct_map_same [of "ad_users db" u_id f] distinct_map_same [of "ad_users db" u_kc_sub f]
  show ?thesis by (simp add: access_wf_def list_all_iff)
qed

lemma access_wf_new_user:
  assumes "access_wf db" "find_user db (u_kc_sub u) = None" "u_id u = ad_next_user db"
  shows "access_wf (db\<lparr>ad_users := ad_users db @ [u], ad_next_user := Suc (ad_next_user db)\<rparr>)"
  using assms by (fastforce simp: access_wf_def list_all_iff find_user_def find_None_iff)

lemma access_wf_insert_role:
  "access_wf db \<Longrightarrow> uid \<in> set (map u_id (ad_users db)) \<Longrightarrow> access_wf (insert_role uid dept db role)"
  by (fastforce simp: access_wf_def list_all_iff insert_role_def)

lemma insert_role_keeps [simp]:
  "ad_users (insert_role uid dept db role) = ad_users db" "ad_keys (insert_role uid dept db role) = ad_keys db"
  by (simp_all add: insert_role_def)

lemma fold_insert_role_keeps [simp]:
  "ad_users (foldl (insert_role uid dept) db roles) = ad_users db"
  "ad_keys (foldl (insert_role uid dept) db roles) = ad_keys db"
  by (induction roles arbitrary: db) simp_all

lemma access_wf_fold_insert:
  "access_wf db \<Longrightarrow> uid \<in> set (map u_id (ad_users db)) \<Longrightarrow> access_wf (foldl (insert_role uid dept) db roles)"
  by (induction roles arbitrary: db) (simp_all add: access_wf_insert_role)

text \<open>A login keeps the invariant, whatever it then decides.\<close>

lemma find_user_Some: "find_user db sub = Some u \<Longrightarrow> u \<in> set (ad_users db) \<and> u_kc_sub u = sub"
  by (auto simp: find_user_def find_Some_iff)

lemma get_or_create_user_wf:
  assumes "access_wf db" "get_or_create_user sha sub disp email db = (u, db')"
  shows "access_wf db' \<and> u_id u \<in> set (map u_id (ad_users db')) \<and> u_kc_sub u = sub
     \<and> ad_roles db' = ad_roles db \<and> ad_keys db' = ad_keys db \<and> find_user db' sub = Some u"
proof (cases "find_user db sub")
  case (Some row)
  let ?row = "row\<lparr>u_email_hash := subject_hash sha (the email)\<rparr>"
  let ?f = "\<lambda>x. if u_id x = u_id row then ?row else x"
  note row = find_user_Some [OF Some]
  have same: "x = row" if "x \<in> set (ad_users db)" "u_id x = u_id row" for x
    using that row assms(1) by (auto simp: access_wf_def distinct_map inj_on_def)
  then have "access_wf (db\<lparr>ad_users := map ?f (ad_users db)\<rparr>)"
    using assms(1) by (intro access_wf_user_map) auto
  moreover have "find_user (db\<lparr>ad_users := map ?f (ad_users db)\<rparr>) sub = Some ?row"
  proof -
    have "find (\<lambda>u. u_kc_sub u = sub) (map ?f xs) = map_option ?f (find (\<lambda>u. u_kc_sub u = sub) xs)"
      if "set xs \<subseteq> set (ad_users db)" for xs
      using that by (induction xs) (use same in auto)
    with Some show ?thesis by (auto simp: find_user_def)
  qed
  ultimately show ?thesis using assms Some row
    by (auto simp: get_or_create_user_def Let_def split: if_splits)
next
  case None
  show ?thesis
  proof -
    from assms(2) None have u: "u_kc_sub u = sub" "u_id u = ad_next_user db"
      and db': "db' = db\<lparr>ad_users := ad_users db @ [u], ad_next_user := Suc (ad_next_user db)\<rparr>"
      by (auto simp: get_or_create_user_def Let_def)
    have "find (\<lambda>u. u_kc_sub u = sub) (xs @ [u]) = Some u"
      if "find (\<lambda>u. u_kc_sub u = sub) xs = None" for xs
      using that u(1) by (induction xs) (auto split: if_splits)
    with None have "find_user db' sub = Some u" by (simp add: find_user_def db')
    moreover have "access_wf db'" using access_wf_new_user [of db u] assms(1) None u db' by simp
    ultimately show ?thesis using u db' by simp
  qed
qed

lemma get_current_user_wf:
  assumes "access_wf db" "get_current_user decode sha cred db = (r, db')"
  shows "access_wf db' \<and> ad_keys db' = ad_keys db"
proof (cases "\<exists>jwt. given cred \<and> verify_bearer_token decode (the cred) = Inr jwt")
  case True
  then obtain jwt where jwt: "given cred" "verify_bearer_token decode (the cred) = Inr jwt" by blast
  obtain u db1 where u: "get_or_create_user sha (cu_sub jwt) None (cu_email jwt) db = (u, db1)" by fastforce
  note wf = get_or_create_user_wf [OF assms(1) u]
  with assms(2) jwt u show ?thesis
    by (auto simp: get_current_user_def Let_def seed_roles_from_jwt_def intro!: access_wf_fold_insert)
qed (use assms in \<open>auto simp: get_current_user_def split: if_splits sum.splits\<close>)

lemma require_permission_wf:
  assumes "access_wf db" "require_permission decode sha p cred db = (r, db')"
  shows "access_wf db' \<and> ad_keys db' = ad_keys db"
  using assms(2) unfolding require_permission_def
  by (elim h_bind_cases) (auto dest: get_current_user_wf [OF assms(1)] split: if_splits)

section \<open>Histories\<close>

text \<open>
  Anything the routes do to the tables: a login or a permission check of anybody, and each of the
  admin routes with any caller and any argument, whether it succeeds or raises.
\<close>

inductive access_step :: "access_db \<Rightarrow> access_db \<Rightarrow> bool" where
  login: "require_permission decode sha p cred db = (r, db') \<Longrightarrow> access_step db db'"
| users: "list_users i db = (us, db') \<Longrightarrow> access_step db db'"
| dept: "update_user_dept i uid d db = (u, db') \<Longrightarrow> access_step db db'"
| add: "add_role i uid role d db = (ro, db') \<Longrightarrow> access_step db db'"
| remove: "remove_role i uid rid db = (n, db') \<Longrightarrow> access_step db db'"
| departments: "list_departments i db = (ds, db') \<Longrightarrow> access_step db db'"
| issue: "issue_api_key i raw now body db = (k, db') \<Longrightarrow> access_step db db'"
| keys: "list_api_keys i db = (ks, db') \<Longrightarrow> access_step db db'"
| revoke: "revoke_api_key i now kid db = (n, db') \<Longrightarrow> access_step db db'"

inductive access_reachable :: "access_db \<Rightarrow> bool" where
  start: "access_reachable \<lparr>ad_users = [], ad_roles = [], ad_keys = [], ad_departments = ds,
            ad_next_user = 1, ad_next_role = 1, ad_next_key = 1\<rparr>"
| step: "access_reachable db \<Longrightarrow> access_step db db' \<Longrightarrow> access_reachable db'"

text \<open>No step drops a key row or clears its revocation.\<close>

definition dead_key :: "string \<Rightarrow> access_db \<Rightarrow> bool" where
  "dead_key h db = (\<exists>k \<in> set (ad_keys db). k_hash k = h \<and> k_revoked_at k \<noteq> None)"

definition kept :: "access_db \<Rightarrow> access_db \<Rightarrow> bool" where
  "kept db db' \<longleftrightarrow> access_wf db' \<and> (\<forall>h. dead_key h db \<longrightarrow> dead_key h db')"

lemma kept_refl: "access_wf db \<Longrightarrow> kept db db"
  by (simp add: kept_def)

lemma kept_same_keys: "access_wf db' \<Longrightarrow> ad_keys db' = ad_keys db \<Longrightarrow> kept db db'"
  by (simp add: kept_def dead_key_def)

text \<open>An admin route keeps what its body keeps.\<close>

lemma admin_route_kept:
  assumes "access_wf db" "platform_admin_only i k db = (r, db')"
    and "\<And>u db1. access_wf db1 \<Longrightarrow> kept db1 (snd (k u db1))"
  shows "kept db db'"
  using assms(2) unfolding platform_admin_only_def
proof (cases rule: h_bind_cases)
  case (2 u db1)
  from require_permission_wf [OF assms(1) 2(1)] have "access_wf db1" "ad_keys db1 = ad_keys db" by simp_all
  with assms(3) [of db1 u] 2(2) show ?thesis by (simp add: kept_def dead_key_def)
qed (use require_permission_wf [OF assms(1)] in \<open>auto intro: kept_same_keys\<close>)

lemma find_by_id_Some: "find_by_id uid db = Some u \<Longrightarrow> u \<in> set (ad_users db) \<and> u_id u = uid"
  by (auto simp: find_by_id_def find_Some_iff)

lemma update_user_dept_kept: "access_wf db \<Longrightarrow> update_user_dept i uid d db = (r, db') \<Longrightarrow> kept db db'"
  unfolding update_user_dept_def
proof (erule (1) admin_route_kept)
  fix db assume wf: "access_wf db"
  show "kept db (snd (case find_by_id uid db of None \<Rightarrow> (Inl (HTTPException 404 ''user not found''), db)
      | Some u \<Rightarrow> (if \<not> dept_exists db d then (Inl (OtherError ''IntegrityError''), db)
           else (let u' = u\<lparr>u_dept_id := d\<rparr>;
                     db' = db\<lparr>ad_users := map (\<lambda>x. if u_id x = uid then u' else x) (ad_users db)\<rparr>
                 in (Inr (u', roles_of db' uid), db')))))"
  proof (cases "find_by_id uid db")
    case (Some u)
    note u = find_by_id_Some [OF Some]
    then have "u_kc_sub u = u_kc_sub x" if "x \<in> set (ad_users db)" "u_id x = uid" for x
      using that wf by (auto simp: access_wf_def distinct_map inj_on_def)
    then have "access_wf (db\<lparr>ad_users := map (\<lambda>x. if u_id x = uid then u\<lparr>u_dept_id := d\<rparr> else x) (ad_users db)\<rparr>)"
      using u by (intro access_wf_user_map [OF wf]) simp
    with Some wf show ?thesis by (simp add: Let_def kept_refl kept_same_keys)
  qed (simp add: wf kept_refl)
qed

lemma add_role_kept: "access_wf db \<Longrightarrow> add_role i uid role d db = (r, db') \<Longrightarrow> kept db db'"
  unfolding add_role_def
  by (erule (1) admin_route_kept)
     (auto simp: kept_refl Let_def intro!: kept_same_keys access_wf_insert_role dest!: find_by_id_Some)

lemma remove_role_kept: "access_wf db \<Longrightarrow> remove_role i uid rid db = (r, db') \<Longrightarrow> kept db db'"
  unfolding remove_role_def
  by (erule (1) admin_route_kept)
     (auto simp: kept_refl access_wf_def list_all_iff distinct_map_filter intro!: kept_same_keys split: option.split)

lemma issue_api_key_kept:
  assumes "access_wf db" "issue_api_key i raw now body db = (r, db')"
  shows "kept db db'"
proof (cases "case ki_expires_in_days body of None \<Rightarrow> False | Some d \<Rightarrow> d \<le> 0")
  case True
  with assms show ?thesis by (auto simp: issue_api_key_def kept_refl)
next
  case False
  show ?thesis
    by (rule admin_route_kept [OF assms(1) assms(2) [unfolded issue_api_key_def if_not_P [OF False]]])
       (auto simp: Let_def kept_refl kept_def dead_key_def access_wf_def list_all_iff image_iff)
qed

lemma revoke_api_key_kept: "access_wf db \<Longrightarrow> revoke_api_key i now kid db = (r, db') \<Longrightarrow> kept db db'"
  unfolding revoke_api_key_def
proof (erule (1) admin_route_kept)
  fix db assume wf: "access_wf db"
  let ?f = "\<lambda>x. if k_id x = kid then x\<lparr>k_revoked_at := Some now\<rparr> else x"
  have "access_wf (db\<lparr>ad_keys := map ?f (ad_keys db)\<rparr>)"
    using wf distinct_map_same [of "ad_keys db" k_id ?f] distinct_map_same [of "ad_keys db" k_hash ?f]
    by (auto simp: access_wf_def list_all_iff)
  moreover have "dead_key h (db\<lparr>ad_keys := map ?f (ad_keys db)\<rparr>)" if dead: "dead_key h db" for h
  proof -
    from dead obtain k where k: "k \<in> set (ad_keys db)" "k_hash k = h" "k_revoked_at k \<noteq> None"
      by (auto simp: dead_key_def)
    then have "?f k \<in> set (map ?f (ad_keys db))" "k_hash (?f k) = h" "k_revoked_at (?f k) \<noteq> None"
      by (simp_all del: if_image_distrib)
    then show ?thesis unfolding dead_key_def by (auto simp del: set_map)
  qed
  ultimately have "kept db (db\<lparr>ad_keys := map ?f (ad_keys db)\<rparr>)" by (simp add: kept_def)
  then show "kept db (snd (case find (\<lambda>k. k_id k = kid) (ad_keys db) of
        None \<Rightarrow> (Inl (HTTPException 404 ''api key not found''), db)
      | Some k \<Rightarrow> (if k_revoked_at k = None
           then (Inr (), db\<lparr>ad_keys := map ?f (ad_keys db)\<rparr>) else (Inr (), db))))"
    using wf by (simp add: kept_refl split: option.split)
qed

lemma reads_kept:
  "access_wf db \<Longrightarrow> list_users i db = (us, db') \<Longrightarrow> kept db db'"
  "access_wf db \<Longrightarrow> list_departments i db = (ds, db') \<Longrightarrow> kept db db'"
  "access_wf db \<Longrightarrow> list_api_keys i db = (ks, db') \<Longrightarrow> kept db db'"
  unfolding list_users_def list_departments_def list_api_keys_def
  by (erule (1) admin_route_kept, simp add: kept_refl)+

lemma access_step_kept: "access_step db db' \<Longrightarrow> access_wf db \<Longrightarrow> kept db db'"
proof (induction rule: access_step.induct)
  case (login decode sha p cred db r db')
  from require_permission_wf [OF login.prems login.hyps] show ?case by (blast intro: kept_same_keys)
qed (rule reads_kept update_user_dept_kept add_role_kept remove_role_kept issue_api_key_kept revoke_api_key_kept;
    assumption)+

lemma access_reachable_wf: "access_reachable db \<Longrightarrow> access_wf db"
proof (induction rule: access_reachable.induct)
  case (start ds)
  show ?case by (simp add: access_wf_def)
next
  case (step db db')
  then show ?case using access_step_kept by (simp add: kept_def)
qed

section \<open>Properties\<close>

text \<open>
  After any sequence of logins and admin actions the access tables are well formed: user,
  role and key ids are unique, so are token subjects and key hashes, and every role row belongs to a user.
\<close>

theorem access_invariant:
  assumes "access_reachable db"
  shows "distinct (map u_id (ad_users db)) \<and> distinct (map u_kc_sub (ad_users db)) \<and>
     distinct (map ro_id (ad_roles db)) \<and> set (map ro_user_id (ad_roles db)) \<subseteq> set (map u_id (ad_users db)) \<and>
     distinct (map k_id (ad_keys db)) \<and> distinct (map k_hash (ad_keys db))"
  using access_reachable_wf [OF assms] by (auto simp: access_wf_def list_all_iff)

definition demo_claims :: "string \<Rightarrow> claims option" where
  "demo_claims token = (if token = ''root'' then Some \<lparr>cl_sub = Some ''r'', cl_email = None, cl_realm_roles = [''platform_admin'']\<rparr>
     else if token = ''eve'' then Some \<lparr>cl_sub = Some ''e'', cl_email = None, cl_realm_roles = [''approver'', ''member'']\<rparr>
     else None)"

definition demo_ident :: ident where
  "demo_ident = \<lparr>id_decode = demo_claims, id_sha = (\<lambda>s. ''h:'' @ s), id_bearer = Some ''root''\<rparr>"

definition empty_access :: access_db where
  "empty_access = \<lparr>ad_users = [], ad_roles = [], ad_keys = [], ad_departments = [],
     ad_next_user = 1, ad_next_role = 1, ad_next_key = 1\<rparr>"

definition demo_access :: access_db where
  "demo_access = snd (issue_api_key demo_ident ''k1'' 0 \<lparr>ki_name = ''n8n'', ki_scopes = [''agent.run''], ki_dept_id = None,
      ki_expires_in_days = None\<rparr> empty_access)"

lemma demo_access_reachable: "access_reachable demo_access"
  using access_reachable.step [OF access_reachable.start [of "[]"] access_step.issue
      [of demo_ident "''k1''" 0 "\<lparr>ki_name = ''n8n'', ki_scopes = [''agent.run''], ki_dept_id = None, ki_expires_in_days = None\<rparr>"
          _ "fst (issue_api_key demo_ident ''k1'' 0 \<lparr>ki_name = ''n8n'', ki_scopes = [''agent.run''], ki_dept_id = None,
            ki_expires_in_days = None\<rparr> empty_access)" demo_access]]
  by (simp add: demo_access_def empty_access_def)

lemma access_invariant_witness: "distinct (map k_hash (ad_keys demo_access)) \<and> length (ad_keys demo_access) = 1"
proof -
  have "length (ad_keys demo_access) = 1" by code_simp
  with access_invariant [OF demo_access_reachable] show ?thesis by blast
qed

text \<open>
  Property C37: a revoked key stays dead: once the row of a key carries a revocation, no sequence of
  logins and admin actions, at whatever times and by whomever, makes any service route accept that key again.
\<close>

theorem revoked_key_stays_dead:
  assumes "access_reachable db" "access_step\<^sup>*\<^sup>* db db'"
    and "k \<in> set (ad_keys db)" "k_revoked_at k \<noteq> None" "sha raw = k_hash k"
  shows "isl (require_scope sha now db' scope (Some raw)) \<and>
     isl (require_user_or_service_scope decode sha now db' p scope None (Some raw))"
proof -
  have "access_wf db' \<and> dead_key (sha raw) db'"
    using assms(2)
  proof (induction rule: rtranclp_induct)
    case base
    from assms(3-5) access_reachable_wf [OF assms(1)] show ?case by (auto simp: dead_key_def)
  next
    case (step x y)
    then show ?case using access_step_kept by (simp add: kept_def)
  qed
  then obtain k' where k': "k' \<in> set (ad_keys db')" "k_hash k' = sha raw" "k_revoked_at k' \<noteq> None"
    and wf: "distinct (map k_hash (ad_keys db'))" by (auto simp: dead_key_def access_wf_def)
  have "lookup_key sha db' raw = Some k'"
    unfolding lookup_key_def k'(2) [symmetric] using k'(1) wf by (rule find_distinct_key)
  with k'(3) have dead: "usable_key sha now db' raw = Inl (UnauthorizedError ''revoked api key'')"
    by (auto simp: usable_key_def validate_record_def)
  then show ?thesis
    by (simp add: require_scope_def get_current_service_key_def require_user_or_service_scope_def given_def
        split: list.split)
qed

definition demo_revoked :: access_db where
  "demo_revoked = snd (revoke_api_key demo_ident 5 1 demo_access)"

lemma revoked_key_stays_dead_witness:
  "isl (require_scope (\<lambda>s. ''h:'' @ s) 9 demo_revoked ''agent.run'' (Some ''k1'')) \<and>
   \<not> isl (require_scope (\<lambda>s. ''h:'' @ s) 4 demo_access ''agent.run'' (Some ''k1''))"
proof -
  have reach: "access_reachable demo_revoked"
    using access_reachable.step [OF demo_access_reachable access_step.revoke
        [of demo_ident 5 1 demo_access "fst (revoke_api_key demo_ident 5 1 demo_access)" demo_revoked]]
    by (simp add: demo_revoked_def)
  have row: "ad_keys demo_revoked = [\<lparr>k_id = 1, k_name = ''n8n'', k_hash = ''h:k1'', k_scopes = [''agent.run''], k_dept_id = None,
     k_expires_at = None, k_created_by = Some ''r'', k_revoked_at = Some 5\<rparr>]" by code_simp
  have live: "\<not> isl (require_scope (\<lambda>s. ''h:'' @ s) 4 demo_access ''agent.run'' (Some ''k1''))" by code_simp
  have "k \<in> set (ad_keys demo_revoked) \<Longrightarrow> isl (require_scope (\<lambda>s. ''h:'' @ s) 9 demo_revoked ''agent.run'' (Some ''k1''))" for k
    using revoked_key_stays_dead [OF reach rtranclp.rtrancl_refl, of k "\<lambda>s. ''h:'' @ s" "''k1''" 9 "''agent.run''"]
    by (simp add: row)
  with live show ?thesis by (simp add: row)
qed

lemma get_current_user_known:
  assumes "decode tok = Some c" "cl_sub c = Some sub" "sub \<noteq> []" "tok \<noteq> []"
    and "find_user db sub = Some u"
  obtains u' db' where "u_id u' = u_id u" "ad_roles db' = ad_roles db"
    "get_current_user decode sha (Some tok) db =
       (let db2 = seed_roles_from_jwt u' (remdups (cl_realm_roles c)) db'
        in (Inr \<lparr>pr_sub = sub, pr_roles = load_roles db2 u'\<rparr>, db2))"
proof -
  obtain u' db' where g: "get_or_create_user sha sub None (cl_email c) db = (u', db')" by fastforce
  with assms(5) have "u_id u' = u_id u" "ad_roles db' = ad_roles db"
    by (auto simp: get_or_create_user_def Let_def split: if_splits)
  moreover have "get_current_user decode sha (Some tok) db =
       (let db2 = seed_roles_from_jwt u' (remdups (cl_realm_roles c)) db'
        in (Inr \<lparr>pr_sub = sub, pr_roles = load_roles db2 u'\<rparr>, db2))"
    using assms(1-4) g by (auto simp: get_current_user_def verify_bearer_token_def given_def Let_def split: list.splits)
  ultimately show thesis by (rule that)
qed

lemma roles_of_insert:
  "roles_of (insert_role uid d db role) v = roles_of db v @
     (if v = uid then [\<lparr>ro_id = ad_next_role db, ro_user_id = uid, ro_role = role, ro_dept_id = d\<rparr>] else [])"
  by (simp add: roles_of_def insert_role_def)

lemma roles_of_fold_insert:
  "map ro_role (roles_of (foldl (insert_role uid d) db roles) uid) = map ro_role (roles_of db uid) @ roles"
  by (induction roles arbitrary: db) (simp_all add: roles_of_insert)

text \<open>
  Permissions follow the roles table, not the token: for a user with at least one role row,
  a route that asks for a permission admits the request exactly when the rows of that moment grant it,
  whatever roles the token claims, so an admin's edit decides the very next request.
\<close>

theorem permission_follows_roles_table:
  assumes "decode tok = Some c" "cl_sub c = Some sub" "sub \<noteq> []" "tok \<noteq> []"
    and "find_user db sub = Some u" "roles_of db (u_id u) \<noteq> []"
  shows "fst (require_permission decode sha p (Some tok) db) =
    (if p \<in> permissions_for (set (map ro_role (roles_of db (u_id u))))
     then Inr \<lparr>pr_sub = sub, pr_roles = set (map ro_role (roles_of db (u_id u)))\<rparr>
     else Inl (ForbiddenError (''missing permission: '' @ permission_name p)))"
proof -
  from assms(1-5) obtain u' db' where u': "u_id u' = u_id u" "ad_roles db' = ad_roles db"
    and g: "get_current_user decode sha (Some tok) db =
       (let db2 = seed_roles_from_jwt u' (remdups (cl_realm_roles c)) db'
        in (Inr \<lparr>pr_sub = sub, pr_roles = load_roles db2 u'\<rparr>, db2))"
    by (rule get_current_user_known [where sha = sha])
  have same: "roles_of db' v = roles_of db v" for v using u'(2) by (simp add: roles_of_def)
  with assms(6) u'(1) have "seed_roles_from_jwt u' (remdups (cl_realm_roles c)) db' = db'"
    by (simp add: seed_roles_from_jwt_def)
  with g same u'(1) have "get_current_user decode sha (Some tok) db =
      (Inr \<lparr>pr_sub = sub, pr_roles = set (map ro_role (roles_of db (u_id u)))\<rparr>, db')"
    by (simp add: load_roles_def Let_def)
  then show ?thesis by (simp add: require_permission_def)
qed

definition demo_member :: access_db where
  "demo_member = empty_access\<lparr>ad_users := [\<lparr>u_id = 7, u_kc_sub = ''e'', u_email_hash = [], u_display_name = ''e'', u_dept_id = None, u_status = ''active''\<rparr>],
     ad_roles := [\<lparr>ro_id = 3, ro_user_id = 7, ro_role = ''member'', ro_dept_id = None\<rparr>]\<rparr>"

lemma permission_follows_roles_table_witness:
  "fst (require_permission demo_claims (\<lambda>s. s) APPROVE (Some ''eve'') demo_member)
     = Inl (ForbiddenError ''missing permission: approve'')"
proof -
  have c: "demo_claims ''eve'' = Some \<lparr>cl_sub = Some ''e'', cl_email = None, cl_realm_roles = [''approver'', ''member'']\<rparr>" by code_simp
  have u: "find_user demo_member ''e'' = Some (hd (ad_users demo_member))" by code_simp
  have r: "roles_of demo_member (u_id (hd (ad_users demo_member))) \<noteq> []" by code_simp
  have n: "APPROVE \<notin> permissions_for (set (map ro_role (roles_of demo_member (u_id (hd (ad_users demo_member))))))" by code_simp
  show ?thesis
    using permission_follows_roles_table [where decode = demo_claims and tok = "''eve''" and sha = "\<lambda>s. s" and p = APPROVE,
        OF c _ _ _ u r] n by simp
qed

text \<open>
  Taking away a user's last role row does not revoke anything: with no row left, the next
  request copies the token's roles into the table again and is judged by them.
\<close>

theorem token_roles_come_back:
  assumes "decode tok = Some c" "cl_sub c = Some sub" "sub \<noteq> []" "tok \<noteq> []"
    and "find_user db sub = Some u" "roles_of db (u_id u) = []"
  shows "fst (get_current_user decode sha (Some tok) db) = Inr \<lparr>pr_sub = sub, pr_roles = set (cl_realm_roles c)\<rparr>"
proof -
  from assms(1-5) obtain u' db' where u': "u_id u' = u_id u" "ad_roles db' = ad_roles db"
    and g: "get_current_user decode sha (Some tok) db =
       (let db2 = seed_roles_from_jwt u' (remdups (cl_realm_roles c)) db'
        in (Inr \<lparr>pr_sub = sub, pr_roles = load_roles db2 u'\<rparr>, db2))"
    by (rule get_current_user_known [where sha = sha])
  have none: "roles_of db' (u_id u') = []" using u' assms(6) by (simp add: roles_of_def)
  have "set (map ro_role (roles_of (foldl (insert_role (u_id u') None) db' (remdups (cl_realm_roles c))) (u_id u')))
      = set (cl_realm_roles c)"
    unfolding roles_of_fold_insert none by simp
  then have "load_roles (seed_roles_from_jwt u' (remdups (cl_realm_roles c)) db') u' = set (cl_realm_roles c)"
    using none by (simp add: load_roles_def seed_roles_from_jwt_def)
  with g show ?thesis by (simp add: Let_def)
qed

lemma token_roles_come_back_witness:
  "fst (get_current_user demo_claims (\<lambda>s. s) (Some ''eve'') (demo_member\<lparr>ad_roles := []\<rparr>))
     = Inr \<lparr>pr_sub = ''e'', pr_roles = {''approver'', ''member''}\<rparr>"
proof -
  have c: "demo_claims ''eve'' = Some \<lparr>cl_sub = Some ''e'', cl_email = None, cl_realm_roles = [''approver'', ''member'']\<rparr>" by code_simp
  have u: "find_user (demo_member\<lparr>ad_roles := []\<rparr>) ''e'' = Some (hd (ad_users demo_member))" by code_simp
  show ?thesis
    using token_roles_come_back [where decode = demo_claims and tok = "''eve''" and sha = "\<lambda>s. s", OF c _ _ _ u]
    by (simp add: roles_of_def)
qed

text \<open>
  The routes open to a person or a service (the invoice webhook path and its like) read the
  token's own roles: a person whose token still claims the permission is admitted whatever the roles table
  says, and one whose token does not verify is refused even with a valid API key.
\<close>

theorem service_routes_trust_token:
  assumes "given cred"
  shows "require_user_or_service_scope decode sha now db p scope cred header =
    (case verify_bearer_token decode (the cred) of
       Inl e \<Rightarrow> Inl e
     | Inr user \<Rightarrow> (if p \<in> permissions_for (set (cu_roles user)) then Inr (Human user)
                   else Inl (ForbiddenError (''missing permission: '' @ permission_name p))))"
  using assms by (simp add: require_user_or_service_scope_def split: sum.split)

lemma service_routes_trust_token_witness:
  "require_user_or_service_scope demo_claims (\<lambda>s. s) 0 demo_member APPROVE ''x'' (Some ''eve'') None
     = Inr (Human \<lparr>cu_sub = ''e'', cu_roles = [''approver'', ''member''], cu_email = None\<rparr>)"
proof -
  have v: "verify_bearer_token demo_claims ''eve''
     = Inr \<lparr>cu_sub = ''e'', cu_roles = [''approver'', ''member''], cu_email = None\<rparr>" by code_simp
  have a: "APPROVE \<in> permissions_for (set [''approver'', ''member''])" by code_simp
  have g: "given (Some ''eve'')" by code_simp
  show ?thesis using service_routes_trust_token [OF g, of demo_claims "\<lambda>s. s" 0 demo_member APPROVE "''x''" None] v a
    by simp
qed

end
