(* ===== verification/Approvals.thy ===== *)
theory Approvals
  imports Agent_Runs Access_Admin
begin

text \<open>
  The approval queue (\<open>apps/api/fleet_api/routers/approvals.py\<close>): listing it, deciding an item and resuming
  the run behind it, and the one way an automation recipe gets a mail into it (\<open>email_send\<close> of
  \<open>service.py\<close>). A history of these requests and of the run routes of \<open>Agent_Runs\<close> is the inductive
  relation at the end, over which the approval guarantee of the whole system is stated.
\<close>

section \<open>Rows\<close>

definition list_approvals :: "principal res \<Rightarrow> string \<Rightarrow> fleet_db \<Rightarrow> approval_row list res \<times> fleet_db" where
  "list_approvals who status = guarded who (\<lambda>_ db.
     (Inr (sort_key ap_created_at (filter (\<lambda>a. ap_status a = status) (fd_approvals db))), db))"

definition approval_by_id :: "nat \<Rightarrow> fleet_db \<Rightarrow> approval_row option" where
  "approval_by_id i db = find (\<lambda>a. ap_id a = i) (fd_approvals db)"

definition put_approval :: "approval_row \<Rightarrow> fleet_db \<Rightarrow> fleet_db" where
  "put_approval a db = db\<lparr>fd_approvals := map (\<lambda>b. if ap_id b = ap_id a then a else b) (fd_approvals db)\<rparr>"

section \<open>Resuming a run\<close>

text \<open>What a resumer sees of the resumed graph: its calls, and an exception if a node raised.\<close>

definition resumed :: "agent_call list \<times> ('n, 's, 'p) run_out \<Rightarrow> agent_call list \<times> unit res" where
  "resumed r = (fst r, case snd r of Failed e \<Rightarrow> Inl e | _ \<Rightarrow> Inr ())"

definition resume_dev_agent_run :: "fleet_env \<Rightarrow> fleet_db \<Rightarrow> string \<Rightarrow> bool \<Rightarrow> agent_call list \<times> unit res" where
  "resume_dev_agent_run fe db run_id approved =
     (case fd_threads db run_id of
        Some (Dev_Thread n s) \<Rightarrow>
          resumed (dev_run (fe_dev fe) (route_env fe dev_name) n (Some (resume_with approved)) s)
      | _ \<Rightarrow> ([], Inl (fe_no_thread fe)))"

definition resume_invoice_agent_run :: "fleet_env \<Rightarrow> fleet_db \<Rightarrow> string \<Rightarrow> bool \<Rightarrow> agent_call list \<times> unit res" where
  "resume_invoice_agent_run fe db run_id approved =
     (case fd_threads db run_id of
        Some (Invoice_Thread n s) \<Rightarrow>
          resumed (invoice_run invoice_name (route_env fe invoice_name) n (Some (resume_with approved)) s)
      | _ \<Rightarrow> ([], Inl (fe_no_thread fe)))"

definition resume_hr_agent_run :: "fleet_env \<Rightarrow> fleet_db \<Rightarrow> string \<Rightarrow> bool \<Rightarrow> agent_call list \<times> unit res" where
  "resume_hr_agent_run fe db run_id approved =
     (case fd_threads db run_id of
        Some (Hr_Thread n s) \<Rightarrow> resumed (hr_run hr_name (route_env fe hr_name) n (Some (resume_with approved)) s)
      | _ \<Rightarrow> ([], Inl (fe_no_thread fe)))"

definition resume_dealer_onboarding_run ::
  "fleet_env \<Rightarrow> fleet_db \<Rightarrow> string \<Rightarrow> bool \<Rightarrow> agent_call list \<times> unit res" where
  "resume_dealer_onboarding_run fe db run_id approved =
     (case fd_threads db run_id of
        Some (Dealer_Thread n s) \<Rightarrow>
          resumed (dealer_run dealer_name (fe_letter fe) (route_env fe dealer_name) n (Some (resume_with approved)) s)
      | _ \<Rightarrow> ([], Inl (fe_no_thread fe)))"

text \<open>The recipe action reads its row again, and sends what the row says now.\<close>

definition email_domains :: "string list" where
  "email_domains = [''fleet.local'', ''example.com'']"

definition send_recipe_mail ::
  "fleet_env \<Rightarrow> string \<Rightarrow> string \<Rightarrow> string \<Rightarrow> fleet_call list \<times> unit res" where
  "send_recipe_mail fe to subject body =
     (if \<not> is_allowed_recipient to email_domains then ([], Inl (OtherError ''InvalidRecipientError''))
      else ([Recipe_Mail to subject body], fe_smtp fe to subject body))"

definition payload_str :: "fleet_env \<Rightarrow> payload \<Rightarrow> string \<Rightarrow> string res" where
  "payload_str fe p k = res_bind (dict_index p k) (\<lambda>v. Inr (py_str (ae_repr (fe_env fe recipe_name)) v))"

definition resume_automation_recipe :: "fleet_env \<Rightarrow> fleet_db \<Rightarrow> string \<Rightarrow> bool \<Rightarrow> fleet_call list \<times> unit res" where
  "resume_automation_recipe fe db run_id approved =
     (if \<not> approved then ([], Inr ())
      else (case filter (\<lambda>a. ap_run_id a = run_id) (fd_approvals db) of
              [] \<Rightarrow> ([], Inr ())
            | [a] \<Rightarrow>
                (if ap_action a = ''email.send''
                 then (case payload_str fe (ap_payload a) ''to'' of
                         Inl e \<Rightarrow> ([], Inl e)
                       | Inr to \<Rightarrow>
                           (case payload_str fe (ap_payload a) ''subject'' of
                              Inl e \<Rightarrow> ([], Inl e)
                            | Inr subject \<Rightarrow>
                                (case payload_str fe (ap_payload a) ''body'' of
                                   Inl e \<Rightarrow> ([], Inl e)
                                 | Inr body \<Rightarrow> send_recipe_mail fe to subject body)))
                 else ([], Inl (HTTPException 500 ''no handler for recipe action'')))
            | _ \<Rightarrow> ([], Inl (OtherError ''MultipleResultsFound''))))"

type_synonym resumer = "fleet_env \<Rightarrow> fleet_db \<Rightarrow> string \<Rightarrow> bool \<Rightarrow> fleet_call list \<times> unit res"

definition of_agent ::
  "string \<Rightarrow> (fleet_env \<Rightarrow> fleet_db \<Rightarrow> string \<Rightarrow> bool \<Rightarrow> agent_call list \<times> unit res) \<Rightarrow> resumer" where
  "of_agent name f fe db run_id approved =
     (case f fe db run_id approved of (calls, out) \<Rightarrow> (map (By_Agent name) calls, out))"

definition resumers :: "(string \<times> resumer) list" where
  "resumers =
     [(dev_name, of_agent dev_name resume_dev_agent_run),
      (invoice_name, of_agent invoice_name resume_invoice_agent_run),
      (hr_name, of_agent hr_name resume_hr_agent_run),
      (dealer_name, of_agent dealer_name resume_dealer_onboarding_run),
      (recipe_name, resume_automation_recipe)]"

definition resumer_for :: "fleet_db \<Rightarrow> approval_row \<Rightarrow> resumer option" where
  "resumer_for db a =
     (case agent_by_id (at_rows (fd_agents db)) (ap_agent_id a) of
        None \<Rightarrow> None
      | Some agent \<Rightarrow> map_of resumers (ag_name agent))"

definition thread_used :: "string \<Rightarrow> fleet_db \<Rightarrow> fleet_db" where
  "thread_used run_id db =
     (case fd_threads db run_id of
        None \<Rightarrow> db | Some _ \<Rightarrow> db\<lparr>fd_threads := (fd_threads db)(run_id \<mapsto> Resumed_Thread)\<rparr>)"

section \<open>Deciding\<close>

definition decided :: "string \<Rightarrow> string \<Rightarrow> payload option \<Rightarrow> int \<Rightarrow> approval_row \<Rightarrow> approval_row" where
  "decided sub decision edited now a =
     a\<lparr>ap_payload := (case edited of Some p \<Rightarrow> p | None \<Rightarrow> ap_payload a),
       ap_status := (if decision = ''approve'' then ''approved'' else ''rejected''),
       ap_decided_by := Some sub, ap_decided_at := Some now\<rparr>"

text \<open>
  The row is committed as decided before the run is resumed; what the resumer raises reaches the caller
  afterwards. The edit of an item nobody can resume is rolled back with the request.
\<close>

definition decide_approval ::
  "fleet_env \<Rightarrow> principal res \<Rightarrow> nat \<Rightarrow> string \<Rightarrow> payload option \<Rightarrow> int \<Rightarrow> fleet_db \<Rightarrow>
     fleet_call list \<times> approval_row res \<times> fleet_db" where
  "decide_approval fe who ident decision edited now db =
     (case who of
        Inl e \<Rightarrow> ([], Inl e, db)
      | Inr p \<Rightarrow>
          (if decision \<notin> {''approve'', ''reject''}
           then ([], Inl (HTTPException 422 ''decision must be approve or reject''), db)
           else (case approval_by_id ident db of
                   None \<Rightarrow> ([], Inl (HTTPException 404 ''approval not found''), db)
                 | Some a \<Rightarrow>
                     (if ap_status a \<noteq> ''pending''
                      then ([], Inl (HTTPException 409 (''approval already '' @ ap_status a)), db)
                      else (case resumer_for db a of
                              None \<Rightarrow> ([], Inl (HTTPException 500 ''no resume handler registered''), db)
                            | Some resume \<Rightarrow>
                                (let a' = decided (pr_sub p) decision edited now a;
                                     db' = put_approval a' db;
                                     (calls, out) = resume fe db' (ap_run_id a) (decision = ''approve'')
                                 in (calls, res_bind out (\<lambda>_. Inr a'), thread_used (ap_run_id a) db')))))))"

section \<open>Queueing a recipe's mail\<close>

definition email_send ::
  "service_key res \<Rightarrow> string \<Rightarrow> string \<Rightarrow> string \<Rightarrow> string \<Rightarrow> int \<Rightarrow> fleet_db \<Rightarrow> (nat \<times> string) res \<times> fleet_db" where
  "email_send key to subject body run_id now db =
     (case key of
        Inl e \<Rightarrow> (Inl e, db)
      | Inr _ \<Rightarrow>
          (if \<not> is_allowed_recipient to email_domains
           then (Inl (HTTPException 422 ''recipient not allowed''), db)
           else (case agent_by_name (at_rows (fd_agents db)) recipe_name of
                   None \<Rightarrow> (Inl (HTTPException 500 ''agent row is missing''), db)
                 | Some agent \<Rightarrow>
                     (Inr (fd_next_approval db, run_id),
                      add_approval (ag_id agent) run_id ''email.send''
                        [(''to'', JStr to), (''subject'', JStr subject), (''body'', JStr body)] now db))))"

section \<open>Calls that reach the outside\<close>

definition external_tools :: "string list" where
  "external_tools = [''github.open_pr'', ''erp.create_draft_entry'', ''email.send'', ''publisher.publish'']"

fun external_use :: "agent_call \<Rightarrow> bool" where
  "external_use (Ask _ _ _) = False"
| "external_use (Use tool _) = (tool \<in> set external_tools)"

fun external_call :: "fleet_call \<Rightarrow> bool" where
  "external_call (By_Agent _ c) = external_use c"
| "external_call (Recipe_Mail _ _ _) = True"

definition externals :: "fleet_call list \<Rightarrow> nat" where
  "externals calls = length (filter external_call calls)"

lemma externals_simps [simp]:
  "externals [] = 0" "externals (a @ b) = externals a + externals b"
  by (simp_all add: externals_def)

lemma externals_by_agent [simp]:
  "externals (map (By_Agent name) calls) = length (filter external_use calls)"
  by (simp add: externals_def filter_map o_def)

section \<open>How much a graph can send\<close>

text \<open>
  A node makes at most \<open>cost\<close> bad calls, and along every edge the budget of a node covers its cost and the
  budget of the next one: then no run from a node, fresh or resumed, makes more than its budget.
\<close>

locale counted_graph =
  fixes exec :: "'n \<Rightarrow> decision option \<Rightarrow> 's \<Rightarrow> ('c, ('s, 'p) step_out) eff"
    and route :: "'n \<Rightarrow> 's \<Rightarrow> 'n option res"
    and bad :: "'c \<Rightarrow> bool"
    and cost :: "'n \<Rightarrow> nat"
    and budget :: "'n \<Rightarrow> nat"
  assumes node_cost: "length (filter bad (trace (exec n d s))) \<le> cost n"
    and own_budget: "cost n \<le> budget n"
    and edge_budget: "route n s' = Inr (Some n') \<Longrightarrow> cost n + budget n' \<le> budget n"
begin

lemma run_within_budget: "length (filter bad (fst (graph_run exec route fuel n d s))) \<le> budget n"
proof (induction fuel arbitrary: n d s)
  case (Suc fuel)
  have own: "exec n d s = (l, r) \<Longrightarrow> length (filter bad l) \<le> cost n" for l r
    using node_cost [of n d s] by simp
  show ?case
  proof (cases rule: graph_run_cases [of exec n d s route fuel])
    case (Step l s' n')
    with own [OF Step(1)] edge_budget [OF Step(2)] Suc.IH [of n' None s'] show ?thesis by simp
  next
    case (Stop l s')
    with own [OF Stop(1)] own_budget [of n] show ?thesis by auto
  next
    case (Raise l e)
    with own [OF Raise(1)] own_budget [of n] show ?thesis by simp
  next
    case (Susp l p)
    with own [OF Susp(1)] own_budget [of n] show ?thesis by simp
  qed
qed simp

end

lemma filter_at_most: "(\<And>x. x \<in> set xs \<Longrightarrow> \<not> P x) \<Longrightarrow> length (filter P xs) \<le> n"
  by (metis filter_False length_0_conv zero_le)

lemma externals_of_tool [simp]:
  "tool \<notin> set external_tools \<Longrightarrow> filter external_use [Use tool a] = []"
  by simp

lemma eff_return_trace [simp]: "trace (eff_return x) = []"
  by (simp add: eff_return_def)

lemma trace_interrupt [simp]:
  "trace (interrupt p d k) = (case d of None \<Rightarrow> [] | Some v \<Rightarrow> trace (k v))"
  by (simp add: interrupt_def split: option.split)

fun dev_cost :: "dev_node \<Rightarrow> nat" where
  "dev_cost Dv_Open_Pr = 1"
| "dev_cost _ = 0"

fun dev_budget :: "dev_node \<Rightarrow> nat" where
  "dev_budget Dv_Slack = 0"
| "dev_budget Dv_End = 0"
| "dev_budget _ = 1"

lemma no_external_plan: "x \<in> set (trace (plan_ticket env sens tk)) \<Longrightarrow> \<not> external_use x"
  using trace_plan_ticket [of env sens tk] by auto

interpretation dev_sends: counted_graph "dev_exec cfg env" dev_route external_use dev_cost dev_budget for cfg env
proof
  fix n d s
  have quiet: "\<not> external_use x" if "x \<in> set (trace (dev_exec cfg env n d s))" "n \<noteq> Dv_Open_Pr" for x
    using that
    by (cases n) (auto simp: set_trace_eff_bind external_tools_def Let_def dest: no_external_plan
        split: sum.splits option.splits if_splits)
  show "length (filter external_use (trace (dev_exec cfg env n d s))) \<le> dev_cost n"
  proof (cases "n = Dv_Open_Pr")
    case True
    then show ?thesis by (auto simp: trace_eff_bind external_tools_def split: sum.split)
  next
    case False
    with quiet show ?thesis by (intro filter_at_most)
  qed
next
  fix n s' n'
  show "dev_cost n \<le> dev_budget n" by (cases n) simp_all
  show "dev_route n s' = Inr (Some n') \<Longrightarrow> dev_cost n + dev_budget n' \<le> dev_budget n"
    by (cases n) (auto split: if_splits)
qed

fun invoice_cost :: "invoice_node \<Rightarrow> nat" where
  "invoice_cost Iv_Create = 1"
| "invoice_cost _ = 0"

fun invoice_budget :: "invoice_node \<Rightarrow> nat" where
  "invoice_budget Iv_End = 0"
| "invoice_budget _ = 1"

interpretation invoice_sends:
  counted_graph "invoice_exec agent env" invoice_route external_use invoice_cost invoice_budget for agent env
proof
  fix n d s
  have quiet: "\<not> external_use x" if "x \<in> set (trace (invoice_exec agent env n d s))" "n \<noteq> Iv_Create" for x
    using that
    by (cases n) (auto simp: set_trace_eff_bind external_tools_def Let_def 
        split: sum.splits option.splits if_splits)
  show "length (filter external_use (trace (invoice_exec agent env n d s))) \<le> invoice_cost n"
  proof (cases "n = Iv_Create")
    case True
    then show ?thesis by (auto simp: trace_eff_bind external_tools_def split: sum.split)
  next
    case False
    with quiet show ?thesis by (intro filter_at_most)
  qed
next
  fix n s' n'
  show "invoice_cost n \<le> invoice_budget n" by (cases n) simp_all
  show "invoice_route n s' = Inr (Some n') \<Longrightarrow> invoice_cost n + invoice_budget n' \<le> invoice_budget n"
    by (cases n) (auto split: if_splits)
qed

fun dealer_cost :: "dealer_node \<Rightarrow> nat" where
  "dealer_cost De_Send = 1"
| "dealer_cost _ = 0"

fun dealer_budget :: "dealer_node \<Rightarrow> nat" where
  "dealer_budget De_End = 0"
| "dealer_budget De_Flag = 0"
| "dealer_budget De_Handoff = 0"
| "dealer_budget _ = 1"

lemma no_external_ocr: "x \<in> set (trace (ocr_documents env docs)) \<Longrightarrow> \<not> external_use x"
  using trace_ocr_documents [of env docs] by (auto simp: external_tools_def)

interpretation dealer_sends:
  counted_graph "dealer_exec agent lt env" dealer_route external_use dealer_cost dealer_budget for agent lt env
proof
  fix n d s
  have quiet: "\<not> external_use x" if "x \<in> set (trace (dealer_exec agent lt env n d s))" "n \<noteq> De_Send" for x
    using that
    by (cases n) (auto simp: set_trace_eff_bind external_tools_def Let_def dest: no_external_ocr
        split: sum.splits option.splits if_splits)
  show "length (filter external_use (trace (dealer_exec agent lt env n d s))) \<le> dealer_cost n"
  proof (cases "n = De_Send")
    case True
    then show ?thesis by (auto simp: trace_eff_bind external_tools_def split: sum.split)
  next
    case False
    with quiet show ?thesis by (intro filter_at_most)
  qed
next
  fix n s' n'
  show "dealer_cost n \<le> dealer_budget n" by (cases n) simp_all
  show "dealer_route n s' = Inr (Some n') \<Longrightarrow> dealer_cost n + dealer_budget n' \<le> dealer_budget n"
    by (cases n) (auto split: if_splits option.splits)
qed

interpretation hr_sends:
  counted_graph "hr_exec agent env" hr_route external_use "\<lambda>_. 0" "\<lambda>_. 0" for agent env
proof
  fix n d s
  have "\<not> external_use x" if "x \<in> set (trace (hr_exec agent env n d s))" for x
    using that
    by (cases n) (auto simp: set_trace_eff_bind external_tools_def split: sum.splits option.splits if_splits)
  then show "length (filter external_use (trace (hr_exec agent env n d s))) \<le> 0" by (intro filter_at_most)
qed simp_all

section \<open>Starting sends nothing, resuming at most one thing\<close>

lemma begin_run_quiet: "c \<in> set (fst (begin_run fe req)) \<Longrightarrow> \<not> external_use c"
proof (cases req)
  case (Run_Dev k)
  assume "c \<in> set (fst (begin_run fe req))"
  with Run_Dev have "c \<in> set (fst (dev_run (fe_dev fe) (route_env fe dev_name) Dv_Gate None (dev_start k)))"
    by (simp add: begin_dev_def split: prod.splits)
  from dev_quiet.no_bad_call [OF dev_inv_start this [unfolded dev_run_def]] show ?thesis
    by (auto simp: dev_safe_call_def external_tools_def split: agent_call.splits)
next
  case (Run_Invoice img)
  assume "c \<in> set (fst (begin_run fe req))"
  with Run_Invoice have
    "c \<in> set (fst (invoice_run invoice_name (route_env fe invoice_name) Iv_Gate None (invoice_start img {})))"
    by (simp add: begin_invoice_def split: prod.splits)
  from invoice_quiet.no_bad_call [OF invoice_inv_start this [unfolded invoice_run_def]] show ?thesis
    by (auto simp: invoice_read_only_call_def external_tools_def split: agent_call.splits)
next
  case (Run_Hr img cs)
  assume c: "c \<in> set (fst (begin_run fe req))"
  let ?calls = "fst (hr_run hr_name (route_env fe hr_name) Hr_Gate None (hr_start img cs))"
  have "filter external_use ?calls = []" using hr_sends.run_within_budget by (simp add: hr_run_def)
  with c Run_Hr show ?thesis by (auto simp: begin_hr_def filter_empty_conv split: prod.splits)
next
  case (Run_Dealer i ds)
  assume "c \<in> set (fst (begin_run fe req))"
  with Run_Dealer have
    "c \<in> set (fst (dealer_run dealer_name (fe_letter fe) (route_env fe dealer_name) De_Gate None (dealer_start i ds)))"
    by (simp add: begin_dealer_def split: prod.splits)
  from dealer_quiet.no_bad_call [OF dealer_inv_start this [unfolded dealer_run_def]] show ?thesis
    by (auto simp: dealer_quiet_call_def external_tools_def split: agent_call.splits)
next
  case Run_Insights
  assume "c \<in> set (fst (begin_run fe req))"
  with Run_Insights have
    "c \<in> set (fst (insights_run (fe_insights fe) (route_env fe insights_name) In_Gate None insights_start))"
    by (simp add: begin_insights_def split: prod.splits)
  from insights_quiet.no_bad_call [OF insights_inv_start this [unfolded insights_run_def]] show ?thesis
    by (auto simp: insights_read_call_def external_tools_def split: agent_call.splits)
qed

lemma begin_run_externals [simp]: "filter external_use (fst (begin_run fe req)) = []"
  using begin_run_quiet by (auto simp: filter_empty_conv)

text \<open>Where a thread waits: at the approval node of its graph.\<close>

fun at_gate :: "thread \<Rightarrow> bool" where
  "at_gate (Dev_Thread n _) = (n = Dv_Hitl)"
| "at_gate (Invoice_Thread n _) = (n = Iv_Hitl)"
| "at_gate (Dealer_Thread n _) = (n = De_Hitl)"
| "at_gate _ = True"

lemma begin_run_at_gate: "snd (begin_run fe req) = Waiting th action args \<Longrightarrow> at_gate th"
proof (cases req)
  case (Run_Dev k)
  then show "snd (begin_run fe req) = Waiting th action args \<Longrightarrow> at_gate th"
    using dev_suspends [of "fe_dev fe" "route_env fe dev_name" k]
    by (auto simp: begin_dev_def unexpected_def split: prod.splits run_out.splits option.splits)
next
  case (Run_Invoice img)
  then show "snd (begin_run fe req) = Waiting th action args \<Longrightarrow> at_gate th"
    using invoice_suspends [of invoice_name "route_env fe invoice_name" img "{}"]
    by (auto simp: begin_invoice_def unexpected_def split: prod.splits run_out.splits option.splits)
next
  case (Run_Dealer i ds)
  then show "snd (begin_run fe req) = Waiting th action args \<Longrightarrow> at_gate th"
    using dealer_suspends [of dealer_name "fe_letter fe" "route_env fe dealer_name" i ds]
    by (auto simp: begin_dealer_def unexpected_def split: prod.splits run_out.splits option.splits)
qed (auto simp: begin_hr_def begin_insights_def unexpected_def split: prod.splits run_out.splits option.splits)

lemma rejected_dev [simp]: "fst (dev_run cfg env Dv_Hitl (Some (resume_with False)) s) = []"
  by (cases "dv_branch s"; cases "dv_plan s") (simp_all add: dev_run_def eval_nat_numeral eff_return_def eff_raise_def)

lemma rejected_invoice [simp]: "fst (invoice_run agent env Iv_Hitl (Some (resume_with False)) s) = []"
  by (cases "iv_fields s"; cases "iv_validation s") (simp_all add: invoice_run_def eval_nat_numeral eff_return_def eff_raise_def)

lemma rejected_dealer [simp]: "fst (dealer_run agent lt env De_Hitl (Some (resume_with False)) s) = []"
  by (cases "de_email s"; cases "de_dossier s") (simp_all add: dealer_run_def eval_nat_numeral eff_return_def eff_raise_def)

definition threads_at_gate :: "fleet_db \<Rightarrow> bool" where
  "threads_at_gate db \<longleftrightarrow> (\<forall>r th. fd_threads db r = Some th \<longrightarrow> at_gate th)"

lemma threads_at_gateD: "threads_at_gate db \<Longrightarrow> fd_threads db r = Some th \<Longrightarrow> at_gate th"
  unfolding threads_at_gate_def by blast

lemma resumed_run [simp]: "fst (resumed r) = fst r"
  by (simp add: resumed_def)

lemma dev_run_sends: "length (filter external_use (fst (dev_run cfg env n d s))) \<le> 1"
  using dev_sends.run_within_budget [of cfg env 9 n d s] by (cases n) (simp_all add: dev_run_def)

lemma invoice_run_sends: "length (filter external_use (fst (invoice_run agent env n d s))) \<le> 1"
  using invoice_sends.run_within_budget [of agent env 7 n d s] by (cases n) (simp_all add: invoice_run_def)

lemma dealer_run_sends: "length (filter external_use (fst (dealer_run agent lt env n d s))) \<le> 1"
  using dealer_sends.run_within_budget [of agent lt env 11 n d s] by (cases n) (simp_all add: dealer_run_def)

lemma hr_run_sends: "filter external_use (fst (hr_run agent env n d s)) = []"
  using hr_sends.run_within_budget [of agent env 6 n d s] by (simp add: hr_run_def)

lemma recipe_sends: "externals (fst (resume_automation_recipe fe db r b)) \<le> of_bool b"
  by (auto simp: resume_automation_recipe_def send_recipe_mail_def externals_def
      split: list.split sum.split)

lemma resumed_of_agent [simp]:
  "externals (fst (of_agent name f fe db r b)) = length (filter external_use (fst (f fe db r b)))"
  by (simp add: of_agent_def case_prod_beta)

lemma resume_dev_sends:
  "threads_at_gate db \<Longrightarrow> length (filter external_use (fst (resume_dev_agent_run fe db r b))) \<le> of_bool b"
  using dev_run_sends by (cases b)
    (auto simp: resume_dev_agent_run_def split: option.split thread.split dest: threads_at_gateD)

lemma resume_invoice_sends:
  "threads_at_gate db \<Longrightarrow> length (filter external_use (fst (resume_invoice_agent_run fe db r b))) \<le> of_bool b"
  using invoice_run_sends by (cases b)
    (auto simp: resume_invoice_agent_run_def split: option.split thread.split dest: threads_at_gateD)

lemma resume_dealer_sends:
  "threads_at_gate db \<Longrightarrow> length (filter external_use (fst (resume_dealer_onboarding_run fe db r b))) \<le> of_bool b"
  using dealer_run_sends by (cases b)
    (auto simp: resume_dealer_onboarding_run_def split: option.split thread.split dest: threads_at_gateD)

lemma resume_hr_sends [simp]: "filter external_use (fst (resume_hr_agent_run fe db r b)) = []"
  by (simp add: resume_hr_agent_run_def hr_run_sends split: option.split thread.split)

lemma resumer_sends:
  assumes "map_of resumers name = Some resume" "threads_at_gate db"
  shows "externals (fst (resume fe db r b)) \<le> of_bool b"
  using assms(1) resume_dev_sends [OF assms(2), of fe r b] resume_invoice_sends [OF assms(2), of fe r b]
    resume_dealer_sends [OF assms(2), of fe r b] recipe_sends [of fe db r b]
  by (auto simp: resumers_def split: if_splits)

section \<open>Histories\<close>

text \<open>
  One request: an agent run, a mail of a recipe, or a decision. Configuration, caller and clock are any; a
  run id (\<open>uuid4\<close>) is one that no earlier request drew.
\<close>

definition fresh_run :: "string \<Rightarrow> fleet_db \<Rightarrow> bool" where
  "fresh_run r db \<longleftrightarrow> r \<notin> ap_run_id ` set (fd_approvals db) \<and> fd_threads db r = None"

inductive fleet_step :: "fleet_db \<Rightarrow> fleet_call list \<Rightarrow> fleet_db \<Rightarrow> bool" where
  start: "start_run fe admitted req r now db = (calls, out, db') \<Longrightarrow> fresh_run r db \<Longrightarrow> fleet_step db calls db'"
| queue: "email_send key to subject body r now db = (out, db') \<Longrightarrow> fresh_run r db \<Longrightarrow> fleet_step db [] db'"
| decide: "decide_approval fe (fst (require_permission decode sha APPROVE credentials adb)) ident decision edited now db
      = (calls, reply, db') \<Longrightarrow> fleet_step db calls db'"

inductive fleet_history :: "fleet_db \<Rightarrow> fleet_call list \<Rightarrow> fleet_db \<Rightarrow> bool" for db0 where
  nothing: "fleet_history db0 [] db0"
| then_step: "fleet_history db0 calls db \<Longrightarrow> fleet_step db more_calls db' \<Longrightarrow> fleet_history db0 (calls @ more_calls) db'"

text \<open>An empty queue: no approval yet and no thread.\<close>

definition empty_queue :: "agent_table \<Rightarrow> fleet_db" where
  "empty_queue agents = \<lparr>fd_agents = agents, fd_approvals = [], fd_next_approval = 1, fd_threads = (\<lambda>_. None)\<rparr>"

definition row_ok :: "approval_row \<Rightarrow> bool" where
  "row_ok a \<longleftrightarrow>
     ap_status a = ''pending'' \<and> ap_decided_by a = None \<and> ap_decided_at a = None
     \<or> ap_status a \<in> {''approved'', ''rejected''} \<and> ap_decided_by a \<noteq> None \<and> ap_decided_at a \<noteq> None"

definition queue_wf :: "fleet_db \<Rightarrow> bool" where
  "queue_wf db \<longleftrightarrow>
     distinct (map ap_id (fd_approvals db)) \<and> distinct (map ap_run_id (fd_approvals db)) \<and>
     (\<forall>a \<in> set (fd_approvals db). ap_id a < fd_next_approval db \<and> row_ok a) \<and>
     threads_at_gate db \<and> (\<forall>r. fd_threads db r \<noteq> None \<longrightarrow> r \<in> ap_run_id ` set (fd_approvals db))"

definition approved_count :: "fleet_db \<Rightarrow> nat" where
  "approved_count db = length (filter (\<lambda>a. ap_status a = ''approved'') (fd_approvals db))"

lemma queue_wf_add:
  assumes "queue_wf db" "fresh_run r db" "\<And>th. t = Some th \<Longrightarrow> at_gate th"
  shows "queue_wf (add_approval agent r action args now
            (case t of None \<Rightarrow> db | Some th \<Rightarrow> db\<lparr>fd_threads := (fd_threads db)(r \<mapsto> th)\<rparr>))"
  using assms by (auto simp: queue_wf_def add_approval_def fresh_run_def row_ok_def threads_at_gate_def image_iff
      less_Suc_eq split: option.splits if_splits)

lemma approved_count_add [simp]: "approved_count (add_approval agent r action args now db) = approved_count db"
  by (simp add: approved_count_def add_approval_def)

text \<open>What a decision does when it is accepted, and that it does nothing otherwise.\<close>

lemma decide_cases:
  obtains (Refused) e where "decide_approval fe who ident decision edited now db = ([], Inl e, db)"
  | (Taken) p a resume where "who = Inr p" "approval_by_id ident db = Some a" "ap_status a = ''pending''"
      "decision \<in> {''approve'', ''reject''}" "resumer_for db a = Some resume"
      "decide_approval fe who ident decision edited now db
         = (fst (resume fe (put_approval (decided (pr_sub p) decision edited now a) db) (ap_run_id a) (decision = ''approve'')),
            res_bind (snd (resume fe (put_approval (decided (pr_sub p) decision edited now a) db) (ap_run_id a)
                       (decision = ''approve''))) (\<lambda>_. Inr (decided (pr_sub p) decision edited now a)),
            thread_used (ap_run_id a) (put_approval (decided (pr_sub p) decision edited now a) db))"
proof -
  have "(\<exists>e. decide_approval fe who ident decision edited now db = ([], Inl e, db))
      \<or> (\<exists>p a resume. who = Inr p \<and> approval_by_id ident db = Some a \<and> ap_status a = ''pending'' \<and>
           decision \<in> {''approve'', ''reject''} \<and> resumer_for db a = Some resume)"
    by (auto simp: decide_approval_def split: sum.split option.split)
  then show thesis
  proof (elim disjE exE conjE)
    fix p a resume
    assume t: "who = Inr p" "approval_by_id ident db = Some a" "ap_status a = ''pending''"
      "decision \<in> {''approve'', ''reject''}" "resumer_for db a = Some resume"
    then show thesis by (intro Taken [OF t]) (simp add: decide_approval_def Let_def case_prod_beta)
  qed (rule Refused)
qed

lemma decided_simps [simp]:
  "ap_id (decided sub d e now a) = ap_id a" "ap_run_id (decided sub d e now a) = ap_run_id a"
  "ap_status (decided sub d e now a) = (if d = ''approve'' then ''approved'' else ''rejected'')"
  "ap_decided_by (decided sub d e now a) = Some sub" "row_ok (decided sub d e now a)"
  by (simp_all add: decided_def row_ok_def)

lemma thread_used_simps [simp]:
  "fd_approvals (thread_used r db) = fd_approvals db" "fd_next_approval (thread_used r db) = fd_next_approval db"
  "fd_agents (thread_used r db) = fd_agents db"
  "fd_threads (thread_used r db) x = (if x = r \<and> fd_threads db r \<noteq> None then Some Resumed_Thread else fd_threads db x)"
  by (simp_all add: thread_used_def split: option.split)

lemma put_approval_simps [simp]:
  "fd_threads (put_approval a db) = fd_threads db" "fd_next_approval (put_approval a db) = fd_next_approval db"
  "fd_agents (put_approval a db) = fd_agents db"
  by (simp_all add: put_approval_def)

lemma approval_by_id_Some: "approval_by_id i db = Some a \<Longrightarrow> a \<in> set (fd_approvals db) \<and> ap_id a = i"
  by (auto simp: approval_by_id_def find_Some_iff)

lemma map_put_approval:
  "(\<And>b. ap_id b = ap_id a \<Longrightarrow> b \<in> set (fd_approvals db) \<Longrightarrow> f b = f a) \<Longrightarrow>
     map f (fd_approvals (put_approval a db)) = map f (fd_approvals db)"
  by (simp add: put_approval_def)

lemma queue_wf_unique:
  "queue_wf db \<Longrightarrow> a \<in> set (fd_approvals db) \<Longrightarrow> b \<in> set (fd_approvals db) \<Longrightarrow> ap_id a = ap_id b \<Longrightarrow> a = b"
  unfolding queue_wf_def by (metis distinct_map inj_on_def)

lemma queue_wf_decided:
  assumes wf: "queue_wf db" and a: "approval_by_id i db = Some a"
  shows "queue_wf (thread_used (ap_run_id a) (put_approval (decided sub d e now a) db))"
proof -
  note in_set = approval_by_id_Some [OF a]
  have same: "b = a" if "ap_id b = ap_id a" "b \<in> set (fd_approvals db)" for b
    using queue_wf_unique [OF wf that(2)] in_set that(1) by blast
  have ids: "map ap_id (fd_approvals (put_approval (decided sub d e now a) db)) = map ap_id (fd_approvals db)"
    by (rule map_put_approval) simp
  have runs: "map ap_run_id (fd_approvals (put_approval (decided sub d e now a) db)) = map ap_run_id (fd_approvals db)"
    by (rule map_put_approval) (auto dest: same)
  then have run_set: "ap_run_id ` set (fd_approvals (put_approval (decided sub d e now a) db))
      = ap_run_id ` set (fd_approvals db)" by (metis set_map)
  have rows: "ap_id b < fd_next_approval db \<and> row_ok b"
    if "b \<in> set (fd_approvals (put_approval (decided sub d e now a) db))" for b
    using that wf in_set by (auto simp: put_approval_def queue_wf_def)
  show ?thesis
    using wf in_set rows unfolding queue_wf_def thread_used_simps put_approval_simps ids runs run_set
    by (auto simp: threads_at_gate_def)
qed

lemma approved_count_decided:
  assumes wf: "queue_wf db" and a: "approval_by_id i db = Some a" "ap_status a = ''pending''"
  shows "approved_count (thread_used r (put_approval (decided sub d e now a) db))
       = approved_count db + of_bool (d = ''approve'')"
proof -
  note in_set = approval_by_id_Some [OF a(1)]
  from in_set obtain xs ys where db: "fd_approvals db = xs @ a # ys" by (meson split_list)
  from wf have "distinct (map ap_id (fd_approvals db))" by (simp add: queue_wf_def)
  then have "ap_id a \<notin> ap_id ` (set xs \<union> set ys)" unfolding db by auto
  then have others: "\<forall>b \<in> set xs \<union> set ys. ap_id b \<noteq> ap_id a" by (metis imageI)
  then have "map (\<lambda>b. if ap_id b = ap_id a then decided sub d e now a else b) xs = xs"
    "map (\<lambda>b. if ap_id b = ap_id a then decided sub d e now a else b) ys = ys"
    by (auto intro: map_idI)
  with a(2) db show ?thesis by (simp add: approved_count_def put_approval_def)
qed

text \<open>Starting a run either leaves the database alone or adds one waiting thread with its pending row.\<close>

lemma start_run_db:
  assumes "start_run fe admitted req r now db = (calls, out, db')"
  shows "externals calls = 0 \<and>
     (db' = db \<or> (\<exists>agent action args th. at_gate th \<and>
        db' = add_approval agent r action args now (db\<lparr>fd_threads := (fd_threads db)(r \<mapsto> th)\<rparr>)))"
  using assms begin_run_at_gate [of fe req]
  by (auto simp: start_run_def Let_def case_prod_beta split: sum.splits option.splits started.splits)

lemma email_send_db:
  assumes "email_send key to subject body r now db = (out, db')"
  shows "db' = db \<or> (\<exists>agent action args. db' = add_approval agent r action args now db)"
  using assms by (auto simp: email_send_def split: sum.splits option.splits if_splits)

lemma fleet_step_keeps:
  assumes "fleet_step db calls db'" "queue_wf db"
  shows "queue_wf db' \<and> approved_count db + externals calls \<le> approved_count db'"
  using assms(1)
proof cases
  case (start fe admitted req r now out)
  note fresh = \<open>fresh_run r db\<close>
  from start_run_db [OF start(1)] show ?thesis
  proof (elim conjE disjE exE)
    fix agent action args th
    assume *: "externals calls = 0" "at_gate th"
      "db' = add_approval agent r action args now (db\<lparr>fd_threads := (fd_threads db)(r \<mapsto> th)\<rparr>)"
    with queue_wf_add [OF assms(2) fresh, of "Some th" agent action args now] show ?thesis
      by (simp add: approved_count_def add_approval_def)
  qed (simp add: assms(2))
next
  case (queue key to subject body r now out)
  from email_send_db [OF queue(2)] show ?thesis
    using queue_wf_add [OF assms(2) \<open>fresh_run r db\<close>, of None] assms(2) queue(1) by auto
next
  case (decide fe decode sha credentials adb ident decision edited now reply)
  let ?who = "fst (require_permission decode sha APPROVE credentials adb)"
  show ?thesis
  proof (cases rule: decide_cases [of fe ?who ident decision edited now db])
    case (Refused e)
    with decide assms(2) show ?thesis by simp
  next
    case (Taken p a resume)
    let ?db = "put_approval (decided (pr_sub p) decision edited now a) db"
    from Taken(5) obtain name where "map_of resumers name = Some resume"
      by (auto simp: resumer_for_def split: option.splits)
    moreover have "threads_at_gate ?db" using assms(2) by (simp add: queue_wf_def threads_at_gate_def)
    ultimately have "externals (fst (resume fe ?db (ap_run_id a) (decision = ''approve''))) \<le> of_bool (decision = ''approve'')"
      by (rule resumer_sends)
    with Taken(6) decide(1) queue_wf_decided [OF assms(2) Taken(2)] approved_count_decided [OF assms(2) Taken(2,3)]
    show ?thesis by simp
  qed
qed

lemma empty_queue_wf [simp]: "queue_wf (empty_queue agents)" "approved_count (empty_queue agents) = 0"
  by (simp_all add: queue_wf_def empty_queue_def threads_at_gate_def approved_count_def)

lemma fleet_history_keeps:
  assumes "fleet_history db0 calls db" "queue_wf db0"
  shows "queue_wf db \<and> approved_count db0 + externals calls \<le> approved_count db"
  using assms
proof (induction rule: fleet_history.induct)
  case (then_step calls db more_calls db')
  with fleet_step_keeps [OF then_step.hyps(2)] show ?case by fastforce
qed simp




lemma settled_rows_stay:
  assumes "fleet_step db calls db'" "queue_wf db" "a \<in> set (fd_approvals db)" "ap_status a \<noteq> ''pending''"
  shows "a \<in> set (fd_approvals db')"
  using assms(1)
proof cases
  case (start fe admitted req r now out)
  with start_run_db [OF start(1)] assms(3) show ?thesis by (auto simp: add_approval_def)
next
  case (queue key to subject body r now out)
  with email_send_db [OF queue(2)] assms(3) show ?thesis by (auto simp: add_approval_def)
next
  case (decide fe decode sha credentials adb ident decision edited now reply)
  let ?who = "fst (require_permission decode sha APPROVE credentials adb)"
  show ?thesis
  proof (cases rule: decide_cases [of fe ?who ident decision edited now db])
    case (Refused e)
    with decide assms(3) show ?thesis by simp
  next
    case (Taken p b resume)
    then have "ap_id a \<noteq> ap_id b"
      using queue_wf_unique [OF assms(2,3), of b] assms(4) approval_by_id_Some [OF Taken(2)] by auto
    with decide Taken(6) assms(3) show ?thesis by (auto simp: put_approval_def image_iff)
  qed
qed

section \<open>Properties\<close>

text \<open>
  Property C2: nothing leaves without an approval. Over any history of agent runs, queued mails and
  decisions from an empty queue, the calls that open a pull request, draft an ERP entry, send a mail or
  publish are at most as many as the items of the queue that were approved.
\<close>

theorem external_calls_are_approved:
  assumes "fleet_history (empty_queue agents) calls db"
  shows "externals calls \<le> approved_count db"
  using fleet_history_keeps [OF assms] by simp


text \<open>
  A decision is final. A row that was approved or rejected is never changed or removed by a
  later request.
\<close>

theorem decisions_are_final:
  assumes "fleet_history (empty_queue agents) calls db" "fleet_step db more_calls db'"
    "a \<in> set (fd_approvals db)" "ap_status a \<noteq> ''pending''"
  shows "a \<in> set (fd_approvals db')"
  using settled_rows_stay [OF assms(2) _ assms(3,4)] fleet_history_keeps [OF assms(1)] by simp

text \<open>A small fleet: the recipe agent and the dev agent, one mail queued and approved.\<close>

definition demo_queue :: fleet_db where
  "demo_queue = snd (email_send (Inr \<lparr>sk_id = 1, sk_name = ''n8n'', sk_scopes = [''email_send'']\<rparr>) ''a@fleet.local'' ''s'' ''b''
     ''run-1'' 5 (empty_queue (demo_agents\<lparr>at_rows := [agent_of 1 ''active'' demo_agent_in,
        agent_of 2 ''paused'' (demo_agent_in\<lparr>ai_name := ''automation_recipe''\<rparr>)]\<rparr>)))"

definition demo_who :: "principal res" where
  "demo_who = fst (require_permission demo_claims (\<lambda>s. s) APPROVE (Some ''eve'') empty_access)"

definition demo_decided :: fleet_db where
  "demo_decided = snd (snd (decide_approval demo_fleet demo_who 1 ''approve'' None 6 demo_queue))"

lemma demo_decision:
  "fst (decide_approval demo_fleet demo_who 1 ''approve'' None 6 demo_queue) = [Recipe_Mail ''a@fleet.local'' ''s'' ''b'']"
  "map ap_status (fd_approvals demo_decided) = [''approved'']" "map ap_id (fd_approvals demo_decided) = [1]"
  by code_simp+

lemma queue_step: "fresh_run r db \<Longrightarrow> fleet_step db [] (snd (email_send key to subject body r now db))"
  by (rule fleet_step.queue [OF prod.collapse [symmetric]])

lemma demo_history:
  "fleet_history (empty_queue (demo_agents\<lparr>at_rows := [agent_of 1 ''active'' demo_agent_in,
     agent_of 2 ''paused'' (demo_agent_in\<lparr>ai_name := ''automation_recipe''\<rparr>)]\<rparr>)) [] demo_queue"
  (is "fleet_history ?start [] demo_queue")
proof -
  have "fleet_step ?start [] demo_queue"
    unfolding demo_queue_def by (rule queue_step) (simp add: fresh_run_def empty_queue_def)
  from fleet_history.then_step [OF fleet_history.nothing this] show ?thesis by simp
qed

lemma demo_decide_step: "fleet_step demo_queue [Recipe_Mail ''a@fleet.local'' ''s'' ''b''] demo_decided"
proof (rule fleet_step.decide [where decode = demo_claims and sha = "\<lambda>s. s" and credentials = "Some ''eve''"
      and adb = empty_access and fe = demo_fleet and ident = 1 and decision = "''approve''" and edited = None
      and now = 6 and reply = "fst (snd (decide_approval demo_fleet demo_who 1 ''approve'' None 6 demo_queue))"])
  show "decide_approval demo_fleet (fst (require_permission demo_claims (\<lambda>s. s) APPROVE (Some ''eve'') empty_access)) 1
      ''approve'' None 6 demo_queue
    = ([Recipe_Mail ''a@fleet.local'' ''s'' ''b''],
       fst (snd (decide_approval demo_fleet demo_who 1 ''approve'' None 6 demo_queue)), demo_decided)"
    by (simp flip: demo_who_def demo_decision(1) add: demo_decided_def)
qed

lemma external_calls_are_approved_witness: "1 \<le> approved_count demo_decided"
proof -
  from fleet_history.then_step [OF demo_history demo_decide_step]
  have "externals [Recipe_Mail ''a@fleet.local'' ''s'' ''b''] \<le> approved_count demo_decided"
    using external_calls_are_approved by simp
  then show ?thesis by (simp add: externals_def)
qed


lemma decisions_are_final_witness:
  "list_all (\<lambda>a. a \<in> set (fd_approvals (snd (snd (decide_approval demo_fleet demo_who 1 ''reject'' None 7 demo_decided)))))
     (fd_approvals demo_decided) \<and> fd_approvals demo_decided \<noteq> []"
proof -
  let ?d = "decide_approval demo_fleet demo_who 1 ''reject'' None 7 demo_decided"
  have "fleet_step demo_decided (fst ?d) (snd (snd ?d))"
    by (rule fleet_step.decide [where decode = demo_claims and sha = "\<lambda>s. s" and credentials = "Some ''eve''"
      and adb = empty_access and fe = demo_fleet and ident = 1 and decision = "''reject''" and edited = None
      and now = 7 and reply = "fst (snd ?d)"]) (simp flip: demo_who_def)
  from decisions_are_final [OF fleet_history.then_step [OF demo_history demo_decide_step] this]
  have "list_all (\<lambda>a. a \<in> set (fd_approvals (snd (snd ?d)))) (fd_approvals demo_decided)"
    using demo_decision(2) by (auto simp: list_all_iff)
  with demo_decision(2) show ?thesis by auto
qed

text \<open>
  An approver's edit changes the row, not the run. For an item of one of the four agents that
  wait in a graph, a decision with an edited payload makes exactly the calls, and raises exactly the
  exception, of the same decision without one.
\<close>

theorem edits_do_not_reach_graphs:
  assumes "approval_by_id i db = Some a"
    and "map_option ag_name (agent_by_id (at_rows (fd_agents db)) (ap_agent_id a)) \<noteq> Some recipe_name"
  shows "fst (decide_approval fe who i d (Some p) now db) = fst (decide_approval fe who i d None now db) \<and>
    map_sum id (\<lambda>_. ()) (fst (snd (decide_approval fe who i d (Some p) now db)))
      = map_sum id (\<lambda>_. ()) (fst (snd (decide_approval fe who i d None now db)))"
proof -
  have same: "resume fe (put_approval x db) r b = resume fe (put_approval y db) r b"
    if "resumer_for db a = Some resume" for resume x y r b
    using that assms(2)
    by (auto simp: resumer_for_def resumers_def of_agent_def resume_dev_agent_run_def resume_invoice_agent_run_def
        resume_hr_agent_run_def resume_dealer_onboarding_run_def split: option.splits if_splits)
  show ?thesis
  proof (cases who)
    case (Inr u)
    show ?thesis
    proof (cases "d \<in> {''approve'', ''reject''} \<and> ap_status a = ''pending'' \<and> resumer_for db a \<noteq> None")
      case True
      then obtain resume where r: "resumer_for db a = Some resume" by blast
      from same [OF r, of "decided (pr_sub u) d (Some p) now a" "ap_run_id a" "d = ''approve''" "decided (pr_sub u) d None now a"]
      show ?thesis using True Inr assms(1) r
        by (auto simp: decide_approval_def Let_def case_prod_beta res_bind_def split: sum.split)
    next
      case False
      with Inr assms(1) show ?thesis by (auto simp: decide_approval_def split: option.split)
    qed
  qed (simp add: decide_approval_def)
qed

definition demo_dev_queue :: fleet_db where
  "demo_dev_queue = snd (snd (start_run demo_fleet (Inr ()) (Run_Dev ''T-1'') ''run-1'' 0 demo_fleet_db))"

lemma edits_do_not_reach_graphs_witness:
  "hd (fst (decide_approval demo_fleet demo_who 1 ''approve'' (Some [(''title'', JStr ''Revised'')]) 6 demo_dev_queue))
     = By_Agent ''dev_agent'' (Use ''github.open_pr'' (open_pr_args ''agent/fix-0a1b2c3d'' ''Fix'' ''b''))"
proof -
  have a: "approval_by_id 1 demo_dev_queue = Some (hd (fd_approvals demo_dev_queue))" by code_simp
  have n: "map_option ag_name (agent_by_id (at_rows (fd_agents demo_dev_queue)) (ap_agent_id (hd (fd_approvals demo_dev_queue))))
      \<noteq> Some recipe_name" by code_simp
  have "hd (fst (decide_approval demo_fleet demo_who 1 ''approve'' None 6 demo_dev_queue))
     = By_Agent ''dev_agent'' (Use ''github.open_pr'' (open_pr_args ''agent/fix-0a1b2c3d'' ''Fix'' ''b''))"
    by code_simp
  with edits_do_not_reach_graphs [OF a n] show ?thesis by simp
qed

end
