(* ===== verification/Listing_Quality.thy ===== *)
theory Listing_Quality
  imports Agent_Common
begin

text \<open>
  The listing-quality agent (\<open>agents/listing_quality\<close>): a vision check whose verdict is cut down to a
  closed vocabulary of reason codes, and a graph whose only write is the review flag. The image
  part of a user message is a message of role \<open>image_url\<close> of its own; the en dash of the band
  text is written as code point 150.
\<close>

definition reason_codes :: "string list" where
  "reason_codes =
     [''photo_description_mismatch'', ''blurred_plate_missing'', ''prohibited_content'', ''price_anomaly'']"

record flag =
  fl_code :: string
  fl_reason :: string

record verdict =
  ve_flags :: "flag list"

definition ve_codes :: "verdict \<Rightarrow> string set" where
  "ve_codes v = fl_code ` set (ve_flags v)"

definition ve_is_clean :: "verdict \<Rightarrow> bool" where
  "ve_is_clean v \<longleftrightarrow> ve_flags v = []"

definition reference_band_text :: "(json \<Rightarrow> string) \<Rightarrow> (string \<times> json) list option \<Rightarrow> string" where
  "reference_band_text rp band =
     (case band of
        None \<Rightarrow> ''Reference price band: unavailable.''
      | Some b \<Rightarrow>
          if b = [] then ''Reference price band: unavailable.''
          else ''Reference price band for this segment: '' @ py_str rp (dict_get_or JNull b ''low'')
             @ [char_of (150::nat)] @ py_str rp (dict_get_or JNull b ''high'') @ '' ''
             @ py_str rp (dict_get_or (JStr ''TRY'') b ''currency'')
             @ '' (median '' @ py_str rp (dict_get_or JNull b ''median'') @ '').'')"

fun read_flags :: "(json \<Rightarrow> string) \<Rightarrow> json list \<Rightarrow> flag list res" where
  "read_flags rp [] = Inr []"
| "read_flags rp (item # items) =
     res_bind (py_get (JStr []) item ''code'') (\<lambda>c.
       let code = strip (py_str rp c) in
       if code \<in> set reason_codes
       then res_bind (py_get (JStr []) item ''reason'') (\<lambda>r.
            res_bind (read_flags rp items) (\<lambda>fs.
              Inr (\<lparr>fl_code = code, fl_reason = strip (py_str rp r)\<rparr> # fs)))
       else read_flags rp items)"

definition verdict_of_parsed :: "(json \<Rightarrow> string) \<Rightarrow> json \<Rightarrow> verdict res" where
  "verdict_of_parsed rp parsed =
     res_bind (py_get (JList []) parsed ''flags'') (\<lambda>raw.
       case raw of
         JList items \<Rightarrow> res_bind (read_flags rp items) (\<lambda>fs. Inr \<lparr>ve_flags = fs\<rparr>)
       | _ \<Rightarrow> Inl (ParseError ''flags is not a list''))"

record listing =
  li_id :: string
  li_image :: string
  li_description :: string
  li_price :: pyfloat
  li_currency :: string
  li_segment :: string

definition check_listing ::
  "agent_env \<Rightarrow> string \<Rightarrow> listing \<Rightarrow> (string \<times> json) list option \<Rightarrow> (agent_call, verdict) eff" where
  "check_listing env sensitivity li band =
     eff_bind (ask env sensitivity False
        [(''system'', ae_prompt env),
         (''user'', ''Description: '' @ li_description li @ newline
            @ ''Asking price: '' @ py_str (ae_repr env) (JFloat (li_price li)) @ '' '' @ li_currency li @ newline
            @ reference_band_text (ae_repr env) band),
         (''image_url'', ''data:image/png;base64,'' @ li_image li)])
       (\<lambda>content. eff_lift (res_bind (parse_reply content) (verdict_of_parsed (ae_repr env))))"

record listing_state =
  ls_listing :: listing
  ls_band :: "(string \<times> json) list option"
  ls_verdict :: "verdict option"
  ls_flagged :: bool
  ls_result :: "json option"
  ls_blocked :: "exn option"
  ls_paused :: bool

definition listing_start :: "listing \<Rightarrow> listing_state" where
  "listing_start li = \<lparr>ls_listing = li, ls_band = None, ls_verdict = None, ls_flagged = False,
     ls_result = None, ls_blocked = None, ls_paused = False\<rparr>"

datatype listing_node = Ls_Gate | Ls_Band | Ls_Vision | Ls_Flag | Ls_End

definition flag_args :: "string \<Rightarrow> verdict \<Rightarrow> (string \<times> json) list" where
  "flag_args ident v =
     [(''listing_id'', JStr ident), (''codes'', JList (map (\<lambda>f. JStr (fl_code f)) (ve_flags v))),
      (''reasons'', JList (map (\<lambda>f. JStr (fl_reason f)) (ve_flags v)))]"

text \<open>\<open>reference_band\<close> returns a dict or \<open>None\<close>.\<close>

definition band_reply :: "json \<Rightarrow> (string \<times> json) list option" where
  "band_reply v = (case v of JObj kvs \<Rightarrow> Some kvs | _ \<Rightarrow> None)"

fun listing_exec ::
  "string \<Rightarrow> agent_env \<Rightarrow> listing_node \<Rightarrow> decision option \<Rightarrow> listing_state \<Rightarrow>
     (agent_call, (listing_state, unit) step_out) eff" where
  "listing_exec agent env Ls_Gate d s =
     update (if gate_closed (ae_kill env) agent then s\<lparr>ls_paused := True\<rparr> else s)"
| "listing_exec agent env Ls_Band d s =
     eff_bind (use_tool env ''price_index.reference_band'' [(''segment'', JStr (li_segment (ls_listing s)))])
       (\<lambda>r. update (s\<lparr>ls_band := band_reply r\<rparr>))"
| "listing_exec agent env Ls_Vision d s =
     eff_try (eff_bind (check_listing env ''internal'' (ls_listing s) (ls_band s))
                (\<lambda>v. update (s\<lparr>ls_verdict := Some v, ls_flagged := (\<not> ve_is_clean v)\<rparr>)))
       (\<lambda>e. if is_parse_error e then Some (Update (s\<lparr>ls_blocked := Some e\<rparr>)) else None)"
| "listing_exec agent env Ls_Flag d s =
     eff_bind (eff_lift (state_key ''verdict'' (ls_verdict s))) (\<lambda>v.
     eff_bind (use_tool env ''listings.flag'' (flag_args (li_id (ls_listing s)) v))
       (\<lambda>r. update (s\<lparr>ls_result := Some r\<rparr>)))"
| "listing_exec agent env Ls_End d s = update s"

fun listing_route :: "listing_node \<Rightarrow> listing_state \<Rightarrow> listing_node option res" where
  "listing_route Ls_Gate s = Inr (if ls_paused s then None else Some Ls_Band)"
| "listing_route Ls_Band s = Inr (Some Ls_Vision)"
| "listing_route Ls_Vision s =
     Inr (Some (if ls_blocked s \<noteq> None then Ls_End else if ls_flagged s then Ls_Flag else Ls_End))"
| "listing_route Ls_Flag s = Inr (Some Ls_End)"
| "listing_route Ls_End s = Inr None"

definition listing_run ::
  "string \<Rightarrow> agent_env \<Rightarrow> listing_node \<Rightarrow> decision option \<Rightarrow> listing_state \<Rightarrow>
     agent_call list \<times> (listing_node, listing_state, unit) run_out" where
  "listing_run agent env = graph_run (listing_exec agent env) listing_route 5"

fun listing_rank :: "listing_node \<Rightarrow> nat" where
  "listing_rank Ls_Gate = 4" | "listing_rank Ls_Band = 3" | "listing_rank Ls_Vision = 2"
| "listing_rank Ls_Flag = 1" | "listing_rank Ls_End = 0"

interpretation listing_acyclic: acyclic_graph "listing_exec agent env" listing_route listing_rank for agent env
proof
  fix n s n'
  assume "listing_route n s = Inr (Some n')"
  then show "listing_rank n' < listing_rank n" by (cases n) (auto split: if_splits)
qed

section \<open>The vocabulary is closed\<close>

lemma read_flags_codes: "read_flags rp items = Inr fs \<Longrightarrow> fl_code ` set fs \<subseteq> set reason_codes"
proof (induction items arbitrary: fs)
  case (Cons item items)
  from Cons.prems obtain c where c: "py_get (JStr []) item ''code'' = Inr c" by (auto simp: Let_def)
  show ?case
  proof (cases "strip (py_str rp c) \<in> set reason_codes")
    case True
    with Cons.prems c obtain r gs where "read_flags rp items = Inr gs"
      "fs = \<lparr>fl_code = strip (py_str rp c), fl_reason = r\<rparr> # gs" by (auto simp: Let_def)
    with Cons.IH True show ?thesis by auto
  next
    case False
    with Cons c show ?thesis by (simp add: Let_def)
  qed
qed simp

lemma verdict_codes:
  assumes "verdict_of_parsed rp parsed = Inr v"
  shows "ve_codes v \<subseteq> set reason_codes"
proof -
  from assms obtain raw where raw: "py_get (JList []) parsed ''flags'' = Inr raw"
    by (auto simp: verdict_of_parsed_def)
  with assms show ?thesis
    by (cases raw) (auto simp: verdict_of_parsed_def ve_codes_def dest!: read_flags_codes)
qed

lemma check_listing_codes:
  "outcome (check_listing env sens li band) = Inr v \<Longrightarrow> ve_codes v \<subseteq> set reason_codes"
  by (auto simp: check_listing_def outcome_eff_bind split: sum.splits dest: verdict_codes)

lemma trace_check_listing: "set (trace (check_listing env sens li band)) \<subseteq> {c. \<exists>ms. c = Ask sens False ms}"
  by (auto simp: check_listing_def set_trace_eff_bind split: sum.splits)

definition listing_flag_inv :: "listing \<Rightarrow> listing_node \<Rightarrow> listing_state \<Rightarrow> bool" where
  "listing_flag_inv li n s \<longleftrightarrow>
     ls_listing s = li \<and>
     (n = Ls_Flag \<longrightarrow> (\<exists>v. ls_verdict s = Some v \<and> ve_codes v \<subseteq> set reason_codes \<and> ve_flags v \<noteq> []))"

definition listing_call_ok :: "listing \<Rightarrow> agent_call \<Rightarrow> bool" where
  "listing_call_ok li c =
     (case c of
        Ask sens _ _ \<Rightarrow> sens = ''internal''
      | Use tool args \<Rightarrow>
          tool = ''price_index.reference_band''
          \<or> (tool = ''listings.flag'' \<and>
             (\<exists>v. args = flag_args (li_id li) v \<and> ve_flags v \<noteq> [] \<and> ve_codes v \<subseteq> set reason_codes)))"

interpretation listing_quiet:
  quiet_graph "listing_exec agent env" listing_route "listing_flag_inv li" "\<lambda>c. \<not> listing_call_ok li c"
  for agent env li
proof
  fix n s l s' n'
  assume inv: "listing_flag_inv li n s" and ex: "listing_exec agent env n None s = (l, Inr (Update s'))"
    and rt: "listing_route n s' = Inr (Some n')"
  from ex have out: "outcome (listing_exec agent env n None s) = Inr (Update s')" by simp
  show "listing_flag_inv li n' s'"
  proof (cases n)
    case Ls_Vision
    with out have "(\<exists>v. outcome (check_listing env ''internal'' (ls_listing s) (ls_band s)) = Inr v \<and>
          s' = s\<lparr>ls_verdict := Some v, ls_flagged := (\<not> ve_is_clean v)\<rparr>)
        \<or> (\<exists>e. s' = s\<lparr>ls_blocked := Some e\<rparr>)"
      by (auto simp: eff_try_Inr outcome_eff_bind split: sum.splits if_splits)
    with inv rt Ls_Vision show ?thesis
      by (auto simp: listing_flag_inv_def ve_is_clean_def split: if_splits dest: check_listing_codes)
  qed (use inv out rt in \<open>auto simp: listing_flag_inv_def outcome_eff_bind split: sum.splits if_splits\<close>)
next
  fix n s e
  assume "listing_flag_inv li n s" "e \<in> set (trace (listing_exec agent env n None s))"
  then show "\<not> \<not> listing_call_ok li e"
    using trace_check_listing [of env "''internal''" "ls_listing s" "ls_band s"]
    by (cases n) (auto simp: listing_flag_inv_def listing_call_ok_def set_trace_eff_bind split: sum.splits)
qed

text \<open>
  The listing agent only flags. In a run over a listing, its calls are the reference
  band read, internal model calls, and at most review flags on that same listing, each with at
  least one flag and with codes of the closed vocabulary only, whatever the model replied.
\<close>

theorem listing_only_flags:
  assumes "c \<in> set (fst (listing_run agent env Ls_Gate None (listing_start li)))"
  shows "listing_call_ok li c"
proof -
  have "listing_flag_inv li Ls_Gate (listing_start li)" by (simp add: listing_flag_inv_def listing_start_def)
  from listing_quiet.no_bad_call [OF this assms [unfolded listing_run_def]] show ?thesis by simp
qed

definition demo_listing :: listing where
  "demo_listing = \<lparr>li_id = ''L1'', li_image = ''x'', li_description = ''d'', li_price = Fin 10,
     li_currency = ''TRY'', li_segment = ''suv''\<rparr>"

definition demo_listing_env :: agent_env where
  "demo_listing_env = \<lparr>ae_prompt = ''p'',
     ae_model = (\<lambda>_ _ _. Inr (''{'' @ qt ''flags'' @ '':[{'' @ qt ''code'' @ '':'' @ qt ''unpublish'' @ ''},{''
        @ qt ''code'' @ '':'' @ qt ''price_anomaly'' @ ''}]}'')),
     ae_tool = (\<lambda>_ _. Inr JNull), ae_kill = None, ae_repr = (\<lambda>_. [])\<rparr>"

lemma listing_only_flags_witness:
  "listing_call_ok demo_listing (Use ''listings.flag'' [(''listing_id'', JStr ''L1''),
     (''codes'', JList [JStr ''price_anomaly'']), (''reasons'', JList [JStr []])])"
proof (rule listing_only_flags)
  show "Use ''listings.flag'' [(''listing_id'', JStr ''L1''), (''codes'', JList [JStr ''price_anomaly'']),
      (''reasons'', JList [JStr []])]
    \<in> set (fst (listing_run ''listing_quality'' demo_listing_env Ls_Gate None (listing_start demo_listing)))"
    by code_simp
qed

end
