(* ===== verification/Eval_Runs.thy ===== *)
theory Eval_Runs
  imports Eval_Scoring Eval_Cases Chat Approvals Listing_Quality Insights_Publisher
begin

text \<open>
  The runs of the evaluation harness (\<open>evals/runner.py\<close>): the cases of an agent go one by one through its real graph or
  service, without a kill switch and without any decision on an interrupt, are scored by \<open>Eval_Scoring\<close>, and the
  share of passed cases decides the exit code. The gateway, the OCR engine on a rendered image (\<open>ev_ocr\<close>,
  \<open>ev_render\<close>), the fixture backends of the tools and the rendering of a validation reason are parameters; the price
  bands, the comparables and the CRM of a case are the runner's own.
\<close>

section \<open>Results of a run\<close>

definition pass_rate :: "case_result list \<Rightarrow> rat" where
  "pass_rate rs =
     (if rs = [] then 0 else of_nat (length (filter rs_passed rs)) / of_nat (length rs))"

definition exit_code :: "rat \<Rightarrow> case_result list \<Rightarrow> nat" where
  "exit_code threshold rs = (if pass_rate rs < threshold then 1 else 0)"

text \<open>The loop over the lines of a dataset that every loader has.\<close>

fun dataset_rows :: "string list \<Rightarrow> json list res" where
  "dataset_rows [] = Inr []"
| "dataset_rows (line # ls) =
     (if strip line = [] then dataset_rows ls
      else (case json_loads (strip line) of
              None \<Rightarrow> Inl (ParseError ''json'')
            | Some v \<Rightarrow> res_bind (dataset_rows ls) (\<lambda>vs. Inr (v # vs))))"

text \<open>The loop over the cases; what a case leaves behind (\<open>seen_po_numbers\<close>) is handed to the next one.\<close>

fun run_cases :: "('st \<Rightarrow> 'a \<Rightarrow> ('c, case_result \<times> 'st) eff) \<Rightarrow> 'st \<Rightarrow> 'a list \<Rightarrow> ('c, case_result list) eff" where
  "run_cases step st [] = eff_return []"
| "run_cases step st (c # cs) =
     eff_bind (step st c) (\<lambda>(r, st'). eff_bind (run_cases step st' cs) (\<lambda>rs. eff_return (r # rs)))"

definition each_case :: "('a \<Rightarrow> ('c, case_result) eff) \<Rightarrow> unit \<Rightarrow> 'a \<Rightarrow> ('c, case_result \<times> unit) eff" where
  "each_case f _ c = eff_bind (f c) (\<lambda>r. eff_return (r, ()))"

section \<open>What the runner provides\<close>

datatype eval_call = By_Case agent_call | By_Query query_call

record eval_env =
  ev_agent :: "string \<Rightarrow> agent_env"
  ev_query :: query_env
  ev_dev :: dev_config
  ev_letter :: letter_text
  ev_register :: letter_register
  ev_render :: "string list \<Rightarrow> string"
  ev_photo :: "listing_case \<Rightarrow> string"
  ev_ocr :: "string \<Rightarrow> string"
  ev_reason :: "reason \<Rightarrow> string"
  ev_template :: "string \<Rightarrow> string"
  ev_dumps :: "row \<Rightarrow> string"
  ev_nonces :: "string \<times> string"
  ev_sha :: "string \<Rightarrow> string"
  ev_playbooks :: "string list"

definition scan :: "eval_env \<Rightarrow> string list \<Rightarrow> string" where
  "scan ev lines = ev_ocr ev (ev_render ev lines)"

definition case_env :: "eval_env \<Rightarrow> string \<Rightarrow> agent_env" where
  "case_env ev agent = (ev_agent ev agent)\<lparr>ae_kill := None\<rparr>"

text \<open>A graph run without a decision: its calls, and what the scoring reads of how it ended.\<close>

definition case_run :: "agent_call list \<times> ('n, 's, 'p) run_out \<Rightarrow> ('s \<Rightarrow> 'p option \<Rightarrow> 'r) \<Rightarrow> (eval_call, 'r) eff" where
  "case_run run f =
     (map By_Case (fst run),
      case snd run of
        Finished s \<Rightarrow> Inr (f s None)
      | Suspended _ s p \<Rightarrow> Inr (f s (Some p))
      | Failed e \<Rightarrow> Inl e
      | OutOfFuel \<Rightarrow> Inl (OtherError ''GraphRecursionError''))"

section \<open>One case of each agent\<close>

definition run_rag_case :: "eval_env \<Rightarrow> nat list \<Rightarrow> string \<Rightarrow> qa_case \<Rightarrow> (eval_call, case_result) eff" where
  "run_rag_case ev ids sens c =
     map_calls By_Query
       (eff_bind (answer_query (ev_query ev) (agent_searcher (ev_query ev) ids) (qc_question c) (agent_query_config 5) sens None)
         (\<lambda>a. eff_return (evaluate_case c \<lparr>ra_text = an_text a, ra_citations = length (an_citations a), ra_degraded = an_degraded a\<rparr>)))"

definition analytics_answer_of :: "(json \<Rightarrow> string) \<Rightarrow> analytics_outcome \<Rightarrow> analytics_answer" where
  "analytics_answer_of rp out =
     (case out of
        Clarification q \<Rightarrow> \<lparr>aa_sql = None, aa_rows = None, aa_refused = False, aa_clarification = Some (py_str rp q)\<rparr>
      | Refusal _ \<Rightarrow> \<lparr>aa_sql = None, aa_rows = None, aa_refused = True, aa_clarification = None\<rparr>
      | Rows sql rows \<Rightarrow>
          \<lparr>aa_sql = Some sql, aa_rows = Some (case rows of JList rs \<Rightarrow> int (length rs) | _ \<Rightarrow> 0), aa_refused = False,
           aa_clarification = None\<rparr>)"

definition run_analytics_case :: "eval_env \<Rightarrow> analytics_case \<Rightarrow> (eval_call, case_result) eff" where
  "run_analytics_case ev c =
     (let env = case_env ev ''analytics'' in
      map_calls By_Case
        (eff_bind (ask_analytics env (ev_template ev) ''internal'' (ac_question c) default_semantic_layer) (\<lambda>out.
           eff_return (evaluate_analytics_case c (analytics_answer_of (ae_repr env) out)))))"

definition dev_answer_of :: "dev_state \<Rightarrow> dev_payload option \<Rightarrow> dev_answer" where
  "dev_answer_of s p =
     (if dv_blocked s \<noteq> None then \<lparr>va_pending = False, va_blocked = dv_blocked s, va_branch = None, va_paths = []\<rparr>
      else (case p of
              None \<Rightarrow> \<lparr>va_pending = False, va_blocked = None, va_branch = None, va_paths = []\<rparr>
            | Some pl \<Rightarrow> \<lparr>va_pending = True, va_blocked = None, va_branch = Some (dpl_branch pl),
                          va_paths = (case dv_plan s of Some plan \<Rightarrow> dp_paths plan | None \<Rightarrow> [])\<rparr>))"

definition run_dev_agent_case :: "eval_env \<Rightarrow> dev_case \<Rightarrow> (eval_call, case_result) eff" where
  "run_dev_agent_case ev c =
     case_run (dev_run (ev_dev ev) (case_env ev dev_name) Dv_Gate None (dev_start (vc_ticket_key c)))
       (\<lambda>s p. evaluate_dev_agent_case c (dev_answer_of s p))"

definition invoice_answer_of :: "(reason \<Rightarrow> string) \<Rightarrow> invoice_state \<Rightarrow> invoice_payload option \<Rightarrow> invoice_answer" where
  "invoice_answer_of render s p =
     (case (iv_blocked s, p) of
        (None, Some pl) \<Rightarrow>
          \<lparr>na_pending = True, na_vendor = Some (f_vendor (ip_fields pl)), na_po_number = Some (f_po_number (ip_fields pl)),
           na_amount = Some (f_amount (ip_fields pl)), na_ok = Some (vr_ok (ip_validation pl)),
           na_reasons = map render (vr_reasons (ip_validation pl))\<rparr>
      | _ \<Rightarrow> \<lparr>na_pending = False, na_vendor = None, na_po_number = None, na_amount = None, na_ok = None, na_reasons = []\<rparr>)"

definition invoice_lines :: "invoice_case \<Rightarrow> string list" where
  "invoice_lines c =
     [''Vendor: '' @ nc_vendor c, ''PO Number: '' @ nc_po_number c, ''Total Amount: '' @ nc_amount c @ '' TRY'']"

definition run_invoice_case :: "eval_env \<Rightarrow> string set \<Rightarrow> invoice_case \<Rightarrow> (eval_call, case_result \<times> string set) eff" where
  "run_invoice_case ev seen c =
     case_run (invoice_run invoice_name (case_env ev invoice_name) Iv_Gate None (invoice_start (ev_render ev (invoice_lines c)) seen))
       (\<lambda>s p. (evaluate_invoice_case c (invoice_answer_of (ev_reason ev) s p), iv_seen s))"

definition qa_of_hr_case :: "hr_case \<Rightarrow> qa_case" where
  "qa_of_hr_case c =
     \<lparr>qc_id = hc_id c, qc_question = or_empty (hc_question c), qc_must_contain = hc_must_contain c, qc_must_not_contain = [],
      qc_must_cite = hc_must_cite c, qc_must_refuse = False\<rparr>"

text \<open>The text of a CV is read by the local OCR engine before the one model call.\<close>

definition run_hr_case :: "eval_env \<Rightarrow> nat list \<Rightarrow> string \<Rightarrow> hr_case \<Rightarrow> (eval_call, case_result) eff" where
  "run_hr_case ev ids sens c =
     (let profile = map_calls By_Case (extract_cv_profile (case_env ev hr_name) (scan ev (hc_cv_lines c))) in
      if hc_type c = ''extraction'' then eff_bind profile (\<lambda>p. eff_return (evaluate_hr_extraction_case c p))
      else if hc_type c = ''schema_exclusion'' then eff_bind profile (\<lambda>p. eff_return (evaluate_hr_schema_exclusion_case c p))
      else if hc_type c = ''qa_grounding'' then run_rag_case ev ids sens (qa_of_hr_case c)
      else eff_return (failed (hc_id c) ''unknown case_type''))"

definition listing_bands :: "(string \<times> json) list" where
  "listing_bands =
     map (\<lambda>(seg, low, high, med). (seg, JObj [(''low'', JInt low), (''high'', JInt high), (''median'', JInt med), (''currency'', JStr ''TRY'')]))
       [(''sedan-2018'', 400000, 600000, 500000), (''suv-2020'', 650000, 950000, 800000), (''hatchback-2019'', 380000, 560000, 460000)]"

definition fixed_tool :: "string \<Rightarrow> ((string \<times> json) list \<Rightarrow> json res) \<Rightarrow> agent_env \<Rightarrow> agent_env" where
  "fixed_tool name f env = env\<lparr>ae_tool := \<lambda>tool args. if tool = name then f args else ae_tool env tool args\<rparr>"

definition fixed_band :: "(string \<times> json) list \<Rightarrow> json res" where
  "fixed_band args =
     Inr (case map_of args ''segment'' of
            Some (JStr s) \<Rightarrow> (case map_of listing_bands s of Some b \<Rightarrow> b | None \<Rightarrow> JNull)
          | _ \<Rightarrow> JNull)"

definition listing_codes :: "listing_state \<Rightarrow> string set" where
  "listing_codes s = (case ls_verdict s of Some v \<Rightarrow> ve_codes v | None \<Rightarrow> {})"

definition listing_of_case :: "eval_env \<Rightarrow> listing_case \<Rightarrow> listing" where
  "listing_of_case ev c =
     \<lparr>li_id = lc_id c, li_image = ev_photo ev c, li_description = lc_description c, li_price = lc_price c,
      li_currency = ''TRY'', li_segment = lc_segment c\<rparr>"

definition run_listing_case :: "eval_env \<Rightarrow> listing_case \<Rightarrow> (eval_call, case_result) eff" where
  "run_listing_case ev c =
     case_run (listing_run ''listing_quality'' (fixed_tool ''price_index.reference_band'' fixed_band (case_env ev ''listing_quality''))
         Ls_Gate None (listing_start (listing_of_case ev c)))
       (\<lambda>s _. evaluate_listing_case c (listing_codes s))"

text \<open>\<open>_OcrAdapter\<close>.\<close>

definition tesseract_adapter :: "eval_env \<Rightarrow> (string \<times> json) list \<Rightarrow> json res" where
  "tesseract_adapter ev args =
     (case map_of args ''image_base64'' of
        Some (JStr img) \<Rightarrow> Inr (JObj [(''text'', JStr (ev_ocr ev img)), (''source'', JStr ''tesseract'')])
      | _ \<Rightarrow> Inl (TypeError ''image_base64''))"

definition static_prices :: "vehicle_case \<Rightarrow> (string \<times> json) list \<Rightarrow> json res" where
  "static_prices c args =
     (let limit = (case map_of args ''limit'' of Some (JInt n) \<Rightarrow> nat n | _ \<Rightarrow> 5)
      in Inr (JList (map (JFloat \<circ> Fin) (take limit (hv_comparables c)))))"

definition run_vehicle_case :: "eval_env \<Rightarrow> vehicle_case \<Rightarrow> (eval_call, case_result) eff" where
  "run_vehicle_case ev c =
     (let env = fixed_tool ''ocr.extract_text'' (tesseract_adapter ev)
                  (fixed_tool ''comparables.top_prices'' (static_prices c) (case_env ev ''vehicle_intake''))
      in case_run (vehicle_run ''vehicle_intake'' env Vi_Gate None (vehicle_start (ev_render ev (hv_lines c)) (hv_segment c)))
           (\<lambda>s _. evaluate_vehicle_case c s))"

text \<open>The judge asks three times; the average of the scores it could read is rounded half to even.\<close>

record insights_case =
  sc_id :: string
  sc_type :: string
  sc_data_rows :: "row list"
  sc_brand_voice :: string

definition judge_prompt :: "string \<Rightarrow> string \<Rightarrow> string" where
  "judge_prompt brand_voice written =
     ''You review whether a Turkish marketing draft follows a brand-voice guideline. Score 1-5 using this anchor:'' @ newline @
     ''5 = clearly follows every aspect of the guideline (tone, sentence style, address); 4 = follows the guideline with only minor slips; 3 = partially follows; 2 = mostly ignores it; 1 = contradicts it.'' @ newline @
     ''Judge ONLY voice/tone/style, not the facts or numbers. A short, on-brand draft should score 4-5. Respond with ONLY the integer.'' @ newline @ newline @
     ''Guideline: '' @ brand_voice @ newline @ newline @ ''Draft: '' @ written"

definition read_score :: "string \<Rightarrow> nat option" where
  "read_score content =
     map_option (\<lambda>c. of_char c - 48) (find (\<lambda>c. (49 :: nat) \<le> of_char c \<and> (of_char c :: nat) \<le> 53) content)"

definition average_score :: "nat list \<Rightarrow> int" where
  "average_score scores =
     (if scores = [] then 0 else round_half_even (of_nat (sum_list scores) / of_nat (length scores)))"

definition judge_brand_voice :: "agent_env \<Rightarrow> string \<Rightarrow> string \<Rightarrow> (agent_call, int) eff" where
  "judge_brand_voice env written brand_voice =
     (let vote = ask env ''internal'' False [(''user'', judge_prompt brand_voice written)] in
      eff_bind vote (\<lambda>a. eff_bind vote (\<lambda>b. eff_bind vote (\<lambda>c.
        eff_return (average_score (List.map_filter read_score [a, b, c]))))))"

definition run_insights_case :: "eval_env \<Rightarrow> insights_case \<Rightarrow> (eval_call, case_result) eff" where
  "run_insights_case ev c =
     (let env = case_env ev insights_name in
      map_calls By_Case
        (eff_bind (draft_report env (ev_dumps ev) (fst (ev_nonces ev)) ''internal'' (sc_data_rows c) (sc_brand_voice c)) (\<lambda>d.
           let combined = dr_report d @ newline @ dr_social d in
           if sc_type c \<in> {''numbers_match'', ''no_invent''}
           then eff_return (if gr_grounded (check_numbers_grounded (1/100) combined (sc_data_rows c))
                            then passed_with (sc_id c) ''ok (numbers grounded)'' else failed (sc_id c) ''ungrounded numbers'')
           else if sc_type c = ''brand_voice''
           then eff_bind (judge_brand_voice env combined (sc_brand_voice c)) (\<lambda>score.
                  eff_return (if 4 \<le> score then passed_with (sc_id c) ''brand-voice judge score'' else failed (sc_id c) ''brand-voice judge score''))
           else eff_return (failed (sc_id c) ''unknown case_type''))))"

text \<open>\<open>_FixtureCrm\<close> and \<open>_RecordingEmail\<close>: what they recorded is read off the calls.\<close>

definition dealer_fixtures :: "eval_env \<Rightarrow> dealer_case \<Rightarrow> agent_env \<Rightarrow> agent_env" where
  "dealer_fixtures ev c env =
     fixed_tool ''ocr.extract_text'' (tesseract_adapter ev)
       (fixed_tool ''crm.get_application'' (\<lambda>_. Inr (JObj (oc_application c)))
          (fixed_tool ''crm.update_status'' (\<lambda>args. Inr (JObj args)) (fixed_tool ''email.send'' (\<lambda>_. Inr JNull) env)))"

definition mails_in :: "agent_call list \<Rightarrow> nat" where
  "mails_in calls = length (filter (\<lambda>c. case c of Use tool _ \<Rightarrow> tool = ''email.send'' | _ \<Rightarrow> False) calls)"

definition statuses_in :: "agent_call list \<Rightarrow> string list" where
  "statuses_in calls =
     List.map_filter (\<lambda>c. case c of
         Use tool args \<Rightarrow> (if tool = ''crm.update_status'' then (case map_of args ''status'' of Some (JStr s) \<Rightarrow> Some s | _ \<Rightarrow> None) else None)
       | _ \<Rightarrow> None) calls"

definition run_dealer_case :: "eval_env \<Rightarrow> dealer_case \<Rightarrow> (eval_call, case_result) eff" where
  "run_dealer_case ev c =
     (let env = dealer_fixtures ev c (case_env ev dealer_name); rp = ae_repr env in
      if oc_type c = ''email_template'' then eff_lift (evaluate_email_template_case (ev_register ev) (ev_letter ev) rp c)
      else (case map_of (oc_application c) ''application_id'' of
              None \<Rightarrow> eff_raise (KeyError ''application_id'')
            | Some v \<Rightarrow>
                (let run = dealer_run dealer_name (ev_letter ev) env De_Gate None
                       (dealer_start (py_str rp v) (map (\<lambda>(kind, ls). (kind, ev_render ev ls)) (oc_documents c)))
                 in case_run run (\<lambda>s p. evaluate_dealer_case (ev_register ev) c
                      \<lparr>oo_state = s, oo_interrupt = p, oo_sent = mails_in (fst run), oo_statuses = statuses_in (fst run)\<rparr>))))"

text \<open>The playbook as ingestion chunks it, one text after the other.\<close>

definition load_playbook_excerpts :: "(string \<Rightarrow> string) \<Rightarrow> string list \<Rightarrow> excerpt list" where
  "load_playbook_excerpts sha fixtures =
     concat (map (\<lambda>t. map (\<lambda>c. \<lparr>ex_content = tc_content c, ex_ref = tc_sha c\<rparr>) (chunk_text sha 400 t)) fixtures)"

definition run_legal_case :: "eval_env \<Rightarrow> legal_case \<Rightarrow> (eval_call, case_result) eff" where
  "run_legal_case ev c =
     (let excerpts = load_playbook_excerpts (ev_sha ev) (ev_playbooks ev)
      in case_run (legal_run ''legal_review'' (case_env ev ''legal_review'') (ev_nonces ev) (\<lambda>_. Inr excerpts) Lg_Gate None
             (legal_start (gc_contract c)))
           (\<lambda>s _. evaluate_legal_case c (ex_ref ` set excerpts) s))"

section \<open>The command\<close>

text \<open>An agent with its dataset; the knowledge agents come with their row of the agent table.\<close>

datatype suite =
    Knowledge "nat list" string "qa_case list"
  | Analytics "analytics_case list"
  | Dev "dev_case list"
  | Invoices "invoice_case list"
  | Hr "nat list" string "hr_case list"
  | Listings "listing_case list"
  | Vehicles "vehicle_case list"
  | Insights "insights_case list"
  | Dealers "dealer_case list"
  | Contracts "legal_case list"

definition run_agent_eval :: "eval_env \<Rightarrow> nat list \<Rightarrow> string \<Rightarrow> qa_case list \<Rightarrow> (eval_call, case_result list) eff" where
  "run_agent_eval ev ids sens cs = run_cases (each_case (run_rag_case ev ids sens)) () cs"

definition run_analytics_eval :: "eval_env \<Rightarrow> analytics_case list \<Rightarrow> (eval_call, case_result list) eff" where
  "run_analytics_eval ev cs = run_cases (each_case (run_analytics_case ev)) () cs"

definition run_dev_agent_eval :: "eval_env \<Rightarrow> dev_case list \<Rightarrow> (eval_call, case_result list) eff" where
  "run_dev_agent_eval ev cs = run_cases (each_case (run_dev_agent_case ev)) () cs"

definition run_invoice_agent_eval :: "eval_env \<Rightarrow> invoice_case list \<Rightarrow> (eval_call, case_result list) eff" where
  "run_invoice_agent_eval ev cs = run_cases (run_invoice_case ev) {} cs"

definition run_hr_agent_eval :: "eval_env \<Rightarrow> nat list \<Rightarrow> string \<Rightarrow> hr_case list \<Rightarrow> (eval_call, case_result list) eff" where
  "run_hr_agent_eval ev ids sens cs = run_cases (each_case (run_hr_case ev ids sens)) () cs"

definition run_listing_quality_eval :: "eval_env \<Rightarrow> listing_case list \<Rightarrow> (eval_call, case_result list) eff" where
  "run_listing_quality_eval ev cs = run_cases (each_case (run_listing_case ev)) () cs"

definition run_vehicle_intake_eval :: "eval_env \<Rightarrow> vehicle_case list \<Rightarrow> (eval_call, case_result list) eff" where
  "run_vehicle_intake_eval ev cs = run_cases (each_case (run_vehicle_case ev)) () cs"

definition run_insights_publisher_eval :: "eval_env \<Rightarrow> insights_case list \<Rightarrow> (eval_call, case_result list) eff" where
  "run_insights_publisher_eval ev cs = run_cases (each_case (run_insights_case ev)) () cs"

definition run_dealer_onboarding_eval :: "eval_env \<Rightarrow> dealer_case list \<Rightarrow> (eval_call, case_result list) eff" where
  "run_dealer_onboarding_eval ev cs = run_cases (each_case (run_dealer_case ev)) () cs"

definition run_legal_review_eval :: "eval_env \<Rightarrow> legal_case list \<Rightarrow> (eval_call, case_result list) eff" where
  "run_legal_review_eval ev cs = run_cases (each_case (run_legal_case ev)) () cs"

lemmas run_eval_defs =
  run_agent_eval_def run_analytics_eval_def run_dev_agent_eval_def run_invoice_agent_eval_def run_hr_agent_eval_def run_listing_quality_eval_def run_vehicle_intake_eval_def run_insights_publisher_eval_def run_dealer_onboarding_eval_def run_legal_review_eval_def

fun run_suite :: "eval_env \<Rightarrow> suite \<Rightarrow> (eval_call, case_result list) eff" where
  "run_suite ev (Knowledge ids sens cs) = run_agent_eval ev ids sens cs"
| "run_suite ev (Analytics cs) = run_analytics_eval ev cs"
| "run_suite ev (Dev cs) = run_dev_agent_eval ev cs"
| "run_suite ev (Invoices cs) = run_invoice_agent_eval ev cs"
| "run_suite ev (Hr ids sens cs) = run_hr_agent_eval ev ids sens cs"
| "run_suite ev (Listings cs) = run_listing_quality_eval ev cs"
| "run_suite ev (Vehicles cs) = run_vehicle_intake_eval ev cs"
| "run_suite ev (Insights cs) = run_insights_publisher_eval ev cs"
| "run_suite ev (Dealers cs) = run_dealer_onboarding_eval ev cs"
| "run_suite ev (Contracts cs) = run_legal_review_eval ev cs"

definition eval_main :: "eval_env \<Rightarrow> rat \<Rightarrow> suite \<Rightarrow> (eval_call, nat) eff" where
  "eval_main ev threshold st = eff_bind (run_suite ev st) (\<lambda>rs. eff_return (exit_code threshold rs))"

section \<open>Which calls an evaluation makes\<close>


lemma trace_each_case [simp]: "trace (each_case f u c) = trace (f c)"
  by (simp add: each_case_def trace_eff_bind split: sum.split)

lemma trace_case_run [simp]: "trace (case_run run f) = map By_Case (fst run)"
  by (simp add: case_run_def)

lemma trace_map_calls [simp]: "trace (map_calls f m) = map f (trace m)"
  by (simp add: map_calls_def)

definition suite_sensitivity :: "suite \<Rightarrow> string" where
  "suite_sensitivity st =
     (case st of
        Hr _ _ _ \<Rightarrow> ''pii'' | Dealers _ \<Rightarrow> ''pii''
      | Invoices _ \<Rightarrow> ''confidential'' | Contracts _ \<Rightarrow> ''confidential'' | Vehicles _ \<Rightarrow> ''confidential''
      | _ \<Rightarrow> ''internal'')"

definition agent_call_ok :: "suite \<Rightarrow> agent_call \<Rightarrow> bool" where
  "agent_call_ok st c \<longleftrightarrow>
     \<not> external_use c \<and> (case c of Ask sens _ _ \<Rightarrow> sens = suite_sensitivity st | Use _ _ \<Rightarrow> True)"

definition eval_call_ok :: "suite \<Rightarrow> eval_call \<Rightarrow> bool" where
  "eval_call_ok st c = (case c of By_Case a \<Rightarrow> agent_call_ok st a | By_Query _ \<Rightarrow> True)"

lemma eval_call_ok_simps [simp]:
  "eval_call_ok st (By_Case a) = agent_call_ok st a" "eval_call_ok st (By_Query q)"
  "list_all (eval_call_ok st) (map By_Case cs) = list_all (agent_call_ok st) cs"
  "list_all (eval_call_ok st) (map By_Query qs)"
  by (simp_all add: eval_call_ok_def list.pred_map o_def) (simp_all add: list_all_iff)

lemma trace_generate_sql [simp]:
  "trace (generate_sql env tp sens q layer) = [Ask sens False [(''system'', tp (describe layer)), (''user'', q)]]"
  by (simp add: generate_sql_def trace_eff_bind split: sum.split)














section \<open>The gate of a run\<close>

lemma run_cases_ids:
  assumes "\<And>st c r st'. c \<in> set cs \<Longrightarrow> outcome (step st c) = Inr (r, st') \<Longrightarrow> rs_id r = ident c"
    and "outcome (run_cases step st cs) = Inr rs"
  shows "map rs_id rs = map ident cs"
  using assms
proof (induction cs arbitrary: st rs)
  case (Cons c cs)
  from Cons.prems(2) obtain r st' rs' where r: "outcome (step st c) = Inr (r, st')"
    "outcome (run_cases step st' cs) = Inr rs'" "rs = r # rs'"
    by (auto simp: eff_bind_Inr_iff)
  from Cons.prems(1) [of c st r st'] r(1) have "rs_id r = ident c" by simp
  moreover from Cons.IH [OF Cons.prems(1) r(2)] have "map rs_id rs' = map ident cs" by simp
  ultimately show ?case by (simp add: r(3))
qed simp

lemma each_case_outcome: "outcome (each_case f u c) = Inr (r, u') \<longleftrightarrow> outcome (f c) = Inr r"
  by (auto simp: each_case_def eff_bind_Inr_iff)

lemma case_run_outcome: "outcome (case_run run f) = Inr r \<Longrightarrow> \<exists>s p. r = f s p"
  by (auto simp: case_run_def split: run_out.splits)

lemma outcome_map_calls [simp]: "outcome (map_calls f m) = outcome m"
  by (simp add: map_calls_def)

fun case_ids :: "suite \<Rightarrow> string list" where
  "case_ids (Knowledge _ _ cs) = map qc_id cs"
| "case_ids (Analytics cs) = map ac_id cs"
| "case_ids (Dev cs) = map vc_id cs"
| "case_ids (Invoices cs) = map nc_id cs"
| "case_ids (Hr _ _ cs) = map hc_id cs"
| "case_ids (Listings cs) = map lc_id cs"
| "case_ids (Vehicles cs) = map hv_id cs"
| "case_ids (Insights cs) = map sc_id cs"
| "case_ids (Dealers cs) = map oc_id cs"
| "case_ids (Contracts cs) = map gc_id cs"

lemma knowledge_case_id: "outcome (run_rag_case ev ids sens c) = Inr r \<Longrightarrow> rs_id r = qc_id c"
  by (auto simp: run_rag_case_def eff_bind_Inr_iff knowledge_verdict_id)

lemma analytics_case_id: "outcome (run_analytics_case ev c) = Inr r \<Longrightarrow> rs_id r = ac_id c"
  by (auto simp: run_analytics_case_def Let_def eff_bind_Inr_iff analytics_verdict_id)

lemma dev_case_id: "outcome (run_dev_agent_case ev c) = Inr r \<Longrightarrow> rs_id r = vc_id c"
  by (auto simp: run_dev_agent_case_def dev_verdict_id dest!: case_run_outcome)

lemma invoice_case_id: "outcome (run_invoice_case ev seen c) = Inr (r, seen') \<Longrightarrow> rs_id r = nc_id c"
  by (auto simp: run_invoice_case_def invoice_verdict_id dest!: case_run_outcome)

lemma hr_case_id: "outcome (run_hr_case ev ids sens c) = Inr r \<Longrightarrow> rs_id r = hc_id c"
  by (auto simp: run_hr_case_def Let_def eff_bind_Inr_iff hr_verdict_id qa_of_hr_case_def
      dest!: knowledge_case_id split: if_splits)

lemma listing_case_id: "outcome (run_listing_case ev c) = Inr r \<Longrightarrow> rs_id r = lc_id c"
  by (auto simp: run_listing_case_def listing_verdict_id dest!: case_run_outcome)

lemma vehicle_case_id: "outcome (run_vehicle_case ev c) = Inr r \<Longrightarrow> rs_id r = hv_id c"
  by (auto simp: run_vehicle_case_def Let_def vehicle_verdict_id dest!: case_run_outcome)

lemma insights_case_id: "outcome (run_insights_case ev c) = Inr r \<Longrightarrow> rs_id r = sc_id c"
  by (auto simp: run_insights_case_def Let_def eff_bind_Inr_iff split: if_splits)

lemma dealer_case_id: "outcome (run_dealer_case ev c) = Inr r \<Longrightarrow> rs_id r = oc_id c"
  by (auto simp: run_dealer_case_def Let_def dealer_verdict_id dest!: case_run_outcome
      split: if_splits option.splits intro: evaluate_email_template_id)

lemma legal_case_id: "outcome (run_legal_case ev c) = Inr r \<Longrightarrow> rs_id r = gc_id c"
  by (auto simp: run_legal_case_def Let_def legal_verdict_id dest!: case_run_outcome)

lemmas case_id_rules = knowledge_case_id analytics_case_id dev_case_id hr_case_id listing_case_id vehicle_case_id
  insights_case_id dealer_case_id legal_case_id

lemma each_case_ids:
  assumes "\<And>c r. outcome (f c) = Inr r \<Longrightarrow> rs_id r = ident c"
    and "outcome (run_cases (each_case f) () cs) = Inr rs"
  shows "map rs_id rs = map ident cs"
  using run_cases_ids [OF _ assms(2)] assms(1) by (simp add: each_case_outcome)

lemma run_suite_ids: "outcome (run_suite ev st) = Inr rs \<Longrightarrow> map rs_id rs = case_ids st"
proof (cases st)
  case (Invoices cs)
  assume "outcome (run_suite ev st) = Inr rs"
  with run_cases_ids [of cs "run_invoice_case ev" nc_id "{}" rs] Invoices show ?thesis by (simp add: invoice_case_id run_invoice_agent_eval_def)
qed (auto simp: run_eval_defs intro!: each_case_ids case_id_rules)

lemma pass_rate_bounds: "0 \<le> pass_rate rs \<and> pass_rate rs \<le> 1"
  by (simp add: pass_rate_def divide_le_eq_1)

lemma pass_rate_ge:
  "rs \<noteq> [] \<Longrightarrow> t \<le> pass_rate rs \<longleftrightarrow> t * of_nat (length rs) \<le> of_nat (length (filter rs_passed rs))"
  by (simp add: pass_rate_def pos_le_divide_eq)

text \<open>
  An evaluation gates on all of its dataset. A run that ends has one verdict for each case, in the order of the dataset;
  it ends with 0 or 1, and with 0 exactly if at least the demanded share of all cases passed. An empty dataset never
  reaches a positive threshold, and a threshold above one is never reached.
\<close>

theorem evals_gate_on_every_case:
  assumes "outcome (eval_main ev threshold st) = Inr code"
  shows "\<exists>rs. outcome (run_suite ev st) = Inr rs \<and> map rs_id rs = case_ids st \<and> code \<in> {0, 1} \<and>
     (code = 0 \<longleftrightarrow> (if case_ids st = [] then threshold \<le> 0
                 else threshold * of_nat (length (case_ids st)) \<le> of_nat (length (filter rs_passed rs)))) \<and>
     (1 < threshold \<longrightarrow> code = 1)"
proof -
  from assms obtain rs where rs: "outcome (run_suite ev st) = Inr rs" "code = exit_code threshold rs"
    by (auto simp: eval_main_def eff_bind_Inr_iff)
  note ids = run_suite_ids [OF rs(1)]
  from ids have len: "length (case_ids st) = length rs" by (metis length_map)
  from ids have nil: "case_ids st = [] \<longleftrightarrow> rs = []" by auto
  have "code = 0 \<longleftrightarrow> threshold \<le> pass_rate rs" by (simp add: rs(2) exit_code_def)
  moreover have "pass_rate [] = 0" by (simp add: pass_rate_def)
  ultimately show ?thesis
    using rs ids len nil pass_rate_ge [of rs threshold] pass_rate_bounds [of rs] by (auto simp: exit_code_def)
qed

text \<open>The second invoice over the same purchase order is flagged: the numbers seen are handed on from case to case.\<close>

definition demo_eval_env :: eval_env where
  "demo_eval_env =
     \<lparr>ev_agent = (\<lambda>_. demo_invoice_env demo_reply), ev_query = demo_query_env, ev_dev = demo_dev_config, ev_letter = demo_letter,
      ev_register = \<lparr>lr_markers = [], lr_informal = (\<lambda>_. False)\<rparr>, ev_render = join '' '', ev_photo = (\<lambda>_. []), ev_ocr = id,
      ev_reason = (\<lambda>r. case r of Duplicate _ \<Rightarrow> ''duplicate'' | _ \<Rightarrow> ''other''), ev_template = id, ev_dumps = (\<lambda>_. []),
      ev_nonces = ([], []), ev_sha = id, ev_playbooks = []\<rparr>"

definition demo_first_invoice :: invoice_case where
  "demo_first_invoice =
     \<lparr>nc_id = ''i1'', nc_vendor = ''Acme'', nc_po_number = ''PO-1'', nc_amount = ''100'', nc_expect_vendor = ''Acme'',
      nc_expect_po_number = ''PO-1'', nc_expect_amount = Fin 100, nc_expect_ok = True, nc_expect_reason = None\<rparr>"

definition demo_second_invoice :: invoice_case where
  "demo_second_invoice =
     demo_first_invoice\<lparr>nc_id := ''i2'', nc_expect_ok := False, nc_expect_reason := Some ''Duplicate''\<rparr>"

lemma evals_gate_on_every_case_witness:
  "\<exists>rs. outcome (run_suite demo_eval_env (Invoices [demo_first_invoice, demo_second_invoice])) = Inr rs \<and>
     map rs_id rs = [''i1'', ''i2''] \<and> (9/10 :: rat) * 2 \<le> of_nat (length (filter rs_passed rs))"
proof -
  have "outcome (eval_main demo_eval_env (9/10) (Invoices [demo_first_invoice, demo_second_invoice])) = Inr 0" by code_simp
  from evals_gate_on_every_case [OF this] show ?thesis by (auto simp: demo_first_invoice_def demo_second_invoice_def)
qed

section \<open>The printed precision\<close>

text \<open>
  The listing run also prints the share of rightly flagged listings among the flagged ones, from the expected and the
  found codes of each case. It is not part of the gate: three false alarms on twenty clean listings pass at 85 percent.
\<close>

definition listing_precision :: "(string list \<times> string set) list \<Rightarrow> rat" where
  "listing_precision cs =
     (let tp = length (filter (\<lambda>(want, got). got \<noteq> {} \<and> want \<noteq> []) cs);
          fp = length (filter (\<lambda>(want, got). got \<noteq> {} \<and> want = []) cs)
      in if tp + fp = 0 then 1 else of_nat tp / of_nat (tp + fp))"

lemma precision_does_not_gate:
  fixes c :: listing_case
  assumes c: "lc_expect_codes c = []"
    and gots: "gots = replicate 3 {''plate_visible''} @ replicate 17 {}"
  shows "exit_code (85/100) (map (evaluate_listing_case c) gots) = 0 \<and>
    listing_precision (map (Pair (lc_expect_codes c)) gots) = 0"
  by (simp add: c gots exit_code_def pass_rate_def evaluate_listing_case_def listing_precision_def Let_def
      numeral_eq_Suc)

end
