(* ===== verification/Eval_Promotion.thy ===== *)
theory Eval_Promotion
  imports Json_Dumps Eval_Cases Eval_Runs
begin

text \<open>
  \<open>evals/promote.py\<close> with the \<open>json.dumps(payload, ensure_ascii=False)\<close> it calls, and \<open>load_dataset\<close> of
  \<open>evals/runner.py\<close>, which reads what was promoted.
\<close>

definition dumped :: "(pyfloat \<Rightarrow> string) \<Rightarrow> (string \<times> json) list \<Rightarrow> string" where
  "dumped fl payload = json_dumps fl False (JObj payload)"













text \<open>
  A case with the next-line character in its question is written over two lines, and from then on the dataset of the
  agent cannot be loaded.
\<close>

lemma next_line_character_spoils_dataset:
  "let r = demo_case\<lparr>ec_payload := [(''id'', JStr ''c1''), (''question'', JStr [char_of (133 :: nat)])]\<rparr>;
       f = snd (promote (dumped (\<lambda>_. [])) ''analytics'' [r] None)
   in dataset_rows (splitlines [] (file_text f)) = Inl (ParseError ''json'')"
  by code_simp

end
