(* ===== verification/Web_Client.thy ===== *)
theory Web_Client
  imports Json_Loads
begin

text \<open>
  The HTTP client of the thin REST clients (\<open>httpx.AsyncClient\<close>). A server is any function of the requests it has seen,
  the last one being the one it answers; a client is a computation over that history. A request that gets no answer is
  an exception.
\<close>

record web_call =
  wc_method :: string
  wc_url :: string
  wc_auth :: "string list"
  wc_params :: "(string \<times> string) list"
  wc_body :: "json option"

record web_answer =
  wa_status :: nat
  wa_text :: string

type_synonym server = "web_call list \<Rightarrow> web_answer res"
type_synonym 'a web = "web_call list \<Rightarrow> 'a res \<times> web_call list"

definition web_return :: "'a \<Rightarrow> 'a web" where
  "web_return x h = (Inr x, h)"

definition web_lift :: "'a res \<Rightarrow> 'a web" where
  "web_lift r h = (r, h)"

definition web_bind :: "'a web \<Rightarrow> ('a \<Rightarrow> 'b web) \<Rightarrow> 'b web" where
  "web_bind m f h = (case m h of (Inl e, h') \<Rightarrow> (Inl e, h') | (Inr x, h') \<Rightarrow> f x h')"

definition web_send :: "server \<Rightarrow> web_call \<Rightarrow> web_answer web" where
  "web_send server c h = (server (h @ [c]), h @ [c])"

text \<open>\<open>raise_for_status\<close> and \<open>json\<close> of an answer.\<close>

definition raise_for_status :: "web_answer \<Rightarrow> unit res" where
  "raise_for_status a =
     (if 200 \<le> wa_status a \<and> wa_status a \<le> 299 then Inr () else Inl (OtherError ''HTTPStatusError''))"

definition answer_json :: "web_answer \<Rightarrow> json res" where
  "answer_json a = (case json_loads (wa_text a) of None \<Rightarrow> Inl (ParseError ''json'') | Some v \<Rightarrow> Inr v)"

definition web_json :: "server \<Rightarrow> web_call \<Rightarrow> json web" where
  "web_json server c =
     web_bind (web_send server c) (\<lambda>a. web_lift (res_bind (raise_for_status a) (\<lambda>_. answer_json a)))"

text \<open>\<open>dict(v)\<close> of a parsed value; a list of pairs, which no service of the program answers, is left out.\<close>

definition as_dict :: "json \<Rightarrow> json res" where
  "as_dict v =
     (case v of
        JObj kvs \<Rightarrow> Inr v
      | JList [] \<Rightarrow> Inr (JObj [])
      | JStr [] \<Rightarrow> Inr (JObj [])
      | JList _ \<Rightarrow> Inl (TypeError ''dict'')
      | JStr _ \<Rightarrow> Inl (ValueError ''dict'')
      | _ \<Rightarrow> Inl (TypeError ''dict''))"

definition trim_slashes :: "string \<Rightarrow> string" where
  "trim_slashes s = rev (dropWhile (\<lambda>c. c = CHR ''/'') (rev s))"

lemma web_bind_Inr: "web_bind m f h = (Inr y, h') \<longleftrightarrow> (\<exists>x h1. m h = (Inr x, h1) \<and> f x h1 = (Inr y, h'))"
  by (auto simp: web_bind_def split: prod.splits sum.splits)

lemma web_send_Inr: "web_send server c h = (Inr a, h') \<longleftrightarrow> server (h @ [c]) = Inr a \<and> h' = h @ [c]"
  by (auto simp: web_send_def)

lemma web_lift_Inr: "web_lift r h = (Inr x, h') \<longleftrightarrow> r = Inr x \<and> h' = h"
  by (auto simp: web_lift_def)

lemma web_json_Inr:
  "web_json server c h = (Inr v, h') \<longleftrightarrow>
     (\<exists>a. server (h @ [c]) = Inr a \<and> raise_for_status a = Inr () \<and> answer_json a = Inr v) \<and> h' = h @ [c]"
  by (auto simp: web_json_def web_bind_Inr web_send_Inr web_lift_Inr)

lemmas web_Inr = web_bind_Inr web_send_Inr web_lift_Inr web_json_Inr

text \<open>The requests of a computation from a history on.\<close>

definition sends :: "(web_call list \<Rightarrow> bool) \<Rightarrow> 'a web \<Rightarrow> bool" where
  "sends P m \<longleftrightarrow> (\<forall>h. \<exists>cs. snd (m h) = h @ cs \<and> P cs)"

lemma sends_mono: "sends P m \<Longrightarrow> (\<And>cs. P cs \<Longrightarrow> Q cs) \<Longrightarrow> sends Q m"
  unfolding sends_def by blast

lemma sends_pure: "P [] \<Longrightarrow> sends P (web_return x)" "P [] \<Longrightarrow> sends P (web_lift r)"
  by (simp_all add: sends_def web_return_def web_lift_def)

lemma sends_send: "P [c] \<Longrightarrow> sends P (web_send server c)"
  by (auto simp: sends_def web_send_def)

lemma sends_bind:
  assumes "sends P m" "\<And>x. sends Q (f x)" "\<And>cs ds. P cs \<Longrightarrow> Q ds \<Longrightarrow> R (cs @ ds)" "\<And>cs. P cs \<Longrightarrow> R cs"
  shows "sends R (web_bind m f)"
  unfolding sends_def
proof
  fix h
  obtain r cs where m: "m h = (r, h @ cs)" "P cs" using assms(1) unfolding sends_def by (metis prod.collapse)
  show "\<exists>cs. snd (web_bind m f h) = h @ cs \<and> R cs"
  proof (cases r)
    case (Inl e)
    with m assms(4) show ?thesis by (simp add: web_bind_def)
  next
    case (Inr x)
    obtain ds where "snd (f x (h @ cs)) = (h @ cs) @ ds" "Q ds" using assms(2) [of x] unfolding sends_def by blast
    with m Inr assms(3) show ?thesis by (auto simp: web_bind_def)
  qed
qed

lemma sends_json: "P [c] \<Longrightarrow> sends P (web_json server c)"
  unfolding web_json_def
  by (rule sends_bind [where P = "\<lambda>cs. cs = [c]" and Q = "\<lambda>cs. cs = []"]) (auto intro: sends_send sends_pure)

text \<open>Sending only requests of a kind is closed under sequencing.\<close>

abbreviation only :: "(web_call \<Rightarrow> bool) \<Rightarrow> 'a web \<Rightarrow> bool" where
  "only p m \<equiv> sends (list_all p) m"

lemma only_bind: "only p m \<Longrightarrow> (\<And>x. only p (f x)) \<Longrightarrow> only p (web_bind m f)"
  by (rule sends_bind) auto

lemma only_send: "p c \<Longrightarrow> only p (web_send server c)"
  by (rule sends_send) simp

lemma only_json: "p c \<Longrightarrow> only p (web_json server c)"
  by (rule sends_json) simp

lemma only_pure: "only p (web_return x)" "only p (web_lift r)"
  by (rule sends_pure; simp)+

lemmas only_intros = only_bind only_send only_json only_pure

end
