(* ===== verification/Gateway_Transport.thy ===== *)
theory Gateway_Transport
  imports Llm_Client Web_Client Json_Dumps Py_Lines
begin

text \<open>
  The HTTP transport to the model gateway (\<open>apps/runtime/core/llm/transport.py\<close>): the body of each request, the metadata
  that correlates it with its trace, and the reading of a streamed answer. The gateway is a parameter. A streamed answer is
  its status, the lines the HTTP library delivers, and the exception the connection broke with, if it did.
\<close>

section \<open>Requests\<close>

type_synonym kwargs = "(string \<times> json) list"

definition trace_keys :: "string list" where
  "trace_keys = [''trace_id'', ''agent_id'', ''user_id'', ''dept_id'']"

definition present :: "kwargs \<Rightarrow> string \<Rightarrow> (string \<times> json) option" where
  "present kw k = (case map_of kw k of None \<Rightarrow> None | Some JNull \<Rightarrow> None | Some v \<Rightarrow> Some (k, v))"

text \<open>\<open>redact_langfuse\<close> is taken out of the arguments, which nothing else of the transport reads.\<close>

definition build_metadata :: "kwargs \<Rightarrow> kwargs" where
  "build_metadata kw =
     List.map_filter (present kw) trace_keys
     @ (if truthy (dict_get_or (JBool False) kw ''redact_langfuse'')
        then [(''headers'', JObj [(''litellm-enable-message-redaction'', JBool True)])] else [])"

definition passthrough_keys :: "string list" where
  "passthrough_keys = [''max_tokens'', ''temperature'', ''tools'', ''response_format'']"

definition passed_through :: "kwargs \<Rightarrow> kwargs" where
  "passed_through kw = List.map_filter (\<lambda>k. map_option (Pair k) (map_of kw k)) passthrough_keys"

definition with_metadata :: "kwargs \<Rightarrow> kwargs" where
  "with_metadata kw = (let md = build_metadata kw in if md = [] then [] else [(''metadata'', JObj md)])"

record proxy =
  px_base_url :: string
  px_master_key :: string

definition proxy_call :: "proxy \<Rightarrow> string \<Rightarrow> kwargs \<Rightarrow> web_call" where
  "proxy_call px path payload =
     \<lparr>wc_method = ''POST'', wc_url = trim_slashes (px_base_url px) @ path, wc_auth = [''Bearer '' @ px_master_key px],
      wc_params = [], wc_body = Some (JObj payload)\<rparr>"

definition complete_call :: "proxy \<Rightarrow> string \<Rightarrow> json list \<Rightarrow> kwargs \<Rightarrow> web_call" where
  "complete_call px model messages kw =
     proxy_call px ''/chat/completions''
       ([(''model'', JStr model), (''messages'', JList messages)] @ passed_through kw @ with_metadata kw)"

definition embed_call :: "proxy \<Rightarrow> string \<Rightarrow> string list \<Rightarrow> kwargs \<Rightarrow> web_call" where
  "embed_call px model inputs kw =
     proxy_call px ''/embeddings'' ([(''model'', JStr model), (''input'', JList (map JStr inputs))] @ with_metadata kw)"


definition proxy_complete :: "server \<Rightarrow> proxy \<Rightarrow> string \<Rightarrow> json list \<Rightarrow> kwargs \<Rightarrow> json web" where
  "proxy_complete server px model messages kw = web_json server (complete_call px model messages kw)"

definition proxy_embed :: "server \<Rightarrow> proxy \<Rightarrow> string \<Rightarrow> string list \<Rightarrow> kwargs \<Rightarrow> json web" where
  "proxy_embed server px model inputs kw = web_json server (embed_call px model inputs kw)"

section \<open>The streamed answer\<close>


text \<open>What the generator yields: the model, the text and the usage block of an event, as they are in it.\<close>

record stream_chunk =
  sk_model :: json
  sk_delta :: json
  sk_usage :: json

text \<open>\<open>(event.get("choices") or [{}])[0]\<close>.\<close>

definition first_choice :: "json \<Rightarrow> json res" where
  "first_choice choices =
     (if \<not> truthy choices then Inr (JObj [])
      else (case choices of
              JList (c # _) \<Rightarrow> Inr c
            | JStr (c # _) \<Rightarrow> Inr (JStr [c])
            | JObj _ \<Rightarrow> Inl (KeyError ''0'')
            | _ \<Rightarrow> Inl (TypeError ''not subscriptable'')))"

definition event_chunk :: "string \<Rightarrow> json \<Rightarrow> stream_chunk res" where
  "event_chunk model event =
     res_bind (py_get JNull event ''choices'') (\<lambda>choices.
     res_bind (first_choice choices) (\<lambda>c.
     res_bind (py_get (JObj []) c ''delta'') (\<lambda>d.
     res_bind (py_get (JStr []) d ''content'') (\<lambda>content.
     res_bind (py_get (JStr model) event ''model'') (\<lambda>m.
     res_bind (py_get JNull event ''usage'') (\<lambda>u.
       Inr \<lparr>sk_model = m, sk_delta = (if truthy content then content else JStr []), sk_usage = u\<rparr>))))))"

definition read_event :: "string \<Rightarrow> string \<Rightarrow> stream_chunk res" where
  "read_event model raw = (case json_loads raw of None \<Rightarrow> Inl (ParseError ''json'') | Some event \<Rightarrow> event_chunk model event)"

definition data_prefix :: string where
  "data_prefix = ''data:''"

definition sse_data :: "string \<Rightarrow> string" where
  "sse_data line = strip (drop (length data_prefix) line)"

fun read_stream :: "string \<Rightarrow> string list \<Rightarrow> exn option \<Rightarrow> stream_chunk list \<times> exn option" where
  "read_stream model [] broken = ([], broken)"
| "read_stream model (line # ls) broken =
     (if \<not> startswith line data_prefix then read_stream model ls broken
      else if sse_data line = ''[DONE]'' then ([], None)
      else (case read_event model (sse_data line) of
              Inl e \<Rightarrow> ([], Some e)
            | Inr c \<Rightarrow> (let (cs, e) = read_stream model ls broken in (c # cs, e))))"


section \<open>The transport the client is given\<close>

text \<open>
  The client's typed view of a chunk. A chunk of another shape, which the client would stumble over later, is an
  exception here.
\<close>

definition token_count :: "json \<Rightarrow> int option res" where
  "token_count v = (case v of JNull \<Rightarrow> Inr None | JInt i \<Rightarrow> Inr (Some i) | _ \<Rightarrow> Inl (TypeError ''token count''))"

definition usage_of :: "json \<Rightarrow> usage_block option res" where
  "usage_of u =
     (if \<not> truthy u then Inr None
      else (case u of
              JObj kvs \<Rightarrow>
                res_bind (token_count (dict_get_or JNull kvs ''prompt_tokens'')) (\<lambda>p.
                res_bind (token_count (dict_get_or JNull kvs ''completion_tokens'')) (\<lambda>c.
                res_bind (case dict_get_or JNull kvs ''prompt_tokens_details'' of
                            JNull \<Rightarrow> Inr None
                          | JObj ds \<Rightarrow> res_bind (token_count (dict_get_or JNull ds ''cached_tokens'')) (\<lambda>n. Inr (Some n))
                          | _ \<Rightarrow> Inl (TypeError ''prompt_tokens_details'')) (\<lambda>d.
                  Inr (Some \<lparr>ub_prompt = p, ub_completion = c, ub_cached = d\<rparr>))))
            | _ \<Rightarrow> Inl (TypeError ''usage'')))"

definition typed_chunk :: "stream_chunk \<Rightarrow> chunk res" where
  "typed_chunk c =
     (case (sk_model c, sk_delta c) of
        (JStr m, JStr d) \<Rightarrow> res_bind (usage_of (sk_usage c)) (\<lambda>u. Inr \<lparr>ck_model = Some m, ck_usage = u, ck_delta = d\<rparr>)
      | _ \<Rightarrow> Inl (TypeError ''chunk''))"

fun typed_chunks :: "stream_chunk list \<Rightarrow> exn option \<Rightarrow> chunk list \<times> exn option" where
  "typed_chunks [] e = ([], e)"
| "typed_chunks (c # cs) e =
     (case typed_chunk c of
        Inl e' \<Rightarrow> ([], Some e')
      | Inr t \<Rightarrow> (let (ts, e') = typed_chunks cs e in (t # ts, e')))"




section \<open>A streamed answer arrives whole\<close>

text \<open>
  The server-sent events of the OpenAI interface: a line per event, each followed by an empty line, then \<open>[DONE]\<close>. The
  gateway serialises with or without \<open>ensure_ascii\<close>.
\<close>

definition sse_line :: "(pyfloat \<Rightarrow> string) \<Rightarrow> bool \<Rightarrow> json \<Rightarrow> string" where
  "sse_line fl ascii e = ''data: '' @ json_dumps fl ascii e"

definition sse_lines :: "(pyfloat \<Rightarrow> string) \<Rightarrow> bool \<Rightarrow> json list \<Rightarrow> string list" where
  "sse_lines fl ascii es = concat (map (\<lambda>e. [sse_line fl ascii e, []]) es) @ [''data: [DONE]'', []]"

definition delta_event :: "string \<Rightarrow> string \<Rightarrow> json" where
  "delta_event m d =
     JObj [(''model'', JStr m), (''choices'', JList [JObj [(''index'', JInt 0), (''delta'', JObj [(''content'', JStr d)])]])]"

definition usage_event :: "string \<Rightarrow> int \<Rightarrow> int \<Rightarrow> json" where
  "usage_event m p c =
     JObj [(''model'', JStr m), (''choices'', JList []), (''usage'', JObj [(''prompt_tokens'', JInt p), (''completion_tokens'', JInt c)])]"

definition answer_events :: "string \<Rightarrow> string list \<Rightarrow> int \<Rightarrow> int \<Rightarrow> json list" where
  "answer_events m ds p c = map (delta_event m) ds @ [usage_event m p c]"

lemma storable_events [simp]: "storable (delta_event m d)" "storable (usage_event m p c)"
  by (simp_all add: delta_event_def usage_event_def)

lemma strip_dumps_obj [simp]: "strip (json_dumps fl ascii (JObj kvs)) = json_dumps fl ascii (JObj kvs)"
  by (rule strip_id) (simp_all add: py_space_def)

lemma sse_data_line: "strip s = s \<Longrightarrow> sse_data (''data: '' @ s) = s"
  by (simp add: sse_data_def data_prefix_def strip_def lstrip_def py_space_def)

lemma starts_data [simp]: "startswith (sse_line fl ascii e) data_prefix"
  by (simp add: sse_line_def data_prefix_def startswith_def)

lemma event_data [simp]:
  "sse_data (sse_line fl ascii (delta_event m d)) = json_dumps fl ascii (delta_event m d)"
  "sse_data (sse_line fl ascii (usage_event m p c)) = json_dumps fl ascii (usage_event m p c)"
  unfolding sse_line_def by (rule sse_data_line, simp add: delta_event_def usage_event_def del: json_dumps.simps)+

lemma not_done [simp]: "json_dumps fl ascii (delta_event m d) \<noteq> ''[DONE]''" "json_dumps fl ascii (usage_event m p c) \<noteq> ''[DONE]''"
  by (simp_all add: delta_event_def usage_event_def)

lemma read_event_dumps: "storable e \<Longrightarrow> read_event name (json_dumps fl ascii e) = event_chunk name e"
  by (simp add: read_event_def json_dumps_reads_back)

lemma read_delta [simp]:
  "read_event name (json_dumps fl ascii (delta_event m d)) = Inr \<lparr>sk_model = JStr m, sk_delta = JStr d, sk_usage = JNull\<rparr>"
proof -
  have "event_chunk name (delta_event m d) = Inr \<lparr>sk_model = JStr m, sk_delta = JStr d, sk_usage = JNull\<rparr>"
    by (simp add: event_chunk_def delta_event_def py_get_def dict_get_or_def first_choice_def del: res_bind_Inr_iff)
  then show ?thesis by (simp add: read_event_dumps)
qed

definition usage_json :: "int \<Rightarrow> int \<Rightarrow> json" where
  "usage_json p c = JObj [(''prompt_tokens'', JInt p), (''completion_tokens'', JInt c)]"

lemma read_usage [simp]:
  "read_event name (json_dumps fl ascii (usage_event m p c)) = Inr \<lparr>sk_model = JStr m, sk_delta = JStr [], sk_usage = usage_json p c\<rparr>"
proof -
  have "event_chunk name (usage_event m p c) = Inr \<lparr>sk_model = JStr m, sk_delta = JStr [], sk_usage = usage_json p c\<rparr>"
    by (simp add: event_chunk_def usage_event_def usage_json_def py_get_def dict_get_or_def first_choice_def del: res_bind_Inr_iff)
  then show ?thesis by (simp add: read_event_dumps)
qed


lemma no_data [simp]: "\<not> startswith [] data_prefix"
  by (simp add: startswith_def data_prefix_def)























text \<open>
  With a gateway that leaves the next-line character as it is, an answer that contains it breaks the line of its event,
  and the stream ends with an error.
\<close>

lemma next_line_character_breaks_stream:
  "read_stream ''m'' (splitlines [] (as_lines (sse_lines (\<lambda>_. []) False (answer_events ''m'' [[char_of (133 :: nat)]] 1 1)))) None =
     ([], Some (ParseError ''json''))"
  by code_simp

text \<open>An error that the gateway reports inside the stream passes for an empty chunk.\<close>

lemma error_event_is_swallowed:
  "event_chunk name (JObj [(''error'', e)]) = Inr \<lparr>sk_model = JStr name, sk_delta = JStr [], sk_usage = JNull\<rparr>"
  by (simp add: event_chunk_def py_get_def dict_get_or_def first_choice_def del: res_bind_Inr_iff)

text \<open>A connection that ends in order before the last event passes for a complete answer that cost nothing.\<close>

lemma cut_answer_is_free:
  "snd (drain (fst (typed_chunks (fst (read_stream ''m'' [sse_line (\<lambda>_. []) True (delta_event ''m'' ''hi'')] None)) None)) ''m'' None) = (''m'', None)"
  by code_simp

end
