(* ===== verification/Erasure.thy ===== *)
theory Erasure
  imports Chat
begin

text \<open>
  The right to erasure (\<open>apps/api/fleet_api/routers/subjects.py\<close>): the conversations, the documents and the audit
  rows of a subject hash. \<open>feedback.message_id\<close> references \<open>messages\<close> without a cascade, so a message with feedback
  cannot be deleted. Each of the three steps commits on its own; an error keeps what the steps before it did.
\<close>

record audit_row =
  au_id :: nat
  au_actor :: string
  au_actor_type :: string
  au_action :: string
  au_entity :: "string option"
  au_entity_id :: "string option"
  au_trace_id :: "string option"

record erasure_db =
  er_chat :: chat_db
  er_audit :: "audit_row list"

record erasure_result =
  rs_conversations :: nat
  rs_messages :: nat
  rs_documents :: nat
  rs_audit :: nat

text \<open>\<open>audit.py\<close>: one row appended, never changed by the writer.\<close>

definition write_audit ::
  "nat \<Rightarrow> string \<Rightarrow> string \<Rightarrow> string \<Rightarrow> string option \<Rightarrow> string option \<Rightarrow> string option \<Rightarrow> audit_row list \<Rightarrow> audit_row list" where
  "write_audit i actor actor_type action entity entity_id trace_id rows =
     rows @ [\<lparr>au_id = i, au_actor = actor, au_actor_type = actor_type, au_action = action, au_entity = entity,
              au_entity_id = entity_id, au_trace_id = trace_id\<rparr>]"

definition conversations_of :: "string \<Rightarrow> chat_db \<Rightarrow> conversation_row list" where
  "conversations_of h db = filter (\<lambda>c. cv_subject_hash c = Some h) (cd_conversations db)"

definition messages_of :: "string \<Rightarrow> chat_db \<Rightarrow> message_row list" where
  "messages_of h db = filter (\<lambda>m. ms_conv m \<in> cv_id ` set (conversations_of h db)) (cd_messages db)"

definition delete_conversations :: "string \<Rightarrow> chat_db \<Rightarrow> (nat \<times> nat) res \<times> chat_db" where
  "delete_conversations h db =
     (let ms = messages_of h db in
      if fb_message ` set (cd_feedback db) \<inter> ms_id ` set ms \<noteq> {} then (Inl (OtherError ''IntegrityError''), db)
      else (Inr (length (conversations_of h db), length ms),
            db\<lparr>cd_messages := filter (\<lambda>m. ms_conv m \<notin> cv_id ` set (conversations_of h db)) (cd_messages db),
               cd_conversations := filter (\<lambda>c. cv_subject_hash c \<noteq> Some h) (cd_conversations db)\<rparr>))"

definition delete_documents :: "docs_env \<Rightarrow> string \<Rightarrow> rag_db \<Rightarrow> docs_call list \<times> nat res \<times> rag_db" where
  "delete_documents env h db =
     (case delete_each env (filter (\<lambda>d. dc_subject_hash d = Some h) (rg_documents db)) db of
        (calls, Inl e, db') \<Rightarrow> (calls, Inl e, db')
      | (calls, Inr ids, db') \<Rightarrow> (calls, Inr (length ids), db'))"

definition pseudonym :: "string \<Rightarrow> string" where
  "pseudonym h = ''erased-subject:'' @ take 16 h"

definition matching_sub :: "(string \<Rightarrow> string) \<Rightarrow> string \<Rightarrow> access_db \<Rightarrow> string option" where
  "matching_sub sha h db =
     map_option u_kc_sub (find (\<lambda>u. u_kc_sub u \<noteq> [] \<and> subject_hash sha (u_kc_sub u) = h) (ad_users db))"

definition pseudonymize_audit_rows :: "(string \<Rightarrow> string) \<Rightarrow> string \<Rightarrow> access_db \<Rightarrow> audit_row list \<Rightarrow> nat \<times> audit_row list" where
  "pseudonymize_audit_rows sha h db rows =
     (case matching_sub sha h db of
        None \<Rightarrow> (0, rows)
      | Some sub \<Rightarrow>
          (length (filter (\<lambda>r. au_actor r = sub) rows),
           map (\<lambda>r. if au_actor r = sub then r\<lparr>au_actor := pseudonym h\<rparr> else r) rows))"

definition erase_subject ::
  "docs_env \<Rightarrow> principal res \<Rightarrow> string \<Rightarrow> erasure_db \<Rightarrow> docs_call list \<times> erasure_result res \<times> erasure_db" where
  "erase_subject env who h db =
     (case who of Inl e \<Rightarrow> ([], Inl e, db) | Inr _ \<Rightarrow>
      (case delete_conversations h (er_chat db) of
         (Inl e, _) \<Rightarrow> ([], Inl e, db)
       | (Inr (convs, msgs), chat) \<Rightarrow>
           (case delete_documents env h (cd_rag chat) of
              (calls, Inl e, rag) \<Rightarrow> (calls, Inl e, db\<lparr>er_chat := chat\<lparr>cd_rag := rag\<rparr>\<rparr>)
            | (calls, Inr docs, rag) \<Rightarrow>
                (case pseudonymize_audit_rows (dv_sha env) h (cd_access chat) (er_audit db) of
                   (n, rows) \<Rightarrow>
                     (calls,
                      Inr \<lparr>rs_conversations = convs, rs_messages = msgs, rs_documents = docs, rs_audit = n\<rparr>,
                      db\<lparr>er_chat := chat\<lparr>cd_rag := rag\<rparr>, er_audit := rows\<rparr>)))))"

section \<open>Properties\<close>


text \<open>
  The audit trail survives an erasure. No audit row is added or removed, every row keeps all but its
  actor, and the actor changes only where it was the erased user, to the pseudonym of the hash.
\<close>

theorem erasure_keeps_audit_trail:
  assumes "erase_subject env who h db = (calls, res, db')"
  shows "list_all2 (\<lambda>old new. new = old \<or> new = old\<lparr>au_actor := pseudonym h\<rparr> \<and>
       matching_sub (dv_sha env) h (cd_access (er_chat db)) = Some (au_actor old)) (er_audit db) (er_audit db')"
proof -
  have same: "list_all2 (\<lambda>old new. new = old \<or> P old new) rows rows" for P :: "audit_row \<Rightarrow> audit_row \<Rightarrow> bool" and rows
    by (simp add: list_all2_same)
  have acc: "cd_access chat = cd_access (er_chat db)" if "delete_conversations h (er_chat db) = (r, chat)" for r chat
    using that by (auto simp: delete_conversations_def Let_def split: if_splits)
  have "er_audit db' = er_audit db \<or> er_audit db' = snd (pseudonymize_audit_rows (dv_sha env) h (cd_access (er_chat db)) (er_audit db))"
    using assms acc by (fastforce simp: erase_subject_def split: sum.splits prod.splits)
  then show ?thesis
  proof
    assume a: "er_audit db' = snd (pseudonymize_audit_rows (dv_sha env) h (cd_access (er_chat db)) (er_audit db))"
    show ?thesis
      unfolding a pseudonymize_audit_rows_def
      by (auto simp: list_all2_conv_all_nth split: option.splits)
  qed (use same in simp)
qed

text \<open>
  A subject who ever rated an answer cannot be erased: the foreign key of the feedback row refuses the deletion of the
  message, and the request fails before anything is erased.
\<close>

lemma feedback_blocks_erasure:
  assumes "m \<in> set (messages_of h (er_chat db))" "f \<in> set (cd_feedback (er_chat db))" "fb_message f = ms_id m"
  shows "erase_subject env (Inr p) h db = ([], Inl (OtherError ''IntegrityError''), db)"
proof -
  have "fb_message ` set (cd_feedback (er_chat db)) \<inter> ms_id ` set (messages_of h (er_chat db)) \<noteq> {}"
    using assms by (metis IntI empty_iff imageI)
  then show ?thesis by (simp add: erase_subject_def delete_conversations_def Let_def)
qed

definition demo_erasure :: erasure_db where
  "demo_erasure = \<lparr>er_chat = demo_chat_db\<lparr>cd_conversations := [\<lparr>cv_id = 1, cv_agent = 1, cv_user = 1, cv_subject_hash = Some ''ada''\<rparr>]\<rparr>,
     er_audit = write_audit 1 ''ada'' ''user'' ''login'' None None None []\<rparr>"


lemma erasure_keeps_audit_trail_witness:
  "length (er_audit (snd (snd (erase_subject demo_docs_env (Inr undefined) ''ada'' demo_erasure)))) = 1"
proof -
  obtain calls res db' where e: "erase_subject demo_docs_env (Inr undefined) ''ada'' demo_erasure = (calls, res, db')"
    by (metis prod.collapse)
  from list_all2_lengthD [OF erasure_keeps_audit_trail [OF e]] show ?thesis unfolding e by (simp add: demo_erasure_def write_audit_def)
qed

end
