(* ===== verification/Seed_Data.thy ===== *)
theory Seed_Data
  imports Model_Registry Erasure Eval_Cases
begin

text \<open>
  The seeding of a database (\<open>apps/api/fleet_api/seed.py\<close>): the departments, the default model matrix, the collections
  and agents of the demo departments, the cases of the datasets and two weeks of demonstration spend. Each function is
  one transaction; an insert with \<open>ON CONFLICT DO NOTHING\<close> takes a number of its sequence even when it inserts no row.
  The datasets are given by agent and text, and \<open>ago\<close> is the time so many days and hours before now. The views are
  modelled as the rows they select, the purchase orders (whose vendor names are not ASCII) left out.
\<close>

section \<open>Tables\<close>

record seed_db =
  sx_departments :: "(nat \<times> string) list"
  sx_users :: "user_row list"
  sx_models :: model_table
  sx_collections :: "collection_row list"
  sx_agents :: "agent_row list"
  sx_cases :: "eval_case_row list"
  sx_ledger :: ledger
  sx_audit :: "(datetime \<times> audit_row) list"
  sx_next_department :: nat
  sx_next_user :: nat
  sx_next_collection :: nat
  sx_next_agent :: nat
  sx_next_case :: nat
  sx_next_audit :: nat

definition insert_new :: "('a \<Rightarrow> 'k) \<Rightarrow> 'a \<Rightarrow> 'a list \<Rightarrow> 'a list" where
  "insert_new key row rows = (if key row \<in> key ` set rows then rows else rows @ [row])"

definition put_department :: "string \<Rightarrow> seed_db \<Rightarrow> seed_db" where
  "put_department n db =
     db\<lparr>sx_departments := insert_new snd (sx_next_department db, n) (sx_departments db),
        sx_next_department := Suc (sx_next_department db)\<rparr>"

definition put_user :: "string \<Rightarrow> string \<Rightarrow> string \<Rightarrow> seed_db \<Rightarrow> seed_db" where
  "put_user sub h display db =
     db\<lparr>sx_users := insert_new u_kc_sub
          \<lparr>u_id = sx_next_user db, u_kc_sub = sub, u_email_hash = h, u_display_name = display, u_dept_id = None,
           u_status = ''active''\<rparr> (sx_users db),
        sx_next_user := Suc (sx_next_user db)\<rparr>"

definition put_model :: "model_draft \<Rightarrow> seed_db \<Rightarrow> seed_db" where
  "put_model d db =
     (let t = sx_models db in
      db\<lparr>sx_models :=
        \<lparr>mt_rows = insert_new (\<lambda>r. d_name (r_draft r))
           \<lparr>r_id = mt_next t, r_draft = d, r_status = ''active'', r_smoke_status = ''ok'', r_smoke_detail = None,
            r_smoke_latency_ms = None\<rparr> (mt_rows t),
         mt_next = Suc (mt_next t)\<rparr>\<rparr>)"

definition put_collection :: "nat \<Rightarrow> string \<Rightarrow> string \<Rightarrow> int option \<Rightarrow> string \<Rightarrow> seed_db \<Rightarrow> seed_db" where
  "put_collection dept n sens retention policy db =
     db\<lparr>sx_collections := insert_new co_name
          \<lparr>co_id = sx_next_collection db, co_name = n, co_dept = Some dept, co_sensitivity = sens, co_pii_policy = policy,
           co_retention_days = retention\<rparr> (sx_collections db),
        sx_next_collection := Suc (sx_next_collection db)\<rparr>"

definition demo_agent_row ::
  "nat \<Rightarrow> string \<Rightarrow> nat option \<Rightarrow> string \<Rightarrow> string \<Rightarrow> bool \<Rightarrow> int \<Rightarrow> nat list \<Rightarrow> agent_row" where
  "demo_agent_row i n dept status sens cache context cids =
     \<lparr>ag_id = i, ag_name = n, ag_dept_id = dept, ag_status = status, ag_reasoning_model = ''reasoning'',
      ag_utility_model = ''utility'', ag_sensitivity = sens, ag_guardrail_policy_id = None, ag_semantic_cache = cache,
      ag_semantic_cache_threshold = 95/100, ag_max_context_tokens = context, ag_collection_ids = cids\<rparr>"

definition put_demo_agent ::
  "string \<Rightarrow> nat option \<Rightarrow> string \<Rightarrow> string \<Rightarrow> bool \<Rightarrow> int \<Rightarrow> nat list \<Rightarrow> seed_db \<Rightarrow> seed_db" where
  "put_demo_agent n dept status sens cache context cids db =
     db\<lparr>sx_agents := insert_new ag_name (demo_agent_row (sx_next_agent db) n dept status sens cache context cids) (sx_agents db),
        sx_next_agent := Suc (sx_next_agent db)\<rparr>"

text \<open>\<open>DO UPDATE SET sensitivity = EXCLUDED.sensitivity\<close>.\<close>

definition reassert :: "string \<Rightarrow> string \<Rightarrow> agent_row \<Rightarrow> agent_row" where
  "reassert n sens a = (if ag_name a = n then a\<lparr>ag_sensitivity := sens\<rparr> else a)"

definition upsert_demo_agent ::
  "string \<Rightarrow> nat option \<Rightarrow> string \<Rightarrow> string \<Rightarrow> bool \<Rightarrow> int \<Rightarrow> nat list \<Rightarrow> seed_db \<Rightarrow> seed_db" where
  "upsert_demo_agent n dept status sens cache context cids db =
     put_demo_agent n dept status sens cache context cids (db\<lparr>sx_agents := map (reassert n sens) (sx_agents db)\<rparr>)"

section \<open>Transactions\<close>

type_synonym seed_step = "seed_db \<Rightarrow> unit res \<times> seed_db"

definition transaction :: "(seed_db \<Rightarrow> seed_db res) \<Rightarrow> seed_step" where
  "transaction f db = (case f db of Inl e \<Rightarrow> (Inl e, db) | Inr db' \<Rightarrow> (Inr (), db'))"

text \<open>\<open>SELECT id ... WHERE name = n\<close> with \<open>scalar_one\<close>.\<close>

definition department_id :: "string \<Rightarrow> seed_db \<Rightarrow> nat res" where
  "department_id n db =
     (case find (\<lambda>d. snd d = n) (sx_departments db) of None \<Rightarrow> Inl (OtherError ''NoResultFound'') | Some d \<Rightarrow> Inr (fst d))"

definition collection_id :: "string \<Rightarrow> seed_db \<Rightarrow> nat res" where
  "collection_id n db =
     (case find (\<lambda>c. co_name c = n) (sx_collections db) of None \<Rightarrow> Inl (OtherError ''NoResultFound'') | Some c \<Rightarrow> Inr (co_id c))"

definition departments :: "string list" where
  "departments =
     [''Customer Service'', ''Data'', ''Finance'', ''HR'', ''IT'', ''Listings Ops'', ''Trink sat'', ''Marketing'',
      ''Corporate Sales'', ''Legal'']"

definition default_model ::
  "string \<Rightarrow> string \<Rightarrow> string \<Rightarrow> rat \<Rightarrow> rat \<Rightarrow> int \<Rightarrow> string list \<Rightarrow> int \<Rightarrow> string \<Rightarrow> string \<Rightarrow> model_draft" where
  "default_model n provider mid inp outp ctx caps maxo clr region =
     \<lparr>d_name = n, d_provider = provider, d_litellm_model_id = mid, d_input_price = inp, d_output_price = outp,
      d_context_window = ctx, d_capabilities = caps, d_max_output_tokens = maxo, d_clearance = clr, d_endpoint = None,
      d_cached_input_price = None, d_region = Some region\<rparr>"

definition default_models :: "model_draft list" where
  "default_models =
     [default_model ''reasoning'' ''anthropic'' ''anthropic/claude-sonnet-4-5'' (3/1000) (15/1000) 200000
        [''tools'', ''json'', ''vision''] 8192 ''internal'' ''us'',
      default_model ''reasoning-fallback-1'' ''openai'' ''openai/gpt-4o'' (25/10000) (1/100) 128000
        [''tools'', ''json'', ''vision''] 16384 ''internal'' ''us'',
      default_model ''reasoning-fallback-2'' ''gemini'' ''gemini/gemini-3.6-flash'' (125/100000) (5/1000) 1000000
        [''tools'', ''json'', ''vision''] 8192 ''internal'' ''us'',
      default_model ''utility'' ''openai'' ''openai/gpt-4o-mini'' (15/100000) (6/10000) 128000
        [''tools'', ''json'', ''vision''] 16384 ''internal'' ''us'',
      default_model ''utility-fallback-1'' ''gemini'' ''gemini/gemini-3.6-flash'' (75/1000000) (3/10000) 1000000
        [''tools'', ''json'', ''vision''] 8192 ''internal'' ''us'',
      default_model ''utility-fallback-2'' ''anthropic'' ''anthropic/claude-haiku-4-5'' (1/1000) (5/1000) 200000
        [''tools'', ''json''] 8192 ''internal'' ''us'',
      default_model ''embeddings'' ''openai'' ''openai/text-embedding-3-small'' (2/100000) 0 8191
        [''json''] 1 ''internal'' ''us'',
      default_model ''local-reasoning'' ''ollama'' ''ollama/qwen2.5:7b-instruct-q4_K_M'' 0 0 32768
        [''tools'', ''json''] 4096 ''pii'' ''local'',
      default_model ''local-embeddings'' ''ollama'' ''ollama/bge-m3'' 0 0 8192
        [''json''] 1 ''pii'' ''local'']"

definition seed :: seed_step where
  "seed = transaction (\<lambda>db.
     Inr (fold put_model default_models (put_user ''seed-admin'' ''hash-admin'' ''Seed Admin'' (fold put_department departments db))))"

definition seed_support_copilot :: seed_step where
  "seed_support_copilot = transaction (\<lambda>db.
     res_bind (department_id ''Customer Service'' db) (\<lambda>dept.
       let db1 = put_collection dept ''cs-procedures'' ''internal'' None ''redact''
                   (put_collection dept ''cs-help-center'' ''internal'' None ''redact'' db)
       in res_bind (collection_id ''cs-help-center'' db1) (\<lambda>help.
          res_bind (collection_id ''cs-procedures'' db1) (\<lambda>procedures.
            Inr (upsert_demo_agent ''support_copilot'' (Some dept) ''active'' ''internal'' True 12000 [help, procedures] db1)))))"

text \<open>The six functions that only insert an agent without collections.\<close>

definition seed_plain_agent :: "string \<Rightarrow> string \<Rightarrow> string \<Rightarrow> int \<Rightarrow> seed_step" where
  "seed_plain_agent dept_name n sens context = transaction (\<lambda>db.
     res_bind (department_id dept_name db) (\<lambda>dept.
       Inr (put_demo_agent n (Some dept) ''active'' sens False context [] db)))"

definition seed_analytics_agent :: seed_step where
  "seed_analytics_agent = seed_plain_agent ''Data'' ''analytics'' ''internal'' 8000"

definition seed_dev_agent :: seed_step where
  "seed_dev_agent = seed_plain_agent ''IT'' ''dev_agent'' ''internal'' 24000"

definition seed_invoice_agent :: seed_step where
  "seed_invoice_agent = seed_plain_agent ''Finance'' ''invoice_agent'' ''confidential'' 8000"

definition seed_listing_quality_agent :: seed_step where
  "seed_listing_quality_agent = seed_plain_agent ''Listings Ops'' ''listing_quality'' ''internal'' 8000"

definition seed_vehicle_intake_agent :: seed_step where
  "seed_vehicle_intake_agent = seed_plain_agent ''Trink sat'' ''vehicle_intake'' ''confidential'' 8000"

definition seed_dealer_onboarding_agent :: seed_step where
  "seed_dealer_onboarding_agent = seed_plain_agent ''Corporate Sales'' ''dealer_onboarding'' ''pii'' 8000"

definition seed_hr_agents :: seed_step where
  "seed_hr_agents = transaction (\<lambda>db.
     res_bind (department_id ''HR'' db) (\<lambda>dept.
       let db1 = put_collection dept ''hr-policies'' ''internal'' None ''redact''
                   (put_collection dept ''hr-cvs'' ''pii'' (Some 365) ''allow-local-only'' db)
       in res_bind (collection_id ''hr-policies'' db1) (\<lambda>policies.
            Inr (put_demo_agent ''hr_onboarding'' (Some dept) ''active'' ''internal'' True 8000 [policies]
                  (put_demo_agent ''hr_agent'' (Some dept) ''active'' ''pii'' False 8000 [] db1)))))"

text \<open>The two functions that insert an agent with one collection.\<close>

definition seed_with_collection :: "string \<Rightarrow> string \<Rightarrow> string \<Rightarrow> string \<Rightarrow> string \<Rightarrow> seed_step" where
  "seed_with_collection dept_name coll policy n sens = transaction (\<lambda>db.
     res_bind (department_id dept_name db) (\<lambda>dept.
       let db1 = put_collection dept coll sens None policy db
       in res_bind (collection_id coll db1) (\<lambda>c.
            Inr (put_demo_agent n (Some dept) ''active'' sens False 8000 [c] db1))))"

definition seed_insights_publisher_agent :: seed_step where
  "seed_insights_publisher_agent = seed_with_collection ''Marketing'' ''mkt-brand'' ''redact'' ''insights_publisher'' ''internal''"

definition seed_legal_review_agent :: seed_step where
  "seed_legal_review_agent =
     seed_with_collection ''Legal'' ''legal-playbooks'' ''allow-local-only'' ''legal_review'' ''confidential''"

definition seed_automation_recipe_agent :: seed_step where
  "seed_automation_recipe_agent = transaction (\<lambda>db.
     Inr (put_demo_agent ''automation_recipe'' None ''paused'' ''internal'' False 8000 [] db))"

section \<open>Evaluation cases\<close>

definition put_case :: "string \<Rightarrow> string \<Rightarrow> (string \<times> json) list \<Rightarrow> seed_db \<Rightarrow> seed_db" where
  "put_case agent cid payload db =
     db\<lparr>sx_cases := insert_new (\<lambda>r. (ec_agent r, ec_case_id r))
          \<lparr>ec_id = sx_next_case db, ec_agent = agent, ec_case_id = cid, ec_payload = payload, ec_source = ''seed'',
           ec_created_by = None\<rparr> (sx_cases db),
        sx_next_case := Suc (sx_next_case db)\<rparr>"

text \<open>\<open>row["id"]\<close> as a value of the text column, and the row itself.\<close>

definition read_case :: "json \<Rightarrow> (string \<times> (string \<times> json) list) res" where
  "read_case v =
     res_bind (py_index v ''id'') (\<lambda>i.
       case (i, v) of
         (JStr cid, JObj payload) \<Rightarrow> (if 255 < length cid then Inl (OtherError ''DataError'') else Inr (cid, payload))
       | _ \<Rightarrow> Inl (OtherError ''DataError''))"

fun import_lines :: "string \<Rightarrow> string list \<Rightarrow> seed_db \<Rightarrow> seed_db res" where
  "import_lines agent [] db = Inr db"
| "import_lines agent (line # ls) db =
     (if strip line = [] then import_lines agent ls db
      else (case json_loads (strip line) of
              None \<Rightarrow> Inl (ParseError ''json'')
            | Some v \<Rightarrow> (case read_case v of
                          Inl e \<Rightarrow> Inl e
                        | Inr (cid, payload) \<Rightarrow> import_lines agent ls (put_case agent cid payload db))))"

fun import_datasets :: "(string \<times> string) list \<Rightarrow> seed_db \<Rightarrow> seed_db res" where
  "import_datasets [] db = Inr db"
| "import_datasets ((agent, file) # ds) db = res_bind (import_lines agent (splitlines [] file) db) (import_datasets ds)"

definition seed_eval_cases :: "(string \<times> string) list \<Rightarrow> seed_step" where
  "seed_eval_cases datasets = transaction (import_datasets datasets)"

section \<open>Demonstration spend\<close>

definition seeded_agents :: "string list" where
  "seeded_agents =
     [''support_copilot'', ''analytics'', ''dev_agent'', ''invoice_agent'', ''hr_agent'', ''hr_onboarding'',
      ''listing_quality'', ''vehicle_intake'', ''insights_publisher'', ''dealer_onboarding'', ''legal_review'']"

definition seeded_models :: "string list" where
  "seeded_models = [''utility'', ''reasoning'', ''utility-fallback-1'']"

definition demo_trace :: "nat \<Rightarrow> string" where
  "demo_trace i = ''demo-seed-'' @ nat_str i"

text \<open>The cost has four decimals at most, so rounding it to six changes nothing.\<close>

definition seeded_spend :: "nat list \<Rightarrow> nat \<Rightarrow> ledger_row" where
  "seeded_spend depts i =
     (let tin = 400 + (i * 17) mod 600; tout = 150 + (i * 11) mod 300 in
      \<lparr>l_model = seeded_models ! (i mod length seeded_models), l_agent_id = Some (seeded_agents ! (i mod length seeded_agents)),
       l_user_id = Some ''demo-user'', l_dept_id = Some (nat_str (depts ! (i mod length depts))), l_tok_in = int tin,
       l_tok_out = int tout, l_tok_cached = (if i mod 3 = 0 then int (tin div 3) else 0),
       l_cost_usd = of_nat tin * (3/10000) + of_nat tout * (6/10000), l_trace_id = Some (demo_trace i)\<rparr>)"

definition demo_audit :: "nat \<Rightarrow> nat \<Rightarrow> audit_row" where
  "demo_audit ident i =
     \<lparr>au_id = ident, au_actor = ''demo-user'', au_actor_type = ''user'',
      au_action = ''POST /v1/conversations/'' @ nat_str i @ ''/messages'', au_entity = Some ''http_request'',
      au_entity_id = Some ''200'', au_trace_id = Some (demo_trace i)\<rparr>"

definition put_demo :: "(nat \<Rightarrow> nat \<Rightarrow> datetime) \<Rightarrow> nat list \<Rightarrow> nat \<Rightarrow> seed_db \<Rightarrow> seed_db" where
  "put_demo ago depts i db =
     (let ts = ago (i mod 14) (i mod 24);
          db1 = db\<lparr>sx_ledger := record_row ts (seeded_spend depts i) (sx_ledger db)\<rparr>
      in if i mod 4 = 0
         then db1\<lparr>sx_audit := sx_audit db1 @ [(ts, demo_audit (sx_next_audit db1) i)], sx_next_audit := Suc (sx_next_audit db1)\<rparr>
         else db1)"

definition has_demo :: "ledger \<Rightarrow> bool" where
  "has_demo l \<longleftrightarrow> list_ex (\<lambda>(ts, r). case l_trace_id r of None \<Rightarrow> False | Some t \<Rightarrow> startswith t ''demo-seed-'') l"

definition seed_observability_demo :: "(nat \<Rightarrow> nat \<Rightarrow> datetime) \<Rightarrow> seed_step" where
  "seed_observability_demo ago = transaction (\<lambda>db.
     if has_demo (sx_ledger db) then Inr db
     else (let depts = map fst (sort_key fst (sx_departments db)) in
           if depts = [] then Inr db else Inr (fold (put_demo ago depts) [0..<60] db)))"

section \<open>The command\<close>

fun run_all :: "seed_step list \<Rightarrow> seed_step" where
  "run_all [] db = (Inr (), db)"
| "run_all (s # ss) db = (case s db of (Inl e, db') \<Rightarrow> (Inl e, db') | (Inr _, db') \<Rightarrow> run_all ss db')"

definition seed_main :: "(nat \<Rightarrow> nat \<Rightarrow> datetime) \<Rightarrow> (string \<times> string) list \<Rightarrow> seed_step" where
  "seed_main ago datasets =
     run_all [seed, seed_support_copilot, seed_analytics_agent, seed_dev_agent, seed_invoice_agent, seed_hr_agents,
       seed_listing_quality_agent, seed_vehicle_intake_agent, seed_insights_publisher_agent, seed_dealer_onboarding_agent,
       seed_legal_review_agent, seed_automation_recipe_agent, seed_eval_cases datasets, seed_observability_demo ago]"

section \<open>Fixture views\<close>

text \<open>Id, region, amount and the day of the year on which it was sold, counted from 0.\<close>

definition fixture_sales :: "(nat \<times> string \<times> nat \<times> nat) list" where
  "fixture_sales =
     map (\<lambda>g. (g, [''TR'', ''DE'', ''US'', ''FR''] ! (g mod 4), 100 + (g * 37) mod 900, g mod 180)) [1..<501]"

definition fixture_orders :: "(nat \<times> nat \<times> nat \<times> bool) list" where
  "fixture_orders = map (\<lambda>g. (g, 1 + g mod 500, 1 + g mod 5, g mod 3 = 0)) [1..<501]"

definition fixture_price_index :: "(string \<times> nat \<times> nat \<times> nat) list" where
  "fixture_price_index =
     [(''sedan-2018'', 400000, 600000, 500000), (''suv-2020'', 650000, 950000, 800000), (''hatchback-2019'', 380000, 560000, 460000)]"

definition fixture_comparables :: "(string \<times> nat) list" where
  "fixture_comparables =
     [(''sedan-2018'', 480000), (''sedan-2018'', 500000), (''sedan-2018'', 520000), (''sedan-2018'', 460000), (''sedan-2018'', 540000),
      (''suv-2020'', 700000), (''suv-2020'', 800000), (''suv-2020'', 750000), (''suv-2020'', 820000), (''suv-2020'', 780000),
      (''hatchback-2019'', 420000), (''hatchback-2019'', 450000), (''hatchback-2019'', 480000)]"

definition fixture_index_monthly :: "(string \<times> nat \<times> nat) list" where
  "fixture_index_monthly = [(''sedan-2018'', 500000, 340), (''suv-2020'', 800000, 210), (''hatchback-2019'', 460000, 180)]"

section \<open>What a seeding leaves alone\<close>

text \<open>The rows of all tables; the sequences are left out.\<close>

definition tables ::
  "seed_db \<Rightarrow> (nat \<times> string) list \<times> user_row list \<times> registry_row list \<times> collection_row list \<times> agent_row list \<times>
     eval_case_row list \<times> ledger \<times> (datetime \<times> audit_row) list" where
  "tables db =
     (sx_departments db, sx_users db, mt_rows (sx_models db), sx_collections db, sx_agents db, sx_cases db, sx_ledger db, sx_audit db)"

definition copilot_ok :: "agent_row \<Rightarrow> bool" where
  "copilot_ok a \<longleftrightarrow> (if ag_name a = ''support_copilot'' then ag_sensitivity a = ''internal'' else True)"

definition agents_kept :: "agent_row list \<Rightarrow> agent_row list \<Rightarrow> bool" where
  "agents_kept xs ys \<longleftrightarrow>
     (\<exists>zs. list_all copilot_ok zs \<and> (ys = xs @ zs \<or> ys = map (reassert ''support_copilot'' ''internal'') xs @ zs))"

definition extends :: "seed_db \<Rightarrow> seed_db \<Rightarrow> bool" where
  "extends db db' \<longleftrightarrow>
     prefix (sx_departments db) (sx_departments db') \<and> prefix (sx_users db) (sx_users db') \<and>
     prefix (mt_rows (sx_models db)) (mt_rows (sx_models db')) \<and> prefix (sx_collections db) (sx_collections db') \<and>
     agents_kept (sx_agents db) (sx_agents db') \<and> prefix (sx_cases db) (sx_cases db') \<and>
     prefix (sx_ledger db) (sx_ledger db') \<and> prefix (sx_audit db) (sx_audit db')"

lemma insert_new_present: "key row \<in> key ` set rows \<Longrightarrow> insert_new key row rows = rows"
  by (simp add: insert_new_def)

lemma insert_new_keys [simp]: "key ` set (insert_new key row rows) = insert (key row) (key ` set rows)"
  by (auto simp: insert_new_def)

lemma insert_new_prefix [simp]: "prefix rows (insert_new key row rows)"
  by (simp add: insert_new_def)

lemma reassert_idem [simp]: "reassert n s (reassert n s a) = reassert n s a"
  by (simp add: reassert_def)

lemma reassert_name [simp]: "ag_name (reassert n s a) = ag_name a"
  by (simp add: reassert_def)

lemma reassert_ok [simp]: "copilot_ok (reassert ''support_copilot'' ''internal'' a)"
  by (simp add: reassert_def copilot_ok_def)

lemma reassert_same: "copilot_ok a \<Longrightarrow> reassert ''support_copilot'' ''internal'' a = a"
  by (simp add: reassert_def copilot_ok_def)

lemma agents_kept_append: "list_all copilot_ok zs \<Longrightarrow> agents_kept xs (xs @ zs)"
  by (auto simp: agents_kept_def)

lemma agents_kept_map: "list_all copilot_ok zs \<Longrightarrow> agents_kept xs (map (reassert ''support_copilot'' ''internal'') xs @ zs)"
  by (auto simp: agents_kept_def)

lemma agents_kept_refl [simp]: "agents_kept xs xs"
  using agents_kept_append [of "[]" xs] by simp

lemma agents_kept_trans:
  assumes "agents_kept xs ys" "agents_kept ys zs"
  shows "agents_kept xs zs"
proof -
  let ?f = "reassert ''support_copilot'' ''internal''"
  from assms obtain as bs where a: "list_all copilot_ok as" "ys = xs @ as \<or> ys = map ?f xs @ as"
    and b: "list_all copilot_ok bs" "zs = ys @ bs \<or> zs = map ?f ys @ bs" by (auto simp: agents_kept_def)
  have "map ?f as = as" using a(1) by (induction as) (simp_all add: reassert_same)
  then have "zs = xs @ as @ bs \<or> zs = map ?f xs @ as @ bs" using a(2) b(2) by auto
  with a(1) b(1) show ?thesis unfolding agents_kept_def by (intro exI [of _ "as @ bs"]) simp
qed

lemma agents_kept_names: "agents_kept xs ys \<Longrightarrow> ag_name ` set xs \<subseteq> ag_name ` set ys"
  by (auto simp: agents_kept_def image_Un image_image)

lemma agents_kept_ok: "agents_kept xs ys \<Longrightarrow> list_all copilot_ok xs \<Longrightarrow> list_all copilot_ok ys"
  by (auto simp: agents_kept_def list_all_iff)

lemma agents_kept_new: "copilot_ok a \<Longrightarrow> agents_kept xs (insert_new ag_name a xs)"
  using agents_kept_append [of "[a]" xs] by (simp add: insert_new_def)

lemma extends_refl [simp]: "extends db db"
  by (simp add: extends_def)

lemma extends_trans: "extends a b \<Longrightarrow> extends b c \<Longrightarrow> extends a c"
  unfolding extends_def by (blast intro: prefix_order.trans agents_kept_trans)

lemmas put_defs = put_department_def put_user_def put_model_def put_collection_def put_demo_agent_def put_case_def Let_def

lemma put_extends [simp]:
  "extends db (put_department n db)" "extends db (put_user s h u db)" "extends db (put_model d db)"
  "extends db (put_collection dept c sens r p db)" "extends db (put_case agent cid payload db)"
  by (simp_all add: extends_def put_defs)

lemma put_agent_extends: "n \<noteq> ''support_copilot'' \<or> sens = ''internal'' \<Longrightarrow> extends db (put_demo_agent n dept st sens cache ctx cids db)"
  by (auto simp: extends_def put_defs demo_agent_row_def copilot_ok_def intro!: agents_kept_new)

lemma upsert_extends [simp]: "extends db (upsert_demo_agent ''support_copilot'' dept st ''internal'' cache ctx cids db)"
proof -
  have "extends db (db\<lparr>sx_agents := map (reassert ''support_copilot'' ''internal'') (sx_agents db)\<rparr>)"
    using agents_kept_map [of "[]" "sx_agents db"] by (simp add: extends_def)
  from extends_trans [OF this put_agent_extends] show ?thesis by (simp add: upsert_demo_agent_def)
qed

lemma fold_extends: "(\<And>x db. extends db (f x db)) \<Longrightarrow> extends db (fold f xs db)"
  by (induction xs arbitrary: db) (auto intro: extends_trans)

lemma put_demo_extends [simp]: "extends db (put_demo ago depts i db)"
  by (simp add: extends_def put_demo_def record_row_def Let_def)

section \<open>A part of the seeding\<close>

text \<open>
  What the functions share: a part only adds rows (and repairs the sensitivity of the support agent), once it has run its
  rows are there, they stay there, and where they are there it runs and changes no row.
\<close>

locale seed_part =
  fixes step :: seed_step
    and there :: "seed_db \<Rightarrow> bool"
  assumes grows: "extends db (snd (step db))"
    and settles: "fst (step db) = Inr () \<Longrightarrow> there (snd (step db))"
    and stays: "there db \<Longrightarrow> extends db db' \<Longrightarrow> there db'"
    and settled: "there db \<Longrightarrow> fst (step db) = Inr () \<and> tables (snd (step db)) = tables db"

lemma tables_extends: "tables db = tables db' \<Longrightarrow> extends db db'"
  by (simp add: tables_def extends_def)

lemma seed_part_seq:
  assumes "seed_part s t" "seed_part (run_all ss) ts"
  shows "seed_part (run_all (s # ss)) (\<lambda>db. t db \<and> ts db)"
proof
  fix db db'
  note a = seed_part.grows [OF assms(1)] seed_part.settles [OF assms(1)] seed_part.stays [OF assms(1)] seed_part.settled [OF assms(1)]
  note b = seed_part.grows [OF assms(2)] seed_part.settles [OF assms(2)] seed_part.stays [OF assms(2)] seed_part.settled [OF assms(2)]
  obtain r d where s: "s db = (r, d)" by fastforce
  have run: "run_all (s # ss) db = (case r of Inl e \<Rightarrow> (Inl e, d) | Inr _ \<Rightarrow> run_all ss d)" by (simp add: s)
  have d: "extends db d" using a(1) [of db] s by simp
  note d' = extends_trans [OF d b(1) [of d]]
  show "extends db (snd (run_all (s # ss) db))"
    unfolding run using d d' by (cases r) simp_all
  show "fst (run_all (s # ss) db) = Inr () \<Longrightarrow> t (snd (run_all (s # ss) db)) \<and> ts (snd (run_all (s # ss) db))"
  proof (cases r)
    case (Inr u)
    assume "fst (run_all (s # ss) db) = Inr ()"
    then have ok: "fst (run_all ss d) = Inr ()" unfolding run by (simp add: Inr)
    from a(2) [of db] s Inr have "t d" by simp
    from a(3) [OF this b(1)] b(2) [OF ok] show ?thesis unfolding run by (simp add: Inr)
  qed (unfold run, simp)
  show "t db \<and> ts db \<Longrightarrow> extends db db' \<Longrightarrow> t db' \<and> ts db'"
    using a(3) b(3) by blast
  assume th: "t db \<and> ts db"
  with a(4) [of db] s have r: "r = Inr ()" "tables d = tables db" by auto
  from b(3) [OF conjunct2 [OF th] d] have "ts d" .
  from b(4) [OF this] r(2) show "fst (run_all (s # ss) db) = Inr () \<and> tables (snd (run_all (s # ss) db)) = tables db"
    unfolding run by (simp add: r(1))
qed

lemma seed_part_none: "seed_part (run_all []) (\<lambda>_. True)"
  by unfold_locales simp_all

lemma seed_part_all: "list_all2 seed_part ss ts \<Longrightarrow> seed_part (run_all ss) (\<lambda>db. list_all (\<lambda>t. t db) ts)"
proof (induction ss ts rule: list_all2_induct)
  case Nil
  show ?case using seed_part_none by (simp only: list.pred_inject)
next
  case (Cons s ss t ts)
  from seed_part_seq [OF Cons(1,3)] show ?case by (simp only: list.pred_inject)
qed

section \<open>Rows that are there\<close>

definition has_dept :: "string \<Rightarrow> seed_db \<Rightarrow> bool" where
  "has_dept n db \<longleftrightarrow> n \<in> snd ` set (sx_departments db)"

definition has_model :: "string \<Rightarrow> seed_db \<Rightarrow> bool" where
  "has_model n db \<longleftrightarrow> n \<in> (\<lambda>r. d_name (r_draft r)) ` set (mt_rows (sx_models db))"

definition has_collection :: "string \<Rightarrow> seed_db \<Rightarrow> bool" where
  "has_collection n db \<longleftrightarrow> n \<in> co_name ` set (sx_collections db)"

definition has_agent :: "string \<Rightarrow> seed_db \<Rightarrow> bool" where
  "has_agent n db \<longleftrightarrow> n \<in> ag_name ` set (sx_agents db)"

definition has_case :: "string \<times> string \<Rightarrow> seed_db \<Rightarrow> bool" where
  "has_case k db \<longleftrightarrow> k \<in> (\<lambda>r. (ec_agent r, ec_case_id r)) ` set (sx_cases db)"

lemma prefix_image: "prefix xs ys \<Longrightarrow> x \<in> f ` set xs \<Longrightarrow> x \<in> f ` set ys"
  by (auto simp: prefix_def)

lemma has_mono:
  assumes "extends db db'"
  shows "has_dept n db \<Longrightarrow> has_dept n db'" "has_model n db \<Longrightarrow> has_model n db'"
    "has_collection n db \<Longrightarrow> has_collection n db'" "has_agent n db \<Longrightarrow> has_agent n db'" "has_case k db \<Longrightarrow> has_case k db'"
    "s \<in> u_kc_sub ` set (sx_users db) \<Longrightarrow> s \<in> u_kc_sub ` set (sx_users db')"
    "list_all copilot_ok (sx_agents db) \<Longrightarrow> list_all copilot_ok (sx_agents db')"
  using assms
  by (auto simp: extends_def has_dept_def has_model_def has_collection_def has_agent_def has_case_def
      dest: agents_kept_names [THEN subsetD, OF _ imageI] agents_kept_ok prefix_image simp del: image_iff)

lemmas has_defs = has_dept_def has_model_def has_collection_def has_agent_def has_case_def

lemma has_after [simp]:
  "has_dept n (put_department n db)" "has_model (d_name d) (put_model d db)" "has_collection c (put_collection dept c sens r p db)"
  "has_agent n (put_demo_agent n dep st sens cache ctx cids db)" "has_case (a, i) (put_case a i payload db)"
  by (simp_all add: has_defs put_defs demo_agent_row_def)

lemma tables_same:
  "has_dept n db \<Longrightarrow> tables (put_department n db) = tables db"
  "has_model (d_name d) db \<Longrightarrow> tables (put_model d db) = tables db"
  "has_collection c db \<Longrightarrow> tables (put_collection dept c sens r p db) = tables db"
  "has_agent n db \<Longrightarrow> tables (put_demo_agent n dep st sens cache ctx cids db) = tables db"
  "has_case (a, i) db \<Longrightarrow> tables (put_case a i payload db) = tables db"
  "u \<in> u_kc_sub ` set (sx_users db) \<Longrightarrow> tables (put_user u h disp db) = tables db"
  by (simp_all add: has_defs tables_def put_defs insert_new_def demo_agent_row_def)

lemma department_id_found: "has_dept n db \<Longrightarrow> \<exists>d. department_id n db = Inr d"
  by (auto simp: department_id_def has_dept_def find_None_iff split: option.split)

lemma department_id_has: "department_id n db = Inr d \<Longrightarrow> has_dept n db"
  by (auto simp: department_id_def has_dept_def find_Some_iff image_iff split: option.splits intro: nth_mem)

lemma collection_id_found: "has_collection n db \<Longrightarrow> \<exists>d. collection_id n db = Inr d"
  by (auto simp: collection_id_def has_collection_def find_None_iff split: option.split)

section \<open>The parts\<close>

lemma transaction_simps [simp]:
  "fst (transaction f db) = Inr () \<longleftrightarrow> (\<exists>db'. f db = Inr db')"
  "f db = Inr db' \<Longrightarrow> snd (transaction f db) = db'"
  "f db = Inl e \<Longrightarrow> snd (transaction f db) = db"
  by (simp_all add: transaction_def split: sum.split)

lemma transaction_part:
  assumes "\<And>db db'. f db = Inr db' \<Longrightarrow> extends db db' \<and> there db'"
    and "\<And>db db'. there db \<Longrightarrow> extends db db' \<Longrightarrow> there db'"
    and "\<And>db. there db \<Longrightarrow> \<exists>db'. f db = Inr db' \<and> tables db' = tables db"
  shows "seed_part (transaction f) there"
proof
  fix db db'
  show "extends db (snd (transaction f db))" using assms(1) by (cases "f db") auto
  show "fst (transaction f db) = Inr () \<Longrightarrow> there (snd (transaction f db))" using assms(1) by auto
  show "there db \<Longrightarrow> extends db db' \<Longrightarrow> there db'" by (rule assms(2))
  show "there db \<Longrightarrow> fst (transaction f db) = Inr () \<and> tables (snd (transaction f db)) = tables db"
    using assms(3) by fastforce
qed

lemma fold_departments_has: "n \<in> set ns \<Longrightarrow> has_dept n (fold put_department ns db)"
proof (induction ns arbitrary: db)
  case (Cons m ns)
  have "extends (put_department m db) (fold put_department ns (put_department m db))" by (simp add: fold_extends)
  with Cons show ?case by (auto intro: has_mono(1))
qed simp

lemma fold_models_has: "m \<in> set ms \<Longrightarrow> has_model (d_name m) (fold put_model ms db)"
proof (induction ms arbitrary: db)
  case (Cons d ms)
  have "extends (put_model d db) (fold put_model ms (put_model d db))" by (simp add: fold_extends)
  with Cons show ?case by (auto intro: has_mono(2))
qed simp

lemma has_same:
  assumes "tables db = tables db'"
  shows "has_dept n db = has_dept n db'" "has_model n db = has_model n db'" "has_collection n db = has_collection n db'"
    "has_agent n db = has_agent n db'" "has_case k db = has_case k db'"
  using assms by (simp_all add: tables_def has_defs)

lemma fold_departments_same: "list_all (\<lambda>n. has_dept n db) ns \<Longrightarrow> tables (fold put_department ns db) = tables db"
proof (induction ns arbitrary: db)
  case (Cons n ns)
  then have same: "tables (put_department n db) = tables db" by (simp add: tables_same)
  with Cons show ?case by (simp add: has_same [OF same])
qed simp

lemma fold_models_same: "list_all (\<lambda>m. has_model (d_name m) db) ms \<Longrightarrow> tables (fold put_model ms db) = tables db"
proof (induction ms arbitrary: db)
  case (Cons m ms)
  then have same: "tables (put_model m db) = tables db" by (simp add: tables_same)
  with Cons show ?case by (simp add: has_same [OF same])
qed simp

definition basics_there :: "seed_db \<Rightarrow> bool" where
  "basics_there db \<longleftrightarrow>
     list_all (\<lambda>n. has_dept n db) departments \<and> ''seed-admin'' \<in> u_kc_sub ` set (sx_users db) \<and>
     list_all (\<lambda>m. has_model (d_name m) db) default_models"

interpretation basics: seed_part seed basics_there
  unfolding seed_def
proof (rule transaction_part)
  fix db db'
  let ?d = "fold put_department departments db"
  let ?u = "put_user ''seed-admin'' ''hash-admin'' ''Seed Admin'' ?d"
  let ?m = "fold put_model default_models ?u"
  show "basics_there db \<Longrightarrow> extends db db' \<Longrightarrow> basics_there db'"
    using has_mono [of db db'] by (auto simp: basics_there_def list_all_iff)
  have m: "extends ?u ?m" by (simp add: fold_extends)
  have u: "extends ?d ?m" using extends_trans [OF _ m] by simp
  have d: "extends db ?m" using extends_trans [OF _ u] by (simp add: fold_extends)
  have "''seed-admin'' \<in> u_kc_sub ` set (sx_users ?u)" by (simp add: put_user_def)
  then have "basics_there ?m"
    using has_mono(1) [OF u] has_mono(6) [OF m]
    by (simp add: basics_there_def list_all_iff fold_departments_has fold_models_has)
  with d show "Inr ?m = Inr db' \<Longrightarrow> extends db db' \<and> basics_there db'" by auto
next
  fix db
  let ?d = "fold put_department departments db"
  let ?u = "put_user ''seed-admin'' ''hash-admin'' ''Seed Admin'' ?d"
  assume b: "basics_there db"
  then have d: "tables ?d = tables db" by (simp add: fold_departments_same basics_there_def)
  from d have "sx_users ?d = sx_users db" by (simp add: tables_def)
  with b d have u: "tables ?u = tables db" by (simp add: tables_same(6) basics_there_def)
  with b have "tables (fold put_model default_models ?u) = tables db"
    by (simp add: fold_models_same basics_there_def has_same [OF u])
  then show "\<exists>db'. Inr (fold put_model default_models ?u) = Inr db' \<and> tables db' = tables db" by auto
qed

lemma plain_part:
  assumes n: "n \<noteq> ''support_copilot''"
  shows "seed_part (seed_plain_agent dept n sens ctx) (\<lambda>db. has_dept dept db \<and> has_agent n db)"
  unfolding seed_plain_agent_def
proof (rule transaction_part)
  fix db db'
  show "res_bind (department_id dept db) (\<lambda>d. Inr (put_demo_agent n (Some d) ''active'' sens False ctx [] db)) = Inr db' \<Longrightarrow>
      extends db db' \<and> has_dept dept db' \<and> has_agent n db'"
    using n by (auto simp: put_agent_extends dest!: department_id_has intro: has_mono(1) [OF put_agent_extends])
  show "has_dept dept db \<and> has_agent n db \<Longrightarrow> extends db db' \<Longrightarrow> has_dept dept db' \<and> has_agent n db'"
    using has_mono [of db db'] by blast
  show "has_dept dept db \<and> has_agent n db \<Longrightarrow>
      \<exists>db'. res_bind (department_id dept db) (\<lambda>d. Inr (put_demo_agent n (Some d) ''active'' sens False ctx [] db)) = Inr db' \<and>
        tables db' = tables db"
    using department_id_found [of dept db] by (auto simp: tables_same)
qed

lemma with_collection_part:
  assumes n: "n \<noteq> ''support_copilot''"
  shows "seed_part (seed_with_collection dept coll policy n sens) (\<lambda>db. has_dept dept db \<and> has_collection coll db \<and> has_agent n db)"
  unfolding seed_with_collection_def
proof (rule transaction_part)
  fix db db'
  let ?run = "\<lambda>db. res_bind (department_id dept db) (\<lambda>d.
       let db1 = put_collection d coll sens None policy db
       in res_bind (collection_id coll db1) (\<lambda>c. Inr (put_demo_agent n (Some d) ''active'' sens False 8000 [c] db1)))"
  show "extends db db' \<and> has_dept dept db' \<and> has_collection coll db' \<and> has_agent n db'" if run: "?run db = Inr db'"
  proof -
    from run obtain d c where d: "department_id dept db = Inr d"
      and db': "db' = put_demo_agent n (Some d) ''active'' sens False 8000 [c] (put_collection d coll sens None policy db)"
      by (auto simp: Let_def)
    have "extends (put_collection d coll sens None policy db) db'" unfolding db' using n by (simp add: put_agent_extends)
    note e = this extends_trans [OF put_extends(4) this]
    show ?thesis
      using e has_mono(1) [OF e(2) department_id_has [OF d]] has_mono(3) [OF e(1) has_after(3)] by (simp add: db')
  qed
  show "has_dept dept db \<and> has_collection coll db \<and> has_agent n db \<Longrightarrow> extends db db' \<Longrightarrow>
      has_dept dept db' \<and> has_collection coll db' \<and> has_agent n db'"
    using has_mono [of db db'] by blast
  show "\<exists>db'. ?run db = Inr db' \<and> tables db' = tables db" if there: "has_dept dept db \<and> has_collection coll db \<and> has_agent n db"
  proof -
    from there obtain d where d: "department_id dept db = Inr d" using department_id_found by blast
    have same: "tables (put_collection d coll sens None policy db) = tables db" using there by (simp add: tables_same)
    obtain c where "collection_id coll (put_collection d coll sens None policy db) = Inr c" using collection_id_found by force
    with d same there show ?thesis by (simp add: Let_def tables_same has_same [OF same])
  qed
qed

lemma support_part:
  "seed_part seed_support_copilot (\<lambda>db. has_dept ''Customer Service'' db \<and> has_collection ''cs-help-center'' db \<and>
     has_collection ''cs-procedures'' db \<and> has_agent ''support_copilot'' db \<and> list_all copilot_ok (sx_agents db))"
  unfolding seed_support_copilot_def
proof (rule transaction_part)
  fix db db'
  let ?put = "\<lambda>d db. put_collection d ''cs-procedures'' ''internal'' None ''redact''
      (put_collection d ''cs-help-center'' ''internal'' None ''redact'' db)"
  let ?up = "\<lambda>d h p. upsert_demo_agent ''support_copilot'' (Some d) ''active'' ''internal'' True 12000 [h, p]"
  let ?run = "\<lambda>db. res_bind (department_id ''Customer Service'' db) (\<lambda>d.
       let db1 = ?put d db in res_bind (collection_id ''cs-help-center'' db1) (\<lambda>h.
         res_bind (collection_id ''cs-procedures'' db1) (\<lambda>p. Inr (?up d h p db1))))"
  let ?there = "\<lambda>db. has_dept ''Customer Service'' db \<and> has_collection ''cs-help-center'' db \<and>
     has_collection ''cs-procedures'' db \<and> has_agent ''support_copilot'' db \<and> list_all copilot_ok (sx_agents db)"
  show "extends db db' \<and> ?there db'" if run: "?run db = Inr db'"
  proof -
    from run obtain d h p where d: "department_id ''Customer Service'' db = Inr d" and db': "db' = ?up d h p (?put d db)"
      by (auto simp: Let_def)
    have e: "extends (?put d db) db'" by (simp add: db')
    have e1: "extends (put_collection d ''cs-help-center'' ''internal'' None ''redact'' db) db'"
      using extends_trans [OF put_extends(4) e] .
    have e0: "extends db db'" using extends_trans [OF put_extends(4) e1] .
    have "list_all copilot_ok (sx_agents db')" "has_agent ''support_copilot'' db'"
      by (auto simp: db' upsert_demo_agent_def put_defs insert_new_def list_all_iff has_agent_def demo_agent_row_def copilot_ok_def
          reassert_def)
    with e0 has_mono(1) [OF e0 department_id_has [OF d]] has_mono(3) [OF e1 has_after(3)] has_mono(3) [OF e has_after(3)]
    show ?thesis by simp
  qed
  show "?there db \<Longrightarrow> extends db db' \<Longrightarrow> ?there db'"
    using has_mono [of db db'] by blast
  show "\<exists>db'. ?run db = Inr db' \<and> tables db' = tables db" if there: "?there db"
  proof -
    from there obtain d where d: "department_id ''Customer Service'' db = Inr d" using department_id_found by blast
    let ?one = "put_collection d ''cs-help-center'' ''internal'' None ''redact'' db"
    have one: "tables ?one = tables db" using there by (simp add: tables_same)
    have same: "tables (?put d db) = tables db" using there by (simp add: tables_same has_same [OF one] one)
    obtain h p where ids: "collection_id ''cs-help-center'' (?put d db) = Inr h" "collection_id ''cs-procedures'' (?put d db) = Inr p"
      using collection_id_found there by (metis has_same(3) [OF same])
    have "map (reassert ''support_copilot'' ''internal'') (sx_agents (?put d db)) = sx_agents (?put d db)"
      using there same by (intro map_idI) (auto simp: tables_def list_all_iff reassert_same)
    then have "tables (?up d h p (?put d db)) = tables db"
      using there by (simp add: upsert_demo_agent_def tables_same has_same [OF same] same)
    with d ids show ?thesis by (simp add: Let_def)
  qed
qed

text \<open>The HR function: two collections, two agents.\<close>

lemma hr_part:
  "seed_part seed_hr_agents (\<lambda>db. has_dept ''HR'' db \<and> has_collection ''hr-cvs'' db \<and> has_collection ''hr-policies'' db \<and>
     has_agent ''hr_agent'' db \<and> has_agent ''hr_onboarding'' db)"
  unfolding seed_hr_agents_def
proof (rule transaction_part)
  fix db db'
  let ?put = "\<lambda>d db. put_collection d ''hr-policies'' ''internal'' None ''redact''
      (put_collection d ''hr-cvs'' ''pii'' (Some 365) ''allow-local-only'' db)"
  let ?agent = "\<lambda>d. put_demo_agent ''hr_agent'' (Some d) ''active'' ''pii'' False 8000 []"
  let ?both = "\<lambda>d p db. put_demo_agent ''hr_onboarding'' (Some d) ''active'' ''internal'' True 8000 [p] (?agent d db)"
  let ?run = "\<lambda>db. res_bind (department_id ''HR'' db) (\<lambda>d. let db1 = ?put d db in
       res_bind (collection_id ''hr-policies'' db1) (\<lambda>p. Inr (?both d p db1)))"
  let ?there = "\<lambda>db. has_dept ''HR'' db \<and> has_collection ''hr-cvs'' db \<and> has_collection ''hr-policies'' db \<and>
     has_agent ''hr_agent'' db \<and> has_agent ''hr_onboarding'' db"
  show "extends db db' \<and> ?there db'" if run: "?run db = Inr db'"
  proof -
    from run obtain d p where d: "department_id ''HR'' db = Inr d" and db': "db' = ?both d p (?put d db)"
      by (auto simp: Let_def)
    have e3: "extends (?agent d (?put d db)) db'" unfolding db' by (simp add: put_agent_extends)
    have e2: "extends (?put d db) db'" by (rule extends_trans [OF put_agent_extends e3]) simp
    note e1 = extends_trans [OF put_extends(4) e2]
    note e0 = extends_trans [OF put_extends(4) e1]
    from e0 has_mono(1) [OF e0 department_id_has [OF d]] has_mono(3) [OF e1 has_after(3)] has_mono(3) [OF e2 has_after(3)]
      has_mono(4) [OF e3 has_after(4)]
    show ?thesis by (simp add: db')
  qed
  show "?there db \<Longrightarrow> extends db db' \<Longrightarrow> ?there db'"
    using has_mono [of db db'] by blast
  show "\<exists>db'. ?run db = Inr db' \<and> tables db' = tables db" if there: "?there db"
  proof -
    from there obtain d where d: "department_id ''HR'' db = Inr d" using department_id_found by blast
    let ?one = "put_collection d ''hr-cvs'' ''pii'' (Some 365) ''allow-local-only'' db"
    have one: "tables ?one = tables db" using there by (simp add: tables_same)
    have same: "tables (?put d db) = tables db" using there by (simp add: tables_same has_same [OF one] one)
    have two: "tables (?agent d (?put d db)) = tables db" using there by (simp add: tables_same has_same [OF same] same)
    obtain p where "collection_id ''hr-policies'' (?put d db) = Inr p"
      using collection_id_found there by (metis has_same(3) [OF same])
    moreover have "tables (?both d p (?put d db)) = tables db" using there by (simp add: tables_same has_same [OF two] two)
    ultimately show ?thesis using d by (simp add: Let_def)
  qed
qed

lemma automation_part: "seed_part seed_automation_recipe_agent (has_agent ''automation_recipe'')"
  unfolding seed_automation_recipe_agent_def
proof (rule transaction_part)
  fix db db' :: seed_db
  show "has_agent ''automation_recipe'' db \<Longrightarrow> extends db db' \<Longrightarrow> has_agent ''automation_recipe'' db'"
    by (rule has_mono(4))
qed (auto simp: put_agent_extends tables_same)

section \<open>The parts that read files\<close>

fun lines_there :: "string \<Rightarrow> string list \<Rightarrow> seed_db \<Rightarrow> bool" where
  "lines_there agent [] db = True"
| "lines_there agent (line # ls) db \<longleftrightarrow>
     (if strip line = [] then lines_there agent ls db
      else (case json_loads (strip line) of
              None \<Rightarrow> False
            | Some v \<Rightarrow> (case read_case v of
                          Inl e \<Rightarrow> False
                        | Inr (cid, payload) \<Rightarrow> has_case (agent, cid) db \<and> lines_there agent ls db)))"

fun files_there :: "(string \<times> string) list \<Rightarrow> seed_db \<Rightarrow> bool" where
  "files_there [] db = True"
| "files_there ((agent, file) # ds) db \<longleftrightarrow> lines_there agent (splitlines [] file) db \<and> files_there ds db"

lemma lines_there_mono: "lines_there agent ls db \<Longrightarrow> extends db db' \<Longrightarrow> lines_there agent ls db'"
  by (induction agent ls db rule: lines_there.induct)
    (auto split: if_splits option.splits sum.splits json.splits intro: has_mono(5))

lemma files_there_mono: "files_there ds db \<Longrightarrow> extends db db' \<Longrightarrow> files_there ds db'"
  by (induction ds db rule: files_there.induct) (auto intro: lines_there_mono)

lemma import_lines_settles:
  "import_lines agent ls db = Inr db' \<Longrightarrow> extends db db' \<and> lines_there agent ls db'"
proof (induction agent ls db rule: import_lines.induct)
  case (2 agent line ls db)
  show ?case
  proof (cases "strip line = []")
    case True
    with 2 show ?thesis by simp
  next
    case False
    with "2.prems" obtain v cid payload where v: "json_loads (strip line) = Some v" "read_case v = Inr (cid, payload)"
      "import_lines agent ls (put_case agent cid payload db) = Inr db'"
      by (auto split: option.splits sum.splits)
    from "2.IH"(2) [OF False v(1,2) refl v(3)] have e: "extends (put_case agent cid payload db) db'" "lines_there agent ls db'"
      by simp_all
    from extends_trans [OF put_extends(5) e(1)] has_mono(5) [OF e(1) has_after(5)] e(2) v False show ?thesis by simp
  qed
qed simp

lemma import_lines_settled:
  "lines_there agent ls db \<Longrightarrow> tables d = tables db \<Longrightarrow> \<exists>db'. import_lines agent ls d = Inr db' \<and> tables db' = tables db"
proof (induction agent ls db arbitrary: d rule: lines_there.induct)
  case (2 agent line ls db)
  show ?case
  proof (cases "strip line = []")
    case True
    with 2 show ?thesis by simp
  next
    case False
    with "2.prems" obtain v cid payload where v: "json_loads (strip line) = Some v" "read_case v = Inr (cid, payload)"
      "has_case (agent, cid) db" "lines_there agent ls db"
      by (auto split: option.splits sum.splits)
    have "tables (put_case agent cid payload d) = tables db"
      using v(3) "2.prems"(2) by (simp add: tables_same has_same [OF "2.prems"(2)])
    from "2.IH"(2) [OF False v(1,2) refl v(4) this] v False show ?thesis by auto
  qed
qed simp

lemma import_datasets_settles: "import_datasets ds db = Inr db' \<Longrightarrow> extends db db' \<and> files_there ds db'"
proof (induction ds db rule: import_datasets.induct)
  case (2 agent content ds db)
  then obtain d where d: "import_lines agent (splitlines [] content) db = Inr d" "import_datasets ds d = Inr db'" by auto
  from import_lines_settles [OF d(1)] "2.IH" [OF d(2)] show ?case by (auto intro: extends_trans lines_there_mono)
qed simp

lemma import_datasets_settled:
  "files_there ds db \<Longrightarrow> tables d = tables db \<Longrightarrow> \<exists>db'. import_datasets ds d = Inr db' \<and> tables db' = tables db"
proof (induction ds arbitrary: d)
  case (Cons x ds)
  obtain agent content where x: "x = (agent, content)" by fastforce
  with Cons.prems import_lines_settled [of agent "splitlines [] content" db d] obtain e
    where "import_lines agent (splitlines [] content) d = Inr e" "tables e = tables db" by auto
  with Cons.IH [of e] Cons.prems x show ?case by auto
qed simp

lemma cases_part: "seed_part (seed_eval_cases ds) (files_there ds)"
  unfolding seed_eval_cases_def
proof (rule transaction_part)
  fix db db'
  show "import_datasets ds db = Inr db' \<Longrightarrow> extends db db' \<and> files_there ds db'" by (rule import_datasets_settles)
  show "files_there ds db \<Longrightarrow> extends db db' \<Longrightarrow> files_there ds db'" by (rule files_there_mono)
  show "files_there ds db \<Longrightarrow> \<exists>db'. import_datasets ds db = Inr db' \<and> tables db' = tables db"
    by (rule import_datasets_settled) simp_all
qed

section \<open>Seeding twice\<close>

definition core_parts :: "(string \<times> string) list \<Rightarrow> seed_step list" where
  "core_parts datasets =
     [seed, seed_support_copilot, seed_analytics_agent, seed_dev_agent, seed_invoice_agent, seed_hr_agents,
       seed_listing_quality_agent, seed_vehicle_intake_agent, seed_insights_publisher_agent, seed_dealer_onboarding_agent,
       seed_legal_review_agent, seed_automation_recipe_agent, seed_eval_cases datasets]"

lemma run_all_append:
  "run_all (xs @ ys) db = (case run_all xs db of (Inl e, d) \<Rightarrow> (Inl e, d) | (Inr _, d) \<Rightarrow> run_all ys d)"
  by (induction xs arbitrary: db) (auto split: prod.split sum.split)

lemma seed_main_split: "seed_main ago ds db = run_all (core_parts ds @ [seed_observability_demo ago]) db"
  unfolding seed_main_def core_parts_def by (simp only: append.simps)

definition core_there :: "(string \<times> string) list \<Rightarrow> seed_db \<Rightarrow> bool" where
  "core_there ds db \<longleftrightarrow>
     list_all (\<lambda>t. t db)
       [basics_there,
        \<lambda>db. has_dept ''Customer Service'' db \<and> has_collection ''cs-help-center'' db \<and>
          has_collection ''cs-procedures'' db \<and> has_agent ''support_copilot'' db \<and> list_all copilot_ok (sx_agents db),
        \<lambda>db. has_dept ''Data'' db \<and> has_agent ''analytics'' db,
        \<lambda>db. has_dept ''IT'' db \<and> has_agent ''dev_agent'' db,
        \<lambda>db. has_dept ''Finance'' db \<and> has_agent ''invoice_agent'' db,
        \<lambda>db. has_dept ''HR'' db \<and> has_collection ''hr-cvs'' db \<and> has_collection ''hr-policies'' db \<and>
          has_agent ''hr_agent'' db \<and> has_agent ''hr_onboarding'' db,
        \<lambda>db. has_dept ''Listings Ops'' db \<and> has_agent ''listing_quality'' db,
        \<lambda>db. has_dept ''Trink sat'' db \<and> has_agent ''vehicle_intake'' db,
        \<lambda>db. has_dept ''Marketing'' db \<and> has_collection ''mkt-brand'' db \<and> has_agent ''insights_publisher'' db,
        \<lambda>db. has_dept ''Corporate Sales'' db \<and> has_agent ''dealer_onboarding'' db,
        \<lambda>db. has_dept ''Legal'' db \<and> has_collection ''legal-playbooks'' db \<and> has_agent ''legal_review'' db,
        has_agent ''automation_recipe'',
        files_there ds]"

lemmas plain_agent_defs = seed_analytics_agent_def seed_dev_agent_def seed_invoice_agent_def seed_listing_quality_agent_def
  seed_vehicle_intake_agent_def seed_dealer_onboarding_agent_def seed_insights_publisher_agent_def seed_legal_review_agent_def

interpretation core: seed_part "run_all (core_parts ds)" "core_there ds" for ds
  unfolding core_there_def core_parts_def plain_agent_defs
  by (rule seed_part_all)
    (simp only: list.rel_inject basics.seed_part_axioms support_part hr_part automation_part cases_part, simp add: plain_part with_collection_part)

lemma has_demo_mono: "has_demo l \<Longrightarrow> prefix l l' \<Longrightarrow> has_demo l'"
  by (auto simp: has_demo_def prefix_def)

lemma demo_part:
  "fst (seed_observability_demo ago db) = Inr ()" "extends db (snd (seed_observability_demo ago db))"
  "sx_departments db \<noteq> [] \<Longrightarrow> has_demo (sx_ledger (snd (seed_observability_demo ago db)))"
  "has_demo (sx_ledger db) \<Longrightarrow> tables (snd (seed_observability_demo ago db)) = tables db"
proof -
  have up: "extends db (fold (put_demo ago depts) [0..<60] db)" for depts by (simp add: fold_extends)
  show "fst (seed_observability_demo ago db) = Inr ()" by (simp add: seed_observability_demo_def Let_def)
  show "extends db (snd (seed_observability_demo ago db))"
    using up by (simp add: seed_observability_demo_def transaction_def Let_def)
  show "has_demo (sx_ledger db) \<Longrightarrow> tables (snd (seed_observability_demo ago db)) = tables db"
    by (simp add: seed_observability_demo_def transaction_def)
  have "has_demo (sx_ledger (fold (put_demo ago depts) [0..<60] db))" for depts
  proof -
    have "[0..<60] = 0 # [1..<60]" by (simp add: upt_conv_Cons)
    moreover have "has_demo (sx_ledger (put_demo ago depts 0 db))"
      by (simp add: put_demo_def record_row_def has_demo_def seeded_spend_def demo_trace_def startswith_def Let_def)
    moreover have "extends (put_demo ago depts 0 db) (fold (put_demo ago depts) [1..<60] (put_demo ago depts 0 db))"
      by (simp add: fold_extends)
    ultimately show ?thesis by (auto simp: extends_def intro: has_demo_mono)
  qed
  moreover assume "sx_departments db \<noteq> []"
  moreover from this have "sort_key fst (sx_departments db) \<noteq> []" by (metis set_empty set_sort)
  ultimately show "has_demo (sx_ledger (snd (seed_observability_demo ago db)))"
    by (simp add: seed_observability_demo_def transaction_def Let_def)
qed

text \<open>Every part finds its department once the basics are seeded, so only a dataset can stop a seeding.\<close>

definition readable :: "string \<Rightarrow> bool" where
  "readable content \<longleftrightarrow>
     list_all (\<lambda>line. strip line = [] \<or>
       (case json_loads (strip line) of None \<Rightarrow> False | Some v \<Rightarrow> (case read_case v of Inl _ \<Rightarrow> False | Inr _ \<Rightarrow> True)))
       (splitlines [] content)"

lemma import_lines_ends:
  "list_all (\<lambda>line. strip line = [] \<or>
       (case json_loads (strip line) of None \<Rightarrow> False | Some v \<Rightarrow> (case read_case v of Inl _ \<Rightarrow> False | Inr _ \<Rightarrow> True))) ls \<Longrightarrow>
     \<exists>db'. import_lines agent ls db = Inr db'"
  by (induction agent ls db rule: import_lines.induct) (auto split: option.splits sum.splits)

lemma import_datasets_ends: "list_all (\<lambda>(agent, content). readable content) ds \<Longrightarrow> \<exists>db'. import_datasets ds db = Inr db'"
proof (induction ds db rule: import_datasets.induct)
  case (2 agent content ds db)
  from 2(2) import_lines_ends [of "splitlines [] content" agent db] obtain d
    where "import_lines agent (splitlines [] content) db = Inr d" by (auto simp: readable_def)
  with 2 show ?case by auto
qed simp

definition all_depts :: "seed_db \<Rightarrow> bool" where
  "all_depts db \<longleftrightarrow> list_all (\<lambda>n. has_dept n db) departments"

definition goes_on :: "seed_step \<Rightarrow> bool" where
  "goes_on s \<longleftrightarrow> (\<forall>db. extends db (snd (s db)) \<and> (all_depts db \<longrightarrow> fst (s db) = Inr ()))"

lemma goes_onI: "seed_part s t \<Longrightarrow> (\<And>db. all_depts db \<Longrightarrow> fst (s db) = Inr ()) \<Longrightarrow> goes_on s"
  by (simp add: goes_on_def seed_part.grows)

lemma run_all_ends: "list_all goes_on ss \<Longrightarrow> all_depts db \<Longrightarrow> fst (run_all ss db) = Inr ()"
proof (induction ss arbitrary: db)
  case (Cons s ss)
  obtain r d where s: "s db = (r, d)" by fastforce
  from Cons.prems have g: "extends db (snd (s db))" "fst (s db) = Inr ()" by (simp_all add: goes_on_def)
  with s Cons.prems(2) have "all_depts d" by (auto simp: all_depts_def list_all_iff intro: has_mono(1))
  with Cons g s show ?case by simp
qed simp

lemma part_ends:
  "has_dept dept db \<Longrightarrow> fst (seed_plain_agent dept n sens ctx db) = Inr ()"
  "has_dept dept db \<Longrightarrow> fst (seed_with_collection dept coll policy n sens db) = Inr ()"
  using department_id_found [of dept db] collection_id_found [OF has_after(3)]
  by (fastforce simp: seed_plain_agent_def seed_with_collection_def Let_def)+

lemma support_ends: "has_dept ''Customer Service'' db \<Longrightarrow> fst (seed_support_copilot db) = Inr ()"
proof -
  assume "has_dept ''Customer Service'' db"
  then obtain d where d: "department_id ''Customer Service'' db = Inr d" using department_id_found by blast
  let ?one = "put_collection d ''cs-help-center'' ''internal'' None ''redact'' db"
  let ?two = "put_collection d ''cs-procedures'' ''internal'' None ''redact'' ?one"
  have "has_collection ''cs-help-center'' ?two" by (rule has_mono(3) [OF put_extends(4) has_after(3)])
  then obtain h where "collection_id ''cs-help-center'' ?two = Inr h" using collection_id_found by blast
  moreover obtain p where "collection_id ''cs-procedures'' ?two = Inr p" using collection_id_found [OF has_after(3)] by blast
  ultimately show ?thesis using d by (simp add: seed_support_copilot_def Let_def)
qed

lemma hr_ends: "has_dept ''HR'' db \<Longrightarrow> fst (seed_hr_agents db) = Inr ()"
proof -
  assume "has_dept ''HR'' db"
  then obtain d where d: "department_id ''HR'' db = Inr d" using department_id_found by blast
  let ?two = "put_collection d ''hr-policies'' ''internal'' None ''redact''
      (put_collection d ''hr-cvs'' ''pii'' (Some 365) ''allow-local-only'' db)"
  obtain p where "collection_id ''hr-policies'' ?two = Inr p" using collection_id_found [OF has_after(3)] by blast
  with d show ?thesis by (simp add: seed_hr_agents_def Let_def)
qed

lemma all_deptsD: "all_depts db \<Longrightarrow> n \<in> set departments \<Longrightarrow> has_dept n db"
  by (simp add: all_depts_def list_all_iff)

lemma plain_goes_on: "n \<noteq> ''support_copilot'' \<Longrightarrow> dept \<in> set departments \<Longrightarrow> goes_on (seed_plain_agent dept n sens ctx)"
  by (rule goes_onI [OF plain_part]) (auto intro: part_ends all_deptsD)

lemma with_collection_goes_on:
  "n \<noteq> ''support_copilot'' \<Longrightarrow> dept \<in> set departments \<Longrightarrow> goes_on (seed_with_collection dept coll policy n sens)"
  by (rule goes_onI [OF with_collection_part]) (auto intro: part_ends all_deptsD)

lemma support_goes_on: "goes_on seed_support_copilot"
  by (rule goes_onI [OF support_part]) (simp add: support_ends all_deptsD departments_def)

lemma hr_goes_on: "goes_on seed_hr_agents"
  by (rule goes_onI [OF hr_part]) (simp add: hr_ends all_deptsD departments_def)

lemma automation_goes_on: "goes_on seed_automation_recipe_agent"
  by (rule goes_onI [OF automation_part]) (simp add: seed_automation_recipe_agent_def)

lemma cases_go_on: "list_all (\<lambda>(agent, content). readable content) ds \<Longrightarrow> goes_on (seed_eval_cases ds)"
  by (rule goes_onI [OF cases_part]) (simp add: seed_eval_cases_def import_datasets_ends)

lemmas parts_go_on = support_goes_on hr_goes_on automation_goes_on cases_go_on

lemma seed_main_ends:
  assumes "list_all (\<lambda>(agent, content). readable content) ds"
  shows "fst (seed_main ago ds db) = Inr ()"
proof -
  have core: "core_parts ds = seed # tl (core_parts ds)" by (simp only: core_parts_def list.sel)
  have rest: "list_all goes_on (tl (core_parts ds))"
    unfolding core_parts_def plain_agent_defs list.sel list.pred_inject
    using assms by (simp add: parts_go_on plain_goes_on with_collection_goes_on departments_def)
  obtain r d where s: "seed db = (r, d)" by fastforce
  have "fst (seed db) = Inr ()" by (simp add: seed_def)
  with s have r: "r = Inr ()" by simp
  from s r basics.settles [of db] have "all_depts d" by (simp add: basics_there_def all_depts_def)
  from run_all_ends [OF rest this] s r have "fst (run_all (core_parts ds) db) = Inr ()" by (subst core) simp
  moreover obtain d' where d': "run_all (core_parts ds) db = (fst (run_all (core_parts ds) db), d')" by (metis prod.collapse)
  moreover obtain d2 where "seed_observability_demo ago d' = (Inr (), d2)"
    using demo_part(1) [of ago d'] by (metis prod.collapse)
  ultimately show ?thesis by (simp add: seed_main_split run_all_append)
qed

text \<open>
  Property C28: seeding ends, is idempotent and touches nothing of an operator's. From every database, over datasets whose lines can be
  read, a seeding ends without an error; every row that was there is still there, except that the support agent is put
  back to \<open>internal\<close>; and seeding again, at any later time, ends as well and changes no row of any table.
\<close>

theorem seeding_is_idempotent:
  assumes "list_all (\<lambda>(agent, content). readable content) ds" "db' = snd (seed_main ago ds db)"
  shows "fst (seed_main ago ds db) = Inr () \<and> extends db db' \<and> list_all copilot_ok (sx_agents db') \<and>
     fst (seed_main ago' ds db') = Inr () \<and> tables (snd (seed_main ago' ds db')) = tables db'"
proof -
  let ?demo = "seed_observability_demo ago" and ?demo' = "seed_observability_demo ago'"
  note ends = seed_main_ends [OF assms(1)]
  have "seed_main ago ds db = (Inr (), db')" using ends [of ago db] assms(2) by (simp add: prod_eq_iff)
  then obtain d where d: "run_all (core_parts ds) db = (Inr (), d)" and db': "?demo d = (Inr (), db')"
    by (auto simp: seed_main_split run_all_append split: prod.splits sum.splits)
  have e: "extends db d" "core_there ds d" using core.grows [of db ds] core.settles [of ds db] d by simp_all
  have e': "extends d db'" using demo_part(2) [of d ago] db' by simp
  note there = core.stays [OF e(2) e']
  from e(2) have "has_dept ''Legal'' d" by (simp add: core_there_def)
  then have "sx_departments d \<noteq> []" by (auto simp: has_dept_def)
  with demo_part(3) [of d ago] db' have demo: "has_demo (sx_ledger db')" by simp
  obtain d2 where d2: "run_all (core_parts ds) db' = (Inr (), d2)" "tables d2 = tables db'"
    using core.settled [OF there] by (metis prod.collapse)
  from demo d2(2) have "has_demo (sx_ledger d2)" by (simp add: tables_def)
  with demo_part(4) [of d2 ago'] d2 have "tables (snd (seed_main ago' ds db')) = tables db'"
    by (auto simp: seed_main_split run_all_append split: prod.splits sum.splits)
  with ends extends_trans [OF e(1) e'] there show ?thesis by (simp add: core_there_def)
qed

definition empty_seed :: seed_db where
  "empty_seed =
     \<lparr>sx_departments = [], sx_users = [], sx_models = \<lparr>mt_rows = [], mt_next = 1\<rparr>, sx_collections = [], sx_agents = [],
      sx_cases = [], sx_ledger = [], sx_audit = [], sx_next_department = 1, sx_next_user = 1,
      sx_next_collection = 1, sx_next_agent = 1, sx_next_case = 1, sx_next_audit = 1\<rparr>"

definition demo_ago :: "nat \<Rightarrow> nat \<Rightarrow> datetime" where
  "demo_ago days hours = (2026, 6, 30 - days, 23 - hours, 0, 0, 0)"

definition demo_datasets :: "(string \<times> string) list" where
  "demo_datasets = [(''analytics'', ''{'' @ qt ''id'' @ '':'' @ qt ''a1'' @ ''}'')]"

lemma seeding_is_idempotent_witness:
  "tables (snd (seed_main demo_ago demo_datasets (snd (seed_main demo_ago demo_datasets empty_seed)))) =
   tables (snd (seed_main demo_ago demo_datasets empty_seed))"
proof -
  have "list_all (\<lambda>(agent, content). readable content) demo_datasets" by code_simp
  from seeding_is_idempotent [OF this refl] show ?thesis by blast
qed

section \<open>The default matrix\<close>

definition seeded_row :: "nat \<Rightarrow> model_draft \<Rightarrow> registry_row" where
  "seeded_row i d =
     \<lparr>r_id = i, r_draft = d, r_status = ''active'', r_smoke_status = ''ok'', r_smoke_detail = None, r_smoke_latency_ms = None\<rparr>"

lemma put_model_wf:
  assumes "table_wf (sx_models db)" "row_wf (seeded_row 0 d)"
  shows "table_wf (sx_models (put_model d db))"
proof -
  have "row_wf (seeded_row i d)" for i using assms(2) by (simp add: row_wf_def seeded_row_def)
  then show ?thesis
    using assms(1) by (auto simp: table_wf_def put_model_def insert_new_def seeded_row_def Let_def less_Suc_eq)
qed

lemma fold_models_wf:
  "table_wf (sx_models db) \<Longrightarrow> list_all (\<lambda>d. row_wf (seeded_row 0 d)) ds \<Longrightarrow> table_wf (sx_models (fold put_model ds db))"
  by (induction ds arbitrary: db) (simp_all add: put_model_wf)

lemma default_models_wf: "list_all (\<lambda>d. row_wf (seeded_row 0 d)) default_models"
  by code_simp

lemma fold_models_rows:
  assumes "distinct (map d_name ds)" "list_all (\<lambda>d. \<not> has_model (d_name d) db) ds"
  shows "map (\<lambda>r. (r_draft r, r_status r)) (mt_rows (sx_models (fold put_model ds db))) =
     map (\<lambda>r. (r_draft r, r_status r)) (mt_rows (sx_models db)) @ map (\<lambda>d. (d, ''active'')) ds"
  using assms
proof (induction ds arbitrary: db)
  case (Cons d ds)
  have "has_model n (put_model d db) \<longleftrightarrow> n = d_name d \<or> has_model n db" for n
    by (auto simp: has_model_def put_model_def Let_def)
  with Cons.prems have "list_all (\<lambda>x. \<not> has_model (d_name x) (put_model d db)) ds"
    by (simp add: list_all_iff) (metis image_eqI)
  with Cons show ?case by (auto simp: put_model_def insert_new_def has_model_def Let_def)
qed simp

definition draft_row :: "model_draft \<Rightarrow> model_row" where
  "draft_row d = as_model_row (seeded_row 0 d)"

lemma as_model_row_draft: "as_model_row = draft_row \<circ> r_draft"
  by (rule ext) (simp add: as_model_row_def draft_row_def seeded_row_def)

lemma load_active_drafts:
  "load_active_models t =
     annotate_roles (map (draft_row \<circ> fst) (filter (\<lambda>(d, st). st \<in> {''active'', ''degraded''}) (map (\<lambda>r. (r_draft r, r_status r)) (mt_rows t))))"
  by (simp add: load_active_models_def filter_map o_def as_model_row_draft)

lemma put_others_models:
  "sx_models (put_department n db) = sx_models db" "sx_models (put_user u h s db) = sx_models db"
  "sx_models (put_collection dept c sens r p db) = sx_models db"
  "sx_models (put_demo_agent n dep st sens cache ctx cids db) = sx_models db"
  "sx_models (upsert_demo_agent n dep st sens cache ctx cids db) = sx_models db"
  "sx_models (put_case a i payload db) = sx_models db"
  "sx_models (put_demo ago depts k db) = sx_models db"
  by (simp_all add: put_defs upsert_demo_agent_def put_demo_def)

definition keeps_models :: "seed_step \<Rightarrow> bool" where
  "keeps_models s \<longleftrightarrow> (\<forall>db. sx_models (snd (s db)) = sx_models db)"

lemma transaction_models: "(\<And>db db'. f db = Inr db' \<Longrightarrow> sx_models db' = sx_models db) \<Longrightarrow> keeps_models (transaction f)"
  by (simp add: keeps_models_def transaction_def split: sum.split)

lemma import_models: "import_lines agent ls db = Inr db' \<Longrightarrow> sx_models db' = sx_models db"
  by (induction agent ls db rule: import_lines.induct)
    (auto simp: put_others_models split: if_splits option.splits sum.splits)

lemma datasets_models: "import_datasets ds db = Inr db' \<Longrightarrow> sx_models db' = sx_models db"
  by (induction ds db rule: import_datasets.induct) (auto dest: import_models)

lemma fold_demo_models: "sx_models (fold (put_demo ago depts) is db) = sx_models db"
  by (induction "is" arbitrary: db) (simp_all add: put_others_models)

lemma fold_departments_models: "sx_models (fold put_department ns db) = sx_models db"
  by (induction ns arbitrary: db) (simp_all add: put_others_models)

lemma steps_keep_models:
  "keeps_models seed_support_copilot" "keeps_models (seed_plain_agent dept n sens ctx)" "keeps_models seed_hr_agents"
  "keeps_models (seed_with_collection dept coll policy n sens)" "keeps_models seed_automation_recipe_agent"
  "keeps_models (seed_eval_cases ds)" "keeps_models (seed_observability_demo ago)"
  unfolding seed_support_copilot_def seed_plain_agent_def seed_hr_agents_def seed_with_collection_def
    seed_automation_recipe_agent_def seed_eval_cases_def seed_observability_demo_def
  by (rule transaction_models; auto simp: put_others_models fold_demo_models Let_def dest: datasets_models split: if_splits)+

lemma run_all_models: "list_all keeps_models ss \<Longrightarrow> sx_models (snd (run_all ss db)) = sx_models db"
proof (induction ss arbitrary: db)
  case (Cons s ss)
  obtain r d where s: "s db = (r, d)" by fastforce
  with Cons.prems have "sx_models d = sx_models db" by (simp add: keeps_models_def) (metis snd_conv)
  with Cons s show ?case by (cases r) simp_all
qed simp

lemma seed_main_models: "sx_models (snd (seed_main ago ds db)) = sx_models (snd (seed db))"
proof -
  have rest: "seed_main ago ds db = run_all (seed # tl (core_parts ds @ [seed_observability_demo ago])) db"
    unfolding seed_main_split core_parts_def by (simp only: list.sel append.simps)
  have "list_all keeps_models (tl (core_parts ds @ [seed_observability_demo ago]))"
    unfolding core_parts_def plain_agent_defs append.simps list.sel list.pred_inject by (simp add: steps_keep_models)
  from run_all_models [OF this] have later: "sx_models (snd (run_all (tl (core_parts ds @ [seed_observability_demo ago])) d)) = sx_models d" for d .
  obtain d where "seed db = (Inr (), d)" by (simp add: seed_def transaction_def)
  with later show ?thesis unfolding rest by simp
qed

lemma seed_models: "sx_models (snd (seed db)) = sx_models (fold put_model default_models (put_user ''seed-admin'' ''hash-admin'' ''Seed Admin'' (fold put_department departments db)))"
  by (simp add: seed_def transaction_def)

definition routed :: "seed_db \<Rightarrow> string \<Rightarrow> string \<Rightarrow> string option" where
  "routed db role sens =
     (case select_model (load_active_models (sx_models db)) role (Name sens) False of Inl _ \<Rightarrow> None | Inr m \<Rightarrow> Some (m_name m))"

definition matrix_routes :: "model_row list \<Rightarrow> (string \<times> string \<times> string option) list" where
  "matrix_routes ms =
     concat (map (\<lambda>role. map (\<lambda>sens. (role, sens,
        case select_model ms role (Name sens) False of Inl _ \<Rightarrow> None | Inr m \<Rightarrow> Some (m_name m))) valid_sensitivity)
       [''reasoning'', ''utility'', ''embeddings''])"

lemma default_matrix_routes:
  "matrix_routes (annotate_roles (map draft_row default_models)) =
     [(''reasoning'', ''public'', Some ''reasoning''), (''reasoning'', ''internal'', Some ''reasoning''),
      (''reasoning'', ''confidential'', Some ''local-reasoning''), (''reasoning'', ''pii'', Some ''local-reasoning''),
      (''utility'', ''public'', Some ''utility''), (''utility'', ''internal'', Some ''utility''),
      (''utility'', ''confidential'', None), (''utility'', ''pii'', None),
      (''embeddings'', ''public'', Some ''embeddings''), (''embeddings'', ''internal'', Some ''embeddings''),
      (''embeddings'', ''confidential'', Some ''local-embeddings''), (''embeddings'', ''pii'', Some ''local-embeddings'')]"
  by code_simp

text \<open>
  What a seeding does to the registry. It keeps the registry invariant on every database, and where no model was
  registered, the gateway afterwards serves public and internal requests of every role from the cloud, confidential and
  PII reasoning and embeddings from the local models, and refuses confidential and PII requests for the utility role.
\<close>

theorem seeded_registry_routes:
  assumes "table_wf (sx_models db)" "db' = snd (seed_main ago ds db)"
  shows "table_wf (sx_models db') \<and>
    (if mt_rows (sx_models db) = []
     then list_all (\<lambda>role. routed db' role ''public'' = Some role \<and> routed db' role ''internal'' = Some role) [''reasoning'', ''utility'', ''embeddings''] \<and>
          list_all (\<lambda>sens. routed db' ''reasoning'' sens = Some ''local-reasoning'' \<and> routed db' ''embeddings'' sens = Some ''local-embeddings'' \<and>
            routed db' ''utility'' sens = None) [''confidential'', ''pii'']
     else True)"
proof (intro conjI)
  let ?d = "put_user ''seed-admin'' ''hash-admin'' ''Seed Admin'' (fold put_department departments db)"
  have m: "sx_models db' = sx_models (fold put_model default_models ?d)" by (simp add: assms(2) seed_main_models seed_models)
  have d: "sx_models ?d = sx_models db" by (simp add: put_others_models fold_departments_models)
  show "table_wf (sx_models db')" unfolding m using assms(1) d default_models_wf by (simp add: fold_models_wf)
  show "if mt_rows (sx_models db) = []
     then list_all (\<lambda>role. routed db' role ''public'' = Some role \<and> routed db' role ''internal'' = Some role) [''reasoning'', ''utility'', ''embeddings''] \<and>
          list_all (\<lambda>sens. routed db' ''reasoning'' sens = Some ''local-reasoning'' \<and> routed db' ''embeddings'' sens = Some ''local-embeddings'' \<and>
            routed db' ''utility'' sens = None) [''confidential'', ''pii'']
     else True"
  proof (cases "mt_rows (sx_models db) = []")
    case True
    have "distinct (map d_name default_models)" by code_simp
    moreover have "list_all (\<lambda>x. \<not> has_model (d_name x) ?d) default_models" using True d by (simp add: has_model_def list_all_iff)
    ultimately have "map (\<lambda>r. (r_draft r, r_status r)) (mt_rows (sx_models db')) = map (\<lambda>d. (d, ''active'')) default_models"
      unfolding m using fold_models_rows [of default_models ?d] d True by simp
    then have rows: "load_active_models (sx_models db') = annotate_roles (map draft_row default_models)"
      unfolding load_active_drafts by (simp add: filter_map o_def)
    note routes = default_matrix_routes [unfolded rows [symmetric] matrix_routes_def valid_sensitivity_def list.map concat.simps append.simps
        list.inject prod.inject]
    from routes show ?thesis unfolding routed_def using True by simp
  qed simp
qed

lemma seeded_registry_routes_witness:
  "routed (snd (seed_main demo_ago [] empty_seed)) ''embeddings'' ''pii'' = Some ''local-embeddings''"
proof -
  have "table_wf (sx_models empty_seed)" by (simp add: empty_seed_def table_wf_def)
  from seeded_registry_routes [OF this refl, of demo_ago "[]"] show ?thesis by (simp add: empty_seed_def)
qed

section \<open>The demonstration data\<close>

text \<open>Every demonstration row is a positive spend of a real department, so the budgets of the departments count it.\<close>

lemma seeded_spend_counts:
  assumes "depts \<noteq> []"
  shows "0 < l_cost_usd (seeded_spend depts i) \<and> l_dept_id (seeded_spend depts i) \<in> (\<lambda>d. Some (nat_str d)) ` set depts"
proof -
  have "0 < (of_nat (400 + (i * 17) mod 600) * (3/10000) + of_nat (150 + (i * 11) mod 300) * (6/10000) :: rat)"
    by (intro add_pos_nonneg mult_pos_pos mult_nonneg_nonneg) auto
  with assms show ?thesis by (simp add: seeded_spend_def Let_def)
qed

text \<open>The fixture views fit together: orders name sales, bands contain their medians, and comparables lie in their band.\<close>

lemma fixtures_fit:
  "list_all (\<lambda>(_, sale, quantity, _). sale \<in> fst ` set fixture_sales \<and> 1 \<le> quantity \<and> quantity \<le> 5) fixture_orders"
  "list_all (\<lambda>(_, low, high, med). low \<le> med \<and> med \<le> high) fixture_price_index"
  "list_all (\<lambda>(seg, price). case map_of fixture_price_index seg of None \<Rightarrow> False | Some (low, high, _) \<Rightarrow> low \<le> price \<and> price \<le> high)
     fixture_comparables"
  "map (\<lambda>(seg, _, _, med). (seg, med)) fixture_price_index = map (\<lambda>(seg, avg, _). (seg, avg)) fixture_index_monthly"
proof -
  have "fst ` set fixture_sales = {1..<501}" by (auto simp: fixture_sales_def image_image)
  then show "list_all (\<lambda>(_, sale, quantity, _). sale \<in> fst ` set fixture_sales \<and> 1 \<le> quantity \<and> quantity \<le> 5) fixture_orders"
    by (auto simp: fixture_orders_def list_all_iff)
qed (simp_all add: fixture_price_index_def fixture_comparables_def fixture_index_monthly_def)

end
