(* ===== verification/Rag_Seed.thy ===== *)
theory Rag_Seed
  imports Rag_Documents Seed_Data
begin

text \<open>
  The seeding of the demonstration knowledge bases (\<open>apps/rag/fleet_rag/seed_docs.py\<close>): each fixture file is stored, gets
  a row in its collection unless its content has one there, and goes through the worker's \<open>ingest_document\<close>. The files,
  their digest, the clock, the object store and what ingestion meets are parameters.
\<close>

datatype seed_call =
    Store_Object string string
  | By_Ingest string ingest_call

record seed_env =
  sv_sha :: "string \<Rightarrow> string"
  sv_store :: "string \<Rightarrow> unit res"
  sv_fetch :: "string \<Rightarrow> string \<Rightarrow> string res"
  sv_ingest :: ingest_env
  sv_now :: int

text \<open>The file name of a target is the last component of its path; the playbooks are found by a sorted glob.\<close>

definition doc_targets :: "string list \<Rightarrow> (string \<times> string) list" where
  "doc_targets playbooks =
     [(''trink-sat-process.txt'', ''cs-help-center''), (''membership-and-payments.txt'', ''cs-help-center''),
      (''listing-quality-sop.txt'', ''cs-procedures''), (''onboarding-process.txt'', ''hr-policies''),
      (''leave-and-benefits-policy.txt'', ''hr-policies'')]
     @ map (\<lambda>p. (p, ''legal-playbooks'')) playbooks"

definition collection_policy :: "string \<Rightarrow> string \<times> string" where
  "collection_policy coll =
     (if coll = ''legal-playbooks'' then (''confidential'', ''allow-local-only'') else (''internal'', ''redact''))"

definition seeded_collection_id :: "string \<Rightarrow> rag_db \<Rightarrow> nat res" where
  "seeded_collection_id coll db =
     (case find (\<lambda>c. co_name c = coll) (rg_collections db) of
        None \<Rightarrow> Inl (OtherError ''RuntimeError'') | Some c \<Rightarrow> Inr (co_id c))"

definition upsert_document :: "int \<Rightarrow> nat \<Rightarrow> string \<Rightarrow> string \<Rightarrow> rag_db \<Rightarrow> nat \<times> rag_db" where
  "upsert_document now cid uri digest db =
     (case find_upload cid digest db of
        Some d \<Rightarrow> (dc_id d, db)
      | None \<Rightarrow>
          (rg_next_document db,
           db\<lparr>rg_documents := rg_documents db @
                [\<lparr>dc_id = rg_next_document db, dc_collection = cid, dc_uri = uri, dc_sha = digest, dc_ocr_status = ''pending'',
                  dc_status = ''queued'', dc_subject_hash = None, dc_created_at = now\<rparr>],
              rg_next_document := Suc (rg_next_document db)\<rparr>))"

definition seed_doc ::
  "seed_env \<Rightarrow> (string \<Rightarrow> string res) \<Rightarrow> string \<times> string \<Rightarrow> rag_db \<Rightarrow> seed_call list \<times> unit res \<times> rag_db" where
  "seed_doc env files t db =
     (case t of (filename, coll) \<Rightarrow>
       (case res_bind (files filename) (\<lambda>data. res_bind (seeded_collection_id coll db) (\<lambda>cid. Inr (data, cid))) of
          Inl e \<Rightarrow> ([], Inl e, db)
        | Inr (data, cid) \<Rightarrow>
            (let key = nat_str cid @ ''/'' @ filename; put = Store_Object key data in
             case sv_store env key of
               Inl e \<Rightarrow> ([put], Inl e, db)
             | Inr _ \<Rightarrow>
                 (let (doc, db1) = upsert_document (sv_now env) cid key (sv_sha env data) db;
                      (sens, pol) = collection_policy coll;
                      (calls, out, db2) = ingest_document (sv_ingest env) (sv_fetch env key data) doc cid filename sens pol db1
                  in (put # map (By_Ingest coll) calls, res_bind out (\<lambda>_. Inr ()), db2)))))"

fun seed_docs ::
  "seed_env \<Rightarrow> (string \<Rightarrow> string res) \<Rightarrow> (string \<times> string) list \<Rightarrow> rag_db \<Rightarrow> seed_call list \<times> unit res \<times> rag_db" where
  "seed_docs env files [] db = ([], Inr (), db)"
| "seed_docs env files (t # ts) db =
     (case seed_doc env files t db of
        (calls, Inl e, db1) \<Rightarrow> (calls, Inl e, db1)
      | (calls, Inr _, db1) \<Rightarrow>
          (case seed_docs env files ts db1 of (calls', r, db2) \<Rightarrow> (calls @ calls', r, db2)))"

section \<open>Which model embeds the documents\<close>












section \<open>Seeding twice\<close>

definition doc_key :: "document_row \<Rightarrow> nat \<times> nat \<times> string \<times> string" where
  "doc_key d = (dc_id d, dc_collection d, dc_uri d, dc_sha d)"

abbreviation doc_keys :: "rag_db \<Rightarrow> (nat \<times> nat \<times> string \<times> string) list" where
  "doc_keys db \<equiv> map doc_key (rg_documents db)"

lemma update_status_keys [simp]:
  "doc_keys (update_document_status doc s o' db) = doc_keys db" "rg_collections (update_document_status doc s o' db) = rg_collections db"
  by (simp_all add: update_document_status_def doc_key_def)

lemma record_chunks_other [simp]:
  "rg_documents (record_chunks doc cs db) = rg_documents db" "rg_collections (record_chunks doc cs db) = rg_collections db"
  by (induction cs arbitrary: db) (simp_all add: record_chunks_simps insert_chunk_def)

lemma ingest_document_keys:
  "ingest_document env object doc cid filename sens pol db = (calls, out, db') \<Longrightarrow>
     doc_keys db' = doc_keys db \<and> rg_collections db' = rg_collections db"
  by (auto simp: ingest_document_def split: sum.splits prod.splits if_splits)

definition stored_upload :: "nat \<Rightarrow> string \<Rightarrow> rag_db \<Rightarrow> bool" where
  "stored_upload cid digest db \<longleftrightarrow> (\<exists>i u. (i, cid, u, digest) \<in> set (doc_keys db))"

lemma find_upload_stored: "stored_upload cid digest db \<longleftrightarrow> find_upload cid digest db \<noteq> None"
  by (force simp: stored_upload_def find_upload_def find_None_iff doc_key_def)

lemma upsert_keys:
  assumes "upsert_document now cid uri digest db = (i, db')"
  shows "set (doc_keys db) \<subseteq> set (doc_keys db') \<and> stored_upload cid digest db' \<and> rg_collections db' = rg_collections db \<and>
     (stored_upload cid digest db \<longrightarrow> doc_keys db' = doc_keys db)"
proof (cases "find_upload cid digest db")
  case None
  with assms have "(rg_next_document db, cid, uri, digest) \<in> set (doc_keys db')" by (auto simp: upsert_document_def doc_key_def)
  then have "stored_upload cid digest db'" unfolding stored_upload_def by blast
  with None assms show ?thesis by (auto simp: upsert_document_def find_upload_stored)
next
  case (Some d)
  with assms show ?thesis by (simp add: upsert_document_def find_upload_stored)
qed

definition seeded_target :: "(string \<Rightarrow> string) \<Rightarrow> (string \<Rightarrow> string res) \<Rightarrow> string \<times> string \<Rightarrow> rag_db \<Rightarrow> bool" where
  "seeded_target sha files t db =
     (case t of (filename, coll) \<Rightarrow>
        (case (files filename, seeded_collection_id coll db) of
           (Inr data, Inr cid) \<Rightarrow> stored_upload cid (sha data) db
         | _ \<Rightarrow> True))"

lemma stored_upload_keys: "set (doc_keys db) \<subseteq> set (doc_keys db') \<Longrightarrow> stored_upload cid digest db \<Longrightarrow> stored_upload cid digest db'"
  unfolding stored_upload_def by blast

lemma seeded_target_mono:
  "seeded_target sha files t db \<Longrightarrow> set (doc_keys db) \<subseteq> set (doc_keys db') \<Longrightarrow> rg_collections db' = rg_collections db \<Longrightarrow>
     seeded_target sha files t db'"
  using stored_upload_keys [of db db'] unfolding seeded_target_def seeded_collection_id_def
  by (simp split: prod.splits sum.splits option.splits)

lemma seed_doc_keys:
  assumes "seed_doc env files t db = (calls, r, db')"
  shows "set (doc_keys db) \<subseteq> set (doc_keys db') \<and> rg_collections db' = rg_collections db \<and>
     (r = Inr () \<longrightarrow> seeded_target (sv_sha env) files t db') \<and>
     (seeded_target (sv_sha env) files t db \<longrightarrow> doc_keys db' = doc_keys db)"
proof -
  obtain filename coll where t: "t = (filename, coll)" by (cases t)
  show ?thesis
  proof (cases "res_bind (files filename) (\<lambda>data. res_bind (seeded_collection_id coll db) (\<lambda>cid. Inr (data, cid)))")
    case (Inl e)
    with assms t show ?thesis by (auto simp: seed_doc_def)
  next
    case (Inr dc)
    then obtain data cid where dc: "dc = (data, cid)" "files filename = Inr data" "seeded_collection_id coll db = Inr cid"
      by (cases dc) auto
    let ?key = "nat_str cid @ ''/'' @ filename"
    have tgt: "seeded_target (sv_sha env) files t x \<longleftrightarrow> stored_upload cid (sv_sha env data) x" if "rg_collections x = rg_collections db" for x
      using dc t that by (simp add: seeded_target_def seeded_collection_id_def)
    show ?thesis
    proof (cases "sv_store env ?key")
      case (Inl e)
      with assms t Inr dc show ?thesis by (auto simp: seed_doc_def Let_def)
    next
      case st: (Inr u)
      obtain i db1 where up: "upsert_document (sv_now env) cid ?key (sv_sha env data) db = (i, db1)"
        by (cases "upsert_document (sv_now env) cid ?key (sv_sha env data) db")
      obtain sens pol where cp: "collection_policy coll = (sens, pol)" by (cases "collection_policy coll")
      obtain cs out db2 where ing: "ingest_document (sv_ingest env) (sv_fetch env ?key data) i cid filename sens pol db1 = (cs, out, db2)"
        by (cases "ingest_document (sv_ingest env) (sv_fetch env ?key data) i cid filename sens pol db1")
      have "db' = db2" using assms t Inr dc st up cp ing by (simp add: seed_doc_def Let_def)
      moreover note upsert_keys [OF up] ingest_document_keys [OF ing]
      ultimately have k: "set (doc_keys db) \<subseteq> set (doc_keys db')" "rg_collections db' = rg_collections db"
        "stored_upload cid (sv_sha env data) db'" "stored_upload cid (sv_sha env data) db \<Longrightarrow> doc_keys db' = doc_keys db"
        unfolding stored_upload_def by simp_all
      then show ?thesis by (simp add: tgt)
    qed
  qed
qed

lemma seed_docs_keys:
  assumes "seed_docs env files ts db = (calls, r, db')"
  shows "set (doc_keys db) \<subseteq> set (doc_keys db') \<and> rg_collections db' = rg_collections db \<and>
     (r = Inr () \<longrightarrow> list_all (\<lambda>t. seeded_target (sv_sha env) files t db') ts) \<and>
     (list_all (\<lambda>t. seeded_target (sv_sha env) files t db) ts \<longrightarrow> doc_keys db' = doc_keys db)"
  using assms
proof (induction ts arbitrary: db calls r db')
  case (Cons t ts)
  obtain cs r1 db1 where d: "seed_doc env files t db = (cs, r1, db1)" by (cases "seed_doc env files t db")
  note one = seed_doc_keys [OF d]
  show ?case
  proof (cases r1)
    case (Inl e)
    with Cons.prems d one show ?thesis by auto
  next
    case (Inr u)
    obtain cs' r2 db2 where s: "seed_docs env files ts db1 = (cs', r2, db2)" by (cases "seed_docs env files ts db1")
    have out: "db' = db2" "r = r2" using Cons.prems d Inr s by simp_all
    note rest = Cons.IH [OF s]
    have "seeded_target (sv_sha env) files t db1" using one Inr by simp
    from seeded_target_mono [OF this] have t: "seeded_target (sv_sha env) files t db'" using rest out by simp
    have same: "doc_keys db' = doc_keys db" if "list_all (\<lambda>t. seeded_target (sv_sha env) files t db) (t # ts)"
    proof -
      from that one have k: "doc_keys db1 = doc_keys db" by simp
      have "list_all (\<lambda>t. seeded_target (sv_sha env) files t db1) ts"
        using that k one by (auto simp: list_all_iff intro: seeded_target_mono [of _ _ _ db])
      with rest k out show ?thesis by simp
    qed
    from one rest out t same show ?thesis by auto
  qed
qed simp

text \<open>
  Seeding the knowledge bases again adds no document: after a run that got through, another one with the
  same files, whatever the services answer this time, leaves the ids, collections, objects and digests of all document
  rows as they are.
\<close>

theorem reseeding_adds_no_document:
  assumes "seed_docs env files ts db = (calls, Inr (), db1)" "sv_sha env' = sv_sha env"
    and "seed_docs env' files ts db1 = (calls', r, db2)"
  shows "doc_keys db2 = doc_keys db1"
  using seed_docs_keys [OF assms(1)] seed_docs_keys [OF assms(3)] assms(2) by simp

text \<open>
  A fixture that has changed since becomes a second document with the same object: the old row stays, its text stays
  retrievable, and deleting the old document removes the object of the new one.
\<close>

definition seed_demo :: "seed_env" where
  "seed_demo = \<lparr>sv_sha = id, sv_store = \<lambda>_. Inr (), sv_fetch = \<lambda>_ data. Inr data, sv_ingest = Rag_Ingest.demo_env, sv_now = 0\<rparr>"

definition seed_demo_db :: rag_db where
  "seed_demo_db =
     \<lparr>rg_collections = [\<lparr>co_id = 7, co_name = ''hr-policies'', co_dept = None, co_sensitivity = ''internal'', co_pii_policy = ''redact'',
        co_retention_days = None\<rparr>], rg_documents = [], rg_chunks = [], rg_next_collection = 8, rg_next_document = 1\<rparr>"

lemma changed_file_keeps_old_document:
  "let run = \<lambda>content db. snd (snd (seed_docs seed_demo (\<lambda>_. Inr content) [(''leave.txt'', ''hr-policies'')] db));
       db = run ''fifteen'' (run ''twenty'' seed_demo_db)
   in map (\<lambda>d. (dc_id d, dc_uri d, dc_sha d)) (rg_documents db) =
        [(1, ''7/leave.txt'', ''twenty''), (2, ''7/leave.txt'', ''fifteen'')] \<and>
      map ch_document (rg_chunks db) = [1, 2]"
  by code_simp

lemma reseeding_adds_no_document_witness:
  "\<exists>calls r db1 calls' r' db2. seed_docs seed_demo (\<lambda>_. Inr ''twenty'') [(''leave.txt'', ''hr-policies'')] seed_demo_db = (calls, r, db1) \<and>
     seed_docs seed_demo (\<lambda>_. Inr ''twenty'') [(''leave.txt'', ''hr-policies'')] db1 = (calls', r', db2) \<and>
     doc_keys db2 = doc_keys db1 \<and> length (rg_documents db1) = 1"
proof -
  let ?run = "seed_docs seed_demo (\<lambda>_. Inr ''twenty'') [(''leave.txt'', ''hr-policies'')]"
  have ok: "fst (snd (?run seed_demo_db)) = Inr ()" and l: "length (rg_documents (snd (snd (?run seed_demo_db)))) = 1"
    by (code_simp, code_simp)
  from ok obtain calls db1 where one: "?run seed_demo_db = (calls, Inr (), db1)" by (cases "?run seed_demo_db") auto
  obtain calls' r db2 where two: "?run db1 = (calls', r, db2)" by (cases "?run db1")
  from reseeding_adds_no_document [OF one refl two] one two l show ?thesis by auto
qed

end
