(* ===== verification/Py_Base64.thy ===== *)
theory Py_Base64
  imports Py_Strings
begin

text \<open>
  \<open>base64.b64encode\<close> of the UTF-8 encoding of a text, with the decoder of the receiving side and the proof that it
  reads the text back. A character is a code point below 256.
\<close>

definition utf8_char :: "char \<Rightarrow> nat list" where
  "utf8_char c = (let n = of_char c in if n < 128 then [n] else [192 + n div 64, 128 + n mod 64])"

definition utf8 :: "string \<Rightarrow> nat list" where
  "utf8 s = concat (map utf8_char s)"

definition b64_digit :: "nat \<Rightarrow> char" where
  "b64_digit n =
     (if n < 26 then char_of (65 + n) else if n < 52 then char_of (71 + n) else if n < 62 then char_of (n - 4)
      else if n = 62 then CHR ''+'' else CHR ''/'')"

fun b64_encode :: "nat list \<Rightarrow> string" where
  "b64_encode [] = []"
| "b64_encode [a] = [b64_digit (a div 4), b64_digit (a mod 4 * 16), CHR ''='', CHR ''='']"
| "b64_encode [a, b] =
     [b64_digit (a div 4), b64_digit (a mod 4 * 16 + b div 16), b64_digit (b mod 16 * 4), CHR ''='']"
| "b64_encode (a # b # c # bs) =
     b64_digit (a div 4) # b64_digit (a mod 4 * 16 + b div 16) # b64_digit (b mod 16 * 4 + c div 64) # b64_digit (c mod 64) #
     b64_encode bs"

definition b64_value :: "char \<Rightarrow> nat" where
  "b64_value c =
     (let n = of_char c in
      if 65 \<le> n \<and> n \<le> 90 then n - 65 else if 97 \<le> n \<and> n \<le> 122 then n - 71 else if 48 \<le> n \<and> n \<le> 57 then n + 4
      else if n = 43 then 62 else 63)"

fun b64_decode :: "string \<Rightarrow> nat list" where
  "b64_decode (p # q # r # s # rest) =
     (let a = b64_value p * 4 + b64_value q div 16; b = b64_value q mod 16 * 16 + b64_value r div 4;
          c = b64_value r mod 4 * 64 + b64_value s
      in if s \<noteq> CHR ''='' then a # b # c # b64_decode rest else if r \<noteq> CHR ''='' then [a, b] else [a])"
| "b64_decode _ = []"

fun utf8_decode :: "nat list \<Rightarrow> string" where
  "utf8_decode [] = []"
| "utf8_decode (a # bs) =
     (if a < 128 then char_of a # utf8_decode bs
      else (case bs of b # cs \<Rightarrow> char_of ((a - 192) * 64 + (b - 128)) # utf8_decode cs | [] \<Rightarrow> []))"

lemma b64_digit_value [simp]: "n < 64 \<Longrightarrow> b64_value (b64_digit n) = n"
  by (auto simp: b64_digit_def b64_value_def Let_def)

lemma b64_digit_not_pad [simp]: "n < 64 \<Longrightarrow> b64_digit n \<noteq> CHR ''=''"
proof
  assume n: "n < 64" "b64_digit n = CHR ''=''"
  then have "(of_char (b64_digit n) :: nat) = 61" by simp
  with n(1) show False by (auto simp: b64_digit_def split: if_splits)
qed

text \<open>The six-bit digits of bytes, and the bytes of the digits.\<close>

lemma high_bits [simp]:
  fixes b :: nat
  assumes "b < 256"
  shows "b div 4 < 64" "b div 16 < 16" "b div 64 < 4" "b div 16 div 16 = 0" "b div 16 mod 16 = b div 16"
    "b div 64 div 4 = 0" "b div 64 mod 4 = b div 64"
  using assms by simp_all

lemma sextets [simp]:
  fixes a b :: nat
  shows "a mod 4 * 16 < 64" "b < 256 \<Longrightarrow> a mod 4 * 16 + b div 16 < 64" "b mod 16 * 4 < 64"
    "b < 256 \<Longrightarrow> a mod 16 * 4 + b div 64 < 64" "a mod 64 < 64"
proof -
  have m: "a mod 4 \<le> 3" "a mod 16 \<le> 15" "b mod 16 \<le> 15" using mod_less_divisor [of 4 a] mod_less_divisor [of 16 a] mod_less_divisor [of 16 b]
    by linarith+
  then show "a mod 4 * 16 < 64" "b mod 16 * 4 < 64" "a mod 64 < 64" by auto
  show "a mod 4 * 16 + b div 16 < 64" if "b < 256" using m high_bits(2) [OF that] by linarith
  show "a mod 16 * 4 + b div 64 < 64" if "b < 256" using m high_bits(3) [OF that] by linarith
qed

lemma b64_round_trip: "list_all (\<lambda>b. b < 256) bs \<Longrightarrow> b64_decode (b64_encode bs) = bs"
  by (induction bs rule: b64_encode.induct) (simp_all add: Let_def)

lemma utf8_bytes: "list_all (\<lambda>b. b < 256) (utf8 s)"
proof -
  have "list_all (\<lambda>b. b < 256) (utf8_char c)" for c
  proof -
    have n: "(of_char c :: nat) < 256" by (rule nat_of_char_less_256)
    from high_bits(3) [OF n] have "192 + (of_char c :: nat) div 64 < 256" by linarith
    moreover have "128 + (of_char c :: nat) mod 64 < 256" using mod_less_divisor [of 64 "of_char c :: nat"] by linarith
    ultimately show ?thesis using n by (simp add: utf8_char_def Let_def)
  qed
  then show ?thesis by (auto simp: utf8_def list_all_iff)
qed

lemma utf8_round_trip: "utf8_decode (utf8 s) = s"
proof (induction s)
  case (Cons c s)
  have "(of_char c :: nat) div 64 * 64 + of_char c mod 64 = of_char c" by simp
  with Cons show ?case by (auto simp: utf8_def utf8_char_def Let_def)
qed (simp add: utf8_def)

definition b64_text :: "string \<Rightarrow> string" where
  "b64_text s = b64_encode (utf8 s)"

lemma b64_text_reads_back: "utf8_decode (b64_decode (b64_text s)) = s"
  by (simp add: b64_text_def b64_round_trip utf8_bytes utf8_round_trip)

end
