(* ===== verification/Rest_Backends.thy ===== *)
theory Rest_Backends
  imports Web_Client Py_Base64 Mcp_Tools Dev_Agent
begin

text \<open>
  The REST backends of two tool servers, \<open>RestGitHubBackend\<close> of \<open>apps/mcp/fleet_mcp/servers/github.py\<close> and
  \<open>RestJiraBackend\<close> of \<open>apps/mcp/fleet_mcp/servers/jira.py\<close>: the requests each operation sends, in order, and what it
  makes of the answers. GitHub and Jira are the parameter \<open>server\<close>. \<open>Mcp_Tools\<close> has the tools that guard them.
\<close>

section \<open>GitHub\<close>

record github_repo =
  gh_repo :: string
  gh_token :: string

definition github_call :: "github_repo \<Rightarrow> string \<Rightarrow> string \<Rightarrow> (string \<times> string) list \<Rightarrow> json option \<Rightarrow> web_call" where
  "github_call g m path params body =
     \<lparr>wc_method = m, wc_url = ''https://api.github.com/repos/'' @ gh_repo g @ path, wc_auth = [''Bearer '' @ gh_token g],
      wc_params = params, wc_body = body\<rparr>"

definition github_get :: "github_repo \<Rightarrow> string \<Rightarrow> web_call" where
  "github_get g path = github_call g ''GET'' path [] None"

text \<open>\<open>dict(resp.json())\<close> after \<open>raise_for_status\<close>.\<close>

definition web_dict :: "server \<Rightarrow> web_call \<Rightarrow> json web" where
  "web_dict server c = web_bind (web_json server c) (\<lambda>v. web_lift (as_dict v))"

definition rest_read_repo :: "server \<Rightarrow> github_repo \<Rightarrow> json web" where
  "rest_read_repo server g = web_dict server (github_get g [])"

definition ref_body :: "string \<Rightarrow> json \<Rightarrow> json" where
  "ref_body branch sha = JObj [(''ref'', JStr (''refs/heads/'' @ branch)), (''sha'', sha)]"

definition rest_create_branch :: "server \<Rightarrow> github_repo \<Rightarrow> string \<Rightarrow> string \<Rightarrow> json web" where
  "rest_create_branch server g branch from_ref =
     web_bind (web_json server (github_get g (''/git/ref/heads/'' @ from_ref))) (\<lambda>ref.
     web_bind (web_lift (res_bind (py_index ref ''object'') (\<lambda>obj. py_index obj ''sha''))) (\<lambda>sha.
     web_dict server (github_call g ''POST'' ''/git/refs'' [] (Some (ref_body branch sha)))))"

definition contents_body :: "string \<Rightarrow> string \<Rightarrow> string \<Rightarrow> (string \<times> json) list" where
  "contents_body branch content message =
     [(''message'', JStr message), (''content'', JStr (b64_text content)), (''branch'', JStr branch)]"

text \<open>The sha of the file that is already on the branch goes into the body; any other answer than 200 counts as no file.\<close>

definition rest_commit_file :: "server \<Rightarrow> github_repo \<Rightarrow> string \<Rightarrow> string \<Rightarrow> string \<Rightarrow> string \<Rightarrow> json web" where
  "rest_commit_file server g branch path content message =
     (let url = ''/contents/'' @ path; body = contents_body branch content message in
      web_bind (web_send server (github_call g ''GET'' url [(''ref'', branch)] None)) (\<lambda>existing.
      web_bind (web_lift (if wa_status existing = 200
                          then res_bind (answer_json existing) (\<lambda>v. res_bind (py_index v ''sha'') (\<lambda>sha. Inr (body @ [(''sha'', sha)])))
                          else Inr body)) (\<lambda>b.
      web_dict server (github_call g ''PUT'' url [] (Some (JObj b))))))"

definition pull_body :: "string \<Rightarrow> string \<Rightarrow> string \<Rightarrow> json \<Rightarrow> json" where
  "pull_body branch title body base =
     JObj [(''title'', JStr title), (''body'', JStr body), (''head'', JStr branch), (''base'', base)]"

definition rest_open_pr :: "server \<Rightarrow> github_repo \<Rightarrow> string \<Rightarrow> string \<Rightarrow> string \<Rightarrow> json web" where
  "rest_open_pr server g branch title body =
     web_bind (web_json server (github_get g [])) (\<lambda>repo.
     web_bind (web_lift (py_index repo ''default_branch'')) (\<lambda>base.
     web_dict server (github_call g ''POST'' ''/pulls'' [] (Some (pull_body branch title body base)))))"

text \<open>A tool call of \<open>GitHubTool\<close> on this backend: the guard first, then the backend's requests.\<close>

definition github_tool :: "server \<Rightarrow> github_repo \<Rightarrow> string \<Rightarrow> payload \<Rightarrow> json web" where
  "github_tool server g tool p =
     (let branch = arg_str p ''branch_name'' in
      if tool \<in> {''create_branch'', ''commit_file''} \<and> \<not> is_agent_branch branch
      then web_lift (Inl (OtherError ''BranchNamePatternError''))
      else if tool = ''create_branch'' then rest_create_branch server g branch (arg_str p ''from_ref'')
      else if tool = ''commit_file''
      then rest_commit_file server g branch (arg_str p ''path'') (arg_str p ''content'') (arg_str p ''message'')
      else if tool = ''open_pr'' then rest_open_pr server g branch (arg_str p ''title'') (arg_str p ''body'')
      else rest_read_repo server g)"


section \<open>Jira\<close>

record jira_site =
  js_base_url :: string
  js_email :: string
  js_token :: string

definition jira_call :: "jira_site \<Rightarrow> string \<Rightarrow> (string \<times> string) list \<Rightarrow> web_call" where
  "jira_call j path params =
     \<lparr>wc_method = ''GET'', wc_url = js_base_url j @ ''/rest/api/3/'' @ path, wc_auth = [js_email j, js_token j],
      wc_params = params, wc_body = None\<rparr>"

text \<open>\<open>list(v)\<close> of a parsed value.\<close>

definition as_list :: "json \<Rightarrow> json res" where
  "as_list v =
     (case v of
        JList xs \<Rightarrow> Inr (JList xs)
      | JObj kvs \<Rightarrow> Inr (JList (map (JStr \<circ> fst) kvs))
      | JStr s \<Rightarrow> Inr (JList (map (\<lambda>c. JStr [c]) s))
      | _ \<Rightarrow> Inl (TypeError ''not iterable''))"

definition rest_jira_search :: "server \<Rightarrow> jira_site \<Rightarrow> string \<Rightarrow> json web" where
  "rest_jira_search server j jql =
     web_bind (web_json server (jira_call j ''search'' [(''jql'', jql)])) (\<lambda>v.
       web_lift (res_bind (py_get (JList []) v ''issues'') as_list))"

definition rest_get_issue :: "server \<Rightarrow> jira_site \<Rightarrow> string \<Rightarrow> json web" where
  "rest_get_issue server j key =
     web_bind (web_send server (jira_call j (''issue/'' @ key) [])) (\<lambda>a.
       web_lift (if wa_status a = 404 then Inl (OtherError ''IssueNotFoundError'')
                 else res_bind (raise_for_status a) (\<lambda>_. res_bind (answer_json a) as_dict)))"

text \<open>\<open>build_default_backend\<close>: the site when all three variables are set and not empty, else the fixtures.\<close>

definition jira_backend :: "(string \<Rightarrow> string option) \<Rightarrow> jira_site option" where
  "jira_backend environ =
     (case (environ ''FLEET_JIRA_BASE_URL'', environ ''FLEET_JIRA_EMAIL'', environ ''FLEET_JIRA_API_TOKEN'') of
        (Some u, Some e, Some t) \<Rightarrow>
          (if u \<noteq> [] \<and> e \<noteq> [] \<and> t \<noteq> [] then Some \<lparr>js_base_url = u, js_email = e, js_token = t\<rparr> else None)
      | _ \<Rightarrow> None)"

section \<open>What reaches GitHub\<close>


text \<open>
  A request to the repository that reads, creates a ref for an agent branch, writes a file on an agent branch, or opens
  a pull request.
\<close>

definition body_field :: "web_call \<Rightarrow> string \<Rightarrow> json option" where
  "body_field c k = (case wc_body c of Some (JObj kvs) \<Rightarrow> map_of kvs k | _ \<Rightarrow> None)"


lemma github_call_sel [simp]:
  "wc_method (github_call g m path ps b) = m" "wc_body (github_call g m path ps b) = b"
  "wc_url (github_call g m path ps b) = ''https://api.github.com/repos/'' @ gh_repo g @ path"
  by (simp_all add: github_call_def)

lemma in_repository [simp]: "startswith (''https://api.github.com/repos/'' @ gh_repo g @ path) (''https://api.github.com/repos/'' @ gh_repo g)"
  by (metis append_assoc startswith_append)

lemma endswith_append: "endswith (xs @ ys) ys"
  by (simp add: endswith_def startswith_def)

lemma ends_in_path [simp]: "endswith (''https://api.github.com/repos/'' @ gh_repo g @ path) path"
  by (metis append_assoc endswith_append)














text \<open>
  A commit that succeeds is one read of the path on the branch and one write of it, whose body names the
  branch and carries the content, so that the receiver decodes exactly the text the tool was given; the write names the
  sha of the file there is, and none when there is none.
\<close>

theorem commit_carries_content:
  assumes "rest_commit_file server g branch path content message [] = (Inr v, h)"
  shows "\<exists>a get put e. h = [get, put] \<and> server [get] = Inr a \<and> wc_method get = ''GET'' \<and> wc_method put = ''PUT'' \<and>
     wc_params get = [(''ref'', branch)] \<and> wc_url put = wc_url get \<and> body_field put ''branch'' = Some (JStr branch) \<and>
     body_field put ''content'' = Some (JStr e) \<and> utf8_decode (b64_decode e) = content \<and>
     (if wa_status a = 200 then \<exists>v sha. answer_json a = Inr v \<and> py_index v ''sha'' = Inr sha \<and> body_field put ''sha'' = Some sha
      else body_field put ''sha'' = None)"
proof -
  let ?get = "github_call g ''GET'' (''/contents/'' @ path) [(''ref'', branch)] None"
  let ?put = "\<lambda>b. github_call g ''PUT'' (''/contents/'' @ path) [] (Some (JObj b))"
  let ?body = "contents_body branch content message"
  from assms obtain a b where h: "h = [?get, ?put b]" and a: "server [?get] = Inr a"
    and b: "(if wa_status a = 200
             then res_bind (answer_json a) (\<lambda>v. res_bind (py_index v ''sha'') (\<lambda>sha. Inr (?body @ [(''sha'', sha)])))
             else Inr ?body) = Inr b"
    by (auto simp: rest_commit_file_def Let_def web_dict_def web_Inr simp del: res_bind_Inr_iff)
  have e: "body_field (?put b) ''branch'' = Some (JStr branch)" "body_field (?put b) ''content'' = Some (JStr (b64_text content))"
    using b by (auto simp: body_field_def contents_body_def split: if_splits)
  have s: "if wa_status a = 200 then \<exists>v sha. answer_json a = Inr v \<and> py_index v ''sha'' = Inr sha \<and> body_field (?put b) ''sha'' = Some sha
      else body_field (?put b) ''sha'' = None"
    using b by (auto simp: body_field_def contents_body_def split: if_splits)
  show ?thesis
    by (rule exI [of _ a], rule exI [of _ ?get], rule exI [of _ "?put b"], rule exI [of _ "b64_text content"])
      (intro conjI h a e s; simp add: b64_text_reads_back github_call_def del: append.simps)
qed

definition demo_repo :: github_repo where
  "demo_repo = \<lparr>gh_repo = ''trink/sandbox'', gh_token = ''t''\<rparr>"

text \<open>A repository that has no file yet and accepts the write.\<close>

definition demo_github :: server where
  "demo_github h =
     Inr (if wc_method (last h) = ''GET'' then \<lparr>wa_status = 404, wa_text = []\<rparr> else \<lparr>wa_status = 201, wa_text = ''{}''\<rparr>)"

lemma commit_carries_content_witness:
  "\<exists>put e. last (snd (rest_commit_file demo_github demo_repo ''agent/x'' ''notes.md'' ''hello'' ''m'' [])) = put \<and>
     body_field put ''content'' = Some (JStr e) \<and> utf8_decode (b64_decode e) = ''hello''"
proof -
  have "answer_json \<lparr>wa_status = 201, wa_text = ''{}''\<rparr> = Inr (JObj [])" by code_simp
  then have "\<exists>h. rest_commit_file demo_github demo_repo ''agent/x'' ''notes.md'' ''hello'' ''m'' [] = (Inr (JObj []), h)"
    by (simp add: rest_commit_file_def Let_def web_bind_def web_send_def web_lift_def web_dict_def web_json_def demo_github_def
        raise_for_status_def as_dict_def)
  then obtain h where r: "rest_commit_file demo_github demo_repo ''agent/x'' ''notes.md'' ''hello'' ''m'' [] = (Inr (JObj []), h)" ..
  from commit_carries_content [OF r] obtain get put e where "h = [get, put]" "body_field put ''content'' = Some (JStr e)"
    "utf8_decode (b64_decode e) = ''hello''" by blast
  with r show ?thesis by auto
qed

text \<open>What \<open>Mcp_Tools\<close> takes as the reply of the backend is the one of these requests.\<close>

lemma tool_answers:
  "fst (github_create_branch (fst (rest_create_branch server g (arg_str p ''branch_name'') (arg_str p ''from_ref'') h))
      (arg_str p ''branch_name'') (arg_str p ''from_ref'') w) = fst (github_tool server g ''create_branch'' p h)"
  "fst (github_commit_file (fst (rest_commit_file server g (arg_str p ''branch_name'') (arg_str p ''path'') (arg_str p ''content'')
      (arg_str p ''message'') h)) (arg_str p ''branch_name'') (arg_str p ''path'') w) = fst (github_tool server g ''commit_file'' p h)"
  by (simp_all add: github_create_branch_def github_commit_file_def github_tool_def on_success_def web_lift_def)

section \<open>Jira's answers\<close>

text \<open>
  Jira Cloud nests summary and labels of an issue under \<open>fields\<close>; the dev agent looks for \<open>labels\<close> in the ticket itself,
  so with the REST backend every ticket counts as not labelled.
\<close>

lemma cloud_ticket_is_refused:
  "assert_ticket_labeled (JObj [(''key'', JStr key), (''fields'', JObj [(''summary'', s), (''labels'', JList [JStr ''agent-ok''])])]) =
     Inl (OtherError ''TicketNotLabeledError'')"
  by (simp add: assert_ticket_labeled_def py_get_def dict_get_or_def py_in_def)

text \<open>A missing issue is told apart from every other failure.\<close>

lemma missing_issue:
  "server (h @ [jira_call j (''issue/'' @ key) []]) = Inr a \<Longrightarrow>
     fst (rest_get_issue server j key h) = Inl (OtherError ''IssueNotFoundError'') \<longleftrightarrow> wa_status a = 404"
  by (auto simp: rest_get_issue_def web_bind_def web_send_def web_lift_def raise_for_status_def answer_json_def as_dict_def
      split: option.splits json.splits list.splits)

end
