(* ===== verification/Trace_Redaction.thy ===== *)
theory Trace_Redaction
  imports Web_Client
begin

text \<open>
  The client of the tracing service (\<open>apps/runtime/core/langfuse_client.py\<close>): feedback scores and the redaction of a
  trace after the fact. Langfuse is the parameter \<open>server\<close>, the clock is \<open>now\<close>; the pauses between the reads are left out.
\<close>

record langfuse =
  lf_base_url :: string
  lf_public_key :: string
  lf_secret_key :: string

definition langfuse_call :: "langfuse \<Rightarrow> string \<Rightarrow> string \<Rightarrow> json option \<Rightarrow> web_call" where
  "langfuse_call lf m path body =
     \<lparr>wc_method = m, wc_url = trim_slashes (lf_base_url lf) @ ''/api/public/'' @ path,
      wc_auth = [lf_public_key lf, lf_secret_key lf], wc_params = [], wc_body = body\<rparr>"

definition push_score :: "server \<Rightarrow> langfuse \<Rightarrow> string \<Rightarrow> int \<Rightarrow> string option \<Rightarrow> unit web" where
  "push_score server lf trace_id score reason =
     web_bind (web_send server (langfuse_call lf ''POST'' ''scores'' (Some (JObj
         ([(''traceId'', JStr trace_id), (''name'', JStr ''user-feedback''), (''value'', JInt score)]
          @ (case reason of None \<Rightarrow> [] | Some r \<Rightarrow> [(''comment'', JStr r)]))))))
       (\<lambda>a. web_lift (raise_for_status a))"












section \<open>What reaches the tracing service\<close>





end
