(* ===== verification/Pricing_Sync.thy ===== *)
theory Pricing_Sync
  imports Py_Json
begin

text \<open>
  The price synchronisation of the gateway configuration (\<open>gateway/litellm/pricing_sync.py\<close>): the per-token prices of
  the model list are refreshed from a price map, and every model is reported as updated, unchanged, unresolved or
  invalid. The price map and the file are parameters; a missing key of a dict is \<open>None\<close>.
\<close>

section \<open>Entries and prices\<close>

record gateway_entry =
  ge_name :: string
  ge_model :: string
  ge_in :: "json option"
  ge_out :: "json option"

record source_price =
  sp_in :: "json option"
  sp_out :: "json option"

record sync_report =
  sr_updated :: "string list"
  sr_unchanged :: "string list"
  sr_unresolved :: "string list"
  sr_invalid :: "string list"

definition report_ok :: "sync_report \<Rightarrow> bool" where
  "report_ok r \<longleftrightarrow> sr_unresolved r = [] \<and> sr_invalid r = []"

definition local_lane :: "string \<Rightarrow> bool" where
  "local_lane model_id \<longleftrightarrow> startswith model_id ''ollama/'' \<or> startswith model_id ''vllm/''"

text \<open>The number in a value, a boolean being one; \<open>None\<close> for any other value.\<close>

definition number :: "json option \<Rightarrow> pyfloat option" where
  "number v =
     (case v of
        Some (JInt i) \<Rightarrow> Some (Fin (of_int i))
      | Some (JFloat f) \<Rightarrow> Some f
      | Some (JBool b) \<Rightarrow> Some (Fin (of_bool b))
      | _ \<Rightarrow> None)"

definition at_least_0 :: "pyfloat \<Rightarrow> bool" where
  "at_least_0 f \<longleftrightarrow> pf_less (Fin 0) f \<or> pf_eq f (Fin 0)"

definition valid_price :: "json option \<Rightarrow> bool" where
  "valid_price v \<longleftrightarrow>
     (case v of
        Some (JBool _) \<Rightarrow> False
      | _ \<Rightarrow> (case number v of None \<Rightarrow> False | Some f \<Rightarrow> at_least_0 f))"

text \<open>Python's equality of a stored value with a valid price.\<close>

definition same_price :: "json option \<Rightarrow> json option \<Rightarrow> bool" where
  "same_price v p \<longleftrightarrow> (case (number v, number p) of (Some a, Some b) \<Rightarrow> pf_eq a b | _ \<Rightarrow> False)"

definition zero_price :: json where
  "zero_price = JFloat (Fin 0)"

definition or_price :: "json option \<Rightarrow> json \<Rightarrow> json option" where
  "or_price v d = (case v of None \<Rightarrow> Some d | Some x \<Rightarrow> Some x)"

section \<open>The pass\<close>

datatype price_state = Updated | Unchanged | Unresolved | Invalid

definition sync_entry :: "(string \<Rightarrow> source_price option) \<Rightarrow> gateway_entry \<Rightarrow> gateway_entry \<times> price_state" where
  "sync_entry prices e =
     (case prices (ge_model e) of
        Some src \<Rightarrow>
          (let i = sp_in src; out = or_price (sp_out src) zero_price in
           if \<not> valid_price i \<or> \<not> valid_price out then (e, Invalid)
           else (e\<lparr>ge_in := i, ge_out := out\<rparr>,
                 if same_price (ge_in e) i \<and> same_price (ge_out e) out then Unchanged else Updated))
      | None \<Rightarrow>
          (if local_lane (ge_model e)
           then (e\<lparr>ge_in := or_price (ge_in e) zero_price, ge_out := or_price (ge_out e) zero_price\<rparr>, Unchanged)
           else if valid_price (ge_in e) \<and> \<not> same_price (ge_in e) (Some zero_price) then (e, Unchanged)
           else (e, Unresolved)))"

definition note_entry :: "gateway_entry \<times> price_state \<Rightarrow> sync_report \<Rightarrow> sync_report" where
  "note_entry es r =
     (case es of (e, st) \<Rightarrow>
        (case st of
           Updated \<Rightarrow> r\<lparr>sr_updated := sr_updated r @ [ge_name e]\<rparr>
         | Unchanged \<Rightarrow> r\<lparr>sr_unchanged := sr_unchanged r @ [ge_name e]\<rparr>
         | Unresolved \<Rightarrow> r\<lparr>sr_unresolved := sr_unresolved r @ [ge_name e]\<rparr>
         | Invalid \<Rightarrow> r\<lparr>sr_invalid := sr_invalid r @ [ge_name e]\<rparr>))"

definition empty_report :: sync_report where
  "empty_report = \<lparr>sr_updated = [], sr_unchanged = [], sr_unresolved = [], sr_invalid = []\<rparr>"

definition sync_prices ::
  "gateway_entry list \<Rightarrow> (string \<Rightarrow> source_price option) \<Rightarrow> bool \<Rightarrow> (gateway_entry list \<times> sync_report) res" where
  "sync_prices entries prices strict =
     (let es = map (sync_entry prices) entries; r = fold note_entry es empty_report in
      if strict \<and> \<not> report_ok r then Inl (OtherError ''PriceValidationError'') else Inr (map fst es, r))"

text \<open>The command: the exit code and the file it leaves.\<close>

definition pricing_main ::
  "bool \<Rightarrow> (string \<Rightarrow> source_price option) \<Rightarrow> gateway_entry list \<Rightarrow> nat res \<times> gateway_entry list" where
  "pricing_main check prices file =
     (case sync_prices file prices check of
        Inl e \<Rightarrow> (Inl e, file)
      | Inr (updated, r) \<Rightarrow>
          (if check then (Inr (if sr_updated r \<noteq> [] \<or> \<not> report_ok r then 1 else 0), file)
           else (Inr (if report_ok r then 0 else 1), updated)))"

section \<open>What a pass achieves\<close>

lemma fold_note:
  "fold note_entry es r =
     \<lparr>sr_updated = sr_updated r @ map (ge_name \<circ> fst) (filter (\<lambda>x. snd x = Updated) es),
      sr_unchanged = sr_unchanged r @ map (ge_name \<circ> fst) (filter (\<lambda>x. snd x = Unchanged) es),
      sr_unresolved = sr_unresolved r @ map (ge_name \<circ> fst) (filter (\<lambda>x. snd x = Unresolved) es),
      sr_invalid = sr_invalid r @ map (ge_name \<circ> fst) (filter (\<lambda>x. snd x = Invalid) es)\<rparr>"
  by (induction es arbitrary: r) (auto simp: note_entry_def split: price_state.split prod.split)

lemma same_valid: "valid_price p \<Longrightarrow> same_price p p"
  by (auto simp: valid_price_def same_price_def number_def at_least_0_def pf_eq_def
      split: option.splits json.splits; case_tac x4; auto)

lemma or_price_idem [simp]: "or_price (or_price v d) d = or_price v d"
  by (simp add: or_price_def split: option.split)

lemma sync_entry_again:
  "sync_entry prices (fst (sync_entry prices e)) =
     (fst (sync_entry prices e), if snd (sync_entry prices e) = Updated then Unchanged else snd (sync_entry prices e))"
  by (cases "prices (ge_model e)") (auto simp: sync_entry_def Let_def same_valid)

lemma sync_entry_name [simp]: "ge_name (fst (sync_entry prices e)) = ge_name e"
  by (simp add: sync_entry_def Let_def split: option.split)

text \<open>An entry the gateway can meter: its prices are the map's, or it is local, or a positive price is pinned.\<close>

definition metered :: "(string \<Rightarrow> source_price option) \<Rightarrow> gateway_entry \<Rightarrow> bool" where
  "metered prices e \<longleftrightarrow>
     (case prices (ge_model e) of
        Some src \<Rightarrow> valid_price (ge_in e) \<and> ge_in e = sp_in src \<and> valid_price (ge_out e) \<and> ge_out e = or_price (sp_out src) zero_price
      | None \<Rightarrow> local_lane (ge_model e) \<or> valid_price (ge_in e) \<and> \<not> same_price (ge_in e) (Some zero_price))"

lemma sync_entry_metered: "snd (sync_entry prices e) \<in> {Updated, Unchanged} \<Longrightarrow> metered prices (fst (sync_entry prices e))"
  by (auto simp: sync_entry_def metered_def Let_def split: option.splits if_splits)

lemma state_cases: "(st = Updated \<or> st = Unchanged) \<or> st = Unresolved \<or> st = Invalid"
  by (cases st) simp_all

text \<open>
  Property C30: a synchronisation that reports no problem leaves every model with prices the gateway can meter, and doing it again
  changes nothing and reports nothing as updated.
\<close>

theorem sync_is_idempotent:
  assumes "sync_prices entries prices strict = Inr (entries', r)"
  shows "sync_prices entries' prices strict =
       Inr (entries', r\<lparr>sr_updated := [], sr_unchanged := map ge_name (filter (\<lambda>e. snd (sync_entry prices e) \<in> {Updated, Unchanged}) entries)\<rparr>) \<and>
     map ge_name entries' = map ge_name entries \<and> (report_ok r \<longrightarrow> list_all (metered prices) entries') \<and>
     length (sr_updated r) + length (sr_unchanged r) + length (sr_unresolved r) + length (sr_invalid r) = length entries"
proof -
  let ?es = "map (sync_entry prices) entries"
  from assms have r: "r = fold note_entry ?es empty_report" "entries' = map fst ?es" "\<not> (strict \<and> \<not> report_ok r)"
    by (auto simp: sync_prices_def Let_def split: if_splits)
  note parts = r(1) [unfolded fold_note]
  let ?es' = "map (sync_entry prices) entries'"
  have again: "?es' = map (\<lambda>e. (fst (sync_entry prices e), if snd (sync_entry prices e) = Updated then Unchanged else snd (sync_entry prices e))) entries"
    by (simp add: r(2) o_def sync_entry_again)
  have r': "fold note_entry ?es' empty_report =
      r\<lparr>sr_updated := [], sr_unchanged := map ge_name (filter (\<lambda>e. snd (sync_entry prices e) \<in> {Updated, Unchanged}) entries)\<rparr>"
    unfolding again fold_note parts by (induction entries) (auto simp: empty_report_def)
  then have ok: "report_ok (fold note_entry ?es' empty_report) = report_ok r" by (simp add: report_ok_def)
  have "map fst ?es' = entries'" by (simp add: r(2) o_def sync_entry_again)
  with r' ok r(3) have first: "sync_prices entries' prices strict =
      Inr (entries', r\<lparr>sr_updated := [], sr_unchanged := map ge_name (filter (\<lambda>e. snd (sync_entry prices e) \<in> {Updated, Unchanged}) entries)\<rparr>)"
    by (simp add: sync_prices_def Let_def)
  have "list_all (metered prices) entries'" if "report_ok r"
  proof -
    have "snd (sync_entry prices e) \<in> {Updated, Unchanged}" if "e \<in> set entries" for e
      using \<open>report_ok r\<close> that state_cases [of "snd (sync_entry prices e)"]
      by (auto simp: report_ok_def parts empty_report_def filter_empty_conv)
    with sync_entry_metered show ?thesis by (auto simp: r(2) list_all_iff)
  qed
  moreover have "length (sr_updated r) + length (sr_unchanged r) + length (sr_unresolved r) + length (sr_invalid r) = length entries"
  proof -
    have "length (filter (\<lambda>x. snd x = Updated) xs) + length (filter (\<lambda>x. snd x = Unchanged) xs) +
        length (filter (\<lambda>x. snd x = Unresolved) xs) + length (filter (\<lambda>x. snd x = Invalid) xs) = length xs"
      for xs :: "(gateway_entry \<times> price_state) list"
      by (induction xs) (use state_cases in auto)
    from this [of ?es] show ?thesis by (simp add: parts empty_report_def)
  qed
  ultimately show ?thesis using first r(2) by simp
qed

definition demo_prices :: "string \<Rightarrow> source_price option" where
  "demo_prices m = (if m = ''anthropic/m'' then Some \<lparr>sp_in = Some (JFloat (Fin (3/1000000))), sp_out = None\<rparr> else None)"

definition demo_entries :: "gateway_entry list" where
  "demo_entries =
     [\<lparr>ge_name = ''reasoning'', ge_model = ''anthropic/m'', ge_in = Some (JFloat (Fin (1/1000000))), ge_out = Some (JFloat (Fin (5/1000000)))\<rparr>,
      \<lparr>ge_name = ''local'', ge_model = ''ollama/q'', ge_in = None, ge_out = None\<rparr>]"

lemma sync_is_idempotent_witness:
  "list_all (metered demo_prices) (map (fst \<circ> sync_entry demo_prices) demo_entries)"
proof -
  let ?r = "\<lparr>sr_updated = [''reasoning''], sr_unchanged = [''local''], sr_unresolved = [], sr_invalid = []\<rparr>"
  have "sync_prices demo_entries demo_prices False = Inr (map (fst \<circ> sync_entry demo_prices) demo_entries, ?r)" by code_simp
  from sync_is_idempotent [OF this] show ?thesis by (simp add: report_ok_def)
qed

section \<open>Where it surprises\<close>

text \<open>A source without an output price makes the output of a paid model free, and reports success.\<close>

lemma missing_output_price_is_free:
  "map ge_out (map (fst \<circ> sync_entry demo_prices) demo_entries) ! 0 = Some zero_price \<and> fst (pricing_main False demo_prices demo_entries) = Inr 0"
  by code_simp

text \<open>The check never gets to report an unresolved price: the strict pass raises before.\<close>

lemma check_raises_on_problems:
  assumes "fst (pricing_main True prices file) = Inr n"
  shows "report_ok (fold note_entry (map (sync_entry prices) file) empty_report)"
  using assms by (auto simp: pricing_main_def sync_prices_def Let_def split: if_splits)

end
