(* ===== verification/Semantic_Cache.thy ===== *)
theory Semantic_Cache
  imports Rag_Ingest Json_Dumps Complex_Main "HOL-Library.AList"
begin

text \<open>
  The semantic cache (\<open>apps/runtime/core/semantic_cache.py\<close>). Redis is the protocol \<open>RedisLike\<close> of the source: four
  operations the cache receives, here arguments, with what the cache relies on as the locale \<open>redis_like\<close>. Redis
  values are a counter or the decoded payload of an entry; floats are reals; agent ids and keys are strings, ids and
  generations natural numbers. Expiry only removes entries and is left to Redis. The abstract cache is a set of
  entries per agent and collection.
\<close>

section \<open>The cache over Redis\<close>

datatype redis_entry = Counter nat | Entry "rat list" string




definition generation_key :: "nat \<Rightarrow> string" where
  "generation_key c = ''semcache:gen:'' @ nat_str c"

definition generation :: "('r \<Rightarrow> string \<Rightarrow> redis_entry option) \<Rightarrow> 'r \<Rightarrow> nat \<Rightarrow> nat" where
  "generation get r c = (case get r (generation_key c) of Some (Counter n) \<Rightarrow> n | _ \<Rightarrow> 0)"

definition cache_prefix :: "string \<Rightarrow> nat \<Rightarrow> nat \<Rightarrow> string" where
  "cache_prefix a c g = ''semcache:'' @ a @ '':'' @ nat_str c @ '':'' @ nat_str g @ '':''"





section \<open>The abstract cache\<close>





definition colon_free :: "string \<Rightarrow> bool" where
  "colon_free a \<longleftrightarrow> CHR '':'' \<notin> set a"


text \<open>
  No entry carries a generation that is still to come, counters are only under generation keys, and those hold
  nothing else.
\<close>

definition cache_wf :: "('r \<Rightarrow> string \<Rightarrow> redis_entry option) \<Rightarrow> 'r \<Rightarrow> bool" where
  "cache_wf get r \<longleftrightarrow>
     (\<forall>a c g uid. colon_free a \<and> generation get r c < g \<longrightarrow> get r (cache_prefix a c g @ uid) = None) \<and>
     (\<forall>a c g uid n. colon_free a \<longrightarrow> get r (cache_prefix a c g @ uid) \<noteq> Some (Counter n)) \<and>
     (\<forall>c e t. get r (generation_key c) \<noteq> Some (Entry e t))"

section \<open>Keys are read back uniquely\<close>

lemma nat_str_inj [simp]: "nat_str m = nat_str n \<longleftrightarrow> m = n"
  by (metis digits_value_nat_str of_nat_eq_iff)







lemma cache_wfD:
  assumes "cache_wf get r"
  shows wf_fresh: "colon_free a \<Longrightarrow> generation get r c < g \<Longrightarrow> get r (cache_prefix a c g @ uid) = None"
    and wf_entries: "colon_free a \<Longrightarrow> get r (cache_prefix a c g @ uid) \<noteq> Some (Counter n)"
    and wf_counters: "get r (generation_key c) \<noteq> Some (Entry e t)"
  using assms unfolding cache_wf_def by blast+

lemma generation_key_inj [simp]: "generation_key c = generation_key c' \<longleftrightarrow> c = c'"
  by (simp add: generation_key_def)

section \<open>Refinement\<close>


section \<open>The fake of the tests\<close>







section \<open>Property\<close>



end
