(* ===== verification/Pg_Read_Only.thy ===== *)
theory Pg_Read_Only
  imports Json_Loads "HOL-Library.List_Lexorder" "HOL-Library.Char_ord"
begin

text \<open>
  The governed SQL tool (\<open>apps/mcp/fleet_mcp/servers/pg_ro.py\<close>). The SQL parser and printer (\<open>sqlglot\<close>)
  are not in the repository: \<open>parse\<close> gives the statements of a text (\<open>None\<close> for an empty one) and
  \<open>render\<close> prints one; the record keeps what the tool reads and sets of a statement. The database is the
  runner \<open>run\<close>; every query it gets is in the trace.
\<close>

text \<open>
  The limit clause: absent, an integer literal, or something whose text \<open>int\<close> does not read (an
  expression, a parameter, \<open>ALL\<close>).
\<close>

datatype limit_clause = No_Limit | Limit_Int int | Limit_Other string

record statement =
  st_type :: string
  st_is_select :: bool
  st_tables :: "string list"
  st_limit :: limit_clause
  st_rest :: string

record sql_parser =
  sp_parse :: "string \<Rightarrow> statement option list"
  sp_render :: "statement \<Rightarrow> string"

definition blocked_statement_types :: "string list" where
  "blocked_statement_types = [''Delete'', ''Update'', ''Insert'', ''Drop'', ''TruncateTable'', ''Alter'', ''Create'']"

record pg_tool =
  pt_parser :: sql_parser
  pt_run :: "string \<Rightarrow> rat \<Rightarrow> json list res"
  pt_allowlisted_tables :: "string list"
  pt_row_limit :: int
  pt_timeout_seconds :: rat

definition pg_tool_for :: "sql_parser \<Rightarrow> (string \<Rightarrow> rat \<Rightarrow> json list res) \<Rightarrow> string list \<Rightarrow> pg_tool" where
  "pg_tool_for parser run tables =
     \<lparr>pt_parser = parser, pt_run = run, pt_allowlisted_tables = tables, pt_row_limit = 1000, pt_timeout_seconds = 15\<rparr>"

datatype pg_call = Run string rat

definition clamp_limit :: "statement \<Rightarrow> int \<Rightarrow> statement" where
  "clamp_limit parsed row_limit =
     (case st_limit parsed of
        No_Limit \<Rightarrow> parsed\<lparr>st_limit := Limit_Int row_limit\<rparr>
      | Limit_Int n \<Rightarrow> (if n > row_limit then parsed\<lparr>st_limit := Limit_Int row_limit\<rparr> else parsed)
      | Limit_Other _ \<Rightarrow> parsed)"

text \<open>The query, the trace of the runner and the refusal log (table and SQL).\<close>

definition pg_query_tool ::
  "pg_tool \<Rightarrow> string \<Rightarrow> (string \<times> string) list \<Rightarrow> (pg_call, json list) eff \<times> (string \<times> string) list" where
  "pg_query_tool tool sql refusals =
     (case sp_parse (pt_parser tool) sql of
        [Some parsed] \<Rightarrow>
          (if st_type parsed \<in> set blocked_statement_types \<or> \<not> st_is_select parsed
           then (eff_raise (GovernedToolRefusal (''statement type not allowed: '' @ st_type parsed)), refusals)
           else (let disallowed = filter (\<lambda>t. t \<notin> set (pt_allowlisted_tables tool)) (remdups (st_tables parsed)) in
                 if disallowed \<noteq> []
                 then (eff_raise (GovernedToolRefusal (''non-allowlisted table(s): '' @ join '', '' (sort disallowed))),
                       refusals @ map (\<lambda>t. (t, sql)) disallowed)
                 else (let out = sp_render (pt_parser tool) (clamp_limit parsed (pt_row_limit tool))
                       in (eff_call (Run out (pt_timeout_seconds tool)) (pt_run tool out (pt_timeout_seconds tool)), refusals))))
      | _ \<Rightarrow> (eff_raise (GovernedToolRefusal ''exactly one SELECT statement is required''), refusals))"

lemma clamp_limit_bounded:
  "st_limit (clamp_limit s n) = Limit_Int k \<Longrightarrow> k \<le> n"
  by (auto simp: clamp_limit_def split: limit_clause.splits if_splits)

lemma clamp_limit_other [simp]:
  "st_tables (clamp_limit s n) = st_tables s" "st_is_select (clamp_limit s n) = st_is_select s"
  "st_limit (clamp_limit s n) \<noteq> No_Limit"
  by (auto simp: clamp_limit_def split: limit_clause.splits)


definition demo_parser :: sql_parser where
  "demo_parser = \<lparr>sp_parse = (\<lambda>sql. if sql = ''q'' then [Some \<lparr>st_type = ''Select'', st_is_select = True,
       st_tables = [''fixture_sales''], st_limit = Limit_Int 5000, st_rest = ''q''\<rparr>]
     else if sql = ''huge'' then [Some \<lparr>st_type = ''Select'', st_is_select = True,
       st_tables = [''fixture_sales''], st_limit = Limit_Other ''5000 * 1000'', st_rest = ''q''\<rparr>] else [None]),
     sp_render = (\<lambda>s. st_rest s @ (case st_limit s of Limit_Int n \<Rightarrow> '' LIMIT '' @ int_str n | Limit_Other e \<Rightarrow> '' LIMIT '' @ e
        | No_Limit \<Rightarrow> []))\<rparr>"

definition demo_pg :: pg_tool where
  "demo_pg = pg_tool_for demo_parser (\<lambda>_ _. Inr []) [''fixture_sales'']"


text \<open>The cap is not an upper bound of the rows: a computed limit is not clamped.\<close>

lemma computed_limit_not_clamped:
  "fst (fst (pg_query_tool demo_pg ''huge'' [])) = [Run ''q LIMIT 5000 * 1000'' 15]"
  by code_simp

end
