(* ===== verification/Service_Routes.thy ===== *)
theory Service_Routes
  imports Erasure Mcp_Tools Pg_Read_Only
begin

text \<open>
  The service surface of automations (\<open>apps/api/fleet_api/routers/service.py\<close>), beside \<open>email_send\<close> of
  \<open>Approvals\<close>: governed reads, Slack posts, one agent turn and the audit notification, each for a service key with its
  scope. The turn runs on the reply paths of \<open>Chat\<close>.
\<close>

section \<open>Governed reads and posts\<close>






section \<open>One agent turn\<close>

definition service_meta :: "chat_env \<Rightarrow> agent_row \<Rightarrow> call_meta" where
  "service_meta env a =
     \<lparr>cm_dept_id = None, cm_agent_id = Some (nat_str (ag_id a)), cm_user_id = None, cm_trace_id = Some (ce_trace_id env)\<rparr>"

definition service_reply :: "chat_env \<Rightarrow> agent_row \<Rightarrow> string \<Rightarrow> (chat_call, string) eff" where
  "service_reply env a question =
     (if ag_name a = ''analytics'' then analytics_reply env a question
      else if ag_collection_ids a \<noteq> [] then
        eff_bind (rag_reply env a question) (\<lambda>(answer, _). eff_return answer)
      else
        (let r = map_calls (From_Client False)
               (client_reasoning_stream (ce_client env) (plain_messages question) (Name (ag_sensitivity a)) False (service_meta env a))
         in (trace r, res_bind (outcome r) (\<lambda>_. Inr (concat (deltas (trace r)))))))"

text \<open>The answer is the text and the id of the trace. The kill switch is not asked.\<close>

definition agent_run :: "chat_env \<Rightarrow> service_key res \<Rightarrow> string \<Rightarrow> string \<Rightarrow> chat_db \<Rightarrow> (chat_call, string \<times> string) eff" where
  "agent_run env key agent question db =
     (case key of
        Inl e \<Rightarrow> eff_raise e
      | Inr _ \<Rightarrow>
          (case agent_by_name (cd_agents db) agent of
             None \<Rightarrow> eff_raise (HTTPException 404 (''unknown agent: '' @ agent))
           | Some a \<Rightarrow>
               if ag_status a \<noteq> ''active'' then eff_raise (HTTPException 409 (''agent is '' @ ag_status a))
               else eff_bind (eff_lift (assert_agent_may_read (cd_rag db) a)) (\<lambda>_.
                    eff_bind (service_reply env a question) (\<lambda>answer. eff_return (answer, ce_trace_id env)))))"

section \<open>Notification\<close>


section \<open>The service turn is the chat turn\<close>

lemma res_bind_unit: "res_bind r Inr = r"
  by (cases r) simp_all

lemma service_reply_of:
  assumes "ag_name a = ''analytics'' \<or> ag_collection_ids a \<noteq> []"
    and "reply_of env conv a question red = (events, calls, out)"
  shows "service_reply env a question = (calls, res_bind out (\<lambda>(answer, _). Inr answer))"
proof (cases "ag_name a = ''analytics''")
  case True
  obtain calls' out' where r: "analytics_reply env a question = (calls', out')" by fastforce
  with True assms(2) show ?thesis by (cases out') (auto simp: reply_of_def service_reply_def Let_def)
next
  case False
  obtain calls' out' where r: "rag_reply env a question = (calls', out')" by fastforce
  with False assms show ?thesis by (cases out') (auto simp: reply_of_def service_reply_def Let_def eff_return_def)
qed

section \<open>The fences of each route\<close>







section \<open>Properties\<close>

text \<open>
  An automation talks to an agent exactly as a person does. For the analytics agent and for every agent
  with collections the service turn makes the calls of the chat turn, in order, and answers its text or its error, for
  active agents that may read their collections; other agents are refused before any call.
\<close>

theorem agent_run_is_chat_turn:
  assumes "agent_by_name (cd_agents db) agent = Some a" "ag_name a = ''analytics'' \<or> ag_collection_ids a \<noteq> []"
    and "reply_of env conv a question red = (events, calls, out)"
  shows "agent_run env (Inr key) agent question db =
     (if ag_status a \<noteq> ''active'' then ([], Inl (HTTPException 409 (''agent is '' @ ag_status a)))
      else case assert_agent_may_read (cd_rag db) a of
             Inl e \<Rightarrow> ([], Inl e)
           | Inr _ \<Rightarrow> (calls, res_bind out (\<lambda>(answer, _). Inr (answer, ce_trace_id env))))"
  using service_reply_of [OF assms(2,3)] assms(1)
  by (cases out) (auto simp: agent_run_def eff_raise_def eff_return_def split: sum.splits)

lemma agent_run_is_chat_turn_witness:
  "\<exists>events calls out. reply_of demo_chat_env (hd (cd_conversations demo_chat_db)) demo_agent ''hi'' False = (events, calls, out) \<and>
     agent_run demo_chat_env (Inr key) ''support'' ''hi'' demo_chat_db = (calls, res_bind out (\<lambda>(answer, _). Inr (answer, ''t'')))"
proof -
  obtain events calls out where r: "reply_of demo_chat_env (hd (cd_conversations demo_chat_db)) demo_agent ''hi'' False = (events, calls, out)"
    by (rule prod_cases3)
  have a: "agent_by_name (cd_agents demo_chat_db) ''support'' = Some demo_agent" "ag_collection_ids demo_agent \<noteq> []"
    "ag_status demo_agent = ''active''" "ce_trace_id demo_chat_env = ''t''"
    by (simp_all add: agent_by_name_def demo_chat_db_def demo_agent_def demo_chat_env_def)
  have m: "assert_agent_may_read (cd_rag demo_chat_db) demo_agent = Inr ()" by code_simp
  from agent_run_is_chat_turn [OF a(1) disjI2 [OF a(2)] r, of key] r show ?thesis by (simp add: a(3,4) m)
qed


end
