(* ===== verification/Budget_Admin.thy ===== *)
theory Budget_Admin
  imports Agents_Admin Budget Py_Round
begin

text \<open>
  Budget administration (\<open>apps/api/fleet_api/routers/budgets_admin.py\<close>): budgets are created, listed with the spend of
  their period, changed and deleted. The table they live in is the one the checker of \<open>Budget\<close> reads. The unique index
  is over scope type, scope id and period; SQL does not compare NULL scope ids. A limit is stored in cents.
\<close>

section \<open>The table\<close>

record budget_in =
  bi_scope_type :: string
  bi_scope_id :: "string option"
  bi_period :: string
  bi_limit_usd :: rat
  bi_soft_pct :: int

record budget_entry =
  be_id :: nat
  be_row :: budget_row

record budget_table =
  bt_rows :: "budget_entry list"
  bt_next :: nat

definition spend_of :: "budget_table \<Rightarrow> ledger \<Rightarrow> spend_db" where
  "spend_of t l = \<lparr>sd_budgets = map be_row (bt_rows t), sd_ledger = l\<rparr>"

definition same_scope :: "string \<Rightarrow> string option \<Rightarrow> budget_row \<Rightarrow> bool" where
  "same_scope st sid b \<longleftrightarrow> b_scope_type b = st \<and> b_scope_id b = sid"

section \<open>Routes\<close>

definition valid_scope_types :: "string list" where
  "valid_scope_types = [''global'', ''dept'', ''agent'', ''user'']"

definition valid_periods :: "string list" where
  "valid_periods = [''daily'', ''monthly'']"

text \<open>The request schema's bounds, then \<open>_validate\<close>.\<close>

definition validate_budget :: "budget_in \<Rightarrow> unit res" where
  "validate_budget body =
     (if bi_limit_usd body \<le> 0 \<or> bi_soft_pct body < 0 \<or> 100 < bi_soft_pct body
      then Inl (HTTPException 422 ''request validation'')
      else if bi_scope_type body \<notin> set valid_scope_types
      then Inl (HTTPException 422 (''unknown scope_type: '' @ bi_scope_type body))
      else if bi_period body \<notin> set valid_periods
      then Inl (HTTPException 422 (''unknown period: '' @ bi_period body))
      else if bi_scope_type body = ''global'' \<and> bi_scope_id body \<noteq> None
      then Inl (HTTPException 422 ''global scope must not have a scope_id'')
      else if bi_scope_type body \<noteq> ''global'' \<and> bi_scope_id body = None
      then Inl (HTTPException 422 (bi_scope_type body @ '' scope requires a scope_id''))
      else Inr ())"

text \<open>What the columns hold: 128 characters of scope id, twelve digits before the point of the limit.\<close>

definition stored_budget :: "budget_in \<Rightarrow> budget_row res" where
  "stored_budget body =
     (if (case bi_scope_id body of Some i \<Rightarrow> 128 < length i | None \<Rightarrow> False) \<or> 10 ^ 12 \<le> numeric2 (bi_limit_usd body)
      then Inl (OtherError ''DataError'')
      else Inr \<lparr>b_scope_type = bi_scope_type body, b_scope_id = bi_scope_id body, b_period = bi_period body,
                b_limit_usd = numeric2 (bi_limit_usd body), b_soft_pct = bi_soft_pct body\<rparr>)"

definition create_budget :: "principal res \<Rightarrow> budget_in \<Rightarrow> budget_table \<Rightarrow> budget_entry res \<times> budget_table" where
  "create_budget who body = guarded who (\<lambda>_ t.
     case validate_budget body of
       Inl e \<Rightarrow> (Inl e, t)
     | Inr _ \<Rightarrow>
         (if \<exists>x \<in> set (bt_rows t). same_scope (bi_scope_type body) (bi_scope_id body) (be_row x) \<and> b_period (be_row x) = bi_period body
          then (Inl (HTTPException 409 ''budget already exists for this scope+period''), t)
          else (case stored_budget body of
                  Inl e \<Rightarrow> (Inl e, t)
                | Inr b \<Rightarrow>
                    (let x = \<lparr>be_id = bt_next t, be_row = b\<rparr>
                     in (Inr x, t\<lparr>bt_rows := bt_rows t @ [x], bt_next := Suc (bt_next t)\<rparr>)))))"

record budget_out =
  bo_entry :: budget_entry
  bo_spent_usd :: rat
  bo_soft_exceeded :: bool
  bo_hard_exceeded :: bool

text \<open>
  Each row is shown with the status of its scope, whatever its own period: \<open>check_budget\<close> takes the first row of the
  scope.
\<close>

definition budget_out_of :: "spend_db \<Rightarrow> datetime \<Rightarrow> budget_entry \<Rightarrow> budget_out res" where
  "budget_out_of db now x =
     res_bind (check_budget db now (b_scope_type (be_row x)) (b_scope_id (be_row x))) (\<lambda>s.
       Inr \<lparr>bo_entry = x, bo_spent_usd = round2 (bs_spent_usd s), bo_soft_exceeded = bs_soft_exceeded s,
            bo_hard_exceeded = bs_hard_exceeded s\<rparr>)"

definition list_budgets :: "principal res \<Rightarrow> ledger \<Rightarrow> datetime \<Rightarrow> budget_table \<Rightarrow> budget_out list res" where
  "list_budgets who l now t =
     res_bind who (\<lambda>_. res_map (budget_out_of (spend_of t l) now) (sort_key be_id (bt_rows t)))"

definition budget_by_id :: "budget_table \<Rightarrow> nat \<Rightarrow> budget_entry option" where
  "budget_by_id t i = find (\<lambda>x. be_id x = i) (bt_rows t)"

definition update_budget :: "principal res \<Rightarrow> nat \<Rightarrow> budget_in \<Rightarrow> budget_table \<Rightarrow> budget_entry res \<times> budget_table" where
  "update_budget who i body = guarded who (\<lambda>_ t.
     case validate_budget body of
       Inl e \<Rightarrow> (Inl e, t)
     | Inr _ \<Rightarrow>
         (case budget_by_id t i of
            None \<Rightarrow> (Inl (HTTPException 404 ''budget not found''), t)
          | Some _ \<Rightarrow>
              (case stored_budget body of
                 Inl e \<Rightarrow> (Inl e, t)
               | Inr b \<Rightarrow>
                   (if b_scope_id b \<noteq> None \<and>
                       (\<exists>y \<in> set (bt_rows t). be_id y \<noteq> i \<and> same_scope (b_scope_type b) (b_scope_id b) (be_row y) \<and>
                          b_period (be_row y) = b_period b)
                    then (Inl (OtherError ''IntegrityError''), t)
                    else (let x = \<lparr>be_id = i, be_row = b\<rparr>
                          in (Inr x, t\<lparr>bt_rows := map (\<lambda>y. if be_id y = i then x else y) (bt_rows t)\<rparr>))))))"

definition delete_budget :: "principal res \<Rightarrow> nat \<Rightarrow> budget_table \<Rightarrow> unit res \<times> budget_table" where
  "delete_budget who i = guarded who (\<lambda>_ t.
     case budget_by_id t i of
       None \<Rightarrow> (Inl (HTTPException 404 ''budget not found''), t)
     | Some _ \<Rightarrow> (Inr (), t\<lparr>bt_rows := filter (\<lambda>x. be_id x \<noteq> i) (bt_rows t)\<rparr>))"

section \<open>The invariant of the table\<close>

inductive budgets_reachable :: "budget_table \<Rightarrow> bool" where
  start: "budgets_reachable \<lparr>bt_rows = [], bt_next = 1\<rparr>"
| create: "budgets_reachable t \<Longrightarrow> create_budget who body t = (r, t') \<Longrightarrow> budgets_reachable t'"
| update: "budgets_reachable t \<Longrightarrow> update_budget who i body t = (r, t') \<Longrightarrow> budgets_reachable t'"
| delete: "budgets_reachable t \<Longrightarrow> delete_budget who i t = (n, t') \<Longrightarrow> budgets_reachable t'"

definition budget_row_ok :: "budget_row \<Rightarrow> bool" where
  "budget_row_ok b \<longleftrightarrow>
     b_scope_type b \<in> set valid_scope_types \<and> b_period b \<in> set valid_periods \<and> 0 \<le> b_limit_usd b \<and>
     0 \<le> b_soft_pct b \<and> b_soft_pct b \<le> 100 \<and> (b_scope_type b = ''global'' \<longleftrightarrow> b_scope_id b = None)"

text \<open>The key the unique index compares.\<close>

definition index_key :: "budget_row \<Rightarrow> (string \<times> string \<times> string) option" where
  "index_key b = map_option (\<lambda>i. (b_scope_type b, i, b_period b)) (b_scope_id b)"

definition indexed :: "budget_entry list \<Rightarrow> bool" where
  "indexed xs \<longleftrightarrow> distinct (filter (\<lambda>k. k \<noteq> None) (map (index_key \<circ> be_row) xs))"

definition budgets_wf :: "budget_table \<Rightarrow> bool" where
  "budgets_wf t \<longleftrightarrow>
     distinct (map be_id (bt_rows t)) \<and> list_all (\<lambda>x. be_id x < bt_next t \<and> budget_row_ok (be_row x)) (bt_rows t) \<and>
     indexed (bt_rows t)"

lemma stored_budget_fields:
  "stored_budget body = Inr b \<Longrightarrow>
     b_scope_type b = bi_scope_type body \<and> b_scope_id b = bi_scope_id body \<and> b_period b = bi_period body \<and>
     b_limit_usd b = numeric2 (bi_limit_usd body) \<and> b_soft_pct b = bi_soft_pct body"
  by (auto simp: stored_budget_def split: if_splits)

lemma stored_budget_row_ok: "validate_budget body = Inr () \<Longrightarrow> stored_budget body = Inr b \<Longrightarrow> budget_row_ok b"
  using stored_budget_fields [of body b]
  by (auto simp: validate_budget_def budget_row_ok_def numeric2_nonneg split: if_splits)

lemma index_key_Some: "index_key b = Some k \<longleftrightarrow> (\<exists>i. b_scope_id b = Some i \<and> k = (b_scope_type b, i, b_period b))"
  by (auto simp: index_key_def)

lemma index_key_eq:
  "index_key b = index_key c \<Longrightarrow> index_key b \<noteq> None \<Longrightarrow> same_scope (b_scope_type c) (b_scope_id c) b \<and> b_period b = b_period c"
  by (auto simp: index_key_def same_scope_def)

lemma indexed_snoc:
  "indexed (xs @ [x]) \<longleftrightarrow> indexed xs \<and> (index_key (be_row x) = None \<or> index_key (be_row x) \<notin> (index_key \<circ> be_row) ` set xs)"
  by (auto simp: indexed_def)

lemma indexed_Cons:
  "indexed (x # xs) \<longleftrightarrow> indexed xs \<and> (index_key (be_row x) = None \<or> index_key (be_row x) \<notin> (index_key \<circ> be_row) ` set xs)"
  by (auto simp: indexed_def)

lemma indexed_Nil [simp]: "indexed []"
  by (simp add: indexed_def)

lemma indexed_filter: "indexed xs \<Longrightarrow> indexed (filter p xs)"
proof (induction xs)
  case (Cons x xs)
  then show ?case using filter_is_subset [of p xs] by (simp add: indexed_Cons) blast
qed simp

lemma indexed_replace:
  assumes "indexed xs" "distinct (map be_id xs)" "be_id x = i"
    and "\<And>y. y \<in> set xs \<Longrightarrow> be_id y \<noteq> i \<Longrightarrow> index_key (be_row x) = None \<or> index_key (be_row y) \<noteq> index_key (be_row x)"
  shows "indexed (map (\<lambda>y. if be_id y = i then x else y) xs)"
  using assms
proof (induction xs)
  case (Cons y ys)
  have rest: "map (\<lambda>y. if be_id y = i then x else y) ys = ys" if "be_id y = i"
    using Cons.prems(2) that by (intro map_idI) (metis distinct.simps(2) imageI image_set list.simps(9))
  have tail: "indexed ys" using Cons.prems(1) by (simp add: indexed_Cons)
  show ?case
  proof (cases "be_id y = i")
    case True
    have "index_key (be_row x) \<notin> (index_key \<circ> be_row) ` set ys \<or> index_key (be_row x) = None"
      using Cons.prems(2,4) True by (force simp: image_iff)
    with tail rest [OF True] True show ?thesis by (auto simp: indexed_Cons)
  next
    case False
    have IH: "indexed (map (\<lambda>y. if be_id y = i then x else y) ys)"
      using Cons.IH tail Cons.prems by auto
    have new: "index_key (be_row x) = None \<or> index_key (be_row y) \<noteq> index_key (be_row x)" using Cons.prems(4) False by simp
    have "index_key (be_row y) = None \<or> index_key (be_row y) \<notin> (index_key \<circ> be_row) ` set ys"
      using Cons.prems(1) by (simp add: indexed_Cons)
    with IH new False show ?thesis by (auto simp: indexed_Cons)
  qed
qed simp

lemma create_budget_cases:
  assumes "create_budget who body t = (r, t')"
  obtains "t' = t"
  | b where "validate_budget body = Inr ()" "stored_budget body = Inr b" "r = Inr \<lparr>be_id = bt_next t, be_row = b\<rparr>"
      "t' = t\<lparr>bt_rows := bt_rows t @ [\<lparr>be_id = bt_next t, be_row = b\<rparr>], bt_next := Suc (bt_next t)\<rparr>"
      "\<And>x. x \<in> set (bt_rows t) \<Longrightarrow> \<not> (same_scope (b_scope_type b) (b_scope_id b) (be_row x) \<and> b_period (be_row x) = b_period b)"
proof (cases "t' = t")
  case False
  with assms obtain b where "validate_budget body = Inr ()" "stored_budget body = Inr b" "r = Inr \<lparr>be_id = bt_next t, be_row = b\<rparr>"
    "t' = t\<lparr>bt_rows := bt_rows t @ [\<lparr>be_id = bt_next t, be_row = b\<rparr>], bt_next := Suc (bt_next t)\<rparr>"
    "\<not> (\<exists>x \<in> set (bt_rows t). same_scope (bi_scope_type body) (bi_scope_id body) (be_row x) \<and> b_period (be_row x) = bi_period body)"
    by (auto simp: create_budget_def guarded_def Let_def split: sum.splits if_splits)
  with that(2) stored_budget_fields [of body b] show ?thesis by metis
qed (rule that(1))

lemma update_budget_cases:
  assumes "update_budget who i body t = (r, t')"
  obtains "t' = t"
  | b where "validate_budget body = Inr ()" "stored_budget body = Inr b"
      "t' = t\<lparr>bt_rows := map (\<lambda>y. if be_id y = i then \<lparr>be_id = i, be_row = b\<rparr> else y) (bt_rows t)\<rparr>"
      "\<exists>x \<in> set (bt_rows t). be_id x = i"
      "\<And>y. y \<in> set (bt_rows t) \<Longrightarrow> be_id y \<noteq> i \<Longrightarrow> b_scope_id b = None \<or>
         \<not> (same_scope (b_scope_type b) (b_scope_id b) (be_row y) \<and> b_period (be_row y) = b_period b)"
proof (cases "t' = t")
  case False
  with assms obtain b x where "validate_budget body = Inr ()" "stored_budget body = Inr b" "budget_by_id t i = Some x"
    "t' = t\<lparr>bt_rows := map (\<lambda>y. if be_id y = i then \<lparr>be_id = i, be_row = b\<rparr> else y) (bt_rows t)\<rparr>"
    "\<not> (b_scope_id b \<noteq> None \<and> (\<exists>y \<in> set (bt_rows t). be_id y \<noteq> i \<and> same_scope (b_scope_type b) (b_scope_id b) (be_row y) \<and>
                          b_period (be_row y) = b_period b))"
    by (auto simp: update_budget_def guarded_def Let_def split: sum.splits option.splits if_splits)
  moreover have "\<exists>x \<in> set (bt_rows t). be_id x = i"
    using calculation(3) by (auto simp: budget_by_id_def find_Some_iff)
  ultimately show ?thesis using that(2) [of b] by blast
qed (rule that(1))

lemma budgets_reachable_wf: "budgets_reachable t \<Longrightarrow> budgets_wf t"
proof (induction rule: budgets_reachable.induct)
  case start
  show ?case by (simp add: budgets_wf_def indexed_def)
next
  case (create t who body r t')
  from create.hyps(2) show ?case
  proof (cases rule: create_budget_cases)
    case (2 b)
    have "index_key (be_row x) \<noteq> index_key b" if "x \<in> set (bt_rows t)" "index_key b \<noteq> None" for x
      using 2(5) [OF that(1)] index_key_eq [of "be_row x" b] that(2) by metis
    then have "index_key b = None \<or> index_key b \<notin> (index_key \<circ> be_row) ` set (bt_rows t)"
      unfolding image_iff o_def by metis
    then have "indexed (bt_rows t')"
      using create.IH by (auto simp: 2(4) budgets_wf_def indexed_snoc)
    with create.IH 2 stored_budget_row_ok [OF 2(1,2)] show ?thesis
      by (auto simp: budgets_wf_def list_all_iff)
  qed (use create.IH in simp)
next
  case (update t who i body r t')
  from update.hyps(2) show ?case
  proof (cases rule: update_budget_cases)
    case (2 b)
    let ?x = "\<lparr>be_id = i, be_row = b\<rparr>"
    have "index_key b = None \<or> index_key (be_row y) \<noteq> index_key b" if "y \<in> set (bt_rows t)" "be_id y \<noteq> i" for y
      using 2(5) [OF that] index_key_eq [of "be_row y" b] by (metis index_key_def option.map_disc_iff)
    with update.IH have "indexed (map (\<lambda>y. if be_id y = i then ?x else y) (bt_rows t))"
      by (intro indexed_replace) (auto simp: budgets_wf_def)
    moreover have "distinct (map (be_id \<circ> (\<lambda>y. if be_id y = i then ?x else y)) (bt_rows t)) = distinct (map be_id (bt_rows t))"
      by (rule distinct_map_same) simp
    moreover have "i < bt_next t" using 2(4) update.IH by (auto simp: budgets_wf_def list_all_iff)
    ultimately show ?thesis
      using update.IH stored_budget_row_ok [OF 2(1,2)] unfolding 2(3) budgets_wf_def by (auto simp: list_all_iff)
  qed (use update.IH in simp)
next
  case (delete t who i n t')
  then have "t' = t \<or> t' = t\<lparr>bt_rows := filter (\<lambda>x. be_id x \<noteq> i) (bt_rows t)\<rparr>"
    by (auto simp: delete_budget_def guarded_def split: sum.splits option.splits)
  with delete.IH show ?case by (auto simp: budgets_wf_def list_all_iff distinct_map_filter indexed_filter)
qed

section \<open>What the checker sees\<close>

definition scope_spend :: "string \<Rightarrow> string option \<Rightarrow> ledger_row \<Rightarrow> bool" where
  "scope_spend st sid r \<longleftrightarrow>
     st = ''global'' \<or> sid \<noteq> None \<and>
       (st = ''dept'' \<and> l_dept_id r = sid \<or> st = ''agent'' \<and> l_agent_id r = sid \<or> st = ''user'' \<and> l_user_id r = sid)"

text \<open>The answer of the checker for a scope whose first row is known.\<close>

lemma check_budget_found:
  assumes "budget_for db st sid = Some b" "st \<in> set valid_scope_types"
  shows "check_budget db now st sid =
     Inr (evaluate_budget (spent_since db (period_start (b_period b) now) (scope_spend st sid)) (Some (b_limit_usd b))
       (b_soft_pct b) (scope_label st sid))"
  using assms by (auto simp: check_budget_def Let_def valid_scope_types_def scope_spend_def [abs_def])

lemma find_map: "find p (map f xs) = map_option f (find (p \<circ> f) xs)"
  by (induction xs) auto

lemma budget_for_spend:
  "budget_for (spend_of t l) st sid = map_option be_row (find (\<lambda>x. same_scope st sid (be_row x)) (bt_rows t))"
  by (simp add: budget_for_def spend_of_def same_scope_def find_map o_def)

lemma find_snoc: "find p (xs @ [x]) = (case find p xs of Some y \<Rightarrow> Some y | None \<Rightarrow> if p x then Some x else None)"
  by (induction xs) auto

text \<open>
  A budget stops its scope. When a budget is created for a scope that had none, every later call that
  carries the scope is checked against it: once the spend of the running period has reached the stored limit, the
  checker answers with a hard stop, whatever else is in the tables.
\<close>

theorem created_budget_stops_scope:
  assumes "create_budget who body t = (Inr x, t')"
    and "list_all (\<lambda>y. \<not> same_scope (bi_scope_type body) (bi_scope_id body) (be_row y)) (bt_rows t)"
    and "(bi_scope_type body, bi_scope_id body) \<in> set (scopes_of m)"
    and "numeric2 (bi_limit_usd body) \<le>
       spent_since (spend_of t' l) (period_start (bi_period body) now) (scope_spend (bi_scope_type body) (bi_scope_id body))"
  shows "\<exists>s. db_budget_checker (spend_of t' l) now m = Inr s \<and> (\<exists>sc spent cap. raise_if_exceeded s = Inl (BudgetExceeded sc spent cap))"
proof -
  from assms(1) obtain b where b: "validate_budget body = Inr ()" "stored_budget body = Inr b" "x = \<lparr>be_id = bt_next t, be_row = b\<rparr>"
    "t' = t\<lparr>bt_rows := bt_rows t @ [\<lparr>be_id = bt_next t, be_row = b\<rparr>], bt_next := Suc (bt_next t)\<rparr>"
    by (auto simp: create_budget_def guarded_def Let_def split: sum.splits if_splits)
  note f = stored_budget_fields [OF b(2)]
  have none: "find (\<lambda>y. same_scope (bi_scope_type body) (bi_scope_id body) (be_row y)) (bt_rows t) = None"
    using assms(2) by (auto simp: find_None_iff list_all_iff)
  have "budget_for (spend_of t' l) (bi_scope_type body) (bi_scope_id body) = Some b"
    unfolding budget_for_spend b(4) using none f by (simp add: find_snoc same_scope_def)
  moreover have "bi_scope_type body \<in> set valid_scope_types"
    using b(1) by (auto simp: validate_budget_def split: if_splits)
  ultimately have "bs_hard_exceeded (status_of (spend_of t' l) now (bi_scope_type body, bi_scope_id body))"
    using assms(4) f by (simp add: status_of_def check_budget_found)
  moreover obtain s where s: "db_budget_checker (spend_of t' l) now m = Inr s" using db_budget_checker_total by blast
  ultimately have "bs_hard_exceeded s" using db_budget_checker_hard [OF s] assms(3) by blast
  with s show ?thesis by (simp add: raise_if_exceeded_def)
qed

definition demo_admin :: "principal res" where
  "demo_admin = Inr \<lparr>pr_sub = ''root'', pr_roles = {''platform_admin''}\<rparr>"

definition demo_budget_in :: budget_in where
  "demo_budget_in = \<lparr>bi_scope_type = ''agent'', bi_scope_id = Some ''7'', bi_period = ''daily'', bi_limit_usd = 5, bi_soft_pct = 80\<rparr>"

definition demo_budget :: budget_entry where
  "demo_budget = \<lparr>be_id = 1, be_row = \<lparr>b_scope_type = ''agent'', b_scope_id = Some ''7'', b_period = ''daily'', b_limit_usd = 5,
     b_soft_pct = 80\<rparr>\<rparr>"

definition demo_budgets :: budget_table where
  "demo_budgets = \<lparr>bt_rows = [demo_budget], bt_next = 2\<rparr>"

lemma demo_created: "create_budget demo_admin demo_budget_in \<lparr>bt_rows = [], bt_next = 1\<rparr> = (Inr demo_budget, demo_budgets)"
  by code_simp

lemma created_budget_stops_scope_witness:
  "\<exists>s sc spent cap. db_budget_checker (spend_of demo_budgets
       [((2025, 6, 2, 9, 0, 0, 0), \<lparr>l_model = ''m'', l_agent_id = Some ''7'', l_user_id = None, l_dept_id = None, l_tok_in = 1,
          l_tok_out = 1, l_tok_cached = 0, l_cost_usd = 6, l_trace_id = None\<rparr>)]) (2025, 6, 2, 12, 0, 0, 0)
       \<lparr>cm_dept_id = None, cm_agent_id = Some ''7'', cm_user_id = None, cm_trace_id = None\<rparr> = Inr s \<and>
     raise_if_exceeded s = Inl (BudgetExceeded sc spent cap)"
proof -
  let ?l = "[((2025, 6, 2, 9, 0, 0, 0), \<lparr>l_model = ''m'', l_agent_id = Some ''7'', l_user_id = None, l_dept_id = None, l_tok_in = 1,
          l_tok_out = 1, l_tok_cached = 0, l_cost_usd = 6, l_trace_id = None\<rparr>)] :: ledger"
  let ?m = "\<lparr>cm_dept_id = None, cm_agent_id = Some ''7'', cm_user_id = None, cm_trace_id = None\<rparr>"
  have m: "(bi_scope_type demo_budget_in, bi_scope_id demo_budget_in) \<in> set (scopes_of ?m)"
    by (simp add: demo_budget_in_def scopes_of_def scope_entry_def)
  have spent: "numeric2 (bi_limit_usd demo_budget_in) \<le>
       spent_since (spend_of demo_budgets ?l) (period_start (bi_period demo_budget_in) (2025, 6, 2, 12, 0, 0, 0))
         (scope_spend (bi_scope_type demo_budget_in) (bi_scope_id demo_budget_in))"
    by code_simp
  from created_budget_stops_scope [OF demo_created _ m spent] show ?thesis by auto
qed

text \<open>
  The budget table stays consistent. After any sequence of requests every budget has a known scope type and
  period, a scope id exactly when its scope is not global, a soft threshold between 0 and 100 percent and a limit that is
  not negative; ids are unique, and no two budgets of the same scope id have the same scope type and period.
\<close>

theorem budgets_invariant:
  assumes "budgets_reachable t"
  shows "distinct (map be_id (bt_rows t)) \<and> list_all (budget_row_ok \<circ> be_row) (bt_rows t) \<and> indexed (bt_rows t)"
  using budgets_reachable_wf [OF assms] by (auto simp: budgets_wf_def list_all_iff)

lemma budgets_invariant_witness: "list_all (budget_row_ok \<circ> be_row) (bt_rows demo_budgets) \<and> length (bt_rows demo_budgets) = 1"
  using budgets_invariant [OF budgets_reachable.create [OF budgets_reachable.start demo_created]] by (simp add: demo_budgets_def)

section \<open>Where a budget is not enforced\<close>

text \<open>
  A second budget of a scope is accepted for the other period, and listed; the checker never reads it.
\<close>

lemma second_period_is_ignored:
  assumes "create_budget who body t = (Inr x, t')"
    and "y \<in> set (bt_rows t)" "same_scope (bi_scope_type body) (bi_scope_id body) (be_row y)"
  shows "check_budget (spend_of t' l) now st sid = check_budget (spend_of t l) now st sid"
proof -
  from assms(1) obtain b where b: "stored_budget body = Inr b"
    "t' = t\<lparr>bt_rows := bt_rows t @ [\<lparr>be_id = bt_next t, be_row = b\<rparr>], bt_next := Suc (bt_next t)\<rparr>"
    by (auto simp: create_budget_def guarded_def Let_def split: sum.splits if_splits)
  have "find (\<lambda>z. same_scope st sid (be_row z)) (bt_rows t) \<noteq> None" if "same_scope st sid b"
    using that assms(2,3) stored_budget_fields [OF b(1)] by (auto simp: find_None_iff same_scope_def)
  then have "budget_for (spend_of t' l) st sid = budget_for (spend_of t l) st sid"
    unfolding budget_for_spend b(2) by (cases "same_scope st sid b") (auto simp: find_snoc split: option.splits)
  moreover have "spent_since (spend_of t' l) = spent_since (spend_of t l)"
    by (intro ext) (simp add: spent_since_def spend_of_def)
  ultimately show ?thesis by (simp add: check_budget_def Let_def split: option.split)
qed

text \<open>A limit below half a cent is accepted and stored as zero, which stops the scope at once.\<close>

lemma tiny_limit_stops_at_once:
  "\<exists>x t'. create_budget demo_admin (demo_budget_in\<lparr>bi_limit_usd := 1/250\<rparr>) \<lparr>bt_rows = [], bt_next = 1\<rparr> = (Inr x, t') \<and>
     bs_hard_exceeded (status_of (spend_of t' []) (2025, 6, 2, 12, 0, 0, 0) (''agent'', Some ''7''))"
proof -
  let ?r = "create_budget demo_admin (demo_budget_in\<lparr>bi_limit_usd := 1/250\<rparr>) \<lparr>bt_rows = [], bt_next = 1\<rparr>"
  have "\<not> isl (fst ?r) \<and> bs_hard_exceeded (status_of (spend_of (snd ?r) []) (2025, 6, 2, 12, 0, 0, 0) (''agent'', Some ''7''))"
    by code_simp
  then show ?thesis by (cases ?r; cases "fst ?r") auto
qed

end
