(* ===== verification/Http_Pipeline.thy ===== *)
theory Http_Pipeline
  imports Erasure
begin

text \<open>
  The way of a request through the API (\<open>middleware.py\<close>, \<open>errors.py\<close>, the order of \<open>app.py\<close>, in
  \<open>apps/api/fleet_api\<close>): trace id, audit, request metrics, rate limit, then the routes. A middleware is a function on
  handlers; a handler answers or raises, and changes the platform. The routes are a parameter, as are the clock, the
  token verification and whether Redis and the database answer. CORS and the last resort for unhandled exceptions are
  Starlette's: the second is \<open>serve\<close>.
\<close>

section \<open>Requests and the platform\<close>

record http_request =
  rq_client :: "string option"
  rq_method :: string
  rq_path :: string
  rq_trace_header :: "string option"
  rq_authorization :: "string option"
  rq_api_key :: "string option"

record http_response =
  hr_status :: nat
  hr_error :: "(string \<times> string) option"
  hr_headers :: "(string \<times> string) list"

text \<open>\<open>pf_route\<close> is the template of the matched route in the scope of the request.\<close>

record 's platform =
  pf_app :: 's
  pf_counters :: "string \<Rightarrow> nat"
  pf_audit :: "audit_row list"
  pf_requests :: "(string \<times> string \<times> nat) list"
  pf_route :: "string option"

record http_env =
  he_now :: nat
  he_new_trace_id :: string
  he_sub :: "string option \<Rightarrow> string option"
  he_redis :: "unit res"
  he_audit :: "nat \<Rightarrow> nat res"

type_synonym 's web_handler = "http_request \<Rightarrow> 's platform \<Rightarrow> http_response res \<times> 's platform"

section \<open>Errors\<close>

text \<open>\<open>AppError\<close> with its two subclasses, and FastAPI's own handler of \<open>HTTPException\<close>.\<close>

definition error_response :: "exn \<Rightarrow> http_response option" where
  "error_response e =
     (case e of
        UnauthorizedError m \<Rightarrow> Some \<lparr>hr_status = 401, hr_error = Some (''unauthorized'', m), hr_headers = []\<rparr>
      | ForbiddenError m \<Rightarrow> Some \<lparr>hr_status = 403, hr_error = Some (''forbidden'', m), hr_headers = []\<rparr>
      | HTTPException status m \<Rightarrow> Some \<lparr>hr_status = status, hr_error = Some (''detail'', m), hr_headers = []\<rparr>
      | _ \<Rightarrow> None)"

definition with_error_handlers :: "'s web_handler \<Rightarrow> 's web_handler" where
  "with_error_handlers app req st =
     (case app req st of
        (Inl e, st') \<Rightarrow> (case error_response e of Some resp \<Rightarrow> (Inr resp, st') | None \<Rightarrow> (Inl e, st'))
      | answer \<Rightarrow> answer)"

section \<open>The middlewares\<close>

definition or_else :: "string option \<Rightarrow> string \<Rightarrow> string" where
  "or_else v d = (case v of Some (c # cs) \<Rightarrow> c # cs | _ \<Rightarrow> d)"

definition trace_id_of :: "http_env \<Rightarrow> http_request \<Rightarrow> string" where
  "trace_id_of env req = or_else (rq_trace_header req) (he_new_trace_id env)"

definition trace_id_middleware :: "http_env \<Rightarrow> 's web_handler \<Rightarrow> 's web_handler" where
  "trace_id_middleware env call_next req st =
     (case call_next req st of
        (Inl e, st') \<Rightarrow> (Inl e, st')
      | (Inr resp, st') \<Rightarrow> (Inr (resp\<lparr>hr_headers := hr_headers resp @ [(''X-Trace-Id'', trace_id_of env req)]\<rparr>), st'))"

text \<open>The id of the new audit row is chosen by the database, which may also fail.\<close>

definition audit_middleware :: "http_env \<Rightarrow> 's web_handler \<Rightarrow> 's web_handler" where
  "audit_middleware env call_next req st =
     (case call_next req st of
        (Inl e, st') \<Rightarrow> (Inl e, st')
      | (Inr resp, st') \<Rightarrow>
          (let sub = he_sub env (rq_authorization req);
               actor = or_else sub ''anonymous'';
               actor_type = (if given sub then ''user'' else ''anonymous'')
           in case he_audit env (length (pf_audit st')) of
                Inl e \<Rightarrow> (Inl e, st')
              | Inr i \<Rightarrow>
                  (Inr resp, st'\<lparr>pf_audit := write_audit i actor actor_type (rq_method req @ '' '' @ rq_path req)
                     (Some ''http_request'') (Some (nat_str (hr_status resp))) (Some (trace_id_of env req)) (pf_audit st')\<rparr>)))"

definition request_metrics_middleware :: "'s web_handler \<Rightarrow> 's web_handler" where
  "request_metrics_middleware call_next req st =
     (case call_next req st of
        (Inl e, st') \<Rightarrow> (Inl e, st')
      | (Inr resp, st') \<Rightarrow>
          (Inr resp, st'\<lparr>pf_requests := pf_requests st' @
             [(rq_method req, case pf_route st' of Some r \<Rightarrow> r | None \<Rightarrow> ''unmatched'', hr_status resp)]\<rparr>))"

definition rate_key :: "http_env \<Rightarrow> http_request \<Rightarrow> string" where
  "rate_key env req =
     ''ratelimit:'' @ (case rq_client req of Some c \<Rightarrow> c | None \<Rightarrow> ''unknown'') @ '':'' @ nat_str (he_now env div 60)"

definition too_many :: http_response where
  "too_many = \<lparr>hr_status = 429, hr_error = Some (''rate_limited'', ''too many requests''), hr_headers = []\<rparr>"

definition count_request :: "string \<Rightarrow> 's platform \<Rightarrow> 's platform" where
  "count_request key st = st\<lparr>pf_counters := (pf_counters st)(key := Suc (pf_counters st key))\<rparr>"

text \<open>\<open>INCR\<close> and the comparison; the key lives at least as long as its window.\<close>

definition rate_limit_middleware :: "http_env \<Rightarrow> nat \<Rightarrow> 's web_handler \<Rightarrow> 's web_handler" where
  "rate_limit_middleware env limit call_next req st =
     (case he_redis env of
        Inl e \<Rightarrow> (Inl e, st)
      | Inr _ \<Rightarrow>
          (let st' = count_request (rate_key env req) st
           in if limit < pf_counters st' (rate_key env req) then (Inr too_many, st') else call_next req st'))"

text \<open>\<open>create_app\<close>: the last middleware added is the outermost. A new request has no route in its scope.\<close>

definition fleet_app :: "http_env \<Rightarrow> nat \<Rightarrow> 's web_handler \<Rightarrow> 's web_handler" where
  "fleet_app env limit app req st =
     trace_id_middleware env (audit_middleware env (request_metrics_middleware
       (rate_limit_middleware env limit (with_error_handlers app)))) req (st\<lparr>pf_route := None\<rparr>)"

text \<open>Starlette's last resort.\<close>

definition serve :: "http_env \<Rightarrow> nat \<Rightarrow> 's web_handler \<Rightarrow> http_request \<Rightarrow> 's platform \<Rightarrow> http_response \<times> 's platform" where
  "serve env limit app req st =
     (case fleet_app env limit app req st of
        (Inl _, st') \<Rightarrow> (\<lparr>hr_status = 500, hr_error = None, hr_headers = []\<rparr>, st')
      | (Inr resp, st') \<Rightarrow> (resp, st'))"

section \<open>Limits over a sequence of requests\<close>

text \<open>A day of requests, each with its own environment.\<close>

fun serve_all ::
  "nat \<Rightarrow> 's web_handler \<Rightarrow> (http_env \<times> http_request) list \<Rightarrow> 's platform \<Rightarrow> http_response list \<times> 's platform" where
  "serve_all limit app [] st = ([], st)"
| "serve_all limit app ((env, req) # rs) st =
     (case serve env limit app req st of
        (resp, st') \<Rightarrow> (case serve_all limit app rs st' of (resps, st'') \<Rightarrow> (resp # resps, st'')))"

text \<open>Routes do not touch the counters of the rate limit.\<close>

definition keeps_counters :: "'s web_handler \<Rightarrow> bool" where
  "keeps_counters app \<longleftrightarrow> (\<forall>req st. pf_counters (snd (app req st)) = pf_counters st)"

definition counted :: "string \<Rightarrow> http_env \<times> http_request \<Rightarrow> bool" where
  "counted key er \<longleftrightarrow> (\<exists>u. he_redis (fst er) = Inr u) \<and> rate_key (fst er) (snd er) = key"

lemma with_error_handlers_counters:
  "keeps_counters app \<Longrightarrow> pf_counters (snd (with_error_handlers app req st)) = pf_counters st"
  by (auto simp: keeps_counters_def with_error_handlers_def split: prod.splits sum.splits option.splits) (metis snd_conv)+

lemma outer_counters:
  "pf_counters (snd (trace_id_middleware env (audit_middleware env (request_metrics_middleware h)) req st)) =
     pf_counters (snd (h req st))"
  by (auto simp: trace_id_middleware_def audit_middleware_def request_metrics_middleware_def Let_def
      split: prod.splits sum.splits)

lemma serve_counters:
  assumes "keeps_counters app"
  shows "pf_counters (snd (serve env limit app req st)) key = pf_counters st key + (if counted key (env, req) then 1 else 0)"
proof -
  have s: "snd (serve env limit app req st) = snd (fleet_app env limit app req st)"
    by (simp add: serve_def split: prod.splits sum.splits)
  show ?thesis
    unfolding s fleet_app_def outer_counters
    using with_error_handlers_counters [OF assms]
    by (auto simp: rate_limit_middleware_def count_request_def counted_def Let_def split: sum.splits)
qed

lemma with_error_handlers_state: "snd (with_error_handlers app req st) = snd (app req st)"
  by (auto simp: with_error_handlers_def split: prod.splits sum.splits option.splits)

lemma outer_app:
  "pf_app (snd (trace_id_middleware env (audit_middleware env (request_metrics_middleware h)) req st)) = pf_app (snd (h req st))"
  by (auto simp: trace_id_middleware_def audit_middleware_def request_metrics_middleware_def Let_def
      split: prod.splits sum.splits)

lemma serve_state: "snd (serve env limit app req st) = snd (fleet_app env limit app req st)"
  by (simp add: serve_def split: prod.splits sum.splits)

lemma serve_effect:
  "pf_app (snd (serve env limit app req st)) =
     (if he_redis env = Inr () \<and> pf_counters st (rate_key env req) < limit
      then pf_app (snd (app req (count_request (rate_key env req) (st\<lparr>pf_route := None\<rparr>)))) else pf_app st)"
  unfolding serve_state fleet_app_def outer_app
  by (auto simp: rate_limit_middleware_def with_error_handlers_state count_request_def Let_def split: sum.splits)

lemma serve_all_work:
  fixes work :: "'s \<Rightarrow> nat"
  assumes "keeps_counters app" "\<And>req st. work (pf_app (snd (app req st))) \<le> work (pf_app st) + cost"
    and "list_all (\<lambda>(env, req). rate_key env req = key) rs"
  shows "work (pf_app (snd (serve_all limit app rs st))) \<le> work (pf_app st) + (limit - pf_counters st key) * cost"
  using assms(3)
proof (induction rs arbitrary: st)
  case (Cons er rs)
  obtain env req where er: "er = (env, req)" by (cases er)
  let ?st' = "snd (serve env limit app req st)"
  have key: "rate_key env req = key" using Cons.prems er by simp
  have IH: "work (pf_app (snd (serve_all limit app rs ?st'))) \<le> work (pf_app ?st') + (limit - pf_counters ?st' key) * cost"
    using Cons.IH [of ?st'] Cons.prems by simp
  have step: "snd (serve_all limit app (er # rs) st) = snd (serve_all limit app rs ?st')"
    by (simp add: er split: prod.splits)
  show ?case
  proof (cases "he_redis env = Inr () \<and> pf_counters st key < limit")
    case True
    have c: "pf_counters ?st' key = Suc (pf_counters st key)"
      using True serve_counters [OF assms(1), of env limit req st key] by (simp add: counted_def key)
    have w: "work (pf_app ?st') \<le> work (pf_app st) + cost"
      using True assms(2) [of req "count_request key (st\<lparr>pf_route := None\<rparr>)"]
      by (simp add: serve_effect key count_request_def)
    obtain d where d: "limit - pf_counters st key = Suc d" "limit - Suc (pf_counters st key) = d"
      using True by (metis Suc_diff_Suc)
    show ?thesis using IH w unfolding step c d by simp
  next
    case False
    have c: "pf_counters st key \<le> pf_counters ?st' key"
      using serve_counters [OF assms(1), of env limit req st key] by simp
    have "(limit - pf_counters ?st' key) * cost \<le> (limit - pf_counters st key) * cost"
      using c by (intro mult_le_mono1 diff_le_mono2)
    moreover have "pf_app ?st' = pf_app st" using False by (auto simp: serve_effect key)
    ultimately show ?thesis using IH unfolding step by (metis add_left_mono order_trans)
  qed
qed simp

section \<open>Properties\<close>


definition demo_http_env :: http_env where
  "demo_http_env = \<lparr>he_now = 60, he_new_trace_id = ''t1'', he_sub = (\<lambda>_. None), he_redis = Inr (), he_audit = (\<lambda>n. Inr (Suc n))\<rparr>"

definition demo_http_request :: http_request where
  "demo_http_request = \<lparr>rq_client = Some ''10.0.0.1'', rq_method = ''POST'', rq_path = ''/v1/service/notify'', rq_trace_header = None,
     rq_authorization = None, rq_api_key = Some ''k''\<rparr>"

text \<open>A route that counts its calls.\<close>

definition demo_route :: "nat web_handler" where
  "demo_route req st = (Inr \<lparr>hr_status = 202, hr_error = None, hr_headers = []\<rparr>, st\<lparr>pf_app := Suc (pf_app st), pf_route := Some ''/v1''\<rparr>)"

definition demo_platform :: "nat platform" where
  "demo_platform = \<lparr>pf_app = 0, pf_counters = (\<lambda>_. 0), pf_audit = [], pf_requests = [], pf_route = None\<rparr>"


text \<open>
  Property C16: the rate limit bounds the work a client can cause. If a call of the routes costs at most \<open>cost\<close>, then any
  number of requests of one client in one window together cost at most \<open>limit\<close> times that, whatever they ask for,
  however they fail, and however often Redis is away in between.
\<close>

theorem rate_limit_bounds_work:
  fixes work :: "'s \<Rightarrow> nat"
  assumes "keeps_counters app" "\<And>req st. work (pf_app (snd (app req st))) \<le> work (pf_app st) + cost"
    and "list_all (\<lambda>(env, req). rate_key env req = key) rs"
  shows "work (pf_app (snd (serve_all limit app rs st))) \<le> work (pf_app st) + limit * cost"
proof -
  have "(limit - pf_counters st key) * cost \<le> limit * cost" by simp
  with serve_all_work [where work = work and app = app and cost = cost and st = st, OF assms] show ?thesis by (meson add_left_mono order_trans)
qed

lemma rate_limit_bounds_work_witness:
  "pf_app (snd (serve_all 2 demo_route (replicate 9 (demo_http_env, demo_http_request)) demo_platform)) \<le> 2"
proof -
  have "keeps_counters demo_route" by (simp add: keeps_counters_def demo_route_def)
  from rate_limit_bounds_work [of demo_route "\<lambda>n. n" 1 "rate_key demo_http_env demo_http_request"
      "replicate 9 (demo_http_env, demo_http_request)" 2 demo_platform, OF this]
  show ?thesis by (simp add: demo_route_def demo_platform_def list_all_iff)
qed

section \<open>What is not on record\<close>

text \<open>
  An exception no handler knows passes every middleware: the client gets a 500 without a trace id, and neither the audit
  nor the metrics have a row of it.
\<close>

lemma crash_is_not_audited:
  assumes "app req (count_request (rate_key env req) (st\<lparr>pf_route := None\<rparr>)) = (Inl e, st')" "error_response e = None"
    and "he_redis env = Inr ()" "pf_counters st (rate_key env req) < limit"
  shows "serve env limit app req st = (\<lparr>hr_status = 500, hr_error = None, hr_headers = []\<rparr>, st')"
  using assms
  by (simp add: serve_def fleet_app_def trace_id_middleware_def audit_middleware_def request_metrics_middleware_def
      rate_limit_middleware_def with_error_handlers_def count_request_def Let_def)

end
