(* ===== verification/Observability.thy ===== *)
theory Observability
  imports Budget Erasure Py_Round
begin

text \<open>
  Reading the ledger and the audit log: the cost summary and the audit explorer
  (\<open>apps/api/fleet_api/routers/observability_admin.py\<close>) and the gauges of the metrics endpoint
  (\<open>routers/metrics.py\<close>). SQL grouping is a list of the values present with the sum of their rows. The beginning of a
  window, which Python computes from the clock, is an argument.
\<close>

section \<open>Grouped sums\<close>

type_synonym entry = "datetime \<times> ledger_row"

definition cost_of :: "entry list \<Rightarrow> rat" where
  "cost_of es = sum_list (map (l_cost_usd \<circ> snd) es)"

definition group_by :: "(entry \<Rightarrow> 'k) \<Rightarrow> entry list \<Rightarrow> ('k \<times> rat) list" where
  "group_by f es = map (\<lambda>k. (k, cost_of (filter (\<lambda>e. f e = k) es))) (remdups (map f es))"

definition in_window :: "datetime \<Rightarrow> ledger \<Rightarrow> entry list" where
  "in_window since l = filter (\<lambda>(ts, _). since \<le> ts) l"

lemma cost_of_Cons [simp]: "cost_of [] = 0" "cost_of (e # es) = l_cost_usd (snd e) + cost_of es"
  by (simp_all add: cost_of_def)

lemma cost_of_split: "cost_of es = cost_of (filter p es) + cost_of (filter (\<lambda>e. \<not> p e) es)"
  by (induction es) auto

lemma sum_over_keys:
  "distinct ks \<Longrightarrow> f ` set es \<subseteq> set ks \<Longrightarrow> sum_list (map (\<lambda>k. cost_of (filter (\<lambda>e. f e = k) es)) ks) = cost_of es"
proof (induction ks arbitrary: es)
  case (Cons k ks)
  let ?rest = "filter (\<lambda>e. f e \<noteq> k) es"
  have sub: "f ` set ?rest \<subseteq> set ks" using Cons.prems by auto
  have "sum_list (map (\<lambda>k. cost_of (filter (\<lambda>e. f e = k) ?rest)) ks) = cost_of ?rest"
    by (rule Cons.IH [OF _ sub]) (use Cons.prems(1) in simp)
  moreover have "filter (\<lambda>e. f e = k') ?rest = filter (\<lambda>e. f e = k') es" if "k' \<in> set ks" for k'
    using that Cons.prems(1) by (auto intro: filter_cong)
  ultimately have "sum_list (map (\<lambda>k'. cost_of (filter (\<lambda>e. f e = k') es)) ks) = cost_of ?rest"
    by (metis (mono_tags, lifting) map_eq_conv)
  then show ?case using cost_of_split [of es "\<lambda>e. f e = k"] by simp
qed simp

lemma group_by_total: "sum_list (map snd (group_by f es)) = cost_of es"
  using sum_over_keys [of "remdups (map f es)" f es] by (simp add: group_by_def o_def)

lemma group_by_keys: "distinct (map fst (group_by f es))" "set (map fst (group_by f es)) = f ` set es"
  by (simp_all add: group_by_def o_def)

section \<open>The cost summary\<close>

record cost_summary_out =
  cs_total :: rat
  cs_by_dept :: "(string \<times> rat) list"
  cs_by_agent :: "(string \<times> rat) list"
  cs_by_model :: "(string \<times> rat) list"
  cs_burn_down :: "(string \<times> rat) list"
  cs_cache_hit_ratio :: rat

text \<open>\<open>_group\<close>: largest sum first.\<close>

definition spend_by :: "(ledger_row \<Rightarrow> string option) \<Rightarrow> entry list \<Rightarrow> (string \<times> rat) list" where
  "spend_by col es =
     map (\<lambda>(k, v). (case k of Some s \<Rightarrow> s | None \<Rightarrow> ''unassigned'', round2 v))
       (sort_key (\<lambda>(_, v). - v) (group_by (col \<circ> snd) es))"

definition day_of :: "datetime \<Rightarrow> nat \<times> nat \<times> nat" where
  "day_of ts = (case ts of (y, mo, d, _) \<Rightarrow> (y, mo, d))"

definition padded :: "nat \<Rightarrow> nat \<Rightarrow> string" where
  "padded w n = (let s = nat_str n in replicate (w - length s) CHR ''0'' @ s)"

definition iso_date :: "nat \<times> nat \<times> nat \<Rightarrow> string" where
  "iso_date day = (case day of (y, mo, d) \<Rightarrow> padded 4 y @ ''-'' @ padded 2 mo @ ''-'' @ padded 2 d)"

definition burn_down :: "entry list \<Rightarrow> (string \<times> rat) list" where
  "burn_down es = map (\<lambda>(day, v). (iso_date day, round2 v)) (sort_key fst (group_by (day_of \<circ> fst) es))"

definition round4 :: "rat \<Rightarrow> rat" where
  "round4 x = of_int (round_half_even (x * 10000)) / 10000"

definition cache_hit_ratio :: "entry list \<Rightarrow> rat" where
  "cache_hit_ratio es =
     (let tin = sum_list (map (l_tok_in \<circ> snd) es); cached = sum_list (map (l_tok_cached \<circ> snd) es)
      in if tin + cached = 0 then 0 else round4 (of_int cached / of_int (tin + cached)))"

definition cost_summary :: "principal res \<Rightarrow> nat \<Rightarrow> datetime \<Rightarrow> ledger \<Rightarrow> cost_summary_out res" where
  "cost_summary who days since l =
     res_bind who (\<lambda>_.
       if days < 1 \<or> 365 < days then Inl (HTTPException 422 ''request validation'')
       else (let es = in_window since l
             in Inr \<lparr>cs_total = round2 (cost_of es), cs_by_dept = spend_by l_dept_id es, cs_by_agent = spend_by l_agent_id es,
                     cs_by_model = spend_by (Some \<circ> l_model) es, cs_burn_down = burn_down es,
                     cs_cache_hit_ratio = cache_hit_ratio es\<rparr>))"

section \<open>The audit explorer\<close>

text \<open>\<open>LIKE\<close>: a percent sign is any text, an underscore any character, a backslash quotes the next one.\<close>

fun sql_like :: "string \<Rightarrow> string \<Rightarrow> bool" where
  "sql_like [] s = (s = [])"
| "sql_like (p # ps) s =
     (if p = CHR ''%'' then sql_like ps s \<or> (case s of [] \<Rightarrow> False | _ # t \<Rightarrow> sql_like (p # ps) t)
      else (case s of
              [] \<Rightarrow> False
            | c # t \<Rightarrow>
                if p = CHR ''_'' then sql_like ps t
                else if p = CHR 0x5C \<and> ps \<noteq> [] then c = hd ps \<and> sql_like (tl ps) t
                else c = p \<and> sql_like ps t))"

definition matches :: "string option \<Rightarrow> (string \<Rightarrow> bool) \<Rightarrow> bool" where
  "matches f p = (\<not> given f \<or> p (the f))"

text \<open>\<open>column.contains(action)\<close> puts the text between two percent signs, unescaped.\<close>

definition audit_matches :: "string option \<Rightarrow> string option \<Rightarrow> string option \<Rightarrow> audit_row \<Rightarrow> bool" where
  "audit_matches actor action entity r \<longleftrightarrow>
     matches actor (\<lambda>a. au_actor r = a) \<and> matches action (\<lambda>a. sql_like (''%'' @ a @ ''%'') (au_action r)) \<and>
     matches entity (\<lambda>e. au_entity r = Some e)"

definition langfuse_url :: "string \<Rightarrow> string \<Rightarrow> string option \<Rightarrow> string option" where
  "langfuse_url base project tr =
     (if given tr then Some (base @ ''/project/'' @ project @ ''/traces/'' @ the tr) else None)"

definition list_audit ::
  "principal res \<Rightarrow> string \<Rightarrow> string \<Rightarrow> string option \<Rightarrow> string option \<Rightarrow> string option \<Rightarrow> nat \<Rightarrow> audit_row list \<Rightarrow>
     (audit_row \<times> string option) list res" where
  "list_audit who base project actor action entity limit rows =
     res_bind who (\<lambda>_.
       if limit < 1 \<or> 500 < limit then Inl (HTTPException 422 ''request validation'')
       else Inr (map (\<lambda>r. (r, langfuse_url base project (au_trace_id r)))
              (take limit (rev (sort_key au_id (filter (audit_matches actor action entity) rows))))))"

section \<open>The gauges\<close>

record gauges =
  ga_daily :: "string \<Rightarrow> rat option"
  ga_week :: "string \<Rightarrow> rat option"
  ga_queue :: "rat option"

fun set_gauges :: "(rat \<Rightarrow> rat) \<Rightarrow> (string option \<times> rat) list \<Rightarrow> (string \<Rightarrow> rat option) \<Rightarrow> string \<Rightarrow> rat option" where
  "set_gauges f [] g = g"
| "set_gauges f ((k, v) # rows) g = set_gauges f rows (case k of Some d \<Rightarrow> g(d := Some (f v)) | None \<Rightarrow> g)"

definition dept_rows :: "datetime \<Rightarrow> ledger \<Rightarrow> (string option \<times> rat) list" where
  "dept_rows since l = group_by (l_dept_id \<circ> snd) (filter (\<lambda>(_, r). l_dept_id r \<noteq> None) (in_window since l))"

definition refresh_cost_anomaly_gauges :: "datetime \<Rightarrow> datetime \<Rightarrow> ledger \<Rightarrow> gauges \<Rightarrow> gauges" where
  "refresh_cost_anomaly_gauges today_start week_start l g =
     g\<lparr>ga_daily := set_gauges (\<lambda>v. v) (dept_rows today_start l) (ga_daily g),
       ga_week := set_gauges (\<lambda>v. v / 7) (dept_rows week_start l) (ga_week g)\<rparr>"

text \<open>The scrape: the queue depth may fail, after the cost gauges are set.\<close>

definition scrape :: "datetime \<Rightarrow> datetime \<Rightarrow> ledger \<Rightarrow> nat res \<Rightarrow> gauges \<Rightarrow> unit res \<times> gauges" where
  "scrape today_start week_start l depth g =
     (let g' = refresh_cost_anomaly_gauges today_start week_start l g
      in case depth of Inl e \<Rightarrow> (Inl e, g') | Inr n \<Rightarrow> (Inr (), g'\<lparr>ga_queue := Some (of_nat n)\<rparr>))"

section \<open>Properties\<close>

lemma round2_sum_close: "\<bar>sum_list (map round2 xs) - sum_list xs\<bar> \<le> of_nat (length xs) / 200"
proof (induction xs)
  case (Cons x xs)
  have "\<bar>round2 x - x\<bar> \<le> 1/200" using round2_bounds [of x] by linarith
  moreover have "\<bar>(round2 x - x) + (sum_list (map round2 xs) - sum_list xs)\<bar> \<le> \<bar>round2 x - x\<bar> + \<bar>sum_list (map round2 xs) - sum_list xs\<bar>"
    by (rule abs_triangle_ineq)
  ultimately have "\<bar>(round2 x - x) + (sum_list (map round2 xs) - sum_list xs)\<bar> \<le> 1/200 + of_nat (length xs) / 200"
    using Cons.IH by linarith
  then show ?case by (simp add: algebra_simps add_divide_distrib)
qed simp

text \<open>A breakdown by \<open>f\<close>: one rounded amount for each value of \<open>f\<close> that occurs.\<close>

definition breakdown :: "(entry \<Rightarrow> 'k) \<Rightarrow> entry list \<Rightarrow> (string \<times> rat) list \<Rightarrow> bool" where
  "breakdown f es out \<longleftrightarrow>
     (\<exists>ks. distinct ks \<and> set ks = f ` set es \<and>
        mset (map snd out) = mset (map (\<lambda>k. round2 (cost_of (filter (\<lambda>e. f e = k) es))) ks))"

lemma breakdownI:
  assumes "mset (map snd out) = mset (map (round2 \<circ> snd) (group_by f es))"
  shows "breakdown f es out"
  unfolding breakdown_def using assms
  by (intro exI [of _ "remdups (map f es)"]) (simp add: group_by_def o_def)

lemma breakdown_close:
  assumes "breakdown f es out"
  shows "\<bar>sum_list (map snd out) - cost_of es\<bar> \<le> of_nat (length out) / 200"
proof -
  from assms obtain ks where ks: "distinct ks" "set ks = f ` set es"
    and m: "mset (map snd out) = mset (map (\<lambda>k. round2 (cost_of (filter (\<lambda>e. f e = k) es))) ks)"
    unfolding breakdown_def by blast
  let ?vs = "map (\<lambda>k. cost_of (filter (\<lambda>e. f e = k) es)) ks"
  have "sum_mset (mset (map snd out)) = sum_mset (mset (map round2 ?vs))" unfolding m by (simp only: map_map o_def)
  then have "sum_list (map snd out) = sum_list (map round2 ?vs)" by (simp only: sum_mset_sum_list)
  moreover have "length out = length ?vs" using mset_eq_length [OF m] by simp
  moreover have "sum_list ?vs = cost_of es" by (rule sum_over_keys [OF ks(1)]) (simp add: ks(2))
  ultimately show ?thesis using round2_sum_close [of ?vs] by (simp only:)
qed

lemma spend_by_breakdown: "breakdown (col \<circ> snd) es (spend_by col es)"
  by (rule breakdownI) (simp add: spend_by_def o_def case_prod_beta multiset.map_comp)

lemma burn_down_breakdown: "breakdown (day_of \<circ> fst) es (burn_down es)"
  by (rule breakdownI) (simp add: burn_down_def o_def case_prod_beta multiset.map_comp)

text \<open>
  The cost dashboard accounts for all spend. The four breakdowns of a window - by department, agent, model
  and day - have one amount for each value that occurs, unassigned spend included, each the rounded sum of its rows, and
  each breakdown adds up to the exact spend of the window within half a cent per line; so does the total.
\<close>

theorem cost_summary_accounts_for_all:
  assumes "cost_summary who days since l = Inr cs" "in_window since l = es"
  shows "\<bar>cs_total cs - cost_of es\<bar> \<le> 1/200 \<and>
     (breakdown (l_dept_id \<circ> snd) es (cs_by_dept cs) \<and> breakdown (l_agent_id \<circ> snd) es (cs_by_agent cs) \<and>
      breakdown (Some \<circ> l_model \<circ> snd) es (cs_by_model cs) \<and> breakdown (day_of \<circ> fst) es (cs_burn_down cs)) \<and>
     list_all (\<lambda>out. \<bar>sum_list (map snd out) - cost_of es\<bar> \<le> of_nat (length out) / 200)
       [cs_by_dept cs, cs_by_agent cs, cs_by_model cs, cs_burn_down cs]"
proof -
  from assms have cs: "cs_total cs = round2 (cost_of es)" "cs_by_dept cs = spend_by l_dept_id es" "cs_by_agent cs = spend_by l_agent_id es"
    "cs_by_model cs = spend_by (Some \<circ> l_model) es" "cs_burn_down cs = burn_down es"
    by (auto simp: cost_summary_def Let_def split: if_splits)
  have "breakdown (Some \<circ> l_model \<circ> snd) es (cs_by_model cs)"
    using spend_by_breakdown [of "Some \<circ> l_model" es] by (simp add: cs comp_assoc)
  moreover have "\<bar>cs_total cs - cost_of es\<bar> \<le> 1/200" using round2_bounds [of "cost_of es"] unfolding cs by linarith
  ultimately show ?thesis
    using spend_by_breakdown [of l_dept_id es] spend_by_breakdown [of l_agent_id es] burn_down_breakdown [of es]
    by (auto simp: cs dest: breakdown_close)
qed

definition demo_entry :: "nat \<Rightarrow> string option \<Rightarrow> rat \<Rightarrow> entry" where
  "demo_entry day dept cost =
     ((2025, 6, day, 9, 0, 0, 0), \<lparr>l_model = ''m'', l_agent_id = None, l_user_id = None, l_dept_id = dept, l_tok_in = 8,
        l_tok_out = 1, l_tok_cached = 8, l_cost_usd = cost, l_trace_id = None\<rparr>)"

definition demo_ledger :: ledger where
  "demo_ledger = [demo_entry 1 (Some ''sales'') 9, demo_entry 2 (Some ''sales'') (1/3), demo_entry 2 None (2/3)]"

lemma cost_summary_accounts_for_all_witness:
  "\<bar>cs_total (projr (cost_summary (Inr \<lparr>pr_sub = [], pr_roles = {}\<rparr>) 30 (2025, 6, 2, 0, 0, 0, 0) demo_ledger)) - 1\<bar> \<le> 1/200 \<and>
     cs_by_dept (projr (cost_summary (Inr \<lparr>pr_sub = [], pr_roles = {}\<rparr>) 30 (2025, 6, 2, 0, 0, 0, 0) demo_ledger)) = [(''unassigned'', 67/100), (''sales'', 33/100)]"
proof -
  let ?r = "cost_summary (Inr \<lparr>pr_sub = [], pr_roles = {}\<rparr>) 30 (2025, 6, 2, 0, 0, 0, 0) demo_ledger"
  let ?es = "in_window (2025, 6, 2, 0, 0, 0, 0) demo_ledger"
  have r: "?r = Inr (projr ?r)" by (simp add: cost_summary_def Let_def)
  have es: "cost_of ?es = 1" by code_simp
  have d: "spend_by l_dept_id ?es = [(''unassigned'', 67/100), (''sales'', 33/100)]" by code_simp
  from cost_summary_accounts_for_all [OF r refl] have "\<bar>cs_total (projr ?r) - 1\<bar> \<le> 1/200" unfolding es by blast
  with d show ?thesis by (simp add: cost_summary_def Let_def)
qed

section \<open>What the numbers do not say\<close>

text \<open>
  \<open>tok_in\<close> already contains the cached tokens, so the ratio of a window served entirely from the cache is one half.
\<close>

lemma full_cache_reads_half:
  assumes "list_all (\<lambda>e. l_tok_cached (snd e) = l_tok_in (snd e)) es" "0 < sum_list (map (l_tok_in \<circ> snd) es)"
  shows "cache_hit_ratio es = 1/2"
proof -
  let ?n = "sum_list (map (l_tok_in \<circ> snd) es)"
  have c: "sum_list (map (l_tok_cached \<circ> snd) es) = ?n" using assms(1) by (induction es) auto
  have "(of_int ?n :: rat) / of_int (?n + ?n) = 1/2" using assms(2) by (simp add: field_simps)
  moreover have "round4 (1/2) = 1/2" by code_simp
  ultimately show ?thesis using assms(2) by (simp add: cache_hit_ratio_def Let_def c)
qed

text \<open>A department that spends nothing today keeps the gauge of its last day.\<close>

lemma set_gauges_other: "list_all (\<lambda>(k, _). k \<noteq> Some d) rows \<Longrightarrow> set_gauges f rows g d = g d"
  by (induction f rows g rule: set_gauges.induct) (auto split: option.splits)

lemma daily_gauge_is_stale:
  assumes "list_all (\<lambda>(ts, r). l_dept_id r \<noteq> Some d \<or> ts < today_start) l"
  shows "ga_daily (snd (scrape today_start week_start l depth g)) d = ga_daily g d"
proof -
  have "list_all (\<lambda>(k, _). k \<noteq> Some d) (dept_rows today_start l)"
    using assms by (auto simp: dept_rows_def group_by_def in_window_def list_all_iff)
  then show ?thesis
    by (simp add: scrape_def refresh_cost_anomaly_gauges_def Let_def set_gauges_other split: sum.split)
qed

end
