(* ===== verification/Services_Admin.thy ===== *)
theory Services_Admin
  imports Access Py_Strings
begin

text \<open>
  The service health screen (\<open>apps/api/fleet_api/services_catalog.py\<close>, \<open>routers/services_admin.py\<close>): the catalog, the
  probes, the list with masked secrets and the reveal route. What a probe finds, how long it took and the environment
  variables are parameters; a probe that fails carries the name of its exception. The bullet of the masks is not in the
  character range of \<open>string\<close> and is a parameter too.
\<close>

section \<open>The catalog\<close>

datatype probe_kind = Http_Probe | Postgres_Probe | Redis_Probe | Arq_Probe

record service_credential =
  cr_label :: string
  cr_secret_env :: string
  cr_username_env :: "string option"
  cr_default_username :: "string option"
  cr_default_secret :: "string option"

record service_spec =
  ss_name :: string
  ss_group :: string
  ss_probe :: probe_kind
  ss_url :: string
  ss_probe_url :: string
  ss_optional :: bool
  ss_credentials :: "service_credential list"

definition credential_of ::
  "string \<Rightarrow> string \<Rightarrow> string option \<Rightarrow> string option \<Rightarrow> string option \<Rightarrow> service_credential" where
  "credential_of label secret_env username_env default_username default_secret =
     \<lparr>cr_label = label, cr_secret_env = secret_env, cr_username_env = username_env, cr_default_username = default_username,
      cr_default_secret = default_secret\<rparr>"

definition spec_of ::
  "string \<Rightarrow> string \<Rightarrow> probe_kind \<Rightarrow> string \<Rightarrow> string \<Rightarrow> bool \<Rightarrow> service_credential list \<Rightarrow> service_spec" where
  "spec_of name grp probe url probe_url optional credentials =
     \<lparr>ss_name = name, ss_group = grp, ss_probe = probe, ss_url = url, ss_probe_url = probe_url, ss_optional = optional,
      ss_credentials = credentials\<rparr>"

definition service_catalog :: "service_spec list" where
  "service_catalog =
     [spec_of ''postgres'' ''core'' Postgres_Probe ''postgresql://localhost:5432/fleet'' '''' False
        [credential_of ''database'' ''POSTGRES_PASSWORD'' (Some ''POSTGRES_USER'') (Some ''fleet'') (Some ''fleet_dev_pw'')],
      spec_of ''redis'' ''core'' Redis_Probe ''redis://localhost:6379'' '''' False
        [],
      spec_of ''qdrant'' ''core'' Http_Probe ''http://localhost:6333/dashboard'' ''http://localhost:6333/readyz'' False
        [],
      spec_of ''minio'' ''core'' Http_Probe ''http://localhost:9001'' ''http://localhost:9000/minio/health/live'' False
        [credential_of ''console'' ''MINIO_ROOT_PASSWORD'' (Some ''MINIO_ROOT_USER'') (Some ''fleet'') (Some ''fleet_dev_pw'')],
      spec_of ''keycloak'' ''core'' Http_Probe ''http://localhost:8080'' ''http://localhost:8080/realms/fleet/.well-known/openid-configuration'' False
        [credential_of ''admin console'' ''KEYCLOAK_ADMIN_PASSWORD'' (Some ''KEYCLOAK_ADMIN'') (Some ''admin'') (Some ''admin'')],
      spec_of ''litellm'' ''provider'' Http_Probe ''http://localhost:4000'' ''http://localhost:4000/health/liveliness'' False
        [credential_of ''master key'' ''LITELLM_MASTER_KEY'' None None (Some ''sk-fleet-dev-master'')],
      spec_of ''ollama'' ''provider'' Http_Probe ''http://localhost:11434'' ''http://localhost:11434/api/tags'' True
        [],
      spec_of ''langfuse'' ''observability'' Http_Probe ''http://localhost:3001'' ''http://localhost:3001/api/public/health'' False
        [credential_of ''sign-in'' ''LANGFUSE_INIT_USER_PASSWORD'' (Some ''LANGFUSE_INIT_USER_EMAIL'') (Some ''admin@fleet.dev'') (Some ''fleet_dev_pw''),
         credential_of ''project secret key'' ''LANGFUSE_SECRET_KEY'' None None (Some ''sk-lf-fleet-dev'')],
      spec_of ''prometheus'' ''observability'' Http_Probe ''http://localhost:9090'' ''http://localhost:9090/-/healthy'' False
        [],
      spec_of ''grafana'' ''observability'' Http_Probe ''http://localhost:3002'' ''http://localhost:3002/api/health'' False
        [credential_of ''admin console'' ''GF_SECURITY_ADMIN_PASSWORD'' (Some ''GF_SECURITY_ADMIN_USER'') (Some ''admin'') (Some ''admin'')],
      spec_of ''loki'' ''observability'' Http_Probe ''http://localhost:3100'' ''http://localhost:3100/ready'' False
        [],
      spec_of ''promtail'' ''observability'' Http_Probe ''http://localhost:9080/targets'' ''http://localhost:9080/ready'' False
        [],
      spec_of ''alertmanager'' ''observability'' Http_Probe ''http://localhost:9093'' ''http://localhost:9093/-/healthy'' False
        [],
      spec_of ''mailpit'' ''core'' Http_Probe ''http://localhost:8025'' ''http://localhost:8025/readyz'' False
        [],
      spec_of ''n8n-main'' ''automation'' Http_Probe ''http://localhost:5679'' ''http://localhost:5678/healthz'' False
        [],
      spec_of ''n8n-worker'' ''worker'' Http_Probe '''' ''http://localhost:5680/healthz'' False
        [],
      spec_of ''arq'' ''worker'' Arq_Probe '''' '''' True
        []]"

text \<open>An environment variable that is unset or empty leaves the default.\<close>

definition env_or :: "string option \<Rightarrow> string option \<Rightarrow> string option" where
  "env_or v d = (if given v then v else d)"

definition credential_username :: "(string \<Rightarrow> string option) \<Rightarrow> service_credential \<Rightarrow> string option" where
  "credential_username env c =
     (case cr_username_env c of
        Some (x # xs) \<Rightarrow> env_or (env (x # xs)) (cr_default_username c)
      | _ \<Rightarrow> cr_default_username c)"

definition credential_secret :: "(string \<Rightarrow> string option) \<Rightarrow> service_credential \<Rightarrow> string option" where
  "credential_secret env c = env_or (env (cr_secret_env c)) (cr_default_secret c)"

definition effective_probe_url :: "service_spec \<Rightarrow> string" where
  "effective_probe_url s = (if ss_probe_url s \<noteq> [] then ss_probe_url s else ss_url s)"

definition mask_secret :: "char \<Rightarrow> string option \<Rightarrow> string option" where
  "mask_secret bullet v =
     (case v of
        None \<Rightarrow> None
      | Some s \<Rightarrow>
          Some (if length s < 10 then replicate 8 bullet
                else take 2 s @ replicate 6 bullet @ drop (length s - 2) s))"

section \<open>Probes\<close>

datatype probe_call =
    Http_Get string
  | Select_1
  | Redis_Ping string
  | Redis_Exists string string
  | Redis_Zcard string string
  | Redis_Llen string nat string

text \<open>A number - a status, a count, a flag - or the name of the exception.\<close>

datatype probe_answer = Number nat | Raised string

record services_env =
  sv_answer :: "probe_call \<Rightarrow> probe_answer"
  sv_latency :: "probe_call \<Rightarrow> nat"
  sv_redis_url :: string
  sv_ingest_redis_url :: string
  sv_environ :: "string \<Rightarrow> string option"
  sv_bullet :: char

record probe_result =
  pb_status :: string
  pb_detail :: "string option"
  pb_latency_ms :: "nat option"

definition probe_http :: "services_env \<Rightarrow> string \<Rightarrow> probe_result" where
  "probe_http env url =
     (case sv_answer env (Http_Get url) of
        Raised e \<Rightarrow> \<lparr>pb_status = ''down'', pb_detail = Some e, pb_latency_ms = None\<rparr>
      | Number code \<Rightarrow>
          (let latency = Some (sv_latency env (Http_Get url)) in
           if code < 400 \<or> code \<in> {401, 403} then \<lparr>pb_status = ''healthy'', pb_detail = None, pb_latency_ms = latency\<rparr>
           else \<lparr>pb_status = ''down'', pb_detail = Some (''HTTP '' @ nat_str code), pb_latency_ms = latency\<rparr>))"

definition probe_alive :: "services_env \<Rightarrow> probe_call \<Rightarrow> probe_result" where
  "probe_alive env c =
     (case sv_answer env c of
        Raised e \<Rightarrow> \<lparr>pb_status = ''down'', pb_detail = Some e, pb_latency_ms = None\<rparr>
      | Number _ \<Rightarrow> \<lparr>pb_status = ''healthy'', pb_detail = None, pb_latency_ms = Some (sv_latency env c)\<rparr>)"

definition arq_queue_key :: string where
  "arq_queue_key = ''arq:queue''"

definition arq_health_key :: string where
  "arq_health_key = ''arq:queue:health-check''"

definition probe_arq :: "services_env \<Rightarrow> string \<Rightarrow> probe_result \<times> nat option" where
  "probe_arq env url =
     (case sv_answer env (Redis_Exists url arq_health_key) of
        Raised e \<Rightarrow> (\<lparr>pb_status = ''unknown'', pb_detail = Some e, pb_latency_ms = None\<rparr>, None)
      | Number alive \<Rightarrow>
          (case sv_answer env (Redis_Zcard url arq_queue_key) of
             Raised e \<Rightarrow> (\<lparr>pb_status = ''unknown'', pb_detail = Some e, pb_latency_ms = None\<rparr>, None)
           | Number depth \<Rightarrow>
               (\<lparr>pb_status = if alive \<noteq> 0 then ''healthy'' else ''down'',
                 pb_detail = if alive \<noteq> 0 then None else Some ''no worker heartbeat'', pb_latency_ms = None\<rparr>, Some depth)))"

definition n8n_queue_depth :: "services_env \<Rightarrow> nat option" where
  "n8n_queue_depth env =
     (case sv_answer env (Redis_Llen (sv_redis_url env) 2 ''bull:jobs:wait'') of Raised _ \<Rightarrow> None | Number n \<Rightarrow> Some n)"

section \<open>The routes\<close>

record credential_out =
  co_label :: string
  co_username :: "string option"
  co_secret :: "string option"

record service_out =
  so_spec :: service_spec
  so_result :: probe_result
  so_queue_depth :: "nat option"
  so_credentials :: "credential_out list"

definition probe :: "services_env \<Rightarrow> service_spec \<Rightarrow> service_out" where
  "probe env s =
     (let (result, depth) =
        (case ss_probe s of
           Postgres_Probe \<Rightarrow> (probe_alive env Select_1, None)
         | Redis_Probe \<Rightarrow> (probe_alive env (Redis_Ping (sv_redis_url env)), None)
         | Arq_Probe \<Rightarrow> probe_arq env (sv_ingest_redis_url env)
         | Http_Probe \<Rightarrow>
             (probe_http env (effective_probe_url s), if ss_name s = ''n8n-worker'' then n8n_queue_depth env else None))
      in \<lparr>so_spec = s, so_result = result, so_queue_depth = depth,
          so_credentials = map (\<lambda>c. \<lparr>co_label = cr_label c, co_username = credential_username (sv_environ env) c,
            co_secret = mask_secret (sv_bullet env) (credential_secret (sv_environ env) c)\<rparr>) (ss_credentials s)\<rparr>)"

record services_out =
  sl_services :: "service_out list"
  sl_healthy :: nat
  sl_down :: nat

definition list_services :: "principal res \<Rightarrow> services_env \<Rightarrow> services_out res" where
  "list_services who env =
     res_bind who (\<lambda>_.
       let services = map (probe env) service_catalog
       in Inr \<lparr>sl_services = services,
               sl_healthy = length (filter (\<lambda>s. pb_status (so_result s) = ''healthy'') services),
               sl_down = length (filter (\<lambda>s. pb_status (so_result s) = ''down'' \<and> \<not> ss_optional (so_spec s)) services)\<rparr>)"

text \<open>The two permissions of the reveal: the route's, and the role of the caller in the roles table.\<close>

definition reveal_credentials ::
  "principal res \<Rightarrow> principal res \<Rightarrow> services_env \<Rightarrow> string \<Rightarrow> credential_out list res" where
  "reveal_credentials current permitted env name =
     res_bind current (\<lambda>u. res_bind permitted (\<lambda>_.
       if ''platform_admin'' \<notin> pr_roles u then Inl (HTTPException 403 ''reveal requires the platform_admin role'')
       else (case find (\<lambda>s. ss_name s = name) service_catalog of
               None \<Rightarrow> Inl (HTTPException 404 (''unknown service: '' @ name))
             | Some s \<Rightarrow>
                 Inr (map (\<lambda>c. \<lparr>co_label = cr_label c, co_username = credential_username (sv_environ env) c,
                        co_secret = credential_secret (sv_environ env) c\<rparr>) (ss_credentials s)))))"

section \<open>Properties\<close>

text \<open>The calls a card rests on.\<close>

definition probe_calls :: "services_env \<Rightarrow> service_spec \<Rightarrow> probe_call list" where
  "probe_calls env s =
     (case ss_probe s of
        Postgres_Probe \<Rightarrow> [Select_1]
      | Redis_Probe \<Rightarrow> [Redis_Ping (sv_redis_url env)]
      | Arq_Probe \<Rightarrow> [Redis_Exists (sv_ingest_redis_url env) arq_health_key, Redis_Zcard (sv_ingest_redis_url env) arq_queue_key]
      | Http_Probe \<Rightarrow> Http_Get (effective_probe_url s) #
          (if ss_name s = ''n8n-worker'' then [Redis_Llen (sv_redis_url env) 2 ''bull:jobs:wait''] else []))"

lemma probe_depends_on_calls:
  assumes "\<And>c. c \<in> set (probe_calls env s) \<Longrightarrow> f c = sv_answer env c"
  shows "probe (env\<lparr>sv_answer := f\<rparr>) s = probe env s"
  using assms
  by (cases "ss_probe s")
    (auto simp: probe_def probe_calls_def probe_alive_def probe_http_def probe_arq_def n8n_queue_depth_def Let_def
      split: probe_answer.splits)

lemma catalog_calls_disjoint:
  "distinct (map ss_name service_catalog)"
  "distinct (concat (map (probe_calls env) service_catalog))"
  by (simp_all add: service_catalog_def spec_of_def credential_of_def probe_calls_def effective_probe_url_def)

lemma distinct_concat_disjoint:
  "distinct (concat (map f xs)) \<Longrightarrow> s \<in> set xs \<Longrightarrow> t \<in> set xs \<Longrightarrow> s \<noteq> t \<Longrightarrow> set (f s) \<inter> set (f t) = {}"
  by (induction xs) auto

lemma calls_of_others:
  "s \<in> set service_catalog \<Longrightarrow> t \<in> set service_catalog \<Longrightarrow> s \<noteq> t \<Longrightarrow> set (probe_calls env s) \<inter> set (probe_calls env t) = {}"
  using catalog_calls_disjoint(2) by (rule distinct_concat_disjoint)

lemma probe_fields:
  "so_spec (probe env s) = s"
  "so_credentials (probe env s) = map (\<lambda>c. \<lparr>co_label = cr_label c, co_username = credential_username (sv_environ env) c,
     co_secret = mask_secret (sv_bullet env) (credential_secret (sv_environ env) c)\<rparr>) (ss_credentials s)"
  by (simp_all add: probe_def case_prod_beta)

lemma mask_bounds:
  assumes "mask_secret b v = Some m"
  shows "length (filter (\<lambda>x. x \<noteq> b) m) \<le> 4 \<and> b \<in> set m"
proof (cases v)
  case (Some t)
  show ?thesis
  proof (cases "length t < 10")
    case False
    have "length (filter q (take 2 t)) \<le> 2" "length (filter q (drop (length t - 2) t)) \<le> 2" for q :: "char \<Rightarrow> bool"
      by (rule le_trans [OF length_filter_le], simp)+
    then have "length (filter (\<lambda>x. x \<noteq> b) (take 2 t)) + length (filter (\<lambda>x. x \<noteq> b) (drop (length t - 2) t)) \<le> 2 + 2"
      by (rule add_mono)
    with assms Some False show ?thesis by (auto simp: mask_secret_def)
  qed (use assms Some in \<open>auto simp: mask_secret_def\<close>)
qed (use assms in \<open>simp add: mask_secret_def\<close>)

lemma revealed_to:
  assumes "reveal_credentials current permitted env name = Inr creds"
  shows "\<exists>u. current = Inr u \<and> ''platform_admin'' \<in> pr_roles u \<and> name \<in> ss_name ` set service_catalog"
proof -
  from assms obtain u s where u: "current = Inr u" "''platform_admin'' \<in> pr_roles u" "find (\<lambda>s. ss_name s = name) service_catalog = Some s"
    by (auto simp: reveal_credentials_def split: option.splits if_splits)
  from u(3) obtain k where "k < length service_catalog" "ss_name (service_catalog ! k) = name"
    unfolding find_Some_iff by blast
  then have "name \<in> ss_name ` set service_catalog" by force
  with u show ?thesis by blast
qed

text \<open>
  A dead service degrades its own card and nothing else. Whatever the probes of one service answer instead -
  any status, any exception - the list is still answered, with the same services in the same order and every other card
  unchanged.
\<close>

theorem dead_service_degrades_own_card:
  assumes "s \<in> set service_catalog"
  shows "\<exists>out out'. list_services (Inr p) env = Inr out \<and>
     list_services (Inr p) (env\<lparr>sv_answer := \<lambda>c. if c \<in> set (probe_calls env s) then broken c else sv_answer env c\<rparr>) = Inr out' \<and>
     map so_spec (sl_services out) = service_catalog \<and>
     list_all2 (\<lambda>x y. so_spec x = so_spec y \<and> (so_spec x = s \<or> x = y)) (sl_services out) (sl_services out')"
proof -
  let ?f = "\<lambda>c. if c \<in> set (probe_calls env s) then broken c else sv_answer env c"
  have "t = s \<or> probe env t = probe (env\<lparr>sv_answer := ?f\<rparr>) t" if "t \<in> set service_catalog" for t
  proof (cases "t = s")
    case False
    have "probe (env\<lparr>sv_answer := ?f\<rparr>) t = probe env t"
      using calls_of_others [OF assms that] False by (intro probe_depends_on_calls) auto
    then show ?thesis by simp
  qed simp
  then show ?thesis
    by (auto simp: list_services_def Let_def list_all2_map1 list_all2_map2 o_def probe_fields list_all2_same)
qed

text \<open>
  Property C38: secrets are shown masked, and in full only to a platform administrator. In the list every secret has at
  most four characters that are not bullets, so it is not the secret itself; the reveal route answers only callers whose
  own roles contain \<open>platform_admin\<close>, and never for an unknown service.
\<close>

theorem secrets_need_platform_admin:
  assumes "list_services who env = Inr out"
  shows "list_all (\<lambda>card. list_all (\<lambda>c. case co_secret c of
         None \<Rightarrow> True
       | Some m \<Rightarrow> length (filter (\<lambda>x. x \<noteq> sv_bullet env) m) \<le> 4 \<and> sv_bullet env \<in> set m) (so_credentials card)) (sl_services out) \<and>
     (case reveal_credentials current permitted env name of
        Inl _ \<Rightarrow> True
      | Inr _ \<Rightarrow> \<exists>u. current = Inr u \<and> ''platform_admin'' \<in> pr_roles u \<and> name \<in> ss_name ` set service_catalog)"
proof -
  have "sl_services out = map (probe env) service_catalog" using assms by (auto simp: list_services_def Let_def)
  then have "list_all (\<lambda>card. list_all (\<lambda>c. case co_secret c of
         None \<Rightarrow> True
       | Some m \<Rightarrow> length (filter (\<lambda>x. x \<noteq> sv_bullet env) m) \<le> 4 \<and> sv_bullet env \<in> set m) (so_credentials card)) (sl_services out)"
    by (simp add: list_all_iff probe_fields mask_bounds split: option.split)
  moreover have "case reveal_credentials current permitted env name of
        Inl _ \<Rightarrow> True
      | Inr _ \<Rightarrow> \<exists>u. current = Inr u \<and> ''platform_admin'' \<in> pr_roles u \<and> name \<in> ss_name ` set service_catalog"
    using revealed_to by (simp split: sum.split)
  ultimately show ?thesis by blast
qed

definition demo_services_env :: services_env where
  "demo_services_env = \<lparr>sv_answer = (\<lambda>_. Number 200), sv_latency = (\<lambda>_. 3), sv_redis_url = ''redis://r'', sv_ingest_redis_url = ''redis://i'',
     sv_environ = (\<lambda>_. None), sv_bullet = CHR ''*''\<rparr>"

lemma dead_service_degrades_own_card_witness:
  "\<exists>out'. list_services (Inr p) (demo_services_env\<lparr>sv_answer := \<lambda>c. if c \<in> set (probe_calls demo_services_env (hd service_catalog))
       then Raised ''OSError'' else Number 200\<rparr>) = Inr out' \<and> map so_spec (sl_services out') = service_catalog"
proof -
  have h: "hd service_catalog \<in> set service_catalog" by (simp add: service_catalog_def)
  have a: "sv_answer demo_services_env = (\<lambda>_. Number 200)" by (simp add: demo_services_env_def)
  from dead_service_degrades_own_card [OF h, of p demo_services_env "\<lambda>_. Raised ''OSError''", unfolded a] obtain out out' :: services_out where
    o: "map so_spec (sl_services out) = service_catalog"
    "list_services (Inr p) (demo_services_env\<lparr>sv_answer := \<lambda>c. if c \<in> set (probe_calls demo_services_env (hd service_catalog))
       then Raised ''OSError'' else Number 200\<rparr>) = Inr out'"
    "list_all2 (\<lambda>x y. so_spec x = so_spec y \<and> (so_spec x = hd service_catalog \<or> x = y)) (sl_services out) (sl_services out')"
    by blast
  have "map so_spec (sl_services out) = map so_spec (sl_services out')"
    using o(3) by (induction rule: list_all2_induct) auto
  with o(1,2) show ?thesis by metis
qed

lemma secrets_need_platform_admin_witness:
  "\<exists>out. list_services (Inr \<lparr>pr_sub = [], pr_roles = {}\<rparr>) demo_services_env = Inr out \<and>
     list_all (\<lambda>card. list_all (\<lambda>c. co_secret c = None \<or> CHR ''*'' \<in> set (the (co_secret c))) (so_credentials card)) (sl_services out)"
proof -
  obtain out where out: "list_services (Inr \<lparr>pr_sub = [], pr_roles = {}\<rparr>) demo_services_env = Inr out" by (simp add: list_services_def Let_def)
  have b: "sv_bullet demo_services_env = CHR ''*''" by (simp add: demo_services_env_def)
  from secrets_need_platform_admin [OF out, where current = "Inl IndexError" and permitted = "Inl IndexError" and name = "[]", THEN conjunct1]
  have "list_all (\<lambda>card. list_all (\<lambda>c. co_secret c = None \<or> CHR ''*'' \<in> set (the (co_secret c))) (so_credentials card)) (sl_services out)"
    unfolding b list_all_iff by (fastforce split: option.splits)
  with out show ?thesis by blast
qed

end
