(* ===== verification/Review_Routes.thy ===== *)
theory Review_Routes
  imports Chat Legal_Review Listing_Quality Pg_Read_Only
begin

text \<open>
  The routes of the two review agents: contracts (\<open>apps/api/fleet_api/routers/legal_review.py\<close>, with its retriever over
  the \<open>legal-playbooks\<close> collection) and listings (\<open>routers/listing_quality.py\<close>, with its price index over one fixed
  read). Neither graph interrupts, so a run starts and ends in one request; the graphs get no kill switch.
\<close>

section \<open>Contracts\<close>

text \<open>The retriever: the contract is embedded at \<open>confidential\<close>, the search is cut to the default budgets.\<close>

definition playbook_excerpts :: "query_env \<Rightarrow> nat \<Rightarrow> nat \<Rightarrow> string \<Rightarrow> (query_call, excerpt list) eff" where
  "playbook_excerpts env cid top_k query =
     eff_bind (eff_call (Q_Embed ''confidential'' [query]) (qe_embed env ''confidential'' [query])) (\<lambda>vectors.
     eff_bind (eff_lift (case vectors of [] \<Rightarrow> Inl IndexError | v # _ \<Rightarrow> Inr v)) (\<lambda>vec.
     eff_bind (retrieve (search_hybrid env (collection_name cid)) vec (agent_query_config top_k) None) (\<lambda>hits.
       eff_return (map (\<lambda>h. \<lparr>ex_content = ht_content h, ex_ref = ht_ref h\<rparr>) hits))))"

record review_env =
  rw_agent :: agent_env
  rw_query :: query_env
  rw_nonces :: "string \<times> string"

datatype review_call = By_Graph agent_call | By_Retriever query_call

text \<open>The calls of a run, the retriever's own calls after the node that asked it.\<close>

definition with_retriever :: "(query_call, excerpt list) eff \<Rightarrow> agent_call list \<Rightarrow> review_call list" where
  "with_retriever m calls =
     concat (map (\<lambda>c. By_Graph c # (case c of Use tool _ \<Rightarrow> if tool = ''playbooks.retrieve'' then map By_Retriever (trace m) else []
                                    | Ask _ _ _ \<Rightarrow> [])) calls)"

record legal_reply =
  le_status :: string
  le_findings :: "finding list"
  le_uncited :: "uncited list"
  le_reason :: "exn option"
  le_retrieved :: nat

definition legal_reply_of :: "legal_state \<Rightarrow> legal_reply" where
  "legal_reply_of s =
     (case lg_blocked s of
        Some e \<Rightarrow> \<lparr>le_status = ''blocked'', le_findings = [], le_uncited = [], le_reason = Some e, le_retrieved = 0\<rparr>
      | None \<Rightarrow>
          (let r = (case lg_review s of Some r \<Rightarrow> r | None \<Rightarrow> \<lparr>rv_findings = [], rv_uncited = []\<rparr>)
           in \<lparr>le_status = ''completed'', le_findings = rv_findings r, le_uncited = rv_uncited r, le_reason = None,
               le_retrieved = (case lg_excerpts s of Some xs \<Rightarrow> length xs | None \<Rightarrow> 0)\<rparr>))"

definition legal_env :: "review_env \<Rightarrow> agent_env" where
  "legal_env env = (rw_agent env)\<lparr>ae_kill := None\<rparr>"

definition start_legal_review ::
  "review_env \<Rightarrow> principal res \<Rightarrow> string \<Rightarrow> int \<Rightarrow> agent_row list \<Rightarrow> rag_db \<Rightarrow> (review_call, legal_reply) eff" where
  "start_legal_review env who contract top_k agents db =
     eff_bind (eff_lift who) (\<lambda>_.
       if contract = [] \<or> top_k \<le> 0 \<or> 50 < top_k then eff_raise (HTTPException 422 ''request validation'')
       else if agent_by_name agents ''legal_review'' = None then eff_raise (HTTPException 500 ''legal_review not seeded'')
       else (case find (\<lambda>c. co_name c = ''legal-playbooks'') (rg_collections db) of
               None \<Rightarrow> eff_raise (HTTPException 500 ''legal-playbooks collection not seeded'')
             | Some c \<Rightarrow>
                 (let m = playbook_excerpts (rw_query env) (co_id c) (nat top_k) contract;
                      r = legal_run ''legal_review'' (legal_env env) (rw_nonces env) (\<lambda>_. outcome m) Lg_Gate None (legal_start contract)
                  in (with_retriever m (fst r),
                      case snd r of
                        Finished s \<Rightarrow> Inr (legal_reply_of s)
                      | Failed e \<Rightarrow> Inl e
                      | _ \<Rightarrow> Inl (OtherError ''GraphRecursionError'')))))"

section \<open>Listings\<close>

definition price_index_sql :: string where
  "price_index_sql = ''SELECT segment, band_low, band_high, band_median, currency FROM fixture_price_index''"

text \<open>The first row of the segment; a row without one of the columns raises.\<close>

definition reference_band :: "pg_tool \<Rightarrow> string \<Rightarrow> json res" where
  "reference_band tool segment =
     res_bind (outcome (fst (pg_query_tool tool price_index_sql []))) (\<lambda>rows.
       case find (\<lambda>r. case r of JObj kvs \<Rightarrow> map_of kvs ''segment'' = Some (JStr segment) | _ \<Rightarrow> False) rows of
         Some (JObj kvs) \<Rightarrow>
           (case (map_of kvs ''band_low'', map_of kvs ''band_high'', map_of kvs ''band_median'', map_of kvs ''currency'') of
              (Some low, Some high, Some med, Some cur) \<Rightarrow>
                Inr (JObj [(''low'', low), (''high'', high), (''median'', med), (''currency'', cur)])
            | _ \<Rightarrow> Inl (KeyError ''band''))
       | _ \<Rightarrow> Inr JNull)"

text \<open>The tools of the graph: the index, and the flag tool or its shadow stand-in.\<close>

definition listing_tools :: "pg_tool \<Rightarrow> ((string \<times> json) list \<Rightarrow> json res) \<Rightarrow> bool \<Rightarrow> string \<Rightarrow> (string \<times> json) list \<Rightarrow> json res" where
  "listing_tools pg real_flag shadow tool args =
     (if tool = ''price_index.reference_band''
      then (case map_of args ''segment'' of Some (JStr s) \<Rightarrow> reference_band pg s | _ \<Rightarrow> Inl (TypeError ''segment''))
      else if tool = ''listings.flag''
      then (if shadow then Inr (JObj [(''status'', JStr ''shadow_not_queued'')]) else real_flag args)
      else Inl (OtherError tool))"

record listing_reply =
  lq_status :: string
  lq_flags :: "flag list"
  lq_reason :: "exn option"
  lq_clean :: bool

definition listing_reply_of :: "bool \<Rightarrow> listing_state \<Rightarrow> listing_reply" where
  "listing_reply_of shadow s =
     (case ls_blocked s of
        Some e \<Rightarrow> \<lparr>lq_status = ''blocked'', lq_flags = [], lq_reason = Some e, lq_clean = False\<rparr>
      | None \<Rightarrow>
          (let flags = (case ls_verdict s of Some v \<Rightarrow> ve_flags v | None \<Rightarrow> [])
           in \<lparr>lq_status = if flags = [] then ''clean'' else if shadow then ''shadow_flagged'' else ''flagged'',
               lq_flags = flags, lq_reason = None, lq_clean = (flags = [])\<rparr>))"

definition start_listing_quality ::
  "agent_env \<Rightarrow> pg_tool \<Rightarrow> ((string \<times> json) list \<Rightarrow> json res) \<Rightarrow> caller res \<Rightarrow> listing \<Rightarrow> bool \<Rightarrow> (agent_call, listing_reply) eff" where
  "start_listing_quality env pg real_flag who li shadow =
     eff_bind (eff_lift who) (\<lambda>_.
       let r = listing_run ''listing_quality'' (env\<lparr>ae_tool := listing_tools pg real_flag shadow, ae_kill := None\<rparr>)
                 Ls_Gate None (listing_start li)
       in (fst r,
           case snd r of
             Finished s \<Rightarrow> Inr (listing_reply_of shadow s)
           | Failed e \<Rightarrow> Inl e
           | _ \<Rightarrow> Inl (OtherError ''GraphRecursionError'')))"

section \<open>Invariants of the two runs\<close>

definition legal_inv :: "string \<Rightarrow> (string \<Rightarrow> excerpt list res) \<Rightarrow> legal_node \<Rightarrow> legal_state \<Rightarrow> bool" where
  "legal_inv contract found n s \<longleftrightarrow>
     lg_contract s = contract \<and> \<not> lg_paused s \<and> (n = Lg_Review \<or> n = Lg_End \<longrightarrow> lg_excerpts s \<noteq> None) \<and>
     (case lg_excerpts s of None \<Rightarrow> True | Some xs \<Rightarrow> found contract = Inr xs) \<and>
     (case lg_review s of
        None \<Rightarrow> True
      | Some r \<Rightarrow> list_all (grounded_finding (map ex_ref (case lg_excerpts s of Some xs \<Rightarrow> xs | None \<Rightarrow> [])) (Some contract)) (rv_findings r))"

lemma reviewed_grounded:
  assumes "outcome (review_contract env nonces sens contract excerpts refs) = Inr r"
  shows "list_all (grounded_finding refs (Some contract)) (rv_findings r)"
proof -
  from assms obtain raws where "r = build_review (ae_repr env) raws refs (Some contract)"
    by (auto simp: review_contract_def outcome_eff_bind split: sum.splits)
  then show ?thesis
    using build_review_fold [of "\<lparr>rv_findings = [], rv_uncited = []\<rparr>" refs "Some contract" "ae_repr env" raws]
    by (simp add: build_review_def list_all_iff)
qed

lemma legal_exec_inv:
  assumes "legal_inv contract found n s" "legal_exec agent env nonces found n None s = (l, Inr (Update s'))" "ae_kill env = None"
  shows "legal_inv contract found Lg_Gate s' \<and> (n \<noteq> Lg_Gate \<longrightarrow> lg_excerpts s' \<noteq> None)"
proof -
  from assms(2) have out: "outcome (legal_exec agent env nonces found n None s) = Inr (Update s')" by simp
  show ?thesis
  proof (cases n)
    case Lg_Review
    with out obtain xs where xs: "lg_excerpts s = Some xs"
      and s': "(\<exists>r. outcome (review_contract env nonces ''confidential'' (lg_contract s) (map ex_content xs) (map ex_ref xs)) = Inr r
           \<and> s' = s\<lparr>lg_review := Some r\<rparr>) \<or> (\<exists>e. s' = s\<lparr>lg_blocked := Some e\<rparr>)"
      by (cases "lg_excerpts s") (auto simp: eff_try_Inr outcome_eff_bind split: sum.splits if_splits)
    from s' show ?thesis
    proof (elim disjE exE conjE)
      fix r assume r: "outcome (review_contract env nonces ''confidential'' (lg_contract s) (map ex_content xs) (map ex_ref xs)) = Inr r"
        and s': "s' = s\<lparr>lg_review := Some r\<rparr>"
      from reviewed_grounded [OF r] assms(1) xs show ?thesis by (simp add: s' legal_inv_def)
    qed (use assms(1) xs in \<open>auto simp: legal_inv_def split: option.splits\<close>)
  next
    case Lg_Retrieve
    with out obtain xs where "found (lg_contract s) = Inr xs" "s' = s\<lparr>lg_excerpts := Some xs\<rparr>"
      by (auto simp: outcome_eff_bind split: sum.splits)
    with assms(1) show ?thesis by (auto simp: legal_inv_def list_all_iff grounded_finding_def split: option.splits)
  qed (use assms(1,3) out in
      \<open>auto simp: legal_inv_def outcome_eff_bind gate_closed_def no_excerpts_def split: sum.splits if_splits option.splits\<close>)
qed

lemma legal_inv_step:
  assumes "legal_inv contract found n s" "legal_exec agent (legal_env env) nonces found n None s = (l, Inr (Update s'))"
    and "legal_route n s' = Inr (Some n')"
  shows "legal_inv contract found n' s'"
proof -
  have k: "ae_kill (legal_env env) = None" by (simp add: legal_env_def)
  from legal_exec_inv [OF assms(1,2) k] assms(3) show ?thesis
    by (cases n) (auto simp: legal_inv_def split: if_splits)
qed

interpretation legal_grounded:
  graph_invariant "legal_exec agent (legal_env env) nonces found" legal_route "legal_inv contract found"
  for agent env nonces found contract
  by unfold_locales (rule legal_inv_step)

lemma legal_finished:
  assumes "snd (legal_run agent (legal_env env) nonces found Lg_Gate None (legal_start contract)) = Finished s"
  shows "legal_inv contract found Lg_End s"
proof -
  have "legal_inv contract found Lg_Gate (legal_start contract)" by (simp add: legal_inv_def legal_start_def)
  from legal_grounded.finished_inv [OF this assms [unfolded legal_run_def]] obtain m u l where
    u: "legal_inv contract found m u" "legal_exec agent (legal_env env) nonces found m None u = (l, Inr (Update s))"
    "legal_route m s = Inr None" by blast
  have k: "ae_kill (legal_env env) = None" by (simp add: legal_env_def)
  note e = legal_exec_inv [OF u(1,2) k]
  with u(3) have "m \<noteq> Lg_Gate" by (auto simp: legal_inv_def)
  with e show ?thesis by (auto simp: legal_inv_def)
qed

lemma with_retriever_ok:
  assumes "list_all p (map By_Graph calls)" "list_all p (map By_Retriever (trace m))"
  shows "list_all p (with_retriever m calls)"
  using assms by (auto simp: with_retriever_def list_all_iff split: agent_call.splits)

lemma playbook_excerpts_trace:
  "set (trace (playbook_excerpts env cid top_k query)) \<subseteq>
     {c. c = Q_Embed ''confidential'' [query] \<or> (\<exists>v n k. c = Q_Search (collection_name cid) v n k)}"
  by (auto simp: playbook_excerpts_def retrieve_def search_hybrid_def Let_def set_trace_eff_bind split: sum.splits list.splits)

section \<open>Properties\<close>

text \<open>
  Property C7: a contract review stays on the local lane and reports nothing it cannot show. Every model call of the
  request and the embedding of the contract are at \<open>confidential\<close>, the only search is in the playbook collection; and
  every reported finding quotes the contract and cites an excerpt the retriever returned for it.
\<close>

theorem contract_review_is_grounded:
  shows "list_all (\<lambda>c. case c of
         By_Graph a \<Rightarrow> legal_call_ok a
       | By_Retriever (Q_Embed sens _) \<Rightarrow> sens = ''confidential''
       | By_Retriever (Q_Search name _ _ _) \<Rightarrow>
           name \<in> collection_name ` co_id ` {c \<in> set (rg_collections db). co_name c = ''legal-playbooks''}
       | By_Retriever _ \<Rightarrow> False)
       (trace (start_legal_review env who contract top_k agents db)) \<and>
     (case outcome (start_legal_review env who contract top_k agents db) of
        Inl _ \<Rightarrow> True
      | Inr reply \<Rightarrow> \<exists>cid xs. outcome (playbook_excerpts (rw_query env) cid (nat top_k) contract) = Inr xs \<and>
          list_all (grounded_finding (map ex_ref xs) (Some contract)) (le_findings reply))"
proof (cases "\<exists>p c. who = Inr p \<and> contract \<noteq> [] \<and> 0 < top_k \<and> top_k \<le> 50 \<and> agent_by_name agents ''legal_review'' \<noteq> None \<and>
    find (\<lambda>c. co_name c = ''legal-playbooks'') (rg_collections db) = Some c")
  case True
  then obtain c where c: "find (\<lambda>c. co_name c = ''legal-playbooks'') (rg_collections db) = Some c" by blast
  let ?m = "playbook_excerpts (rw_query env) (co_id c) (nat top_k) contract"
  let ?r = "legal_run ''legal_review'' (legal_env env) (rw_nonces env) (\<lambda>_. outcome ?m) Lg_Gate None (legal_start contract)"
  have start: "start_legal_review env who contract top_k agents db =
      (with_retriever ?m (fst ?r), case snd ?r of Finished s \<Rightarrow> Inr (legal_reply_of s) | Failed e \<Rightarrow> Inl e
         | _ \<Rightarrow> Inl (OtherError ''GraphRecursionError''))"
    using True c by (auto simp: start_legal_review_def Let_def)
  have member: "c \<in> set (rg_collections db)" "co_name c = ''legal-playbooks''" using c by (auto simp: find_Some_iff)
  have "list_all legal_call_ok (fst ?r)"
    using legal_review_calls [of _ "''legal_review''" "legal_env env" "rw_nonces env" "\<lambda>_. outcome ?m" Lg_Gate None "legal_start contract"]
    by (simp add: list_all_iff)
  then have calls: "list_all (\<lambda>c. case c of
         By_Graph a \<Rightarrow> legal_call_ok a
       | By_Retriever (Q_Embed sens _) \<Rightarrow> sens = ''confidential''
       | By_Retriever (Q_Search name _ _ _) \<Rightarrow>
           name \<in> collection_name ` co_id ` {c \<in> set (rg_collections db). co_name c = ''legal-playbooks''}
       | By_Retriever _ \<Rightarrow> False) (with_retriever ?m (fst ?r))"
    using playbook_excerpts_trace [of "rw_query env" "co_id c" "nat top_k" contract] member
    by (intro with_retriever_ok) (auto simp: list_all_iff)
  have "\<exists>cid xs. outcome (playbook_excerpts (rw_query env) cid (nat top_k) contract) = Inr xs \<and>
      list_all (grounded_finding (map ex_ref xs) (Some contract)) (le_findings (legal_reply_of s))" if "snd ?r = Finished s" for s
    using legal_finished [OF that] by (auto simp: legal_inv_def legal_reply_of_def Let_def intro!: exI [of _ "co_id c"] split: option.splits)
  with calls show ?thesis unfolding start by (auto split: run_out.split)
next
  case False
  then have "trace (start_legal_review env who contract top_k agents db) = [] \<and> isl (outcome (start_legal_review env who contract top_k agents db))"
    by (cases who) (auto simp: start_legal_review_def eff_raise_def split: option.splits)
  then show ?thesis by (auto split: sum.split)
qed

definition listing_inv :: "listing_node \<Rightarrow> listing_state \<Rightarrow> bool" where
  "listing_inv n s \<longleftrightarrow>
     \<not> ls_paused s \<and> (case ls_verdict s of None \<Rightarrow> True | Some v \<Rightarrow> ve_codes v \<subseteq> set reason_codes)"

lemma listing_inv_step:
  assumes "listing_inv n s" "listing_exec agent (env\<lparr>ae_tool := tools, ae_kill := None\<rparr>) n None s = (l, Inr (Update s'))"
  shows "listing_inv n' s'"
proof -
  from assms(2) have out: "outcome (listing_exec agent (env\<lparr>ae_tool := tools, ae_kill := None\<rparr>) n None s) = Inr (Update s')" by simp
  show ?thesis
  proof (cases n)
    case Ls_Vision
    with out have "(\<exists>v. outcome (check_listing (env\<lparr>ae_tool := tools, ae_kill := None\<rparr>) ''internal'' (ls_listing s) (ls_band s)) = Inr v \<and>
          s' = s\<lparr>ls_verdict := Some v, ls_flagged := (\<not> ve_is_clean v)\<rparr>) \<or> (\<exists>e. s' = s\<lparr>ls_blocked := Some e\<rparr>)"
      by (auto simp: eff_try_Inr outcome_eff_bind split: sum.splits if_splits)
    then show ?thesis
    proof (elim disjE exE conjE)
      fix v assume v: "outcome (check_listing (env\<lparr>ae_tool := tools, ae_kill := None\<rparr>) ''internal'' (ls_listing s) (ls_band s)) = Inr v"
        and s': "s' = s\<lparr>ls_verdict := Some v, ls_flagged := (\<not> ve_is_clean v)\<rparr>"
      from check_listing_codes [OF v] assms(1) show ?thesis by (simp add: s' listing_inv_def)
    qed (use assms(1) in \<open>simp add: listing_inv_def\<close>)
  qed (use assms(1) out in \<open>auto simp: listing_inv_def gate_closed_def outcome_eff_bind split: sum.splits if_splits option.splits\<close>)
qed

interpretation listing_closed:
  graph_invariant "listing_exec agent (env\<lparr>ae_tool := tools, ae_kill := None\<rparr>)" listing_route listing_inv for agent env tools
  by unfold_locales (rule listing_inv_step)

text \<open>
  What the listing route answers. Its flags have codes of the closed vocabulary, whatever the model replied;
  the status is \<open>flagged\<close> only outside the shadow mode and only with a flag, \<open>clean\<close> only without one; and in the
  shadow mode the whole answer is the same whatever the real flag tool would do, so nothing is queued.
\<close>

theorem listing_reply_is_consistent:
  assumes "outcome (start_listing_quality env pg real_flag who li shadow) = Inr reply"
  shows "list_all (\<lambda>f. fl_code f \<in> set reason_codes) (lq_flags reply) \<and>
     (lq_status reply = ''blocked'' \<and> lq_flags reply = [] \<and> lq_reason reply \<noteq> None \<or>
      lq_status reply = ''clean'' \<and> lq_flags reply = [] \<and> lq_clean reply \<or>
      lq_status reply = (if shadow then ''shadow_flagged'' else ''flagged'') \<and> lq_flags reply \<noteq> [] \<and> \<not> lq_clean reply) \<and>
     start_listing_quality env pg other_flag who li True = start_listing_quality env pg real_flag who li True"
proof -
  let ?env = "env\<lparr>ae_tool := listing_tools pg real_flag shadow, ae_kill := None\<rparr>"
  from assms obtain s where run: "snd (listing_run ''listing_quality'' ?env Ls_Gate None (listing_start li)) = Finished s"
    and reply: "reply = listing_reply_of shadow s"
    by (auto simp: start_listing_quality_def Let_def eff_bind_Inr_iff split: run_out.splits)
  have "listing_inv Ls_Gate (listing_start li)" by (simp add: listing_inv_def listing_start_def)
  from listing_closed.finished_inv [OF this run [unfolded listing_run_def]] obtain m u l where
    u: "listing_inv m u" "listing_exec ''listing_quality'' ?env m None u = (l, Inr (Update s))" by blast
  have "listing_inv Ls_End s" by (rule listing_inv_step [OF u])
  moreover have "listing_tools pg other_flag True = listing_tools pg real_flag True"
    by (simp add: listing_tools_def fun_eq_iff)
  ultimately show ?thesis
    by (auto simp: reply listing_inv_def listing_reply_of_def start_listing_quality_def ve_codes_def list_all_iff Let_def
        split: option.splits)
qed

definition band_parser :: sql_parser where
  "band_parser = \<lparr>sp_parse = (\<lambda>_. [Some \<lparr>st_type = ''Select'', st_is_select = True, st_tables = [''fixture_price_index''],
     st_limit = No_Limit, st_rest = []\<rparr>]), sp_render = (\<lambda>_. [])\<rparr>"

definition demo_band_pg :: pg_tool where
  "demo_band_pg = pg_tool_for band_parser (\<lambda>_ _. Inr []) [''fixture_price_index'']"

lemma listing_reply_is_consistent_witness:
  "\<exists>reply. outcome (start_listing_quality demo_listing_env demo_band_pg (\<lambda>_. Inr JNull) (Inr (Service key)) demo_listing True) = Inr reply \<and>
     list_all (\<lambda>f. fl_code f \<in> set reason_codes) (lq_flags reply) \<and> lq_status reply = ''shadow_flagged''"
proof -
  let ?r = "start_listing_quality demo_listing_env demo_band_pg (\<lambda>_. Inr JNull) (Inr (Service key)) demo_listing True"
  have "case outcome ?r of Inl _ \<Rightarrow> False | Inr reply \<Rightarrow> lq_status reply = ''shadow_flagged''"
    by code_simp
  then obtain reply where r: "outcome ?r = Inr reply" "lq_status reply = ''shadow_flagged''" by (cases "outcome ?r") auto
  from listing_reply_is_consistent [OF r(1)] r show ?thesis by blast
qed

text \<open>A row of the index without its median raises, and the run with it.\<close>

lemma incomplete_band_raises:
  assumes "outcome (fst (pg_query_tool tool price_index_sql [])) = Inr [JObj [(''segment'', JStr segment), (''band_low'', lo)]]"
  shows "reference_band tool segment = Inl (KeyError ''band'')"
  using assms by (simp add: reference_band_def)

end
