(* ===== verification/Conversation_Memory.thy ===== *)
theory Conversation_Memory
  imports Agent_Common
begin

text \<open>
  Context budgeting of a conversation (\<open>apps/runtime/core/memory.py\<close>): the most recent turns stay verbatim, older ones
  are folded into a summary by one call of the utility model, which is a parameter. Python slices with \<open>-max_turns\<close>, so
  zero turns is the whole history.
\<close>

definition summary_prompt :: string where
  "summary_prompt =
     ''Summarize the following conversation turns in 2-4 sentences, preserving '' @
     ''any facts, decisions, or open questions a later reply might need.''"

record chat_context =
  cx_summary :: "string option"
  cx_recent :: "msg list"

definition transcript :: "msg list \<Rightarrow> string" where
  "transcript evicted = join newline (map (\<lambda>(role, content). role @ '': '' @ content) evicted)"

text \<open>\<open>history[:-n]\<close> and \<open>history[-n:]\<close>.\<close>

definition slice_before :: "nat \<Rightarrow> 'a list \<Rightarrow> 'a list" where
  "slice_before n xs = (if n = 0 then [] else take (length xs - n) xs)"

definition slice_last :: "nat \<Rightarrow> 'a list \<Rightarrow> 'a list" where
  "slice_last n xs = (if n = 0 then xs else drop (length xs - n) xs)"

definition build_context :: "(msg list \<Rightarrow> string res) \<Rightarrow> nat \<Rightarrow> msg list \<Rightarrow> (msg list, chat_context) eff" where
  "build_context utility max_turns history =
     (if length history \<le> max_turns then eff_return \<lparr>cx_summary = None, cx_recent = history\<rparr>
      else (let request = [(''system'', summary_prompt), (''user'', transcript (slice_before max_turns history))]
            in eff_bind (eff_call request (utility request)) (\<lambda>summary.
                 eff_return \<lparr>cx_summary = Some summary, cx_recent = slice_last max_turns history\<rparr>)))"

text \<open>
  A context forgets nothing and stays small. The recent turns are the end of the history, at most \<open>max_turns\<close> of them;
  what was cut off is exactly what the one summary request was asked about; and a history that fits needs no call.
\<close>

theorem context_keeps_history:
  assumes "0 < max_turns" "outcome (build_context utility max_turns history) = Inr c"
  shows "\<exists>evicted. history = evicted @ cx_recent c \<and> length (cx_recent c) \<le> max_turns \<and>
     (evicted = [] \<and> cx_summary c = None \<and> trace (build_context utility max_turns history) = [] \<or>
      evicted \<noteq> [] \<and> length (cx_recent c) = max_turns \<and>
      trace (build_context utility max_turns history) = [[(''system'', summary_prompt), (''user'', transcript evicted)]] \<and>
      utility [(''system'', summary_prompt), (''user'', transcript evicted)] = Inr (the (cx_summary c)))"
proof (cases "length history \<le> max_turns")
  case True
  with assms(2) show ?thesis by (auto simp: build_context_def)
next
  case False
  let ?n = "length history - max_turns"
  from assms False have c: "cx_recent c = drop ?n history" "utility [(''system'', summary_prompt), (''user'', transcript (take ?n history))] = Inr (the (cx_summary c))"
    "trace (build_context utility max_turns history) = [[(''system'', summary_prompt), (''user'', transcript (take ?n history))]]"
    by (auto simp: build_context_def Let_def outcome_eff_bind trace_eff_bind slice_before_def slice_last_def split: sum.splits)
  show ?thesis
    by (rule exI [of _ "take ?n history"]) (use False c in auto)
qed

lemma context_keeps_history_witness:
  "\<exists>c. outcome (build_context (\<lambda>_. Inr ''s'') 1 [(''user'', ''a''), (''user'', ''b'')]) = Inr c \<and> cx_recent c = [(''user'', ''b'')]"
proof -
  obtain c where c: "outcome (build_context (\<lambda>_. Inr ''s'') 1 [(''user'', ''a''), (''user'', ''b'')]) = Inr c"
    by (simp add: build_context_def Let_def)
  from context_keeps_history [OF _ c] c show ?thesis by (auto simp: build_context_def Let_def slice_last_def)
qed

text \<open>Zero turns keep everything verbatim, and still ask for a summary of nothing.\<close>

lemma zero_turns_keep_all:
  assumes "history \<noteq> []" "utility [(''system'', summary_prompt), (''user'', [])] = Inr s"
  shows "outcome (build_context utility 0 history) = Inr \<lparr>cx_summary = Some s, cx_recent = history\<rparr>"
  using assms by (simp add: build_context_def Let_def slice_before_def slice_last_def transcript_def)

end
