(* ===== verification/Queue_Progress.thy ===== *)
theory Queue_Progress
  imports Approvals
begin

text \<open>
  Progress of the approval queue (\<open>apps/api/fleet_api/routers/approvals.py\<close>): from every reachable state an approver can
  settle all pending items, whatever the resumed runs do, as long as the agent of each item has a resume handler; an
  item of an agent without one is never settled.
\<close>

definition pending :: "approval_row \<Rightarrow> bool" where
  "pending a \<longleftrightarrow> ap_status a = ''pending''"

definition pending_ids :: "fleet_db \<Rightarrow> nat list" where
  "pending_ids db = map ap_id (filter pending (fd_approvals db))"

text \<open>The agent of the item has a resume handler.\<close>

definition resumable :: "fleet_db \<Rightarrow> approval_row \<Rightarrow> bool" where
  "resumable db a \<longleftrightarrow>
     (case agent_by_id (at_rows (fd_agents db)) (ap_agent_id a) of None \<Rightarrow> False | Some agent \<Rightarrow> ag_name agent \<in> set (map fst resumers))"

lemma resumable_iff: "resumable db a \<longleftrightarrow> resumer_for db a \<noteq> None"
  by (cases "agent_by_id (at_rows (fd_agents db)) (ap_agent_id a)")
    (simp_all add: resumable_def resumer_for_def map_of_eq_None_iff)

text \<open>One request per item, in the order of the list.\<close>

definition decide_each :: "fleet_env \<Rightarrow> principal res \<Rightarrow> (nat \<Rightarrow> string) \<Rightarrow> int \<Rightarrow> nat list \<Rightarrow> fleet_db \<Rightarrow> fleet_db" where
  "decide_each fe who choice now = fold (\<lambda>i db. snd (snd (decide_approval fe who i (choice i) None now db)))"

lemma pending_decided [simp]: "\<not> pending (decided sub d e now a)"
  by (simp add: pending_def)

lemma approval_by_id_row:
  assumes "queue_wf db" "a \<in> set (fd_approvals db)"
  shows "approval_by_id (ap_id a) db = Some a"
proof (cases "approval_by_id (ap_id a) db")
  case None
  with assms(2) show ?thesis by (auto simp: approval_by_id_def find_None_iff)
next
  case (Some b)
  with approval_by_id_Some [OF Some] queue_wf_unique [OF assms(1) _ assms(2)] show ?thesis by auto
qed

lemma decide_pending:
  assumes "queue_wf db" "a \<in> set (fd_approvals db)" "pending a" "resumer_for db a \<noteq> None" "d \<in> {''approve'', ''reject''}"
  shows "snd (snd (decide_approval fe (Inr p) (ap_id a) d None now db)) =
     thread_used (ap_run_id a) (put_approval (decided (pr_sub p) d None now a) db)"
  using assms approval_by_id_row [OF assms(1,2)]
  by (auto simp: decide_approval_def pending_def Let_def case_prod_beta)

lemma resumer_for_same_agents: "fd_agents db = fd_agents db' \<Longrightarrow> resumer_for db a = resumer_for db' a"
  by (simp add: resumer_for_def)

lemma decide_each_settles:
  assumes "queue_wf db" "distinct ids" "set ids \<subseteq> set (pending_ids db)"
    "list_all (\<lambda>a. resumer_for db a \<noteq> None) (filter pending (fd_approvals db))"
    "list_all (\<lambda>i. choice i \<in> {''approve'', ''reject''}) ids"
  shows "fd_approvals (decide_each fe (Inr p) choice now ids db) =
     map (\<lambda>a. if ap_id a \<in> set ids then decided (pr_sub p) (choice (ap_id a)) None now a else a) (fd_approvals db)"
  using assms
proof (induction ids arbitrary: db)
  case (Cons i ids)
  let ?f = "\<lambda>a. if ap_id a = i then decided (pr_sub p) (choice i) None now a else a"
  from Cons.prems(3) obtain a where a: "a \<in> set (fd_approvals db)" "pending a" "ap_id a = i" by (auto simp: pending_ids_def)
  let ?db = "thread_used (ap_run_id a) (put_approval (decided (pr_sub p) (choice i) None now a) db)"
  have step: "snd (snd (decide_approval fe (Inr p) i (choice i) None now db)) = ?db"
    using decide_pending [OF Cons.prems(1) a(1,2)] Cons.prems(4,5) a by (auto simp: list_all_iff)
  have same: "b = a" if "b \<in> set (fd_approvals db)" "ap_id b = i" for b
    using queue_wf_unique [OF Cons.prems(1) that(1) a(1)] that(2) a(3) by simp
  have rows: "fd_approvals ?db = map ?f (fd_approvals db)"
    using a(3) by (auto simp: put_approval_def dest: same)
  have agents: "resumer_for ?db b = resumer_for db b" for b by (rule resumer_for_same_agents) simp
  have kept: "x \<in> set (pending_ids ?db)" if "x \<in> set (pending_ids db)" "x \<noteq> i" for x
    using that unfolding pending_ids_def rows by (auto simp: image_iff)
  have "fd_approvals (decide_each fe (Inr p) choice now ids ?db) =
     map (\<lambda>a. if ap_id a \<in> set ids then decided (pr_sub p) (choice (ap_id a)) None now a else a) (fd_approvals ?db)"
  proof (rule Cons.IH)
    show "queue_wf ?db" using queue_wf_decided [OF Cons.prems(1)] approval_by_id_row [OF Cons.prems(1) a(1)] by blast
    show "distinct ids" "list_all (\<lambda>i. choice i \<in> {''approve'', ''reject''}) ids" using Cons.prems(2,5) by simp_all
    show "set ids \<subseteq> set (pending_ids ?db)" using Cons.prems(2,3) kept by auto
    have "resumer_for db b \<noteq> None" if "b \<in> set (fd_approvals ?db)" "pending b" for b
      using that Cons.prems(4) unfolding rows by (auto simp: list_all_iff split: if_splits)
    then show "list_all (\<lambda>a. resumer_for ?db a \<noteq> None) (filter pending (fd_approvals ?db))"
      by (auto simp: list_all_iff agents)
  qed
  then have "fd_approvals (decide_each fe (Inr p) choice now (i # ids) db) =
     map (\<lambda>a. if ap_id a \<in> set ids then decided (pr_sub p) (choice (ap_id a)) None now a else a) (map ?f (fd_approvals db))"
    unfolding rows by (simp add: decide_each_def step)
  with Cons.prems(2) show ?case by auto
qed (simp add: decide_each_def)

text \<open>
  Property C4: the approval queue can always be emptied. In any state a history of runs, queued mails and decisions
  reaches, if the agent of every pending item has a resume handler, one decision per pending item by a user who may
  approve leaves nothing pending: each of these items is settled as it was decided, in the name of that user, even when
  the run it resumes fails, and every other row is as it was.
\<close>

theorem approval_queue_can_be_emptied:
  assumes "fleet_history (empty_queue agents) calls db"
    and "list_all (resumable db) (filter pending (fd_approvals db))"
    and "fst (require_permission decode sha APPROVE credentials adb) = Inr p"
    and "list_all (\<lambda>i. choice i \<in> {''approve'', ''reject''}) (pending_ids db)"
    and "db' = decide_each fe (fst (require_permission decode sha APPROVE credentials adb)) choice now (pending_ids db) db"
  shows "pending_ids db' = [] \<and>
     fd_approvals db' = map (\<lambda>a. if pending a then decided (pr_sub p) (choice (ap_id a)) None now a else a) (fd_approvals db)"
proof -
  from fleet_history_keeps [OF assms(1)] have wf: "queue_wf db" by simp
  then have d: "distinct (map ap_id (fd_approvals db))" by (simp add: queue_wf_def)
  then have "distinct (pending_ids db)" unfolding pending_ids_def by (rule distinct_map_filter)
  from decide_each_settles [OF wf this subset_refl assms(2) [unfolded resumable_iff [abs_def]] assms(4), of fe p now] assms(3,5)
  have rows: "fd_approvals db' =
     map (\<lambda>a. if ap_id a \<in> set (pending_ids db) then decided (pr_sub p) (choice (ap_id a)) None now a else a) (fd_approvals db)"
    by simp
  have "ap_id a \<in> set (pending_ids db) \<longleftrightarrow> pending a" if "a \<in> set (fd_approvals db)" for a
    using that queue_wf_unique [OF wf that] by (auto simp: pending_ids_def)
  then have rows': "fd_approvals db' =
     map (\<lambda>a. if pending a then decided (pr_sub p) (choice (ap_id a)) None now a else a) (fd_approvals db)"
    unfolding rows by auto
  then have "pending_ids db' = []" by (auto simp: pending_ids_def filter_empty_conv)
  with rows' show ?thesis by blast
qed

lemma approval_queue_can_be_emptied_witness:
  "pending_ids demo_queue = [1] \<and>
   pending_ids (decide_each demo_fleet (fst (require_permission demo_claims (\<lambda>s. s) APPROVE (Some ''eve'') empty_access))
     (\<lambda>_. ''reject'') 7 (pending_ids demo_queue) demo_queue) = []"
proof -
  obtain p where p: "demo_who = Inr p" by (cases demo_who) (simp_all add: demo_who_def, code_simp)
  have "list_all (resumable demo_queue) (filter pending (fd_approvals demo_queue))" by code_simp
  from approval_queue_can_be_emptied [OF demo_history this p [unfolded demo_who_def] _ refl, of "\<lambda>_. ''reject''" demo_fleet 7]
  have "pending_ids (decide_each demo_fleet (fst (require_permission demo_claims (\<lambda>s. s) APPROVE (Some ''eve'') empty_access))
     (\<lambda>_. ''reject'') 7 (pending_ids demo_queue) demo_queue) = []" by (simp add: list_all_iff)
  moreover have "pending_ids demo_queue = [1]" by code_simp
  ultimately show ?thesis by simp
qed

text \<open>An item of an agent without a handler, such as the insights publisher, survives every decision.\<close>

lemma item_without_handler_stays:
  "approval_by_id i db = Some a \<Longrightarrow> resumer_for db a = None \<Longrightarrow> snd (snd (decide_approval fe who i d e now db)) = db"
  by (auto simp: decide_approval_def split: sum.split)

lemma insights_has_no_handler: "map_of resumers insights_name = None"
  by code_simp

end
