(* ===== verification/Recipe_Schema.thy ===== *)
theory Recipe_Schema
  imports Json_Loads
begin

text \<open>
  The automation recipe a builder defines (\<open>apps/api/fleet_api/recipes/schema.py\<close>): the fixed actions with
  their typed parameters, the two triggers, one level of conditions, and the validators that keep an n8n
  expression out of every text. A recipe is read from the JSON object of a request or of a stored row;
  whatever the validators raise reaches the route as the same error, so they all answer \<open>Inl\<close> here.
\<close>

section \<open>Actions\<close>

datatype action_name = PG_QUERY | AGENT_RUN | SLACK_POST | EMAIL_SEND | HTTP_NOTIFY

fun action_value :: "action_name \<Rightarrow> string" where
  "action_value PG_QUERY = ''pg.query''"
| "action_value AGENT_RUN = ''agent.run''"
| "action_value SLACK_POST = ''slack.post''"
| "action_value EMAIL_SEND = ''email.send''"
| "action_value HTTP_NOTIFY = ''http.notify''"

definition all_actions :: "action_name list" where
  "all_actions = [PG_QUERY, AGENT_RUN, SLACK_POST, EMAIL_SEND, HTTP_NOTIFY]"

definition write_external_actions :: "action_name list" where
  "write_external_actions = [EMAIL_SEND]"

text \<open>The parameter models: field, least and greatest length.\<close>

fun params_by_action :: "action_name \<Rightarrow> (string \<times> nat \<times> nat) list" where
  "params_by_action PG_QUERY = [(''sql'', 1, 4000)]"
| "params_by_action AGENT_RUN = [(''agent'', 1, 64), (''question'', 1, 4000)]"
| "params_by_action SLACK_POST = [(''channel'', 2, 80), (''text'', 1, 4000)]"
| "params_by_action EMAIL_SEND = [(''to'', 3, 254), (''subject'', 1, 200), (''body'', 1, 8000)]"
| "params_by_action HTTP_NOTIFY = [(''title'', 1, 200), (''message'', 1, 4000)]"

section \<open>Patterns\<close>

definition slug_char :: "char \<Rightarrow> bool" where
  "slug_char c \<longleftrightarrow> in_range CHR ''a'' CHR ''z'' c \<or> in_range CHR ''0'' CHR ''9'' c"

definition id_char :: "char \<Rightarrow> bool" where
  "id_char c \<longleftrightarrow> slug_char c \<or> c = CHR ''_''"

definition path_char :: "char \<Rightarrow> bool" where
  "path_char c \<longleftrightarrow> id_char c \<or> in_range CHR ''A'' CHR ''Z'' c"

definition cron_char :: "char \<Rightarrow> bool" where
  "cron_char c \<longleftrightarrow> py_digit c \<or> c \<in> set ''*,-/''"

text \<open>Group 1 is the step, group 2 the path.\<close>

definition step_reference_re :: rx where
  "step_reference_re =
     seqs [lits ''{{'', Star (Cls py_space), lits ''steps.'',
           Group 1 (Seq (Cls id_char) (upto_times 63 (Cls id_char))), lits ''.'',
           Group 2 (Seq (Plus (Cls path_char)) (Star (Seq (lits ''.'') (Plus (Cls path_char))))),
           Star (Cls py_space), lits ''}}'']"

definition step_id_re :: rx where
  "step_id_re = seqs [Bos, Seq (Cls id_char) (upto_times 63 (Cls id_char)), Eos]"

definition recipe_name_re :: rx where
  "recipe_name_re =
     (let inner = Cls (\<lambda>c. slug_char c \<or> c = CHR ''-'')
      in seqs [Bos, Cls slug_char, Seq inner (upto_times 61 inner), Cls slug_char, Eos])"

definition cron_re :: rx where
  "cron_re =
     (let part = Plus (Cls (\<lambda>c. cron_char c \<or> in_range CHR ''A'' CHR ''Z'' c \<or> in_range CHR ''a'' CHR ''z'' c))
      in seqs [Bos, Plus (Cls cron_char), times 4 (Seq (Plus (Cls py_space)) part), Eos])"

section \<open>Validators\<close>

definition invalid :: "string \<Rightarrow> 'a res" where
  "invalid msg = Inl (ValueError msg)"

lemma invalid_simps [simp]: "invalid m \<noteq> Inr x" "invalid m = Inl e \<longleftrightarrow> e = ValueError m"
  by (auto simp: invalid_def)

definition residue :: "string \<Rightarrow> string" where
  "residue value = rx_sub step_reference_re (\<lambda>_ _. []) value"

definition check_text :: "string \<Rightarrow> string res" where
  "check_text value =
     (if startswith value ''='' then invalid ''a value may not start with =''
      else if CHR ''{'' \<in> set (residue value) \<or> CHR ''}'' \<in> set (residue value)
      then invalid ''only step references are allowed''
      else Inr value)"

text \<open>\<open>extra="forbid"\<close>, a string field with its bounds, and the default of an optional one.\<close>

definition only_keys :: "string list \<Rightarrow> (string \<times> json) list \<Rightarrow> unit res" where
  "only_keys ks kvs = (if list_all (\<lambda>(k, _). k \<in> set ks) kvs then Inr () else invalid ''extra fields not permitted'')"

definition as_obj :: "json \<Rightarrow> (string \<times> json) list res" where
  "as_obj v = (case v of JObj kvs \<Rightarrow> Inr kvs | _ \<Rightarrow> invalid ''should be a dictionary'')"

definition as_list :: "json \<Rightarrow> json list res" where
  "as_list v = (case v of JList vs \<Rightarrow> Inr vs | _ \<Rightarrow> invalid ''should be a list'')"

definition str_field_in :: "(string \<times> json) list \<Rightarrow> string \<times> nat \<times> nat \<Rightarrow> string res" where
  "str_field_in kvs spec =
     (case spec of (k, lo, hi) \<Rightarrow>
       (case map_of kvs k of
          Some (JStr s) \<Rightarrow> if lo \<le> length s \<and> length s \<le> hi then Inr s else invalid ''string length''
        | _ \<Rightarrow> invalid ''field required''))"

definition validate_params :: "action_name \<Rightarrow> (string \<times> json) list \<Rightarrow> (string \<times> string) list res" where
  "validate_params action raw =
     res_bind (only_keys (map fst (params_by_action action)) raw) (\<lambda>_.
     res_bind (res_map (\<lambda>(k, lo, hi). res_bind (str_field_in raw (k, lo, hi)) (\<lambda>s. Inr (k, s))) (params_by_action action))
       (\<lambda>params. res_bind (res_map (\<lambda>(_, s). check_text s) params) (\<lambda>_. Inr params)))"

section \<open>Steps\<close>

record action_step =
  a_id :: string
  a_action :: action_name
  a_params :: "(string \<times> string) list"

record condition_step =
  c_id :: string
  c_left :: string
  c_operator :: string
  c_right :: string
  c_then :: "action_step list"
  c_else :: "action_step list"

datatype step = Action action_step | Condition condition_step

fun step_id :: "step \<Rightarrow> string" where
  "step_id (Action a) = a_id a"
| "step_id (Condition c) = c_id c"

definition a_write_external :: "action_step \<Rightarrow> bool" where
  "a_write_external a \<longleftrightarrow> a_action a \<in> set write_external_actions"

fun is_write_external :: "step \<Rightarrow> bool" where
  "is_write_external (Action a) = a_write_external a"
| "is_write_external (Condition c) = list_ex a_write_external (c_then c @ c_else c)"

definition valid_id :: "(string \<times> json) list \<Rightarrow> string res" where
  "valid_id kvs =
     (case map_of kvs ''id'' of
        Some (JStr s) \<Rightarrow> if rx_at_start step_id_re s \<noteq> None then Inr s else invalid ''step id must be lowercase a-z0-9_''
      | _ \<Rightarrow> invalid ''field required'')"

text \<open>The tag of an element of a typed list may be left out; if it is there it has to be the literal.\<close>

definition tag_ok :: "string \<Rightarrow> (string \<times> json) list \<Rightarrow> unit res" where
  "tag_ok tag kvs =
     (case map_of kvs ''type'' of
        None \<Rightarrow> Inr () | Some v \<Rightarrow> if v = JStr tag then Inr () else invalid ''literal'')"

definition read_action :: "(string \<times> json) list \<Rightarrow> action_name res" where
  "read_action kvs =
     (case map_of kvs ''action'' of
        Some (JStr s) \<Rightarrow>
          (case find (\<lambda>a. action_value a = s) all_actions of Some a \<Rightarrow> Inr a | None \<Rightarrow> invalid ''unknown action'')
      | _ \<Rightarrow> invalid ''field required'')"

definition parse_action_step :: "json \<Rightarrow> action_step res" where
  "parse_action_step v =
     res_bind (as_obj v) (\<lambda>kvs.
     res_bind (only_keys [''type'', ''id'', ''action'', ''params''] kvs) (\<lambda>_.
     res_bind (tag_ok ''action'' kvs) (\<lambda>_.
     res_bind (valid_id kvs) (\<lambda>ident.
     res_bind (read_action kvs) (\<lambda>action.
     res_bind (case map_of kvs ''params'' of None \<Rightarrow> Inr [] | Some p \<Rightarrow> as_obj p) (\<lambda>raw.
     res_bind (validate_params action raw) (\<lambda>params.
       Inr \<lparr>a_id = ident, a_action = action, a_params = params\<rparr>)))))))"

definition operator_names :: "string list" where
  "operator_names = [''eq'', ''ne'', ''gt'', ''gte'', ''lt'', ''lte'', ''contains'']"

definition branch_steps :: "(string \<times> json) list \<Rightarrow> string \<Rightarrow> action_step list res" where
  "branch_steps kvs k =
     (case map_of kvs k of None \<Rightarrow> Inr [] | Some v \<Rightarrow> res_bind (as_list v) (res_map parse_action_step))"

definition read_operator :: "(string \<times> json) list \<Rightarrow> string res" where
  "read_operator kvs =
     (case map_of kvs ''operator'' of
        Some (JStr s) \<Rightarrow> if s \<in> set operator_names then Inr s else invalid ''literal''
      | _ \<Rightarrow> invalid ''field required'')"

definition parse_condition_step :: "json \<Rightarrow> condition_step res" where
  "parse_condition_step v =
     res_bind (as_obj v) (\<lambda>kvs.
     res_bind (only_keys [''type'', ''id'', ''left'', ''operator'', ''right'', ''then_steps'', ''else_steps''] kvs) (\<lambda>_.
     res_bind (tag_ok ''condition'' kvs) (\<lambda>_.
     res_bind (valid_id kvs) (\<lambda>ident.
     res_bind (str_field_in kvs (''left'', 1, 500)) (\<lambda>left.
     res_bind (read_operator kvs) (\<lambda>operator.
     res_bind (str_field_in kvs (''right'', 0, 500)) (\<lambda>right.
     res_bind (branch_steps kvs ''then_steps'') (\<lambda>then_steps.
     res_bind (branch_steps kvs ''else_steps'') (\<lambda>else_steps.
     res_bind (check_text left) (\<lambda>_.
     res_bind (check_text right) (\<lambda>_.
       if then_steps = [] \<and> else_steps = [] then invalid ''a condition needs at least one step on a branch''
       else Inr \<lparr>c_id = ident, c_left = left, c_operator = operator, c_right = right,
                 c_then = then_steps, c_else = else_steps\<rparr>)))))))))))"

text \<open>The discriminated union needs its tag.\<close>

definition parse_step :: "json \<Rightarrow> step res" where
  "parse_step v =
     res_bind (as_obj v) (\<lambda>kvs.
       if map_of kvs ''type'' = Some (JStr ''action'') then res_bind (parse_action_step v) (\<lambda>a. Inr (Action a))
       else if map_of kvs ''type'' = Some (JStr ''condition'') then res_bind (parse_condition_step v) (\<lambda>c. Inr (Condition c))
       else invalid ''union tag'')"

section \<open>Recipes\<close>

datatype trigger = Schedule string | Manual

record recipe =
  r_name :: string
  r_description :: string
  r_trigger :: trigger
  r_steps :: "step list"

definition valid_cron :: "string \<Rightarrow> string res" where
  "valid_cron value =
     (if rx_at_start cron_re (strip value) \<noteq> None then Inr (strip value) else invalid ''not a 5-field cron expression'')"

definition parse_trigger :: "json \<Rightarrow> trigger res" where
  "parse_trigger v =
     res_bind (as_obj v) (\<lambda>kvs.
       if map_of kvs ''type'' = Some (JStr ''schedule'')
       then res_bind (only_keys [''type'', ''cron''] kvs) (\<lambda>_.
              (case map_of kvs ''cron'' of
                 Some (JStr s) \<Rightarrow> res_bind (valid_cron s) (\<lambda>c. Inr (Schedule c))
               | _ \<Rightarrow> invalid ''field required''))
       else if map_of kvs ''type'' = Some (JStr ''manual'')
       then res_bind (only_keys [''type''] kvs) (\<lambda>_. Inr Manual)
       else invalid ''union tag'')"

definition step_texts :: "step \<Rightarrow> string list" where
  "step_texts st =
     (case st of
        Action a \<Rightarrow> map snd (a_params a)
      | Condition c \<Rightarrow> [c_left c, c_right c] @ concat (map (\<lambda>b. map snd (a_params b)) (c_then c @ c_else c)))"

definition text_references :: "string \<Rightarrow> string list" where
  "text_references text = map (\<lambda>(_, g). cap g 1) (rx_finditer step_reference_re text)"

definition references :: "step \<Rightarrow> string list" where
  "references st = concat (map text_references (step_texts st))"

fun add_branch_ids :: "string list \<Rightarrow> action_step list \<Rightarrow> string list res" where
  "add_branch_ids seen [] = Inr seen"
| "add_branch_ids seen (b # bs) =
     (if a_id b \<in> set seen then invalid ''duplicate step id'' else add_branch_ids (a_id b # seen) bs)"

fun unique_ids_and_ordered_refs :: "string list \<Rightarrow> step list \<Rightarrow> unit res" where
  "unique_ids_and_ordered_refs seen [] = Inr ()"
| "unique_ids_and_ordered_refs seen (st # rest) =
     (if step_id st \<in> set seen then invalid ''duplicate step id''
      else if list_ex (\<lambda>r. r \<notin> set (step_id st # seen) \<or> r = step_id st) (references st)
      then invalid ''reference to a step that does not run before it''
      else (case st of
              Action a \<Rightarrow> unique_ids_and_ordered_refs (step_id st # seen) rest
            | Condition c \<Rightarrow>
                res_bind (add_branch_ids (step_id st # seen) (c_then c @ c_else c))
                  (\<lambda>seen'. unique_ids_and_ordered_refs seen' rest)))"

definition read_description :: "(string \<times> json) list \<Rightarrow> string res" where
  "read_description kvs =
     (case map_of kvs ''description'' of
        None \<Rightarrow> Inr []
      | Some (JStr s) \<Rightarrow> if length s \<le> 500 then Inr s else invalid ''string length''
      | _ \<Rightarrow> invalid ''should be a string'')"

definition read_name :: "(string \<times> json) list \<Rightarrow> string res" where
  "read_name kvs =
     (case map_of kvs ''name'' of
        Some (JStr s) \<Rightarrow> if rx_at_start recipe_name_re s \<noteq> None then Inr s else invalid ''name must be a slug''
      | _ \<Rightarrow> invalid ''field required'')"

definition parse_recipe :: "json \<Rightarrow> recipe res" where
  "parse_recipe v =
     res_bind (as_obj v) (\<lambda>kvs.
     res_bind (only_keys [''name'', ''description'', ''trigger'', ''steps''] kvs) (\<lambda>_.
     res_bind (read_name kvs) (\<lambda>name.
     res_bind (read_description kvs) (\<lambda>description.
     res_bind (case map_of kvs ''trigger'' of None \<Rightarrow> invalid ''field required'' | Some t \<Rightarrow> parse_trigger t) (\<lambda>trigger.
     res_bind (case map_of kvs ''steps'' of None \<Rightarrow> invalid ''field required'' | Some s \<Rightarrow> as_list s) (\<lambda>raw.
       if raw = [] \<or> 20 < length raw then invalid ''list length''
       else res_bind (res_map parse_step raw) (\<lambda>steps.
            res_bind (unique_ids_and_ordered_refs [] steps) (\<lambda>_.
              Inr \<lparr>r_name = name, r_description = description, r_trigger = trigger, r_steps = steps\<rparr>))))))))"

definition has_write_external :: "recipe \<Rightarrow> bool" where
  "has_write_external r = list_ex is_write_external (r_steps r)"

section \<open>\<open>model_dump\<close>\<close>

definition dump_action :: "action_step \<Rightarrow> json" where
  "dump_action a = JObj [(''type'', JStr ''action''), (''id'', JStr (a_id a)), (''action'', JStr (action_value (a_action a))),
     (''params'', JObj (map (\<lambda>(k, s). (k, JStr s)) (a_params a)))]"

fun dump_step :: "step \<Rightarrow> json" where
  "dump_step (Action a) = dump_action a"
| "dump_step (Condition c) = JObj [(''type'', JStr ''condition''), (''id'', JStr (c_id c)), (''left'', JStr (c_left c)),
     (''operator'', JStr (c_operator c)), (''right'', JStr (c_right c)),
     (''then_steps'', JList (map dump_action (c_then c))), (''else_steps'', JList (map dump_action (c_else c)))]"

fun dump_trigger :: "trigger \<Rightarrow> json" where
  "dump_trigger (Schedule cron) = JObj [(''type'', JStr ''schedule''), (''cron'', JStr cron)]"
| "dump_trigger Manual = JObj [(''type'', JStr ''manual'')]"

definition dump_recipe :: "recipe \<Rightarrow> json" where
  "dump_recipe r = JObj [(''name'', JStr (r_name r)), (''description'', JStr (r_description r)),
     (''trigger'', dump_trigger (r_trigger r)), (''steps'', JList (map dump_step (r_steps r)))]"

section \<open>What a reference captures\<close>

text \<open>Some group \<open>i\<close> of the expression admits the character.\<close>

fun group_admits :: "rx \<Rightarrow> nat \<Rightarrow> char \<Rightarrow> bool" where
  "group_admits (Seq a b) i c = (group_admits a i c \<or> group_admits b i c)"
| "group_admits (Alt a b) i c = (group_admits a i c \<or> group_admits b i c)"
| "group_admits (Star a) i c = group_admits a i c"
| "group_admits (LazyStar a) i c = group_admits a i c"
| "group_admits (Group j a) i c = (j = i \<and> rx_admits a c \<or> group_admits a i c)"
| "group_admits _ i c = False"

lemma rx_match_captures:
  "(p', s', g') \<in> set (rx_match r p s g) \<Longrightarrow> (i, w) \<in> set g' \<Longrightarrow>
     (i, w) \<in> set g \<or> (\<forall>c \<in> set w. group_admits r i c)"
proof (induction r p s g arbitrary: p' s' g' rule: rx_match.induct)
  case (3 a b p s g)
  from "3.prems" obtain p1 s1 g1 where 1: "(p1, s1, g1) \<in> set (rx_match a p s g)"
    and 2: "(p', s', g') \<in> set (rx_match b p1 s1 g1)" by auto
  have "(i, w) \<in> set g1 \<or> (\<forall>c \<in> set w. group_admits b i c)" using "3.IH"(2) 1 2 "3.prems"(2) by blast
  moreover have "(i, w) \<in> set g1 \<Longrightarrow> (i, w) \<in> set g \<or> (\<forall>c \<in> set w. group_admits a i c)"
    using "3.IH"(1) [OF 1] .
  ultimately show ?case by auto
next
  case (4 a b p s g)
  from "4.prems"(1) consider "(p', s', g') \<in> set (rx_match a p s g)"
    | "(p', s', g') \<in> set (rx_match b p s g)" by auto
  then show ?case
  proof cases
    case 1
    from "4.IH"(1) [OF this "4.prems"(2)] show ?thesis by auto
  next
    case 2
    from "4.IH"(2) [OF this "4.prems"(2)] show ?thesis by auto
  qed
next
  case (5 a p s g)
  from "5.prems" consider "(p', s', g') = (p, s, g)"
    | p1 s1 g1 where "(p1, s1, g1) \<in> set (rx_match a p s g)" "length s1 < length s"
        "(p', s', g') \<in> set (rx_match (Star a) p1 s1 g1)"
    unfolding star_member [of "(p', s', g')" a p s g] by blast
  then show ?case
  proof cases
    case 2
    have "(i, w) \<in> set g1 \<or> (\<forall>c \<in> set w. group_admits (Star a) i c)" using "5.IH"(2) 2 "5.prems"(2) by blast
    moreover have "(i, w) \<in> set g1 \<Longrightarrow> (i, w) \<in> set g \<or> (\<forall>c \<in> set w. group_admits a i c)"
      using "5.IH"(1) [OF 2(1)] .
    ultimately show ?thesis by auto
  qed (use "5.prems" in auto)
next
  case (6 a p s g)
  from "6.prems" consider "(p', s', g') = (p, s, g)"
    | p1 s1 g1 where "(p1, s1, g1) \<in> set (rx_match a p s g)" "length s1 < length s"
        "(p', s', g') \<in> set (rx_match (LazyStar a) p1 s1 g1)"
    unfolding lazy_star_member [of "(p', s', g')" a p s g] by blast
  then show ?case
  proof cases
    case 2
    have "(i, w) \<in> set g1 \<or> (\<forall>c \<in> set w. group_admits (LazyStar a) i c)" using "6.IH"(2) 2 "6.prems"(2) by blast
    moreover have "(i, w) \<in> set g1 \<Longrightarrow> (i, w) \<in> set g \<or> (\<forall>c \<in> set w. group_admits a i c)"
      using "6.IH"(1) [OF 2(1)] .
    ultimately show ?thesis by auto
  qed (use "6.prems" in auto)
next
  case (7 j a p s g)
  from "7.prems"(1) obtain g1 where 1: "(p', s', g1) \<in> set (rx_match a p s g)"
    and g': "g' = (j, take (length s - length s') s) # g1" by auto
  from rx_match_suffix [OF 1] obtain u where u: "s = u @ s'" by blast
  from "7.prems"(2) consider "i = j" "w = u" | "(i, w) \<in> set g1" unfolding g' u by auto
  then show ?case
  proof cases
    case 1
    with rx_match_admits [OF \<open>(p', s', g1) \<in> _\<close> u] show ?thesis by simp
  next
    case 2
    from "7.IH" [OF 1 2] show ?thesis by auto
  qed
qed (auto split: list.splits option.splits if_splits)

lemma rx_admits_lits [simp]: "rx_admits (lits w) c \<longleftrightarrow> c \<in> set w"
  by (induction w) (auto simp: lits_def)

lemma group_admits_lits [simp]: "\<not> group_admits (lits w) i c"
  by (induction w) (auto simp: lits_def)

lemma rx_admits_upto [simp]: "rx_admits (upto_times n r) c \<longleftrightarrow> 0 < n \<and> rx_admits r c"
  by (induction n) (auto simp: Opt_def)

lemma group_admits_upto: "group_admits (upto_times n r) i c \<Longrightarrow> group_admits r i c"
  by (induction n) (auto simp: Opt_def)

text \<open>The path of a reference is made of identifier characters and dots.\<close>

lemma reference_path:
  assumes "Hit w g \<in> set (rx_segs step_reference_re p s)" "c \<in> set (cap g 2)"
  shows "path_char c \<or> c = CHR ''.''"
proof -
  from segs_hit [OF assms(1)] obtain q t p' t' where m: "(p', t', g) \<in> set (rx_match step_reference_re q t [])" by blast
  from assms(2) obtain x where x: "map_of g 2 = Some x" "c \<in> set x"
    by (cases "map_of g 2") (auto simp: cap_def)
  with rx_match_captures [OF m map_of_SomeD [OF x(1)]] have "group_admits step_reference_re 2 c" by auto
  then show ?thesis
    by (auto simp: step_reference_re_def Plus_def dest: group_admits_upto)
qed

section \<open>A stored recipe reads back\<close>

lemma str_field_in_Inr [simp]:
  "str_field_in kvs (k, lo, hi) = Inr s \<longleftrightarrow> map_of kvs k = Some (JStr s) \<and> lo \<le> length s \<and> length s \<le> hi"
  by (auto simp: str_field_in_def split: option.splits json.splits)

lemma only_keys_Inr [simp]: "only_keys ks kvs = Inr u \<longleftrightarrow> list_all (\<lambda>(k, _). k \<in> set ks) kvs"
  by (auto simp: only_keys_def)

lemma as_obj_simps [simp]: "as_obj (JObj kvs) = Inr kvs" "as_list (JList vs) = Inr vs"
  by (simp_all add: as_obj_def as_list_def)

lemma valid_id_Inr [simp]:
  "valid_id kvs = Inr s \<longleftrightarrow> map_of kvs ''id'' = Some (JStr s) \<and> rx_at_start step_id_re s \<noteq> None"
  by (auto simp: valid_id_def split: option.splits json.splits if_splits)

lemma read_action_value [simp]:
  "map_of kvs ''action'' = Some (JStr (action_value a)) \<Longrightarrow> read_action kvs = Inr a"
  by (cases a) (simp_all add: read_action_def all_actions_def)

lemma tag_ok_Inr [simp]: "tag_ok t kvs = Inr u \<longleftrightarrow> map_of kvs ''type'' \<in> {None, Some (JStr t)}"
  by (auto simp: tag_ok_def split: option.splits)

lemma res_map_Cons_Inr:
  "res_map f (x # xs) = Inr zs \<longleftrightarrow> (\<exists>y ys. f x = Inr y \<and> res_map f xs = Inr ys \<and> zs = y # ys)"
  by (auto split: sum.splits)

lemma validate_params_again:
  "validate_params a raw = Inr ps \<Longrightarrow> validate_params a (map (\<lambda>(k, s). (k, JStr s)) ps) = Inr ps"
  by (cases a) (auto simp: validate_params_def res_map_Cons_Inr simp del: res_map.simps(2))

lemma parse_action_again:
  assumes "parse_action_step v = Inr a"
  shows "parse_action_step (dump_action a) = Inr a"
proof -
  from assms obtain raw where "rx_at_start step_id_re (a_id a) \<noteq> None" "validate_params (a_action a) raw = Inr (a_params a)"
    by (auto simp: parse_action_step_def)
  then show ?thesis
    by (simp add: parse_action_step_def dump_action_def validate_params_again)
qed

lemma parse_actions_again:
  assumes "res_map parse_action_step vs = Inr as"
  shows "res_map parse_action_step (map dump_action as) = Inr as"
proof -
  from assms have "list_all (\<lambda>a. \<exists>v. parse_action_step v = Inr a) as"
    by (auto simp: res_map_Inr_iff list_all2_conv_all_nth list_all_length)
  then show ?thesis by (induction as) (auto simp: parse_action_again)
qed

lemma branch_steps_again:
  "branch_steps kvs k = Inr as \<Longrightarrow> map_of kvs' k = Some (JList (map dump_action as)) \<Longrightarrow> branch_steps kvs' k = Inr as"
  by (auto simp: branch_steps_def parse_actions_again split: option.splits)

lemma read_operator_Inr [simp]:
  "read_operator kvs = Inr s \<longleftrightarrow> map_of kvs ''operator'' = Some (JStr s) \<and> s \<in> set operator_names"
  by (auto simp: read_operator_def split: option.splits json.splits if_splits)

lemma parse_condition_again:
  assumes "parse_condition_step v = Inr c"
  shows "parse_condition_step (dump_step (Condition c)) = Inr c"
proof -
  from assms obtain kvs left right where
    "rx_at_start step_id_re (c_id c) \<noteq> None" "1 \<le> length (c_left c)" "length (c_left c) \<le> 500"
    "c_operator c \<in> set operator_names" "length (c_right c) \<le> 500"
    "check_text (c_left c) = Inr left" "check_text (c_right c) = Inr right" "c_then c \<noteq> [] \<or> c_else c \<noteq> []"
    and b: "branch_steps kvs ''then_steps'' = Inr (c_then c)" "branch_steps kvs ''else_steps'' = Inr (c_else c)"
    by (auto simp: parse_condition_step_def split: if_splits)
  then show ?thesis
    by (auto simp: parse_condition_step_def branch_steps_again [OF b(1)] branch_steps_again [OF b(2)])
qed

lemma parse_step_again:
  assumes "parse_step v = Inr st"
  shows "parse_step (dump_step st) = Inr st"
proof (cases st)
  case (Action a)
  with assms have "parse_action_step v = Inr a" by (auto simp: parse_step_def split: if_splits)
  from parse_action_again [OF this] have "parse_action_step (dump_action a) = Inr a" .
  moreover have "\<exists>kvs. dump_action a = JObj kvs \<and> map_of kvs ''type'' = Some (JStr ''action'')"
    by (simp add: dump_action_def)
  ultimately show ?thesis unfolding Action dump_step.simps by (auto simp: parse_step_def simp del: res_bind_Inr_iff)
next
  case (Condition c)
  with assms have "parse_condition_step v = Inr c" by (auto simp: parse_step_def split: if_splits)
  from parse_condition_again [OF this] show ?thesis unfolding Condition
    by (simp add: parse_step_def)
qed

lemma strip_strip [simp]: "strip (strip s) = strip s"
proof -
  have r: "rstrip (rstrip t) = rstrip t" for t by (simp add: rstrip_def)
  have "lstrip (rstrip t) = rstrip t" if "lstrip t = t" for t
  proof (cases "rstrip t")
    case (Cons c u)
    have "t = rstrip t @ rev (takeWhile py_space (rev t))"
      by (metis rstrip_def rev_append rev_rev_ident takeWhile_dropWhile_id)
    with Cons have "hd t = c" "t \<noteq> []" by (metis append_Cons list.sel(1), auto)
    with that have "\<not> py_space c" unfolding lstrip_def by (metis hd_dropWhile)
    with Cons show ?thesis by (simp add: lstrip_def)
  qed (simp add: lstrip_def)
  moreover have "lstrip (lstrip s) = lstrip s" by (simp add: lstrip_def)
  ultimately show ?thesis by (simp add: strip_def r)
qed

lemma parse_trigger_again: "parse_trigger v = Inr t \<Longrightarrow> parse_trigger (dump_trigger t) = Inr t"
  by (cases t) (auto simp: parse_trigger_def valid_cron_def split: if_splits option.splits json.splits)

lemma parse_steps_again:
  assumes "res_map parse_step vs = Inr sts"
  shows "res_map parse_step (map dump_step sts) = Inr sts"
proof -
  from assms have "list_all (\<lambda>st. \<exists>v. parse_step v = Inr st) sts"
    by (auto simp: res_map_Inr_iff list_all2_conv_all_nth list_all_length)
  then show ?thesis by (induction sts) (auto simp: parse_step_again)
qed

lemma parse_recipe_facts:
  assumes "parse_recipe v = Inr r"
  shows "rx_at_start recipe_name_re (r_name r) \<noteq> None" "length (r_description r) \<le> 500"
    "parse_trigger (dump_trigger (r_trigger r)) = Inr (r_trigger r)" "r_steps r \<noteq> []" "length (r_steps r) \<le> 20"
    "res_map parse_step (map dump_step (r_steps r)) = Inr (r_steps r)"
    "unique_ids_and_ordered_refs [] (r_steps r) = Inr ()"
proof -
  from assms obtain kvs t raw where name: "read_name kvs = Inr (r_name r)"
    and d: "read_description kvs = Inr (r_description r)"
    and t: "parse_trigger t = Inr (r_trigger r)" and raw: "raw \<noteq> []" "length raw \<le> 20"
    and s: "res_map parse_step raw = Inr (r_steps r)" "unique_ids_and_ordered_refs [] (r_steps r) = Inr ()"
    by (auto simp: parse_recipe_def split: option.splits if_splits)
  show "rx_at_start recipe_name_re (r_name r) \<noteq> None"
    using name by (auto simp: read_name_def split: option.splits json.splits if_splits)
  show "length (r_description r) \<le> 500"
    using d by (auto simp: read_description_def split: option.splits json.splits if_splits)
  show "parse_trigger (dump_trigger (r_trigger r)) = Inr (r_trigger r)" using t by (rule parse_trigger_again)
  have "length raw = length (r_steps r)" using s(1) by (auto simp: res_map_Inr_iff dest: list_all2_lengthD)
  with raw show "r_steps r \<noteq> []" "length (r_steps r) \<le> 20" by auto
  show "res_map parse_step (map dump_step (r_steps r)) = Inr (r_steps r)" using s(1) by (rule parse_steps_again)
  show "unique_ids_and_ordered_refs [] (r_steps r) = Inr ()" by (rule s(2))
qed

text \<open>The stored definition of an accepted recipe is accepted again, and is that recipe.\<close>

lemma parse_recipe_again:
  assumes "parse_recipe v = Inr r"
  shows "parse_recipe (dump_recipe r) = Inr r"
proof -
  note f = parse_recipe_facts [OF assms]
  have "\<not> 20 < length (r_steps r)" using f(5) by simp
  with f show ?thesis
    by (simp add: parse_recipe_def dump_recipe_def read_name_def read_description_def only_keys_def del: res_bind_Inr_iff)
qed

section \<open>What the order check establishes\<close>

definition branch_ids :: "step \<Rightarrow> string list" where
  "branch_ids st = (case st of Action _ \<Rightarrow> [] | Condition c \<Rightarrow> map a_id (c_then c @ c_else c))"

definition own_ids :: "step \<Rightarrow> string list" where
  "own_ids st = step_id st # branch_ids st"

lemma add_branch_ids_Inr:
  "add_branch_ids seen bs = Inr seen' \<longleftrightarrow>
     seen' = rev (map a_id bs) @ seen \<and> distinct (map a_id bs) \<and> set (map a_id bs) \<inter> set seen = {}"
  by (induction seen bs rule: add_branch_ids.induct) auto

text \<open>Ids are new and distinct, and a step only refers to ids that were there before it.\<close>

inductive ordered :: "string set \<Rightarrow> step list \<Rightarrow> bool" where
  "ordered seen []"
| "distinct (own_ids st) \<Longrightarrow> set (own_ids st) \<inter> seen = {} \<Longrightarrow> set (references st) \<subseteq> seen \<Longrightarrow>
     ordered (seen \<union> set (own_ids st)) rest \<Longrightarrow> ordered seen (st # rest)"

inductive_cases ordered_ConsE [elim!]: "ordered seen (st # rest)"

lemma unique_ids_ordered:
  "unique_ids_and_ordered_refs seen sts = Inr () \<Longrightarrow> ordered (set seen) sts"
proof (induction seen sts rule: unique_ids_and_ordered_refs.induct)
  case (2 seen st rest)
  from "2.prems" have new: "step_id st \<notin> set seen" and refs: "set (references st) \<subseteq> set seen"
    by (auto simp: list_ex_iff split: if_splits)
  show ?case
  proof (cases st)
    case (Action a)
    with "2.prems" new refs have "unique_ids_and_ordered_refs (step_id st # seen) rest = Inr ()"
      by (auto split: if_splits)
    with "2.IH"(1) [OF _ _ Action] "2.prems" Action have "ordered (set (step_id st # seen)) rest"
      by (auto split: if_splits)
    with new refs Action show ?thesis
      by (intro ordered.intros) (auto simp: own_ids_def branch_ids_def insert_commute)
  next
    case (Condition c)
    with "2.prems" obtain seen' where b: "add_branch_ids (step_id st # seen) (c_then c @ c_else c) = Inr seen'"
      and rest: "unique_ids_and_ordered_refs seen' rest = Inr ()"
      by (auto split: if_splits)
    with "2.IH"(2) [OF _ _ Condition] "2.prems" Condition have "ordered (set seen') rest"
      by (auto split: if_splits)
    moreover have "set seen' = set seen \<union> set (own_ids st)" "distinct (own_ids st)" "set (own_ids st) \<inter> set seen = {}"
      using b new Condition unfolding add_branch_ids_Inr by (auto simp: own_ids_def branch_ids_def)
    ultimately show ?thesis using refs by (intro ordered.intros) simp_all
  qed
qed (rule ordered.intros)

end
