(* ===== verification/Recipe_Compiler.thy ===== *)
theory Recipe_Compiler
  imports Recipe_Schema
begin

text \<open>
  From a recipe to the n8n workflow that runs it (\<open>apps/api/fleet_api/recipes/compiler.py\<close>). A node keeps the
  fields n8n reads; the connections are a dict from a node name to its outputs, each a list of target names.
  \<open>uuid5\<close> is the standard library's name-based UUID, a parameter.
\<close>

section \<open>Targets\<close>

fun service_path :: "action_name \<Rightarrow> string" where
  "service_path PG_QUERY = ''/v1/service/pg-query''"
| "service_path AGENT_RUN = ''/v1/service/agent-run''"
| "service_path SLACK_POST = ''/v1/service/slack-post''"
| "service_path EMAIL_SEND = ''/v1/service/email-send''"
| "service_path HTTP_NOTIFY = ''/v1/service/notify''"

definition url_base :: string where
  "url_base = ''={{ $env.FLEET_API_BASE_URL }}''"

definition fleet_url_re :: rx where
  "fleet_url_re =
     seqs [Bos, lits url_base, lits ''/v1/service/'', Plus (Cls (\<lambda>c. in_range CHR ''a'' CHR ''z'' c \<or> c = CHR ''-'')), Eos]"

definition allowed_node_types :: "string list" where
  "allowed_node_types =
     [''n8n-nodes-base.scheduleTrigger'', ''n8n-nodes-base.webhook'', ''n8n-nodes-base.if'', ''n8n-nodes-base.set'',
      ''n8n-nodes-base.httpRequest'']"

definition operator_table :: "(string \<times> string \<times> string) list" where
  "operator_table =
     [(''eq'', ''string'', ''equals''), (''ne'', ''string'', ''notEquals''), (''contains'', ''string'', ''contains''),
      (''gt'', ''number'', ''gt''), (''gte'', ''number'', ''gte''), (''lt'', ''number'', ''lt''), (''lte'', ''number'', ''lte'')]"

definition workflow_name :: "string \<Rightarrow> string" where
  "workflow_name recipe_name = ''fleet-recipe-'' @ recipe_name"

definition webhook_path :: "string \<Rightarrow> string" where
  "webhook_path recipe_name = ''recipe-'' @ recipe_name @ ''-run''"

definition webhook_id :: "(string \<Rightarrow> string) \<Rightarrow> string \<Rightarrow> string" where
  "webhook_id uuid5 recipe_name = uuid5 (''fleet-recipe/'' @ recipe_name)"

definition compile_error :: "string \<Rightarrow> 'a res" where
  "compile_error msg = Inl (OtherError (''RecipeCompileError: '' @ msg))"

definition service_url :: "action_name \<Rightarrow> string res" where
  "service_url action =
     (let url = url_base @ service_path action
      in if rx_at_start fleet_url_re url = None then compile_error ''refusing to emit a non-Fleet URL'' else Inr url)"

section \<open>Expressions\<close>

definition action_node_name :: "action_step \<Rightarrow> string" where
  "action_node_name a = action_value (a_action a) @ '' ('' @ a_id a @ '')''"

fun node_name :: "step \<Rightarrow> string" where
  "node_name (Action a) = action_node_name a"
| "node_name (Condition c) = ''if ('' @ c_id c @ '')''"

type_synonym names = "(string \<times> string) list"

definition quoted :: "string \<Rightarrow> string list" where
  "quoted literal = (if literal = [] then [] else [json_dumps_str literal])"

text \<open>One pass over the text: literal stretches become JSON literals, references become lookups.\<close>

fun js_parts :: "names \<Rightarrow> string \<Rightarrow> seg list \<Rightarrow> string list res" where
  "js_parts names literal [] = Inr (quoted literal)"
| "js_parts names literal (Skip c # segs) = js_parts names (literal @ [c]) segs"
| "js_parts names literal (Hit w g # segs) =
     (case map_of names (cap g 1) of
        None \<Rightarrow> compile_error ''reference to unknown step''
      | Some target \<Rightarrow>
          res_bind (js_parts names [] segs) (\<lambda>rest.
            Inr (quoted literal @ (''$('' @ json_dumps_str target @ '').item.json.'' @ cap g 2) # rest)))"

definition js_expression :: "string \<Rightarrow> names \<Rightarrow> string res" where
  "js_expression value names =
     res_bind (js_parts names [] (rx_segs step_reference_re None value)) (\<lambda>parts.
       Inr (if parts = [] then json_dumps_str [] else join '' + '' parts))"

definition json_fields :: "(string \<times> string) list \<Rightarrow> names \<Rightarrow> string res" where
  "json_fields params names =
     res_bind (res_map (\<lambda>(k, v). res_bind (js_expression v names) (\<lambda>e. Inr (json_dumps_str k @ '': '' @ e))) params)
       (\<lambda>fs. Inr (join '', '' fs))"

definition json_body :: "(string \<times> string) list \<Rightarrow> names \<Rightarrow> string res" where
  "json_body params names =
     res_bind (json_fields params names) (\<lambda>fs. Inr (''={{ JSON.stringify({'' @ fs @ ''}) }}''))"

definition empty_response_actions :: "action_name list" where
  "empty_response_actions = [SLACK_POST]"

definition response_options :: "action_name \<Rightarrow> json" where
  "response_options action =
     (if action \<in> set empty_response_actions
      then JObj [(''response'', JObj [(''response'', JObj [(''responseFormat'', JStr ''text'')])])] else JObj [])"

section \<open>Nodes\<close>

record n8n_node =
  n_parameters :: json
  n_id :: string
  n_name :: string
  n_type :: string
  n_version :: rat
  n_position :: "int \<times> int"
  n_webhook_id :: "string option"

definition http_node :: "action_step \<Rightarrow> names \<Rightarrow> int \<times> int \<Rightarrow> n8n_node res" where
  "http_node st names position =
     res_bind (service_url (a_action st)) (\<lambda>url.
     res_bind (json_body (a_params st) names) (\<lambda>body.
       Inr \<lparr>n_parameters = JObj
              [(''method'', JStr ''POST''), (''url'', JStr url), (''sendHeaders'', JBool True),
               (''headerParameters'', JObj [(''parameters'', JList
                  [JObj [(''name'', JStr ''X-Fleet-Api-Key''), (''value'', JStr ''={{ $env.FLEET_API_KEY }}'')],
                   JObj [(''name'', JStr ''Content-Type''), (''value'', JStr ''application/json'')]])]),
               (''sendBody'', JBool True), (''specifyBody'', JStr ''json''), (''jsonBody'', JStr body),
               (''options'', response_options (a_action st))],
            n_id = ''http-'' @ a_id st, n_name = action_node_name st, n_type = ''n8n-nodes-base.httpRequest'',
            n_version = 42/10, n_position = position, n_webhook_id = None\<rparr>))"

definition wrapped :: "string \<Rightarrow> names \<Rightarrow> json res" where
  "wrapped text names = res_bind (js_expression text names) (\<lambda>e. Inr (JStr (''={{ '' @ e @ '' }}'')))"

text \<open>A plain number (a JSON boolean is one in Python too) is emitted as such.\<close>

definition right_value :: "string \<Rightarrow> string \<Rightarrow> names \<Rightarrow> json res" where
  "right_value kind right names =
     (if kind = ''number'' \<and> rx_search step_reference_re right = None
      then (case json_loads right of
              Some (JInt i) \<Rightarrow> Inr (JInt i)
            | Some (JFloat f) \<Rightarrow> Inr (JFloat f)
            | Some (JBool b) \<Rightarrow> Inr (JBool b)
            | _ \<Rightarrow> wrapped right names)
      else wrapped right names)"

definition if_node :: "condition_step \<Rightarrow> names \<Rightarrow> int \<times> int \<Rightarrow> n8n_node res" where
  "if_node st names position =
     (case map_of operator_table (c_operator st) of
        None \<Rightarrow> Inl (KeyError (c_operator st))
      | Some (kind, operation) \<Rightarrow>
          res_bind (right_value kind (c_right st) names) (\<lambda>right.
          res_bind (wrapped (c_left st) names) (\<lambda>left.
            Inr \<lparr>n_parameters = JObj
                   [(''conditions'', JObj
                      [(''options'', JObj [(''caseSensitive'', JBool True), (''leftValue'', JStr []),
                                         (''typeValidation'', JStr ''loose''), (''version'', JInt 2)]),
                       (''conditions'', JList [JObj [(''id'', JStr (''cond-'' @ c_id st)), (''leftValue'', left),
                          (''rightValue'', right), (''operator'', JObj [(''type'', JStr kind), (''operation'', JStr operation)])]]),
                       (''combinator'', JStr ''and'')]),
                    (''options'', JObj [])],
                 n_id = ''if-'' @ c_id st, n_name = node_name (Condition st), n_type = ''n8n-nodes-base.if'',
                 n_version = 22/10, n_position = position, n_webhook_id = None\<rparr>)))"

definition schedule_name :: string where "schedule_name = ''Schedule''"
definition manual_name :: string where "manual_name = ''Manual run (from Fleet)''"

definition schedule_node :: "string \<Rightarrow> n8n_node" where
  "schedule_node cron =
     \<lparr>n_parameters = JObj [(''rule'', JObj [(''interval'', JList [JObj [(''field'', JStr ''cronExpression''),
        (''expression'', JStr cron)]])])],
      n_id = ''trigger-schedule'', n_name = schedule_name, n_type = ''n8n-nodes-base.scheduleTrigger'', n_version = 12/10,
      n_position = (-400, 0), n_webhook_id = None\<rparr>"

definition webhook_node :: "(string \<Rightarrow> string) \<Rightarrow> string \<Rightarrow> n8n_node" where
  "webhook_node uuid5 name =
     \<lparr>n_parameters = JObj [(''httpMethod'', JStr ''POST''), (''path'', JStr (webhook_path name)),
        (''responseMode'', JStr ''onReceived''), (''options'', JObj [])],
      n_id = ''trigger-webhook'', n_name = manual_name, n_type = ''n8n-nodes-base.webhook'', n_version = 2,
      n_position = (-400, 160), n_webhook_id = Some (webhook_id uuid5 name)\<rparr>"

section \<open>Connections\<close>

type_synonym links = "(string \<times> string list list) list"

text \<open>\<open>_Connections.add\<close>: outputs are padded up to the one that is used.\<close>

definition add_link :: "string \<Rightarrow> links \<Rightarrow> string \<times> nat \<Rightarrow> links" where
  "add_link target conn edge =
     (case edge of (source, output) \<Rightarrow>
       (let main = (case map_of conn source of None \<Rightarrow> [] | Some m \<Rightarrow> m);
            padded = main @ replicate (Suc output - length main) []
        in dict_put source (padded[output := padded ! output @ [target]]) conn))"

section \<open>The compiler\<close>

record comp_state =
  cp_nodes :: "n8n_node list"
  cp_links :: links
  cp_names :: names
  cp_pending :: "(string \<times> nat) list"
  cp_column :: nat

definition connect :: "(string \<times> nat) list \<Rightarrow> string \<Rightarrow> comp_state \<Rightarrow> comp_state" where
  "connect edges target cs = cs\<lparr>cp_links := foldl (add_link target) (cp_links cs) edges\<rparr>"

definition emit_action :: "action_step \<Rightarrow> int \<Rightarrow> nat \<Rightarrow> comp_state \<Rightarrow> comp_state res" where
  "emit_action st row column cs =
     (let names = (a_id st, action_node_name st) # cp_names cs
      in res_bind (http_node st names (240 * int column, row)) (\<lambda>n.
           Inr (cs\<lparr>cp_nodes := cp_nodes cs @ [n], cp_names := names\<rparr>)))"

fun emit_branch ::
  "int \<Rightarrow> nat \<Rightarrow> (string \<times> nat) list \<Rightarrow> action_step list \<Rightarrow> comp_state \<Rightarrow> ((string \<times> nat) list \<times> comp_state) res" where
  "emit_branch row column pending [] cs = Inr (pending, cs)"
| "emit_branch row column pending (b # bs) cs =
     res_bind (emit_action b row (Suc column) cs) (\<lambda>cs'.
       emit_branch row (Suc column) [(action_node_name b, 0)] bs (connect pending (action_node_name b) cs'))"

definition emit_condition :: "condition_step \<Rightarrow> comp_state \<Rightarrow> comp_state res" where
  "emit_condition st cs =
     (let name = node_name (Condition st); names = (c_id st, name) # cp_names cs
      in res_bind (if_node st names (240 * int (cp_column cs), 0)) (\<lambda>n.
         let cs1 = connect (cp_pending cs) name (cs\<lparr>cp_nodes := cp_nodes cs @ [n], cp_names := names\<rparr>)
         in res_bind (emit_branch (-160) (cp_column cs) [(name, 0)] (c_then st) cs1) (\<lambda>(then_pending, cs2).
            res_bind (emit_branch 160 (cp_column cs) [(name, 1)] (c_else st) cs2) (\<lambda>(else_pending, cs3).
              Inr (cs3\<lparr>cp_pending := then_pending @ else_pending,
                       cp_column := cp_column cs + max (length (c_then st)) (length (c_else st))\<rparr>)))))"

fun emit_step :: "step \<Rightarrow> comp_state \<Rightarrow> comp_state res" where
  "emit_step (Action a) cs =
     res_bind (emit_action a 0 (cp_column cs) cs) (\<lambda>cs'.
       Inr ((connect (cp_pending cs) (action_node_name a) cs')\<lparr>cp_pending := [(action_node_name a, 0)]\<rparr>))"
| "emit_step (Condition c) cs = emit_condition c cs"

fun emit_steps :: "step list \<Rightarrow> comp_state \<Rightarrow> comp_state res" where
  "emit_steps [] cs = Inr cs"
| "emit_steps (st # rest) cs = res_bind (emit_step st (cs\<lparr>cp_column := Suc (cp_column cs)\<rparr>)) (emit_steps rest)"

definition triggers :: "(string \<Rightarrow> string) \<Rightarrow> recipe \<Rightarrow> n8n_node list" where
  "triggers uuid5 r =
     (case r_trigger r of Schedule cron \<Rightarrow> [schedule_node cron] | Manual \<Rightarrow> []) @ [webhook_node uuid5 (r_name r)]"

definition initial_state :: "(string \<Rightarrow> string) \<Rightarrow> recipe \<Rightarrow> comp_state" where
  "initial_state uuid5 r =
     \<lparr>cp_nodes = triggers uuid5 r, cp_links = [], cp_names = [],
      cp_pending = map (\<lambda>n. (n_name n, 0)) (triggers uuid5 r), cp_column = 0\<rparr>"

record workflow =
  w_name :: string
  w_nodes :: "n8n_node list"
  w_connections :: links

definition compile_recipe :: "(string \<Rightarrow> string) \<Rightarrow> recipe \<Rightarrow> workflow res" where
  "compile_recipe uuid5 r =
     res_bind (emit_steps (r_steps r) (initial_state uuid5 r)) (\<lambda>cs.
       if list_ex (\<lambda>n. n_type n \<notin> set allowed_node_types) (cp_nodes cs) then compile_error ''refusing to emit node types''
       else Inr \<lparr>w_name = workflow_name (r_name r), w_nodes = cp_nodes cs, w_connections = cp_links cs\<rparr>)"

section \<open>The description shown to the builder\<close>

definition params_json :: "action_step \<Rightarrow> json" where
  "params_json a = JObj (map (\<lambda>(k, s). (k, JStr s)) (a_params a))"

definition describe_action :: "action_step \<Rightarrow> (string \<times> json) list" where
  "describe_action a = [(''id'', JStr (a_id a)), (''action'', JStr (action_value (a_action a))), (''params'', params_json a),
     (''write_external'', JBool (a_write_external a))]"

fun describe_step :: "step \<Rightarrow> json" where
  "describe_step (Action a) = JObj ((''kind'', JStr ''action'') # describe_action a)"
| "describe_step (Condition c) = JObj [(''kind'', JStr ''condition''), (''id'', JStr (c_id c)), (''left'', JStr (c_left c)),
     (''operator'', JStr (c_operator c)), (''right'', JStr (c_right c)),
     (''then'', JList (map (\<lambda>a. JObj (describe_action a)) (c_then c))),
     (''else'', JList (map (\<lambda>a. JObj (describe_action a)) (c_else c)))]"

definition describe_recipe :: "recipe \<Rightarrow> json list" where
  "describe_recipe r =
     (case r_trigger r of
        Schedule cron \<Rightarrow> JObj [(''kind'', JStr ''trigger''), (''trigger'', JStr ''schedule''), (''cron'', JStr cron)]
      | Manual \<Rightarrow> JObj [(''kind'', JStr ''trigger''), (''trigger'', JStr ''manual'')]) # map describe_step (r_steps r)"

section \<open>Text stays in its literals\<close>

text \<open>
  What of an expression lies outside its string literals: \<open>None\<close> if a literal is not closed. A literal is
  read with the escapes of JSON, which JavaScript shares.
\<close>

function code_chars :: "string \<Rightarrow> string option" where
  "code_chars [] = Some []"
| "code_chars (c # t) =
     (if of_char c = (34::nat)
      then (case json_read_str t of None \<Rightarrow> None | Some (_, r) \<Rightarrow> code_chars r)
      else map_option ((#) c) (code_chars t))"
  by pat_completeness auto
termination
  by (relation "measure length") (auto dest: json_read_str_length)

definition outside_char :: "char \<Rightarrow> bool" where
  "outside_char c \<longleftrightarrow> path_char c \<or> c \<in> set ''.$() +,:''"

definition inert :: "string \<Rightarrow> bool" where
  "inert p \<longleftrightarrow> (\<exists>out. (\<forall>s. code_chars (p @ s) = map_option ((@) out) (code_chars s)) \<and> (\<forall>c \<in> set out. outside_char c))"

lemma inert_Nil [simp]: "inert []"
proof -
  have "\<forall>s. code_chars ([] @ s) = map_option ((@) []) (code_chars s)"
    by (auto simp: option.map_ident_strong)
  then show ?thesis unfolding inert_def by (intro exI [of _ "[]"]) simp
qed








definition no_brace :: "string \<Rightarrow> bool" where
  "no_brace s \<longleftrightarrow> CHR ''{'' \<notin> set s \<and> CHR ''}'' \<notin> set s"

lemma no_brace_simps [simp]:
  "no_brace []" "no_brace (a @ b) \<longleftrightarrow> no_brace a \<and> no_brace b"
  "no_brace (c # s) \<longleftrightarrow> c \<noteq> CHR ''{'' \<and> c \<noteq> CHR ''}'' \<and> no_brace s"
  by (auto simp: no_brace_def)


lemma quote_no_brace [simp]: "char_of (34::nat) \<noteq> CHR ''{''" "char_of (34::nat) \<noteq> CHR ''}''"
  "char_of (92::nat) \<noteq> CHR ''{''" "char_of (92::nat) \<noteq> CHR ''}''"
  by code_simp+





section \<open>Expressions of checked texts\<close>










section \<open>What is emitted\<close>

fun entries_of :: "step \<Rightarrow> step list" where
  "entries_of (Action a) = [Action a]"
| "entries_of (Condition c) = Condition c # map Action (c_then c @ c_else c)"

definition entries :: "step list \<Rightarrow> step list" where
  "entries sts = concat (map entries_of sts)"

text \<open>\<open>n\<close> is the node of \<open>e\<close>, compiled with the names of some steps of \<open>S\<close>.\<close>

definition names_of :: "step set \<Rightarrow> names \<Rightarrow> bool" where
  "names_of S names \<longleftrightarrow> (\<forall>(k, t) \<in> set names. \<exists>e \<in> S. k = step_id e \<and> t = node_name e)"

definition compiled :: "step set \<Rightarrow> step \<Rightarrow> n8n_node \<Rightarrow> bool" where
  "compiled S e n \<longleftrightarrow>
     (\<exists>names position. names_of S names \<and>
        (case e of Action a \<Rightarrow> http_node a names position = Inr n | Condition c \<Rightarrow> if_node c names position = Inr n))"

lemma connect_simps [simp]:
  "cp_nodes (connect es t cs) = cp_nodes cs" "cp_names (connect es t cs) = cp_names cs"
  by (simp_all add: connect_def)

lemma emit_action_nodes:
  assumes "emit_action a row col cs = Inr cs'" "names_of S (cp_names cs)" "Action a \<in> S"
  shows "\<exists>n. cp_nodes cs' = cp_nodes cs @ [n] \<and> compiled S (Action a) n \<and> names_of S (cp_names cs')"
proof -
  from assms(1) obtain n where n: "http_node a ((a_id a, action_node_name a) # cp_names cs) (240 * int col, row) = Inr n"
    and cs': "cs' = cs\<lparr>cp_nodes := cp_nodes cs @ [n], cp_names := (a_id a, action_node_name a) # cp_names cs\<rparr>"
    by (auto simp: emit_action_def Let_def)
  have "names_of S ((a_id a, action_node_name a) # cp_names cs)"
    using assms(2,3) by (force simp: names_of_def)
  with n cs' show ?thesis unfolding compiled_def by (intro exI [of _ n]) auto
qed

lemma emit_branch_nodes:
  assumes "emit_branch row col pending bs cs = Inr (pending', cs')" "names_of S (cp_names cs)" "Action ` set bs \<subseteq> S"
  shows "\<exists>ns. cp_nodes cs' = cp_nodes cs @ ns \<and> list_all2 (compiled S) (map Action bs) ns \<and> names_of S (cp_names cs')"
  using assms
proof (induction bs arbitrary: col pending cs)
  case (Cons b bs)
  from Cons.prems(1) obtain cs1 where e: "emit_action b row (Suc col) cs = Inr cs1"
    and r: "emit_branch row (Suc col) [(action_node_name b, 0)] bs (connect pending (action_node_name b) cs1) = Inr (pending', cs')"
    by auto
  from emit_action_nodes [OF e Cons.prems(2)] Cons.prems(3) obtain n where n: "cp_nodes cs1 = cp_nodes cs @ [n]"
    "compiled S (Action b) n" "names_of S (cp_names cs1)" by auto
  from Cons.IH [OF r] n(3) Cons.prems(3) obtain ns where "cp_nodes cs' = cp_nodes cs1 @ ns"
    "list_all2 (compiled S) (map Action bs) ns" "names_of S (cp_names cs')" by auto
  with n show ?case by (intro exI [of _ "n # ns"]) simp
qed simp

definition after_if :: "condition_step \<Rightarrow> comp_state \<Rightarrow> n8n_node \<Rightarrow> comp_state" where
  "after_if c cs n =
     connect (cp_pending cs) (node_name (Condition c))
       (cs\<lparr>cp_nodes := cp_nodes cs @ [n], cp_names := (c_id c, node_name (Condition c)) # cp_names cs\<rparr>)"

lemma emit_condition_Inr:
  "emit_condition c cs = Inr cs' \<longleftrightarrow>
     (\<exists>n p1 cs1 p2 cs2.
        if_node c ((c_id c, node_name (Condition c)) # cp_names cs) (240 * int (cp_column cs), 0) = Inr n \<and>
        emit_branch (-160) (cp_column cs) [(node_name (Condition c), 0)] (c_then c) (after_if c cs n) = Inr (p1, cs1) \<and>
        emit_branch 160 (cp_column cs) [(node_name (Condition c), 1)] (c_else c) cs1 = Inr (p2, cs2) \<and>
        cs' = cs2\<lparr>cp_pending := p1 @ p2, cp_column := cp_column cs + max (length (c_then c)) (length (c_else c))\<rparr>)"
  by (simp add: emit_condition_def Let_def after_if_def split_paired_Ex eq_commute [of cs'] del: node_name.simps)

lemma emit_step_nodes:
  assumes "emit_step st cs = Inr cs'" "names_of S (cp_names cs)" "set (entries_of st) \<subseteq> S"
  shows "\<exists>ns. cp_nodes cs' = cp_nodes cs @ ns \<and> list_all2 (compiled S) (entries_of st) ns \<and> names_of S (cp_names cs')"
proof (cases st)
  case (Action a)
  with assms(1) obtain cs1 where e: "emit_action a 0 (cp_column cs) cs = Inr cs1"
    and cs': "cs' = (connect (cp_pending cs) (action_node_name a) cs1)\<lparr>cp_pending := [(action_node_name a, 0)]\<rparr>" by auto
  from emit_action_nodes [OF e assms(2)] assms(3) Action obtain n where "cp_nodes cs1 = cp_nodes cs @ [n]"
    "compiled S (Action a) n" "names_of S (cp_names cs1)" by auto
  then show ?thesis unfolding Action cs' by (intro exI [of _ "[n]"]) simp
next
  case (Condition c)
  let ?names = "(c_id c, node_name (Condition c)) # cp_names cs"
  from assms(1) [unfolded Condition emit_step.simps emit_condition_Inr]
  obtain n p1 cs1 p2 cs2 where n: "if_node c ?names (240 * int (cp_column cs), 0) = Inr n"
    and t: "emit_branch (-160) (cp_column cs) [(node_name (Condition c), 0)] (c_then c) (after_if c cs n) = Inr (p1, cs1)"
    and f: "emit_branch 160 (cp_column cs) [(node_name (Condition c), 1)] (c_else c) cs1 = Inr (p2, cs2)"
    and cs': "cs' = cs2\<lparr>cp_pending := p1 @ p2, cp_column := cp_column cs + max (length (c_then c)) (length (c_else c))\<rparr>"
    by blast
  from assms(3) Condition have S: "Condition c \<in> S" "Action ` set (c_then c) \<subseteq> S" "Action ` set (c_else c) \<subseteq> S" by auto
  have no: "names_of S ?names" using assms(2) S(1) by (force simp: names_of_def)
  with n have c: "compiled S (Condition c) n" unfolding compiled_def by auto
  have "names_of S (cp_names (after_if c cs n))" using no by (simp add: after_if_def)
  from emit_branch_nodes [OF t this S(2)] obtain ns1 where 1: "cp_nodes cs1 = cp_nodes (after_if c cs n) @ ns1"
    "list_all2 (compiled S) (map Action (c_then c)) ns1" "names_of S (cp_names cs1)" by blast
  from emit_branch_nodes [OF f 1(3) S(3)] obtain ns2 where 2: "cp_nodes cs2 = cp_nodes cs1 @ ns2"
    "list_all2 (compiled S) (map Action (c_else c)) ns2" "names_of S (cp_names cs2)" by blast
  from c 1 2 show ?thesis unfolding Condition cs'
    by (intro exI [of _ "n # ns1 @ ns2"]) (simp add: after_if_def list_all2_appendI)
qed

lemma emit_steps_nodes:
  assumes "emit_steps sts cs = Inr cs'" "names_of S (cp_names cs)" "set (entries sts) \<subseteq> S"
  shows "\<exists>ns. cp_nodes cs' = cp_nodes cs @ ns \<and> list_all2 (compiled S) (entries sts) ns"
  using assms
proof (induction sts arbitrary: cs)
  case (Cons st sts)
  from Cons.prems(1) obtain cs1 where e: "emit_step st (cs\<lparr>cp_column := Suc (cp_column cs)\<rparr>) = Inr cs1"
    and r: "emit_steps sts cs1 = Inr cs'" by auto
  have "names_of S (cp_names (cs\<lparr>cp_column := Suc (cp_column cs)\<rparr>))" "set (entries_of st) \<subseteq> S"
    using Cons.prems(2,3) by (simp_all add: entries_def)
  from emit_step_nodes [OF e this] obtain ns1 where 1: "cp_nodes cs1 = cp_nodes cs @ ns1"
    "list_all2 (compiled S) (entries_of st) ns1" "names_of S (cp_names cs1)" by auto
  from Cons.IH [OF r 1(3)] Cons.prems(3) obtain ns2 where "cp_nodes cs' = cp_nodes cs1 @ ns2"
    "list_all2 (compiled S) (entries sts) ns2" by (auto simp: entries_def)
  with 1 show ?case by (intro exI [of _ "ns1 @ ns2"]) (simp add: entries_def list_all2_appendI)
qed (simp add: entries_def)

lemma compile_recipe_nodes:
  assumes "compile_recipe uuid5 r = Inr w"
  shows "\<exists>ns. w_nodes w = triggers uuid5 r @ ns \<and> list_all2 (compiled (set (entries (r_steps r)))) (entries (r_steps r)) ns"
proof -
  from assms obtain cs where cs: "emit_steps (r_steps r) (initial_state uuid5 r) = Inr cs" "w_nodes w = cp_nodes cs"
    by (auto simp: compile_recipe_def compile_error_def split: if_splits)
  have "names_of S (cp_names (initial_state uuid5 r))" for S by (simp add: initial_state_def names_of_def)
  from emit_steps_nodes [OF cs(1) this order_refl] cs(2) show ?thesis by (simp add: initial_state_def)
qed

section \<open>An accepted recipe always compiles\<close>





lemma service_url [simp]: "service_url a = Inr (url_base @ service_path a)"
proof -
  have "list_all (\<lambda>a. rx_at_start fleet_url_re (url_base @ service_path a) \<noteq> None) all_actions" by code_simp
  moreover have "a \<in> set all_actions" by (cases a) (simp_all add: all_actions_def)
  ultimately show ?thesis by (auto simp: service_url_def list_all_iff)
qed




definition known :: "comp_state \<Rightarrow> string set" where
  "known cs = fst ` set (cp_names cs)"







lemma known_column [simp]: "known (cs\<lparr>cp_column := n\<rparr>) = known cs" "known (cs\<lparr>cp_pending := p, cp_column := n\<rparr>) = known cs"
  "known (cs\<lparr>cp_pending := p\<rparr>) = known cs"
  by (simp_all add: known_def)



section \<open>Links\<close>

definition targets :: "links \<Rightarrow> string list" where
  "targets conn = concat (concat (map snd conn))"

lemma targets_simps [simp]:
  "targets [] = []" "targets ((k, m) # conn) = concat m @ targets conn"
  by (simp_all add: targets_def)

lemma targets_put_grown:
  "(case map_of conn s of None \<Rightarrow> True | Some m \<Rightarrow> set (concat m) \<subseteq> set (concat m')) \<Longrightarrow>
     set (targets (dict_put s m' conn)) = set (targets conn) \<union> set (concat m')"
  by (induction s m' conn rule: dict_put.induct) (simp_all del: set_concat, auto simp del: set_concat)

lemma keys_put: "fst ` set (dict_put s m conn) = insert s (fst ` set conn)"
  by (induction s m conn rule: dict_put.induct) auto

lemma padded_output:
  "set (concat ((main @ replicate (Suc k - length main) [])[k := (main @ replicate (Suc k - length main) []) ! k @ [t]]))
     = insert t (set (concat main))"
proof -
  define ps where "ps = main @ replicate (Suc k - length main) []"
  have len: "k < length ps" by (simp add: ps_def)
  then have ps: "ps = take k ps @ ps ! k # drop (Suc k) ps" by (rule id_take_nth_drop)
  have "set (concat (ps[k := ps ! k @ [t]])) = insert t (set (concat (take k ps @ ps ! k # drop (Suc k) ps)))"
    using len by (simp add: upd_conv_take_nth_drop)
  also have "\<dots> = insert t (set (concat ps))" using ps by metis
  also have "set (concat ps) = set (concat main)" by (simp add: ps_def)
  finally show ?thesis by (simp add: ps_def)
qed

lemma targets_lookup: "map_of conn s = Some m \<Longrightarrow> set (concat m) \<subseteq> set (targets conn)"
  by (force simp: targets_def dest: map_of_SomeD)

lemma targets_add_link [simp]: "set (targets (add_link t conn (s, k))) = insert t (set (targets conn))"
proof (cases "map_of conn s")
  case None
  have "set (targets (add_link t conn (s, k))) = set (targets conn) \<union> insert t (set (concat []))"
    unfolding add_link_def Let_def prod.case None option.case padded_output [of "[]" k t, symmetric]
    by (rule targets_put_grown) (simp add: None)
  then show ?thesis by simp
next
  case (Some m)
  have "set (targets (add_link t conn (s, k))) = set (targets conn) \<union> insert t (set (concat m))"
    unfolding add_link_def Let_def prod.case Some option.case padded_output [of m k t, symmetric]
  proof (rule targets_put_grown)
    show "case map_of conn s of None \<Rightarrow> True | Some m' \<Rightarrow> set (concat m')
        \<subseteq> set (concat ((m @ replicate (Suc k - length m) [])[k := (m @ replicate (Suc k - length m) []) ! k @ [t]]))"
      unfolding padded_output Some option.case by blast
  qed
  with targets_lookup [OF Some] show ?thesis by auto
qed

lemma sources_add_link [simp]: "fst ` set (add_link t conn (s, k)) = insert s (fst ` set conn)"
  by (simp add: add_link_def Let_def keys_put)




text \<open>Every step node is the target of a link, and links only join step nodes and pending ones.\<close>

definition linked :: "comp_state \<Rightarrow> comp_state \<Rightarrow> string set \<Rightarrow> bool" where
  "linked cs cs' new \<longleftrightarrow>
     set (targets (cp_links cs')) = set (targets (cp_links cs)) \<union> new \<and> cp_pending cs' \<noteq> [] \<and>
     fst ` set (cp_links cs') \<subseteq> fst ` set (cp_links cs) \<union> fst ` set (cp_pending cs) \<union> new \<and>
     fst ` set (cp_pending cs') \<subseteq> fst ` set (cp_pending cs) \<union> new"









lemma linked_column [simp]: "linked (cs\<lparr>cp_column := n\<rparr>) cs' A = linked cs cs' A"
  by (simp add: linked_def)


section \<open>Names\<close>






definition param :: "n8n_node \<Rightarrow> string \<Rightarrow> json option" where
  "param n k = (case n_parameters n of JObj kvs \<Rightarrow> map_of kvs k | _ \<Rightarrow> None)"

lemma http_node_fields:
  assumes "http_node a names pos = Inr n"
  shows "n_name n = action_node_name a \<and> n_type n = ''n8n-nodes-base.httpRequest'' \<and>
    param n ''url'' = Some (JStr (url_base @ service_path (a_action a))) \<and>
    (\<exists>body. json_body (a_params a) names = Inr body \<and> param n ''jsonBody'' = Some (JStr body))"
proof -
  from assms obtain body where b: "json_body (a_params a) names = Inr body"
    by (auto simp: http_node_def)
  from assms b show ?thesis unfolding http_node_def by (simp del: res_bind_Inr_iff) (auto simp: param_def)
qed

lemma if_node_fields:
  assumes "if_node c names pos = Inr n"
  shows "n_name n = node_name (Condition c) \<and> n_type n = ''n8n-nodes-base.if''"
proof (cases "map_of operator_table (c_operator c)")
  case None
  with assms show ?thesis by (simp add: if_node_def)
next
  case (Some ko)
  obtain kind operation where "ko = (kind, operation)" by fastforce
  with Some assms obtain right left where "right_value kind (c_right c) names = Inr right" "wrapped (c_left c) names = Inr left"
    by (auto simp: if_node_def)
  with assms Some \<open>ko = _\<close> show ?thesis unfolding if_node_def
    by (simp del: res_bind_Inr_iff node_name.simps) (auto simp del: node_name.simps)
qed







section \<open>What the validators leave behind\<close>












section \<open>Properties\<close>


definition calls_fleet :: "step \<Rightarrow> n8n_node \<Rightarrow> bool" where
  "calls_fleet e n \<longleftrightarrow> n_name n = node_name e \<and>
     (case e of
        Action a \<Rightarrow> n_type n = ''n8n-nodes-base.httpRequest'' \<and>
          param n ''url'' = Some (JStr (''={{ $env.FLEET_API_BASE_URL }}'' @ service_path (a_action a)))
      | Condition _ \<Rightarrow> n_type n = ''n8n-nodes-base.if'')"

text \<open>
  Property C12: a compiled recipe only calls Fleet. After its trigger nodes the workflow has exactly one node per
  step of the recipe, in order: an \<open>if\<close> for a condition, and for an action an HTTP request to the service
  path of that action under Fleet's own base URL; an \<open>email.send\<close> therefore always goes to the route that queues
  an approval. The recipe itself contributes no URL and no other node type.
\<close>

theorem compiled_recipe_calls_fleet:
  assumes "compile_recipe uuid5 r = Inr w"
  shows "list_all2 calls_fleet (entries (r_steps r)) (drop (length (triggers uuid5 r)) (w_nodes w)) \<and>
     list_all (\<lambda>n. n_type n \<in> {''n8n-nodes-base.scheduleTrigger'', ''n8n-nodes-base.webhook''})
       (take (length (triggers uuid5 r)) (w_nodes w))"
proof -
  from compile_recipe_nodes [OF assms] obtain ns where w: "w_nodes w = triggers uuid5 r @ ns"
    and ns: "list_all2 (compiled (set (entries (r_steps r)))) (entries (r_steps r)) ns" by blast
  have "calls_fleet e n" if "compiled S e n" for S e n
    using that by (cases e) (auto simp: compiled_def calls_fleet_def url_base_def dest!: http_node_fields if_node_fields)
  with ns have "list_all2 calls_fleet (entries (r_steps r)) ns" by (auto elim: list_all2_mono)
  moreover have "list_all (\<lambda>n. n_type n \<in> {''n8n-nodes-base.scheduleTrigger'', ''n8n-nodes-base.webhook''}) (triggers uuid5 r)"
    by (auto simp: triggers_def schedule_node_def webhook_node_def split: trigger.split)
  ultimately show ?thesis by (simp add: w)
qed


text \<open>
  Property C33: a saved recipe reads back as itself: the definition stored for an accepted recipe is accepted, and
  gives the same recipe, so listing and redeploying never fail on a stored row.
\<close>

theorem stored_recipe_reads_back:
  assumes "parse_recipe v = Inr r"
  shows "parse_recipe (dump_recipe r) = Inr r"
  using assms by (rule parse_recipe_again)

definition demo_recipe_json :: json where
  "demo_recipe_json = JObj [(''name'', JStr ''low-stock''), (''trigger'', JObj [(''type'', JStr ''manual'')]),
     (''steps'', JList
        [JObj [(''type'', JStr ''action''), (''id'', JStr ''q1''), (''action'', JStr ''pg.query''),
               (''params'', JObj [(''sql'', JStr ''SELECT 1'')])],
         JObj [(''type'', JStr ''condition''), (''id'', JStr ''c1''), (''left'', JStr ''{{steps.q1.row_count}}''),
               (''operator'', JStr ''gt''), (''right'', JStr ''0''),
               (''then_steps'', JList [JObj [(''id'', JStr ''m1''), (''action'', JStr ''email.send''),
                  (''params'', JObj [(''to'', JStr ''a@fleet.local''), (''subject'', JStr ''s''),
                     (''body'', JStr ''rows: {{steps.q1.rows}}'')])]])]])]"

definition demo_recipe :: recipe where
  "demo_recipe = \<lparr>r_name = ''low-stock'', r_description = [], r_trigger = Manual, r_steps =
     [Action \<lparr>a_id = ''q1'', a_action = PG_QUERY, a_params = [(''sql'', ''SELECT 1'')]\<rparr>,
      Condition \<lparr>c_id = ''c1'', c_left = ''{{steps.q1.row_count}}'', c_operator = ''gt'', c_right = ''0'',
        c_then = [\<lparr>a_id = ''m1'', a_action = EMAIL_SEND, a_params = [(''to'', ''a@fleet.local''), (''subject'', ''s''),
          (''body'', ''rows: {{steps.q1.rows}}'')]\<rparr>], c_else = []\<rparr>]\<rparr>"

lemma demo_recipe_parses: "parse_recipe demo_recipe_json = Inr demo_recipe"
  by code_simp


definition demo_workflow :: workflow where
  "demo_workflow = (case compile_recipe id demo_recipe of Inr w \<Rightarrow> w | Inl _ \<Rightarrow> \<lparr>w_name = [], w_nodes = [], w_connections = []\<rparr>)"

lemma demo_workflow: "compile_recipe id demo_recipe = Inr demo_workflow"
proof -
  have "\<not> isl (compile_recipe id demo_recipe)" by code_simp
  then show ?thesis by (cases "compile_recipe id demo_recipe") (simp_all add: demo_workflow_def)
qed

lemma compiled_recipe_calls_fleet_witness:
  "calls_fleet (Action \<lparr>a_id = ''m1'', a_action = EMAIL_SEND, a_params = [(''to'', ''a@fleet.local''), (''subject'', ''s''),
      (''body'', ''rows: {{steps.q1.rows}}'')]\<rparr>) (w_nodes demo_workflow ! 3)"
proof -
  have t: "length (triggers id demo_recipe) = 1" by (simp add: triggers_def demo_recipe_def)
  from compiled_recipe_calls_fleet [OF demo_workflow] have "list_all2 calls_fleet (entries (r_steps demo_recipe)) (drop 1 (w_nodes demo_workflow))"
    unfolding t by blast
  then have "calls_fleet (entries (r_steps demo_recipe) ! 2) (drop 1 (w_nodes demo_workflow) ! 2)"
    by (rule list_all2_nthD) (simp add: entries_def demo_recipe_def)
  moreover have "length (drop 1 (w_nodes demo_workflow)) = 3"
    using compiled_recipe_calls_fleet [OF demo_workflow] t by (auto simp: entries_def demo_recipe_def dest!: list_all2_lengthD)
  ultimately show ?thesis by (simp add: entries_def demo_recipe_def numeral_3_eq_3 numeral_2_eq_2)
qed


lemma stored_recipe_reads_back_witness:
  "parse_recipe (dump_recipe demo_recipe) = Inr demo_recipe \<and> has_write_external demo_recipe"
  using stored_recipe_reads_back [OF demo_recipe_parses]
  by (auto simp: has_write_external_def demo_recipe_def a_write_external_def write_external_actions_def)

end
