(* ===== verification/N8n_Client.thy ===== *)
theory N8n_Client
  imports Recipe_Compiler
begin

text \<open>
  The client of the n8n REST and webhook surfaces (\<open>apps/api/fleet_api/n8n_client.py\<close>). What the HTTP library
  delivers for a request is the parameter \<open>http\<close> of type \<open>n8n_request \<Rightarrow> http_reply\<close>; the client folds it into an
  \<open>N8nResult\<close> and never raises.
\<close>

section \<open>Requests and results\<close>

datatype n8n_payload =
    No_Payload
  | Workflow_Payload workflow
  | Json_Payload json
  | Query_Params "(string \<times> string) list"

record n8n_request =
  rq_method :: string
  rq_path :: string
  rq_payload :: n8n_payload

text \<open>
  A transport failure with its message, or a response: its status, the message \<open>raise_for_status\<close> has for it,
  its text, whether the body is empty, and the body's JSON when it parses.
\<close>

datatype http_reply =
    Request_Error string
  | Response nat string string bool "json option"

record n8n_result =
  nr_reachable :: bool
  nr_auth_error :: bool
  nr_data :: json
  nr_error :: "string option"

definition n8n_result_of :: "http_reply \<Rightarrow> n8n_result" where
  "n8n_result_of reply =
     (case reply of
        Request_Error m \<Rightarrow> \<lparr>nr_reachable = False, nr_auth_error = False, nr_data = JNull, nr_error = Some m\<rparr>
      | Response status message txt nothing parsed \<Rightarrow>
          (if status = 401 \<or> status = 403
           then \<lparr>nr_reachable = True, nr_auth_error = True, nr_data = JNull, nr_error = Some txt\<rparr>
           else if status < 200 \<or> 299 < status
           then \<lparr>nr_reachable = True, nr_auth_error = False, nr_data = JNull, nr_error = Some message\<rparr>
           else \<lparr>nr_reachable = True, nr_auth_error = False,
                 nr_data = (if nothing then JNull else (case parsed of Some v \<Rightarrow> v | None \<Rightarrow> JStr txt)),
                 nr_error = None\<rparr>))"

section \<open>Operations\<close>

datatype n8n_call =
    List_Workflows
  | Create_Workflow workflow
  | Update_Workflow string workflow
  | Delete_Workflow string
  | Set_Active string bool
  | List_Executions string
  | Trigger_Webhook string json

fun request_of :: "n8n_call \<Rightarrow> n8n_request" where
  "request_of List_Workflows = \<lparr>rq_method = ''GET'', rq_path = ''/api/v1/workflows'', rq_payload = No_Payload\<rparr>"
| "request_of (Create_Workflow w) =
     \<lparr>rq_method = ''POST'', rq_path = ''/api/v1/workflows'', rq_payload = Workflow_Payload w\<rparr>"
| "request_of (Update_Workflow i w) =
     \<lparr>rq_method = ''PUT'', rq_path = ''/api/v1/workflows/'' @ i, rq_payload = Workflow_Payload w\<rparr>"
| "request_of (Delete_Workflow i) =
     \<lparr>rq_method = ''DELETE'', rq_path = ''/api/v1/workflows/'' @ i, rq_payload = No_Payload\<rparr>"
| "request_of (Set_Active i active) =
     \<lparr>rq_method = ''POST'', rq_path = ''/api/v1/workflows/'' @ i @ (if active then ''/activate'' else ''/deactivate''),
      rq_payload = No_Payload\<rparr>"
| "request_of (List_Executions i) =
     \<lparr>rq_method = ''GET'', rq_path = ''/api/v1/executions'',
      rq_payload = Query_Params [(''workflowId'', i), (''limit'', ''1'')]\<rparr>"
| "request_of (Trigger_Webhook path body) =
     \<lparr>rq_method = ''POST'', rq_path = ''/webhook/'' @ path, rq_payload = Json_Payload body\<rparr>"

definition n8n_client :: "(n8n_request \<Rightarrow> http_reply) \<Rightarrow> n8n_call \<Rightarrow> n8n_result" where
  "n8n_client http c = n8n_result_of (http (request_of c))"

definition ask_n8n :: "(n8n_call \<Rightarrow> n8n_result) \<Rightarrow> n8n_call \<Rightarrow> (n8n_call, n8n_result) eff" where
  "ask_n8n n8n c = eff_call c (Inr (n8n c))"

section \<open>What a caller may rely on\<close>

text \<open>
  The contract the routes use: a result has data or an error, never both; a request that did not get through has
  an error.
\<close>

locale n8n_answers =
  fixes n8n :: "n8n_call \<Rightarrow> n8n_result"
  assumes failed_has_no_data: "nr_error (n8n c) \<noteq> None \<Longrightarrow> nr_data (n8n c) = JNull"
    and unreachable_has_error: "\<not> nr_reachable (n8n c) \<Longrightarrow> nr_error (n8n c) \<noteq> None"
    and denied_is_reachable: "nr_auth_error (n8n c) \<Longrightarrow> nr_reachable (n8n c) \<and> nr_error (n8n c) \<noteq> None"
begin

lemma data_means_success: "nr_data (n8n c) \<noteq> JNull \<Longrightarrow> nr_reachable (n8n c) \<and> nr_error (n8n c) = None \<and> \<not> nr_auth_error (n8n c)"
  using failed_has_no_data unreachable_has_error denied_is_reachable by blast

end

lemma n8n_result_of_cases:
  "nr_error (n8n_result_of reply) = None \<longleftrightarrow>
     (\<exists>status m txt nothing parsed. reply = Response status m txt nothing parsed \<and> 200 \<le> status \<and> status \<le> 299)"
  by (cases reply) (auto simp: n8n_result_of_def)

interpretation client: n8n_answers "n8n_client http" for http
  by unfold_locales (auto simp: n8n_client_def n8n_result_of_def split: http_reply.splits if_splits)

end
