(* ===== verification/Recipe_Routes.thy ===== *)
theory Recipe_Routes
  imports N8n_Client Agents_Admin
begin

text \<open>
  The recipes a builder saves (\<open>apps/api/fleet_api/routers/recipes.py\<close>): the rows of \<open>automation_recipes\<close>, their
  deployment to n8n, activation and the manual run. The routes use the n8n client as a function \<open>n8n\<close> from a call to
  its result; the calls of a route are its trace. \<open>rp\<close> renders a value as \<open>str\<close> does.
\<close>

section \<open>What n8n answered\<close>

definition or_unreachable :: "string option \<Rightarrow> string" where
  "or_unreachable e = (case e of Some (c # m) \<Rightarrow> c # m | _ \<Rightarrow> ''n8n unreachable'')"

definition mentions :: "string \<Rightarrow> string option \<Rightarrow> bool" where
  "mentions w e = (case e of None \<Rightarrow> False | Some m \<Rightarrow> m \<noteq> [] \<and> py_contains m w)"

section \<open>Rows\<close>

record recipe_row =
  rr_id :: nat
  rr_name :: string
  rr_description :: string
  rr_definition :: json
  rr_workflow_id :: "string option"
  rr_active :: bool
  rr_created_by :: "string option"

record recipe_table =
  rt_rows :: "recipe_row list"
  rt_next :: nat

record recipe_out =
  rp_row :: recipe_row
  rp_summary :: "json list"
  rp_write_external :: bool
  rp_deploy_error :: "string option"

definition parse_body :: "json \<Rightarrow> recipe res" where
  "parse_body body = (case parse_recipe body of Inl e \<Rightarrow> Inl (HTTPException 422 ''invalid recipe'') | Inr r \<Rightarrow> Inr r)"

definition to_out :: "string option \<Rightarrow> recipe_row \<Rightarrow> recipe_out res" where
  "to_out deploy_error row =
     res_bind (parse_recipe (rr_definition row)) (\<lambda>r.
       Inr \<lparr>rp_row = row, rp_summary = describe_recipe r, rp_write_external = has_write_external r,
            rp_deploy_error = deploy_error\<rparr>)"

section \<open>Deployment\<close>

text \<open>The error, if any, and the workflow id the row has afterwards.\<close>

definition create_workflow ::
  "(json \<Rightarrow> string) \<Rightarrow> (n8n_call \<Rightarrow> n8n_result) \<Rightarrow> workflow \<Rightarrow> string option \<Rightarrow>
     (n8n_call, string option \<times> string option) eff" where
  "create_workflow rp n8n w wid =
     eff_bind (ask_n8n n8n (Create_Workflow w)) (\<lambda>res.
       eff_return
         (if \<not> nr_reachable res then (Some (or_unreachable (nr_error res)), wid)
          else (case nr_data res of
                  JObj kvs \<Rightarrow> (None, Some (py_str rp (dict_get_or JNull kvs ''id'')))
                | _ \<Rightarrow> (Some (or_unreachable (nr_error res)), wid))))"

definition deploy ::
  "(json \<Rightarrow> string) \<Rightarrow> (string \<Rightarrow> string) \<Rightarrow> (n8n_call \<Rightarrow> n8n_result) \<Rightarrow> recipe \<Rightarrow> string option \<Rightarrow>
     (n8n_call, string option \<times> string option) eff" where
  "deploy rp uuid5 n8n recipe wid =
     (case compile_recipe uuid5 recipe of
        Inl (OtherError m) \<Rightarrow> eff_raise (HTTPException 422 m)
      | Inl e \<Rightarrow> eff_raise e
      | Inr w \<Rightarrow>
          (if \<not> given wid then create_workflow rp n8n w wid
           else eff_bind (ask_n8n n8n (Update_Workflow (the wid) w)) (\<lambda>res.
             if nr_reachable res \<and> truthy (nr_data res) then eff_return (None, wid)
             else if nr_reachable res \<and> mentions ''404'' (nr_error res) then create_workflow rp n8n w None
             else eff_return (Some (or_unreachable (nr_error res)), wid))))"

section \<open>Routes\<close>

definition recipe_by_id :: "nat \<Rightarrow> recipe_table \<Rightarrow> recipe_row option" where
  "recipe_by_id i t = find (\<lambda>row. rr_id row = i) (rt_rows t)"

definition recipe_by_name :: "string \<Rightarrow> recipe_table \<Rightarrow> recipe_row option" where
  "recipe_by_name n t = find (\<lambda>row. rr_name row = n) (rt_rows t)"

definition put_recipe :: "recipe_row \<Rightarrow> recipe_table \<Rightarrow> recipe_table" where
  "put_recipe row t = t\<lparr>rt_rows := map (\<lambda>x. if rr_id x = rr_id row then row else x) (rt_rows t)\<rparr>"

definition new_row :: "recipe_table \<Rightarrow> recipe \<Rightarrow> principal \<Rightarrow> string option \<Rightarrow> recipe_row" where
  "new_row t r user wid =
     \<lparr>rr_id = rt_next t, rr_name = r_name r, rr_description = r_description r, rr_definition = dump_recipe r,
      rr_workflow_id = wid, rr_active = False, rr_created_by = Some (pr_sub user)\<rparr>"

definition add_row :: "recipe_row \<Rightarrow> recipe_table \<Rightarrow> recipe_table" where
  "add_row row t = t\<lparr>rt_rows := rt_rows t @ [row], rt_next := Suc (rt_next t)\<rparr>"

definition saved_row :: "recipe_row \<Rightarrow> recipe \<Rightarrow> string option \<Rightarrow> recipe_row" where
  "saved_row row r wid = row\<lparr>rr_description := r_description r, rr_definition := dump_recipe r, rr_workflow_id := wid\<rparr>"

definition list_recipes :: "principal res \<Rightarrow> recipe_table \<Rightarrow> recipe_out list res" where
  "list_recipes who t = res_bind who (\<lambda>_. res_map (to_out None) (sort_key rr_id (rt_rows t)))"

definition get_recipe :: "principal res \<Rightarrow> nat \<Rightarrow> recipe_table \<Rightarrow> recipe_out res" where
  "get_recipe who i t =
     res_bind who (\<lambda>_. case recipe_by_id i t of
       None \<Rightarrow> Inl (HTTPException 404 ''recipe not found'') | Some row \<Rightarrow> to_out None row)"

definition preview_recipe :: "(string \<Rightarrow> string) \<Rightarrow> principal res \<Rightarrow> json \<Rightarrow> (json list \<times> bool \<times> workflow) res" where
  "preview_recipe uuid5 who body =
     res_bind who (\<lambda>_. res_bind (parse_body body) (\<lambda>r.
       case compile_recipe uuid5 r of
         Inl (OtherError m) \<Rightarrow> Inl (HTTPException 422 m)
       | Inl e \<Rightarrow> Inl e
       | Inr w \<Rightarrow> Inr (describe_recipe r, has_write_external r, w)))"

text \<open>A request that raises is rolled back: its table is the old one.\<close>

type_synonym 'a recipe_reply = "n8n_call list \<times> 'a res \<times> recipe_table"

definition refuse :: "exn \<Rightarrow> recipe_table \<Rightarrow> 'a recipe_reply" where
  "refuse e t = ([], Inl e, t)"

definition create_recipe ::
  "(json \<Rightarrow> string) \<Rightarrow> (string \<Rightarrow> string) \<Rightarrow> (n8n_call \<Rightarrow> n8n_result) \<Rightarrow> principal res \<Rightarrow> json \<Rightarrow> recipe_table \<Rightarrow>
     recipe_out recipe_reply" where
  "create_recipe rp uuid5 n8n who body t =
     (case who of Inl e \<Rightarrow> refuse e t | Inr user \<Rightarrow>
      (case parse_body body of Inl e \<Rightarrow> refuse e t | Inr r \<Rightarrow>
       (if recipe_by_name (r_name r) t \<noteq> None then refuse (HTTPException 409 (''recipe already exists: '' @ r_name r)) t
        else (case deploy rp uuid5 n8n r None of
                (calls, Inl e) \<Rightarrow> (calls, Inl e, t)
              | (calls, Inr (err, wid)) \<Rightarrow>
                  (let row = new_row t r user wid in (calls, to_out err row, add_row row t))))))"

definition update_recipe ::
  "(json \<Rightarrow> string) \<Rightarrow> (string \<Rightarrow> string) \<Rightarrow> (n8n_call \<Rightarrow> n8n_result) \<Rightarrow> principal res \<Rightarrow> nat \<Rightarrow> json \<Rightarrow> recipe_table \<Rightarrow>
     recipe_out recipe_reply" where
  "update_recipe rp uuid5 n8n who i body t =
     (case who of Inl e \<Rightarrow> refuse e t | Inr _ \<Rightarrow>
      (case recipe_by_id i t of None \<Rightarrow> refuse (HTTPException 404 ''recipe not found'') t | Some row \<Rightarrow>
       (case parse_body body of Inl e \<Rightarrow> refuse e t | Inr r \<Rightarrow>
        (if r_name r \<noteq> rr_name row then refuse (HTTPException 422 ''a recipe's name is its n8n workflow identity and cannot be changed'') t
         else (case deploy rp uuid5 n8n r (rr_workflow_id row) of
                 (calls, Inl e) \<Rightarrow> (calls, Inl e, t)
               | (calls, Inr (err, wid)) \<Rightarrow>
                   (let row' = saved_row row r wid in (calls, to_out err row', put_recipe row' t)))))))"

text \<open>The answer of the action routes: a status and a detail.\<close>

type_synonym action_out = "string \<times> string option"

definition delete_recipe ::
  "(n8n_call \<Rightarrow> n8n_result) \<Rightarrow> principal res \<Rightarrow> nat \<Rightarrow> recipe_table \<Rightarrow> action_out recipe_reply" where
  "delete_recipe n8n who i t =
     (case who of Inl e \<Rightarrow> refuse e t | Inr _ \<Rightarrow>
      (case recipe_by_id i t of None \<Rightarrow> refuse (HTTPException 404 ''recipe not found'') t | Some row \<Rightarrow>
       (let t' = t\<lparr>rt_rows := filter (\<lambda>x. rr_id x \<noteq> i) (rt_rows t)\<rparr> in
        if given (rr_workflow_id row)
        then (let c = Delete_Workflow (the (rr_workflow_id row))
              in ([c], Inr (''ok'', if nr_reachable (n8n c) then None
                                   else Some (''n8n unreachable - workflow '' @ workflow_name (rr_name row) @ '' may still exist'')), t'))
        else ([], Inr (''ok'', None), t'))))"

definition set_recipe_active ::
  "(n8n_call \<Rightarrow> n8n_result) \<Rightarrow> principal res \<Rightarrow> nat \<Rightarrow> bool \<Rightarrow> recipe_table \<Rightarrow> action_out recipe_reply" where
  "set_recipe_active n8n who i active t =
     (case who of Inl e \<Rightarrow> refuse e t | Inr _ \<Rightarrow>
      (case recipe_by_id i t of None \<Rightarrow> refuse (HTTPException 404 ''recipe not found'') t | Some row \<Rightarrow>
       (if \<not> given (rr_workflow_id row) then ([], Inr (''not_deployed'', Some ''recipe was never deployed to n8n''), t)
        else (let c = Set_Active (the (rr_workflow_id row)) active; res = n8n c in
              if \<not> nr_reachable res then ([c], Inr (''n8n_unreachable'', nr_error res), t)
              else if given (nr_error res) then ([c], Inr (''trigger_failed'', nr_error res), t)
              else ([c], Inr (''ok'', None), put_recipe (row\<lparr>rr_active := active\<rparr>) t)))))"

definition run_recipe ::
  "(n8n_call \<Rightarrow> n8n_result) \<Rightarrow> principal res \<Rightarrow> nat \<Rightarrow> recipe_table \<Rightarrow> action_out recipe_reply" where
  "run_recipe n8n who i t =
     (case who of Inl e \<Rightarrow> refuse e t | Inr _ \<Rightarrow>
      (case recipe_by_id i t of None \<Rightarrow> refuse (HTTPException 404 ''recipe not found'') t | Some row \<Rightarrow>
       (if \<not> rr_active row then ([], Inr (''not_deployed'', Some ''activate the recipe before running it''), t)
        else (let c = Trigger_Webhook (webhook_path (rr_name row)) (JObj []); res = n8n c in
              if \<not> nr_reachable res then ([c], Inr (''n8n_unreachable'', nr_error res), t)
              else if given (nr_error res) then ([c], Inr (''trigger_failed'', nr_error res), t)
              else ([c], Inr (''ok'', None), t)))))"

section \<open>The table over time\<close>

inductive recipes_reachable :: "recipe_table \<Rightarrow> bool" where
  start: "recipes_reachable \<lparr>rt_rows = [], rt_next = 1\<rparr>"
| created: "recipes_reachable t \<Longrightarrow> create_recipe rp uuid5 n8n who body t = (calls, out, t') \<Longrightarrow> recipes_reachable t'"
| updated: "recipes_reachable t \<Longrightarrow> update_recipe rp uuid5 n8n who i body t = (calls, out, t') \<Longrightarrow> recipes_reachable t'"
| deleted: "recipes_reachable t \<Longrightarrow> delete_recipe n8n who i t = (calls, reply, t') \<Longrightarrow> recipes_reachable t'"
| activated: "recipes_reachable t \<Longrightarrow> set_recipe_active n8n who i active t = (calls, reply, t') \<Longrightarrow> recipes_reachable t'"

definition row_ok :: "recipe_row \<Rightarrow> bool" where
  "row_ok row \<longleftrightarrow> (case parse_recipe (rr_definition row) of Inl _ \<Rightarrow> False | Inr r \<Rightarrow> r_name r = rr_name row)"

definition recipes_wf :: "recipe_table \<Rightarrow> bool" where
  "recipes_wf t \<longleftrightarrow> distinct (map rr_id (rt_rows t)) \<and> distinct (map rr_name (rt_rows t)) \<and>
     list_all (\<lambda>row. rr_id row < rt_next t \<and> row_ok row) (rt_rows t)"

lemma refuse_simps [simp]: "refuse e t = (calls, out, t') \<longleftrightarrow> calls = [] \<and> out = Inl e \<and> t' = t"
  by (auto simp: refuse_def)

lemma recipe_by_idD: "recipe_by_id i t = Some row \<Longrightarrow> row \<in> set (rt_rows t) \<and> rr_id row = i"
  by (auto simp: recipe_by_id_def find_Some_iff)

lemma parse_body_ok: "parse_body body = Inr r \<Longrightarrow> parse_recipe (dump_recipe r) = Inr r"
  by (auto simp: parse_body_def parse_recipe_again split: sum.splits)

lemma recipes_wf_unique:
  "recipes_wf t \<Longrightarrow> a \<in> set (rt_rows t) \<Longrightarrow> b \<in> set (rt_rows t) \<Longrightarrow> rr_id a = rr_id b \<Longrightarrow> a = b"
  by (auto simp: recipes_wf_def distinct_map inj_on_def)

lemma put_recipe_wf:
  assumes "recipes_wf t" "row \<in> set (rt_rows t)" "rr_id row' = rr_id row" "rr_name row' = rr_name row" "row_ok row'"
  shows "recipes_wf (put_recipe row' t)"
proof -
  let ?f = "\<lambda>x. if rr_id x = rr_id row' then row' else x"
  have same: "x = row" if "x \<in> set (rt_rows t)" "rr_id x = rr_id row'" for x
    using recipes_wf_unique [OF assms(1) that(1) assms(2)] that(2) assms(3) by simp
  have ids: "rr_id (?f x) = rr_id x" for x by simp
  have names: "rr_name (?f x) = rr_name x" if "x \<in> set (rt_rows t)" for x
    using same [OF that] assms(4) by auto
  have "distinct (map (rr_id \<circ> ?f) (rt_rows t))"
    using assms(1) distinct_map_same [of "rt_rows t" rr_id ?f, OF ids] by (simp only: recipes_wf_def)
  moreover have "distinct (map (rr_name \<circ> ?f) (rt_rows t))"
    using assms(1) distinct_map_same [of "rt_rows t" rr_name ?f, OF names] by (simp only: recipes_wf_def)
  moreover have "rr_id row' < rt_next t" using assms(1-3) by (simp add: recipes_wf_def list_all_iff)
  then have "list_all (\<lambda>row. rr_id row < rt_next t \<and> row_ok row) (map ?f (rt_rows t))"
    using assms(1,5) by (auto simp: recipes_wf_def list_all_iff)
  moreover have rows: "rt_rows (put_recipe row' t) = map ?f (rt_rows t)" "rt_next (put_recipe row' t) = rt_next t"
    by (simp_all add: put_recipe_def)
  ultimately show ?thesis unfolding recipes_wf_def rows map_map by blast
qed

lemma create_recipe_changes:
  assumes "create_recipe rp uuid5 n8n who body t = (calls, out, t')"
  shows "t' = t \<or> (\<exists>r user wid. parse_body body = Inr r \<and> recipe_by_name (r_name r) t = None \<and> t' = add_row (new_row t r user wid) t)"
  using assms unfolding create_recipe_def Let_def by (fastforce split: sum.splits if_splits prod.splits)

lemma create_recipe_wf:
  assumes "recipes_wf t" "create_recipe rp uuid5 n8n who body t = (calls, out, t')"
  shows "recipes_wf t'"
  using create_recipe_changes [OF assms(2)]
proof (elim disjE exE conjE)
  fix r user wid
  assume p: "parse_body body = Inr r" and new: "recipe_by_name (r_name r) t = None" and t': "t' = add_row (new_row t r user wid) t"
  have "r_name r \<notin> rr_name ` set (rt_rows t)" using new by (auto simp: recipe_by_name_def find_None_iff)
  with assms(1) parse_body_ok [OF p] show ?thesis
    by (auto simp: t' add_row_def new_row_def recipes_wf_def row_ok_def list_all_iff less_Suc_eq)
qed (use assms in simp)

lemma update_recipe_changes:
  assumes "update_recipe rp uuid5 n8n who i body t = (calls, out, t')"
  shows "t' = t \<or> (\<exists>r row wid. recipe_by_id i t = Some row \<and> parse_body body = Inr r \<and> r_name r = rr_name row \<and>
      t' = put_recipe (saved_row row r wid) t)"
  using assms unfolding update_recipe_def Let_def by (fastforce split: sum.splits if_splits prod.splits option.splits)

lemma update_recipe_wf:
  assumes "recipes_wf t" "update_recipe rp uuid5 n8n who i body t = (calls, out, t')"
  shows "recipes_wf t'"
  using update_recipe_changes [OF assms(2)]
proof (elim disjE exE conjE)
  fix r row wid
  assume row: "recipe_by_id i t = Some row" and p: "parse_body body = Inr r" and n: "r_name r = rr_name row"
    and t': "t' = put_recipe (saved_row row r wid) t"
  show ?thesis unfolding t'
    by (rule put_recipe_wf [OF assms(1)])
      (use recipe_by_idD [OF row] n parse_body_ok [OF p] in \<open>simp_all add: row_ok_def saved_row_def\<close>)
qed (use assms in simp)

lemma set_recipe_active_changes:
  assumes "set_recipe_active n8n who i active t = (calls, reply, t')"
  shows "t' = t \<or> (\<exists>row. recipe_by_id i t = Some row \<and> t' = put_recipe (row\<lparr>rr_active := active\<rparr>) t)"
  using assms unfolding set_recipe_active_def Let_def by (fastforce split: sum.splits if_splits option.splits)

lemma set_recipe_active_wf:
  assumes "recipes_wf t" "set_recipe_active n8n who i active t = (calls, reply, t')"
  shows "recipes_wf t'"
  using set_recipe_active_changes [OF assms(2)]
proof (elim disjE exE conjE)
  fix row assume row: "recipe_by_id i t = Some row" and t': "t' = put_recipe (row\<lparr>rr_active := active\<rparr>) t"
  have ok: "row_ok row" using recipe_by_idD [OF row] assms(1) by (simp add: recipes_wf_def list_all_iff)
  then have "row_ok (row\<lparr>rr_active := active\<rparr>)" by (cases "parse_recipe (rr_definition row)") (simp_all add: row_ok_def)
  then show ?thesis unfolding t' using recipe_by_idD [OF row]
    by (intro put_recipe_wf [OF assms(1), of row]) simp_all
qed (use assms in simp)

lemma delete_recipe_wf:
  assumes "recipes_wf t" "delete_recipe n8n who i t = (calls, reply, t')"
  shows "recipes_wf t'"
proof (cases "t' = t")
  case False
  with assms(2) have "t' = t\<lparr>rt_rows := filter (\<lambda>x. rr_id x \<noteq> i) (rt_rows t)\<rparr>"
    by (auto simp: delete_recipe_def Let_def split: sum.splits if_splits option.splits)
  with assms(1) show ?thesis by (auto simp: recipes_wf_def list_all_iff distinct_map_filter)
qed (use assms in simp)

lemma recipes_wf_start: "recipes_wf \<lparr>rt_rows = [], rt_next = 1\<rparr>"
  by (simp add: recipes_wf_def)

lemma recipes_reachable_wf: "recipes_reachable t \<Longrightarrow> recipes_wf t"
  by (induction rule: recipes_reachable.induct)
    (blast intro: recipes_wf_start create_recipe_wf update_recipe_wf delete_recipe_wf set_recipe_active_wf)+

lemma map_insort_key: "map f (insort_key f x xs) = insort (f x) (map f xs)"
  by (induction xs) simp_all

lemma map_sort_key: "map f (sort_key f xs) = sort (map f xs)"
  by (induction xs) (simp_all add: map_insort_key)

lemma to_out_ok: "row_ok row \<Longrightarrow> \<exists>x. to_out e row = Inr x \<and> rp_row x = row"
  by (auto simp: row_ok_def to_out_def split: sum.splits)

section \<open>What the answers of n8n do to a row\<close>

lemma create_workflow_reported:
  assumes "create_workflow rp (n8n_client http) w wid = (calls, Inr (None, wid'))"
  shows "calls = [Create_Workflow w] \<and> nr_error (n8n_client http (Create_Workflow w)) = None \<and> wid' \<noteq> None"
  using assms client.data_means_success [of http "Create_Workflow w"]
  by (auto simp: create_workflow_def ask_n8n_def eff_return_def eff_call_def split: if_splits json.splits)

lemma deploy_outcome:
  assumes "compile_recipe uuid5 r = Inr w" "deploy rp uuid5 n8n r wid = (calls, Inr (None, wid'))"
  shows "create_workflow rp n8n w wid = (calls, Inr (None, wid')) \<or>
     wid \<noteq> None \<and> calls = [Update_Workflow (the wid) w] \<and> truthy (nr_data (n8n (Update_Workflow (the wid) w))) \<and> wid' = wid \<or>
     (\<exists>l. wid \<noteq> None \<and> create_workflow rp n8n w None = (l, Inr (None, wid')) \<and> calls = Update_Workflow (the wid) w # l)"
proof (cases "given wid")
  case False
  with assms show ?thesis by (simp add: deploy_def)
next
  case True
  let ?res = "n8n (Update_Workflow (the wid) w)"
  have wid: "wid \<noteq> None" using True by (cases wid) (auto simp: given_def)
  consider "nr_reachable ?res" "truthy (nr_data ?res)"
    | "\<not> (nr_reachable ?res \<and> truthy (nr_data ?res))" "nr_reachable ?res \<and> mentions ''404'' (nr_error ?res)"
    | "\<not> (nr_reachable ?res \<and> truthy (nr_data ?res))" "\<not> (nr_reachable ?res \<and> mentions ''404'' (nr_error ?res))" by blast
  then show ?thesis
  proof cases
    case 1 with assms True wid show ?thesis by (auto simp: deploy_def ask_n8n_def)
  next
    case 2
    with assms True have "Update_Workflow (the wid) w # fst (create_workflow rp n8n w None) = calls \<and>
        snd (create_workflow rp n8n w None) = Inr (None, wid')" by (simp add: deploy_def ask_n8n_def)
    with wid show ?thesis by (cases "create_workflow rp n8n w None") auto
  next
    case 3 with assms True show ?thesis by (simp add: deploy_def ask_n8n_def)
  qed
qed

text \<open>An error answer without a text counts as no error.\<close>

lemma empty_denial_activates:
  assumes "recipe_by_id i t = Some row" "given (rr_workflow_id row)"
  shows "set_recipe_active (n8n_client (\<lambda>_. Response 401 m [] nothing parsed)) (Inr user) i True t =
     ([Set_Active (the (rr_workflow_id row)) True], Inr (''ok'', None), put_recipe (row\<lparr>rr_active := True\<rparr>) t)"
  using assms by (simp add: set_recipe_active_def n8n_client_def n8n_result_of_def given_def Let_def)

text \<open>A workflow that n8n lost is created again, inactive as n8n creates it, and the row stays as it was.\<close>

lemma recreated_recipe_keeps_its_flag: "rr_active (saved_row row r wid) = rr_active row"
  by (simp add: saved_row_def)

section \<open>Properties\<close>

text \<open>
  The recipe table stays readable. After any sequence of requests, whatever n8n answers, ids and
  names are unique, every stored definition is an accepted recipe of the row's name, and listing the recipes
  succeeds.
\<close>

theorem recipes_invariant:
  assumes "recipes_reachable t"
  shows "distinct (map rr_id (rt_rows t)) \<and> distinct (map rr_name (rt_rows t)) \<and> list_all row_ok (rt_rows t) \<and>
     (\<exists>outs. list_recipes (Inr user) t = Inr outs \<and> map (rr_id \<circ> rp_row) outs = sort (map rr_id (rt_rows t)))"
proof -
  note wf = recipes_reachable_wf [OF assms]
  define out where "out row = (case to_out None row of Inr x \<Rightarrow> x | Inl _ \<Rightarrow> undefined)" for row
  have ok: "to_out None row = Inr (out row) \<and> rp_row (out row) = row" if "row \<in> set (rt_rows t)" for row
    using to_out_ok [of row None] wf that by (auto simp: recipes_wf_def list_all_iff out_def)
  have "list_recipes (Inr user) t = Inr (map out (sort_key rr_id (rt_rows t)))"
    using res_map_total [of "sort_key rr_id (rt_rows t)" "to_out None" out] ok by (simp add: list_recipes_def)
  moreover have "map (rr_id \<circ> rp_row) (map out (sort_key rr_id (rt_rows t))) = map rr_id (sort_key rr_id (rt_rows t))"
    using ok by simp
  moreover have "map rr_id (sort_key rr_id (rt_rows t)) = sort (map rr_id (rt_rows t))"
    by (rule map_sort_key)
  ultimately show ?thesis using wf by (auto simp: recipes_wf_def list_all_iff)
qed

theorem recipes_invariant_witness:
  "let t = snd (snd (create_recipe (\<lambda>_. []) id (n8n_client (\<lambda>_. Request_Error ''down'')) (Inr undefined) demo_recipe_json
       \<lparr>rt_rows = [], rt_next = 1\<rparr>))
   in distinct (map rr_id (rt_rows t)) \<and> list_all row_ok (rt_rows t)"
proof -
  define t where "t = snd (snd (create_recipe (\<lambda>_. []) id (n8n_client (\<lambda>_. Request_Error ''down'')) (Inr undefined) demo_recipe_json
       \<lparr>rt_rows = [], rt_next = 1\<rparr>))"
  have "recipes_reachable t"
    unfolding t_def by (rule recipes_reachable.created [OF recipes_reachable.start]) (rule prod_eqI, simp, rule prod_eqI, simp_all)
  from recipes_invariant [OF this] show ?thesis by (simp add: t_def Let_def)
qed

text \<open>
  A deployment that is reported as done was done. When the answer carries no deployment error, the last
  call created the compiled workflow or replaced the one of the row, n8n answered it with success, and the row has
  a workflow id.
\<close>

theorem reported_deployment_happened:
  assumes "deploy rp uuid5 (n8n_client http) r wid = (calls, Inr (None, wid'))"
  shows "\<exists>w c. compile_recipe uuid5 r = Inr w \<and> (c = Create_Workflow w \<or> wid \<noteq> None \<and> c = Update_Workflow (the wid) w) \<and>
     calls \<noteq> [] \<and> last calls = c \<and> nr_error (n8n_client http c) = None \<and> wid' \<noteq> None"
proof (cases "compile_recipe uuid5 r")
  case (Inl e)
  with assms show ?thesis by (cases e) (auto simp: deploy_def eff_raise_def)
next
  case (Inr w)
  let ?u = "Update_Workflow (the wid) w" and ?c = "Create_Workflow w"
  consider (fresh) "create_workflow rp (n8n_client http) w wid = (calls, Inr (None, wid'))"
    | (same) "wid \<noteq> None" "calls = [?u]" "truthy (nr_data (n8n_client http ?u))" "wid' = wid"
    | (again) l where "wid \<noteq> None" "create_workflow rp (n8n_client http) w None = (l, Inr (None, wid'))" "calls = ?u # l"
    using deploy_outcome [OF Inr assms] by blast
  then show ?thesis
  proof cases
    case fresh
    with create_workflow_reported [OF fresh] Inr show ?thesis by auto
  next
    case same
    have "nr_error (n8n_client http ?u) = None"
      using same(3) client.data_means_success [of http ?u] by fastforce
    with same Inr show ?thesis by auto
  next
    case again
    with create_workflow_reported [OF again(2)] Inr show ?thesis by auto
  qed
qed

lemma reported_deployment_happened_witness:
  "\<exists>c. last (fst (deploy (\<lambda>_. []) id (n8n_client (\<lambda>_. Response 200 [] [] False (Some (JObj [(''id'', JStr ''7'')])))) demo_recipe None)) = c \<and>
     c = Create_Workflow demo_workflow"
proof -
  let ?http = "\<lambda>_. Response 200 [] [] False (Some (JObj [(''id'', JStr ''7'')]))"
  have "deploy (\<lambda>_. []) id (n8n_client ?http) demo_recipe None = ([Create_Workflow demo_workflow], Inr (None, Some ''7''))"
    by (simp add: deploy_def demo_workflow given_def create_workflow_def ask_n8n_def n8n_client_def n8n_result_of_def
        eff_call_def eff_return_def py_str_def dict_get_or_def)
  from reported_deployment_happened [OF this] this demo_workflow show ?thesis by auto
qed

end
