(* ===== verification/Workflow_Catalog.thy ===== *)
theory Workflow_Catalog
  imports N8n_Client Agents_Admin
begin

text \<open>
  The workflow catalog (\<open>apps/api/fleet_api/workflows_catalog.py\<close> and \<open>apps/api/fleet_api/routers/workflows.py\<close>):
  the two shipped automations, what n8n knows of them, and the routes that run and toggle them. \<open>who\<close> is the outcome
  of the permission dependency; text that is not ASCII in the source is left out of details.
\<close>

section \<open>The catalog\<close>

record workflow_meta =
  wm_slug :: string
  wm_n8n_name :: string
  wm_kind :: string
  wm_run_path :: string

definition catalog :: "workflow_meta list" where
  "catalog =
     [\<lparr>wm_slug = ''invoice-intake'', wm_n8n_name = ''invoice-intake'', wm_kind = ''webhook'', wm_run_path = ''invoice-intake''\<rparr>,
      \<lparr>wm_slug = ''weekly-summary'', wm_n8n_name = ''weekly-summary'', wm_kind = ''cron+manual'', wm_run_path = ''weekly-summary-run''\<rparr>]"

definition get_meta :: "string \<Rightarrow> workflow_meta res" where
  "get_meta slug = (case find (\<lambda>m. wm_slug m = slug) catalog of
     None \<Rightarrow> Inl (HTTPException 404 (''unknown workflow: '' @ slug)) | Some m \<Rightarrow> Inr m)"

section \<open>Reading n8n's answers\<close>

definition execution_status :: "(string \<times> json) list \<Rightarrow> string" where
  "execution_status row =
     (case dict_get_or JNull row ''status'' of
        JStr (c # s) \<Rightarrow> c # s
      | _ \<Rightarrow> if truthy (dict_get_or JNull row ''finished'') then ''success''
             else if truthy (dict_get_or JNull row ''stoppedAt'') then ''error'' else ''running'')"

text \<open>
  \<open>listing.data.get("data", []) if isinstance(listing.data, dict) else []\<close>, and the items a loop over it meets (the
  keys of a dict, the characters of a string).
\<close>

definition data_of :: "n8n_result \<Rightarrow> json" where
  "data_of res = (case nr_data res of JObj kvs \<Rightarrow> dict_get_or (JList []) kvs ''data'' | _ \<Rightarrow> JList [])"

definition items_of :: "json \<Rightarrow> json list res" where
  "items_of v = (case v of JList vs \<Rightarrow> Inr vs | JObj kvs \<Rightarrow> Inr (map (JStr \<circ> fst) kvs)
                 | JStr s \<Rightarrow> Inr (map (\<lambda>c. JStr [c]) s) | _ \<Rightarrow> Inl (OtherError ''TypeError''))"

fun find_workflow :: "json list \<Rightarrow> string \<Rightarrow> (string \<times> json) list option res" where
  "find_workflow [] name = Inr None"
| "find_workflow (JObj kvs # vs) name =
     (if dict_get_or JNull kvs ''name'' = JStr name then Inr (Some kvs) else find_workflow vs name)"
| "find_workflow (_ # vs) name = Inl (OtherError ''AttributeError'')"

definition listed_workflow :: "n8n_result \<Rightarrow> workflow_meta \<Rightarrow> (string \<times> json) list option res" where
  "listed_workflow listing meta = res_bind (items_of (data_of listing)) (\<lambda>vs. find_workflow vs (wm_n8n_name meta))"

definition workflow_id :: "(json \<Rightarrow> string) \<Rightarrow> (string \<times> json) list \<Rightarrow> string res" where
  "workflow_id rp kvs = (case map_of kvs ''id'' of None \<Rightarrow> Inl (OtherError ''KeyError'') | Some v \<Rightarrow> Inr (py_str rp v))"

section \<open>The listing\<close>

record last_run =
  lr_status :: string
  lr_at :: json

record workflow_out =
  wo_slug :: string
  wo_kind :: string
  wo_reachable :: bool
  wo_auth_error :: bool
  wo_active :: "bool option"
  wo_last_run :: "last_run option"

definition workflow_state :: "workflow_meta \<Rightarrow> bool \<Rightarrow> bool \<Rightarrow> bool option \<Rightarrow> last_run option \<Rightarrow> workflow_out" where
  "workflow_state meta reachable auth active run =
     \<lparr>wo_slug = wm_slug meta, wo_kind = wm_kind meta, wo_reachable = reachable, wo_auth_error = auth,
      wo_active = active, wo_last_run = run\<rparr>"

definition last_run_of :: "n8n_result \<Rightarrow> last_run option res" where
  "last_run_of executions =
     (case nr_data executions of
        JObj kvs \<Rightarrow>
          (let rows = dict_get_or (JList []) kvs ''data'' in
           if \<not> nr_reachable executions \<or> \<not> truthy rows then Inr None
           else (case rows of
                   JList (JObj row # _) \<Rightarrow> Inr (Some \<lparr>lr_status = execution_status row, lr_at = dict_get_or JNull row ''startedAt''\<rparr>)
                 | JList _ \<Rightarrow> Inl (OtherError ''AttributeError'')
                 | JStr _ \<Rightarrow> Inl (OtherError ''AttributeError'')
                 | JObj _ \<Rightarrow> Inl (OtherError ''KeyError'')
                 | _ \<Rightarrow> Inl (OtherError ''TypeError'')))
      | _ \<Rightarrow> Inr None)"

definition catalog_entry ::
  "(json \<Rightarrow> string) \<Rightarrow> (n8n_call \<Rightarrow> n8n_result) \<Rightarrow> workflow_meta \<Rightarrow> (n8n_call, workflow_out) eff" where
  "catalog_entry rp n8n meta =
     eff_bind (ask_n8n n8n List_Workflows) (\<lambda>listing.
       if \<not> nr_reachable listing then eff_return (workflow_state meta False False None None)
       else if nr_auth_error listing then eff_return (workflow_state meta True True None None)
       else eff_bind (eff_lift (listed_workflow listing meta)) (\<lambda>wf.
         case wf of
           None \<Rightarrow> eff_return (workflow_state meta True False None None)
         | Some kvs \<Rightarrow>
             eff_bind (eff_lift (workflow_id rp kvs)) (\<lambda>i.
             eff_bind (ask_n8n n8n (List_Executions i)) (\<lambda>executions.
             eff_bind (eff_lift (last_run_of executions)) (\<lambda>run.
               eff_return (workflow_state meta True False (Some (truthy (dict_get_or JNull kvs ''active''))) run))))))"

fun eff_map :: "('a \<Rightarrow> ('c, 'b) eff) \<Rightarrow> 'a list \<Rightarrow> ('c, 'b list) eff" where
  "eff_map f [] = eff_return []"
| "eff_map f (x # xs) = eff_bind (f x) (\<lambda>y. eff_bind (eff_map f xs) (\<lambda>ys. eff_return (y # ys)))"

definition list_catalog ::
  "(json \<Rightarrow> string) \<Rightarrow> (n8n_call \<Rightarrow> n8n_result) \<Rightarrow> principal res \<Rightarrow> (n8n_call, workflow_out list) eff" where
  "list_catalog rp n8n who = eff_bind (eff_lift who) (\<lambda>_. eff_map (catalog_entry rp n8n) catalog)"

section \<open>Running and toggling\<close>

type_synonym run_out = "string \<times> string option"

definition inactive_detail :: string where
  "inactive_detail = ''workflow is not active in n8n - run `make n8n-import` or activate it''"

text \<open>The early answer, or \<open>None\<close> to go on.\<close>

definition require_active_and_reachable ::
  "(n8n_call \<Rightarrow> n8n_result) \<Rightarrow> workflow_meta \<Rightarrow> (n8n_call, run_out option) eff" where
  "require_active_and_reachable n8n meta =
     eff_bind (ask_n8n n8n List_Workflows) (\<lambda>listing.
       if \<not> nr_reachable listing then eff_return (Some (''n8n_unreachable'', nr_error listing))
       else eff_bind (eff_lift (listed_workflow listing meta)) (\<lambda>wf.
         case wf of
           None \<Rightarrow> eff_return (Some (''workflow_inactive'', Some inactive_detail))
         | Some kvs \<Rightarrow>
             if truthy (dict_get_or JNull kvs ''active'') then eff_return None
             else eff_return (Some (''workflow_inactive'', Some inactive_detail))))"

definition trigger_workflow ::
  "(n8n_call \<Rightarrow> n8n_result) \<Rightarrow> workflow_meta \<Rightarrow> json \<Rightarrow> string option \<Rightarrow> (n8n_call, run_out) eff" where
  "trigger_workflow n8n meta body detail =
     eff_bind (require_active_and_reachable n8n meta) (\<lambda>early.
       case early of
         Some out \<Rightarrow> eff_return out
       | None \<Rightarrow>
           eff_bind (ask_n8n n8n (Trigger_Webhook (wm_run_path meta) body)) (\<lambda>res.
             if nr_reachable res then eff_return (''accepted'', detail)
             else eff_return (''n8n_unreachable'', nr_error res)))"

definition max_invoice_image_bytes :: nat where
  "max_invoice_image_bytes = 10 * 1024 * 1024"

definition allowed_image_content_types :: "string list" where
  "allowed_image_content_types = [''image/png'', ''image/jpeg'', ''image/webp'']"

text \<open>\<open>b64\<close> is the standard library's base64 encoder; \<open>None\<close> is a missing content type.\<close>

definition run_invoice_intake ::
  "(string \<Rightarrow> string) \<Rightarrow> (n8n_call \<Rightarrow> n8n_result) \<Rightarrow> principal res \<Rightarrow> string option \<Rightarrow> string \<Rightarrow> (n8n_call, run_out) eff" where
  "run_invoice_intake b64 n8n who content_type contents =
     eff_bind (eff_lift who) (\<lambda>_.
     eff_bind (eff_lift (get_meta ''invoice-intake'')) (\<lambda>meta.
       if content_type \<notin> Some ` set allowed_image_content_types
       then eff_raise (HTTPException 422 (''unsupported image type: '' @ (case content_type of None \<Rightarrow> ''None'' | Some c \<Rightarrow> c)))
       else if max_invoice_image_bytes < length contents then eff_raise (HTTPException 422 ''image too large (max 10MB)'')
       else trigger_workflow n8n meta (JObj [(''image_base64'', JStr (b64 contents))]) (Some ''queued - see the approvals'')))"

definition run_weekly_summary :: "(n8n_call \<Rightarrow> n8n_result) \<Rightarrow> principal res \<Rightarrow> (n8n_call, run_out) eff" where
  "run_weekly_summary n8n who =
     eff_bind (eff_lift who) (\<lambda>_.
     eff_bind (eff_lift (get_meta ''weekly-summary'')) (\<lambda>meta. trigger_workflow n8n meta (JObj []) None))"

definition set_workflow_active ::
  "(json \<Rightarrow> string) \<Rightarrow> (n8n_call \<Rightarrow> n8n_result) \<Rightarrow> principal res \<Rightarrow> string \<Rightarrow> bool \<Rightarrow> (n8n_call, run_out) eff" where
  "set_workflow_active rp n8n who slug active =
     eff_bind (eff_lift who) (\<lambda>_.
     eff_bind (eff_lift (get_meta slug)) (\<lambda>meta.
     eff_bind (ask_n8n n8n List_Workflows) (\<lambda>listing.
       if \<not> nr_reachable listing then eff_return (''n8n_unreachable'', nr_error listing)
       else eff_bind (eff_lift (listed_workflow listing meta)) (\<lambda>wf.
         case wf of
           None \<Rightarrow> eff_raise (HTTPException 404 ''workflow not found in n8n - import it first'')
         | Some kvs \<Rightarrow>
             eff_bind (eff_lift (workflow_id rp kvs)) (\<lambda>i.
             eff_bind (ask_n8n n8n (Set_Active i active)) (\<lambda>res.
               if nr_reachable res then eff_return (''accepted'', None)
               else eff_return (''n8n_unreachable'', nr_error res)))))))"

section \<open>Properties\<close>

lemma trigger_workflow_calls:
  assumes "Trigger_Webhook p b \<in> set (trace (trigger_workflow n8n meta body detail))"
  shows "p = wm_run_path meta \<and> b = body \<and> nr_reachable (n8n List_Workflows) \<and>
     (\<exists>kvs. listed_workflow (n8n List_Workflows) meta = Inr (Some kvs) \<and> truthy (dict_get_or JNull kvs ''active''))"
  using assms
  by (auto simp: trigger_workflow_def require_active_and_reachable_def ask_n8n_def set_trace_eff_bind outcome_eff_bind
      split: sum.splits if_splits option.splits)

text \<open>
  The catalog runs an automation only for a permitted caller, only when n8n lists the workflow as
  active, and only through its own webhook; for an invoice the file is an image of an allowed type and at most
  10 MB.
\<close>

theorem catalog_runs_active_workflows:
  assumes "Trigger_Webhook p b \<in> set (trace (run_invoice_intake b64 n8n who content_type contents))"
  shows "(\<exists>u. who = Inr u) \<and> p = ''invoice-intake'' \<and> b = JObj [(''image_base64'', JStr (b64 contents))] \<and>
     content_type \<in> Some ` set allowed_image_content_types \<and> length contents \<le> max_invoice_image_bytes \<and>
     nr_reachable (n8n List_Workflows) \<and>
     (\<exists>kvs. listed_workflow (n8n List_Workflows) (hd catalog) = Inr (Some kvs) \<and> truthy (dict_get_or JNull kvs ''active''))"
proof -
  have meta: "get_meta ''invoice-intake'' = Inr (hd catalog)" "wm_run_path (hd catalog) = ''invoice-intake''"
    by (simp_all add: get_meta_def catalog_def)
  from assms obtain u where "who = Inr u" "content_type \<in> Some ` set allowed_image_content_types"
    "\<not> max_invoice_image_bytes < length contents"
    "Trigger_Webhook p b \<in> set (trace (trigger_workflow n8n (hd catalog)
       (JObj [(''image_base64'', JStr (b64 contents))]) (Some ''queued - see the approvals'')))"
    by (cases who) (auto simp: run_invoice_intake_def meta set_trace_eff_bind split: if_splits)
  with trigger_workflow_calls [OF this(4)] meta(2) show ?thesis by auto
qed

definition demo_n8n :: "n8n_request \<Rightarrow> http_reply" where
  "demo_n8n rq = (if rq_method rq = ''GET'' then Response 200 [] [] False
     (Some (JObj [(''data'', JList [JObj [(''id'', JStr ''w1''), (''name'', JStr ''invoice-intake''), (''active'', JBool True)]])]))
   else Response 404 ''Not Found'' [] False None)"

text \<open>n8n refuses the webhook, and the caller reads that the run was accepted.\<close>

lemma refused_run_reads_accepted:
  "outcome (run_invoice_intake id (n8n_client demo_n8n) (Inr u) (Some ''image/png'') ''x'') =
     Inr (''accepted'', Some ''queued - see the approvals'')"
  by (simp add: run_invoice_intake_def get_meta_def catalog_def trigger_workflow_def require_active_and_reachable_def
      ask_n8n_def n8n_client_def n8n_result_of_def demo_n8n_def listed_workflow_def items_of_def data_of_def
      allowed_image_content_types_def max_invoice_image_bytes_def outcome_eff_bind dict_get_or_def)

lemma catalog_runs_active_workflows_witness:
  "length ''x'' \<le> max_invoice_image_bytes \<and> nr_reachable (n8n_client demo_n8n List_Workflows)"
proof -
  have "Trigger_Webhook ''invoice-intake'' (JObj [(''image_base64'', JStr ''x'')]) \<in>
      set (trace (run_invoice_intake id (n8n_client demo_n8n) (Inr undefined) (Some ''image/png'') ''x''))"
    by (simp add: run_invoice_intake_def get_meta_def catalog_def trigger_workflow_def require_active_and_reachable_def
      ask_n8n_def n8n_client_def n8n_result_of_def demo_n8n_def listed_workflow_def items_of_def data_of_def
      allowed_image_content_types_def max_invoice_image_bytes_def set_trace_eff_bind outcome_eff_bind dict_get_or_def)
  from catalog_runs_active_workflows [OF this] show ?thesis by simp
qed

end
