(* ===== verification/Spec2Isabelle.thy ===== *)
theory Spec2Isabelle
  imports Lane_Rehearsal Eval_Promotion Gateway_Transport Rag_Seed Rest_Backends Trace_Redaction Pricing_Sync Erasure Semantic_Cache Service_Routes Budget_Admin Http_Pipeline Observability Services_Admin Review_Routes
    Conversation_Memory Eval_Cases Queue_Progress Recipe_Routes Workflow_Catalog Approvals Access_Admin Agents_Admin Mcp_Tools Pg_Read_Only Llm_Client Kill_Switch Guardrails Base_Graph Invoice_Agent Dev_Agent Hr_Agent Pii_Scrub
    Vehicle_Intake Listing_Quality Insights_Publisher Analytics Legal_Review Dealer_Onboarding
begin

text \<open>
  Verification of the AI agent fleet platform: a governed model gateway, ten department agents that run as
  graphs with human approval, the tool servers they call, and the API that starts them, decides approvals and
  administers models, agents, users and keys. All paths below are under \<open>src/\<close>.

  \<^bold>\<open>How the parts interact.\<close> A request passes the access checks of the API and starts an agent graph. The
  nodes of a graph ask the model through the gateway client, which refuses a sensitivity no registered model
  is cleared for, checks the budget of every scope and writes one ledger row per call; they use tools, whose
  servers check key, payload and their own fences. A node that wants to act on the outside suspends the graph;
  the run route stores an approval row, and deciding it resumes the saved thread.

  \<^bold>\<open>Theories and sources.\<close>
  \<^item> \<open>Fleet_Prelude\<close>, \<open>Py_Strings\<close>, \<open>Py_Lines\<close>, \<open>Py_Regex\<close>, \<open>Py_Json\<close>, \<open>Json_Loads\<close>, \<open>Json_Dumps\<close>, \<open>Py_Round\<close>, \<open>Py_Base64\<close>,
    \<open>Py_Difflib\<close>, \<open>Web_Client\<close>: exceptions as a datatype and results as sums, traces of external calls (\<open>('c, 'a) eff\<close>),
    tables, and the parts of Python and of its HTTP client the code uses. \<open>json.dumps\<close> is proved to be read back by
    \<open>json.loads\<close>, base64 by its decoder.
  \<^item> \<open>Routing\<close>, \<open>Model_Registry\<close>, \<open>Budget\<close>, \<open>Llm_Client\<close>, \<open>Gateway_Transport\<close>: \<open>apps/runtime/core/llm\<close> and the registry
    half of \<open>apps/api/fleet_api\<close> (\<open>registry.py\<close>, \<open>registry_probe.py\<close>, \<open>routers/models_admin.py\<close>).
  \<^item> \<open>Kill_Switch\<close>, \<open>Guardrails\<close>, \<open>Graph_Engine\<close>, \<open>Base_Graph\<close>, \<open>Pii_Scrub\<close>, \<open>Semantic_Cache\<close>, \<open>Conversation_Memory\<close>,
    \<open>Trace_Redaction\<close> (\<open>langfuse_client.py\<close>): the rest of \<open>apps/runtime/core\<close>. \<open>Graph_Engine\<close> is LangGraph's documented
    behaviour with fuel, and the interfaces every graph is proved against: acyclic graphs finish, facts kept along the
    edges, calls that are never made.
  \<^item> \<open>Agent_Common\<close> and one theory per agent (\<open>Invoice_Agent\<close>, \<open>Dev_Agent\<close>, \<open>Hr_Agent\<close>, \<open>Vehicle_Intake\<close>,
    \<open>Listing_Quality\<close>, \<open>Insights_Publisher\<close>, \<open>Analytics\<close>, \<open>Legal_Review\<close>, \<open>Dealer_Onboarding\<close>): \<open>apps/runtime/agents\<close>.
    One equation of \<open>X_exec\<close> per node, one of \<open>X_route\<close> per outgoing edge.
  \<^item> \<open>Mcp_Base\<close>, \<open>Mcp_Tools\<close>, \<open>Pg_Read_Only\<close>, \<open>Rest_Backends\<close>: \<open>apps/mcp/fleet_mcp\<close>; the effects of the tools are the
    lists of an \<open>office\<close> record, those of the GitHub and Jira backends the requests they send.
  \<^item> \<open>Rag_Chunk\<close>, \<open>Rag_Ingest\<close>, \<open>Rag_Query\<close>, \<open>Rag_Documents\<close>, \<open>Rag_Seed\<close>: \<open>apps/rag/fleet_rag\<close> with the collection and
    document routes; the knowledge tables are the record \<open>rag_db\<close>.
  \<^item> \<open>Access\<close>, \<open>Access_Admin\<close>, \<open>Agents_Admin\<close>, \<open>Budget_Admin\<close>, \<open>Services_Admin\<close>, \<open>Observability\<close>: identity, roles, keys,
    budgets, the agent registry, service health, cost and audit views of \<open>apps/api/fleet_api\<close>; each route is a function
    of the tables, reachability an inductive predicate.
  \<^item> \<open>Agent_Runs\<close>, \<open>Approvals\<close>, \<open>Queue_Progress\<close>, \<open>Review_Routes\<close>: the run routes, the approval queue and the histories of
    requests over them.
  \<^item> \<open>Chat\<close>, \<open>Erasure\<close> (\<open>routers/subjects.py\<close>, \<open>audit.py\<close>), \<open>Service_Routes\<close>, \<open>Http_Pipeline\<close> (\<open>middleware.py\<close>, \<open>errors.py\<close>,
    \<open>app.py\<close>): conversations, the right to erasure, the routes of automations, and the middlewares around every request.
  \<^item> \<open>Recipe_Schema\<close>, \<open>Recipe_Compiler\<close>, \<open>N8n_Client\<close>, \<open>Recipe_Routes\<close>, \<open>Workflow_Catalog\<close>: automation recipes, their
    compilation to n8n workflows and the routes that run them.
  \<^item> \<open>Eval_Cases\<close>, \<open>Eval_Promotion\<close>, \<open>Eval_Scoring\<close>, \<open>Eval_Runs\<close>, \<open>Lane_Rehearsal\<close>: the examples gallery, \<open>evals/promote.py\<close>,
    \<open>evals/runner.py\<close> (a case goes through the same graph definitions as a request) and \<open>evals/local_lane_rehearsal.py\<close>.
  \<^item> \<open>Seed_Data\<close>, \<open>Pricing_Sync\<close>: \<open>apps/api/fleet_api/seed.py\<close> and \<open>gateway/litellm/pricing_sync.py\<close>.

  \<^bold>\<open>What the lemmas show.\<close> Per component: an invariant every operation keeps, the behaviour on every branch, the
  error behaviour that matters. Across components: PII text only reaches local models, a hard budget stops every call
  site, every completed call is metered once, whether streamed or not, a pause silences a gated agent within the cache
  time, no history of requests makes more outgoing calls than it has approvals, and no evaluation makes one at all; what
  is ingested is embedded by the model that embeds the queries on it, and an erasure leaves nothing of its subject. A few
  lemmas record where the code does less than its comments say.

  \<^bold>\<open>Interfaces.\<close> The locales state what a client relies on (acyclic graphs, the store of a key-value service, an n8n
  result, a part of the seeding that settles and stays settled); each is interpreted on the definitions that provide it.

  \<^bold>\<open>Bounds and fuel.\<close> A graph runs with as many steps as it has nodes; the ranks of \<open>acyclic_graph\<close> show that this is
  enough and that more fuel changes nothing. Regular expressions are matched by structural recursion on the
  expression, repetition with the length of the text as fuel; \<open>json.loads\<close> has twice the length of its text, which
  \<open>Json_Dumps\<close> shows to be enough for every dumped value. The redactor reads a trace at most three times, as the code does.

  \<^bold>\<open>Parameters.\<close> The model gateway, the SQL parser (sqlglot), JWT decoding, SHA-256, Redis (with its GET and SET
  law), LangGraph's checkpoint store, Qdrant, the object store, the file parsers and OCR, n8n, Langfuse, GitHub and Jira,
  the model replies and the tools' backends are arguments. Nothing is assumed of a model reply. A \<open>char\<close> has a code point
  below 256; what the code does to other characters (Turkish dotless i, dashes) is said where it matters.

  \<^bold>\<open>Not modelled.\<close> Migrations (DDL), process wiring (settings, database engine, telemetry, logging), the thin wrappers of
  the SMTP, MinIO and asyncpg libraries, the drawing of test images and the web frontend: input and output without logic
  of its own. Of the evaluation harness the field-by-field reading of a dataset row and the printing, of the seed data the
  view of purchase orders.
\<close>

section \<open>The governed gateway call\<close>

lemma clearance_names:
  "parse_sensitivity (Name ''public'') = Inr PUBLIC" "parse_sensitivity (Name ''internal'') = Inr INTERNAL"
  "parse_sensitivity (Name ''confidential'') = Inr CONFIDENTIAL" "parse_sensitivity (Name ''pii'') = Inr PII"
  by code_simp+

lemma pii_clearance_name:
  "c \<in> set clearances \<Longrightarrow> parse_sensitivity (Name c) = Inr l \<Longrightarrow> PII \<le> l \<Longrightarrow> c = ''pii''"
  unfolding clearances_def by (auto simp: clearance_names less_eq_sensitivity_def simp del: parse_sensitivity.simps)

lemma selected_pii_row:
  assumes "registry_reachable t" "select_model (load_active_models t) role (Level PII) redacted = Inr m"
  shows "\<exists>r \<in> set (mt_rows t). m_name m = d_name (r_draft r) \<and> d_clearance (r_draft r) = ''pii''
     \<and> is_local (r_draft r)"
proof -
  from assms(2) have m: "m \<in> set (load_active_models t)" "eligible role PII m = Inr True"
    by (auto elim!: select_model_eligible simp: effective_sensitivity_single)
  from m(1) obtain r where r: "r \<in> set (mt_rows t)" "m_name m = d_name (r_draft r)"
    "m_clearance m = Some (d_clearance (r_draft r))"
    by (rule load_active_modelsD)
  have wf: "row_wf r" using registry_reachable_wf [OF assms(1)] r(1) by (simp add: table_wf_def)
  with m(2) r(3) have "d_clearance (r_draft r) = ''pii''"
    by (auto simp: eligible_True_iff clearance_of_def row_wf_def dest: pii_clearance_name)
  with wf r(1,2) show ?thesis by (auto simp: row_wf_def)
qed

text \<open>The three call sites are one governed call with a last step that contacts the chosen row.\<close>

lemmas call_sites = client_call_def client_embeddings_def client_reasoning_stream_def

definition site_trace :: "client \<Rightarrow> llm_event \<Rightarrow> sens_arg \<Rightarrow> bool \<Rightarrow> call_meta \<Rightarrow> bool" where
  "site_trace c e sens redacted meta \<longleftrightarrow>
     (\<exists>role ms. e \<in> set (trace (client_call c role ms sens redacted meta)))
     \<or> (\<exists>ts. e \<in> set (trace (client_embeddings c ts sens redacted meta)))
     \<or> (\<exists>ms. e \<in> set (trace (client_reasoning_stream c ms sens redacted meta)))"

lemma site_trace_transport:
  assumes "site_trace c e sens redacted meta" "is_transport e"
  obtains role m where "select_model (c_models c) role sens redacted = Inr m" "budget_ok c meta"
    "target e = Some (m_name m)"
  using assms that
  by (auto simp: site_trace_def call_sites elim!: governed_transport
      dest: complete_and_record_target embed_and_record_target stream_and_record_target)

text \<open>
  Property C1: PII never leaves the local lane: whatever rows the admin routes have built, a request
  of sensitivity PII (chat, stream or embedding; redacted or not) is only ever sent to a registry row
  that is cleared for PII and runs on a local provider.
\<close>

theorem pii_stays_on_local_lane:
  assumes "registry_reachable t" "c_models c = load_active_models t"
    and "site_trace c e (Level PII) redacted meta" "is_transport e"
  shows "\<exists>r \<in> set (mt_rows t). target e = Some (d_name (r_draft r))
     \<and> d_clearance (r_draft r) = ''pii'' \<and> is_local (r_draft r)"
proof -
  from assms(3,4) obtain role m where "select_model (c_models c) role (Level PII) redacted = Inr m"
    and "target e = Some (m_name m)" by (rule site_trace_transport)
  with selected_pii_row [OF assms(1)] assms(2) show ?thesis by auto
qed

definition demo_draft :: model_draft where
  "demo_draft = \<lparr>d_name = ''reasoning-local'', d_provider = ''vLLM'', d_litellm_model_id = ''vllm/q'', d_input_price = 1,
     d_output_price = 2, d_context_window = 1000, d_capabilities = [], d_max_output_tokens = 10, d_clearance = ''pii'',
     d_endpoint = None, d_cached_input_price = None, d_region = None\<rparr>"

definition demo_row :: registry_row where
  "demo_row = \<lparr>r_id = 1, r_draft = demo_draft, r_status = ''active'', r_smoke_status = ''ok'',
     r_smoke_detail = Some ''ok'', r_smoke_latency_ms = Some 5\<rparr>"

definition demo_table :: model_table where
  "demo_table = \<lparr>mt_rows = [demo_row], mt_next = 2\<rparr>"

definition demo_client :: client where
  "demo_client = \<lparr>c_models = load_active_models demo_table,
     c_transport = \<lparr>t_complete = (\<lambda>_ _ _. Inr \<lparr>cb_model = None,
         cb_usage = Some \<lparr>ub_prompt = Some 1000, ub_completion = Some 500, ub_cached = None\<rparr>, cb_choices = [Some ''hi'']\<rparr>),
       t_embed = (\<lambda>_ _ _. Inl (GatewayError [])), t_stream = (\<lambda>_ _ _. Inl (GatewayError []))\<rparr>,
     c_record = (\<lambda>_. Inr ()), c_budget = None\<rparr>"

definition demo_meta :: call_meta where
  "demo_meta = \<lparr>cm_dept_id = None, cm_agent_id = Some ''a'', cm_user_id = None, cm_trace_id = None\<rparr>"

lemma demo_table_reachable: "registry_reachable demo_table"
proof -
  have "add_model \<lparr>mt_rows = [], mt_next = 1\<rparr> demo_draft (Reply 200 [] 5 (Some [True])) = Inr (demo_row, demo_table)"
    by code_simp
  from registry_reachable.add [OF registry_reachable.empty this] show ?thesis .
qed

lemma pii_stays_on_local_lane_witness:
  "\<exists>r \<in> set (mt_rows demo_table). target (Complete ''reasoning-local'' [] demo_meta) = Some (d_name (r_draft r))
     \<and> d_clearance (r_draft r) = ''pii'' \<and> is_local (r_draft r)"
proof (rule pii_stays_on_local_lane [OF demo_table_reachable, of demo_client])
  show "c_models demo_client = load_active_models demo_table" by (simp add: demo_client_def)
  have "trace (client_call demo_client ''reasoning'' [] (Level PII) False demo_meta)
    = [Complete ''reasoning-local'' [] demo_meta, Record (spend_row ''reasoning-local'' demo_meta \<lparr>tok_in = 1000, tok_out = 500, tok_cached = 0\<rparr> 2)]"
    by code_simp
  then show "site_trace demo_client (Complete ''reasoning-local'' [] demo_meta) (Level PII) False demo_meta"
    unfolding site_trace_def by (metis list.set_intros(1))
qed simp

text \<open>
  Property C6: a hard budget stops every call before anything leaves the process: when one scope of
  the call (global, department, agent or user) has a budget row whose limit the recorded spend of the
  current period has reached, none of the three call sites contacts the gateway or writes a ledger row.
\<close>

theorem hard_budget_stops_calls:
  assumes "c_budget c = Some (db_budget_checker db now)"
    and "(st, sid) \<in> set (scopes_of meta)" "budget_for db st sid = Some b"
    and "b_limit_usd b \<le> spent_since db (period_start (b_period b) now) (charged_to st sid)"
  shows "\<not> (site_trace c e sens redacted meta \<and> (is_transport e \<or> is_record e))"
proof -
  from db_budget_checker_blocks [OF assms(2-4)] assms(1) have "\<not> budget_ok c meta"
    by (auto simp: budget_ok_def)
  then show ?thesis
    by (auto simp: site_trace_def call_sites elim!: governed_transport)
qed

definition demo_spend :: spend_db where
  "demo_spend = \<lparr>sd_budgets = [\<lparr>b_scope_type = ''agent'', b_scope_id = Some ''a'', b_period = ''daily'', b_limit_usd = 2, b_soft_pct = 80\<rparr>],
     sd_ledger = [((2025, 5, 3, 9, 0, 0, 0), spend_row ''m'' demo_meta \<lparr>tok_in = 1000, tok_out = 500, tok_cached = 0\<rparr> 2)]\<rparr>"

lemma hard_budget_stops_calls_witness:
  "\<not> (site_trace (demo_client\<lparr>c_budget := Some (db_budget_checker demo_spend (2025, 5, 3, 10, 0, 0, 0))\<rparr>)
        (Complete ''reasoning-local'' [] demo_meta) (Level PUBLIC) False demo_meta
      \<and> (is_transport (Complete ''reasoning-local'' [] demo_meta) \<or> is_record (Complete ''reasoning-local'' [] demo_meta)))"
proof (rule hard_budget_stops_calls [where st = "''agent''" and sid = "Some ''a''"])
  show "(''agent'', Some ''a'') \<in> set (scopes_of demo_meta)" by code_simp
  show "budget_for demo_spend ''agent'' (Some ''a'') = Some \<lparr>b_scope_type = ''agent'', b_scope_id = Some ''a'', b_period = ''daily'', b_limit_usd = 2, b_soft_pct = 80\<rparr>"
    by code_simp
  show "b_limit_usd \<lparr>b_scope_type = ''agent'', b_scope_id = Some ''a'', b_period = ''daily'', b_limit_usd = 2, b_soft_pct = 80\<rparr>
    \<le> spent_since demo_spend (period_start (b_period \<lparr>b_scope_type = ''agent'', b_scope_id = Some ''a'', b_period = ''daily'', b_limit_usd = 2, b_soft_pct = 80\<rparr>) (2025, 5, 3, 10, 0, 0, 0))
        (charged_to ''agent'' (Some ''a''))"
    by code_simp
qed simp





end
